(* ===== verification/Prelude.thy ===== *)
theory Prelude
  imports Main "HOL-Library.Word" "HOL-Library.Monad_Syntax"
begin

text \<open>
  Shared vocabulary of the development: the C integer types as machine words, byte
  order (x86 is little endian, the TPM is big endian), the flat physical memory that
  the loader sees through its identity map, and the generic lemmas on lists, bytes and
  memory that the component theories share.
\<close>

unbundle bit_operations_syntax

section \<open>Integer types\<close>

type_synonym u8 = "8 word"
type_synonym u16 = "16 word"
type_synonym u32 = "32 word"
type_synonym u64 = "64 word"
type_synonym addr = nat

named_theorems mem_simps \<open>reading back what was written to memory\<close>
named_theorems frame \<open>what an operation leaves unchanged\<close>

section \<open>Faults\<close>

text \<open>
  The accesses that are undefined in C and fatal on the machine are values of the
  model: dereferencing a NULL pointer, storing outside an array, calling through a
  function pointer that was never set.
\<close>

datatype fault = Null_Deref | Out_Of_Bounds | Bad_Function_Pointer

text \<open>Passing a fault on: when does the continuation return normally.\<close>

lemma fault_case_Some [simp]:
  "(case x of Inl e \<Rightarrow> Some (Inl e) | Inr y \<Rightarrow> f y) = Some (Inr z)
     \<longleftrightarrow> (\<exists>y. x = Inr y \<and> f y = Some (Inr z))"
  by (cases x) simp_all

lemma fault_case [simp]:
  "(case x of Inl e \<Rightarrow> Inl e | Inr y \<Rightarrow> f y) = Inr z \<longleftrightarrow> (\<exists>y. x = Inr y \<and> f y = Inr z)"
  by (cases x) simp_all

section \<open>Bytes and byte order\<close>

definition le_bytes :: "nat \<Rightarrow> 'a::len word \<Rightarrow> u8 list" where
  "le_bytes n x = map (\<lambda>i. ucast (drop_bit (8 * i) x)) [0..<n]"

definition of_le :: "u8 list \<Rightarrow> 'a::len word" where
  "of_le bs = foldr (\<lambda>b acc. ucast b OR push_bit 8 acc) bs 0"

definition be_bytes :: "nat \<Rightarrow> 'a::len word \<Rightarrow> u8 list" where
  "be_bytes n x = rev (le_bytes n x)"

definition of_be :: "u8 list \<Rightarrow> 'a::len word" where
  "of_be bs = of_le (rev bs)"

definition bswap16 :: "u16 \<Rightarrow> u16" where
  "bswap16 x = of_le (rev (le_bytes 2 x))"

definition bswap32 :: "u32 \<Rightarrow> u32" where
  "bswap32 x = of_le (rev (le_bytes 4 x))"

definition bswap64 :: "u64 \<Rightarrow> u64" where
  "bswap64 x = of_le (rev (le_bytes 8 x))"

lemma length_le_bytes [simp]: "length (le_bytes n x) = n"
  by (simp add: le_bytes_def)

lemma length_be_bytes [simp]: "length (be_bytes n x) = n"
  by (simp add: be_bytes_def)

lemma le_bytes_eq_Nil [simp]: "le_bytes n x = [] \<longleftrightarrow> n = 0"
  by (metis length_0_conv length_le_bytes)

lemma of_le_Nil [simp]: "of_le [] = 0"
  by (simp add: of_le_def)

lemma of_le_Cons: "of_le (b # bs) = ucast b OR push_bit 8 (of_le bs)"
  by (simp add: of_le_def)

lemma bit_of_le:
  "bit (of_le bs :: 'a::len word) i \<longleftrightarrow>
     i < LENGTH('a) \<and> i div 8 < length bs \<and> bit (bs ! (i div 8)) (i mod 8)"
proof (induction bs arbitrary: i)
  case Nil
  then show ?case by simp
next
  case (Cons b bs)
  show ?case
  proof (cases "i < 8")
    case True
    then show ?thesis
      by (auto simp: of_le_Cons bit_simps dest: bit_imp_le_length)
  next
    case False
    then obtain j where i: "i = j + 8" by (metis add.commute le_Suc_ex not_less)
    then have "i div 8 = Suc (j div 8)" and "i mod 8 = j mod 8" by simp_all
    moreover have "\<not> bit b i" using False by (auto dest: bit_imp_le_length)
    ultimately show ?thesis
      using Cons.IH [of j] i by (auto simp: of_le_Cons bit_push_bit_iff bit_or_iff bit_ucast_iff)
  qed
qed

lemma of_le_le_bytes:
  assumes "LENGTH('a) \<le> 8 * n"
  shows "of_le (le_bytes n (x :: 'a::len word)) = x"
proof (rule bit_word_eqI)
  fix i assume "i < LENGTH('a)"
  moreover from this assms have "i div 8 < n" by simp
  ultimately show "bit (of_le (le_bytes n x) :: 'a word) i \<longleftrightarrow> bit x i"
    by (simp add: bit_of_le le_bytes_def bit_simps)
qed

lemma le_bytes_of_le:
  assumes "length bs = n" "8 * n \<le> LENGTH('a)"
  shows "le_bytes n (of_le bs :: 'a::len word) = bs"
proof (rule nth_equalityI)
  show "length (le_bytes n (of_le bs :: 'a word)) = length bs" using assms by simp
  fix i assume "i < length (le_bytes n (of_le bs :: 'a word))"
  then have i: "i < n" by simp
  show "le_bytes n (of_le bs :: 'a word) ! i = bs ! i"
  proof (rule bit_word_eqI)
    fix j assume j: "j < LENGTH(8)"
    with i assms have "8 * i + j < LENGTH('a)" by simp
    moreover from j have "(8 * i + j) div 8 = i" "(8 * i + j) mod 8 = j" by simp_all
    ultimately show "bit (le_bytes n (of_le bs :: 'a word) ! i) j \<longleftrightarrow> bit (bs ! i) j"
      using i j assms by (simp add: le_bytes_def bit_simps bit_of_le add.commute)
  qed
qed

lemma of_be_be_bytes:
  "LENGTH('a) \<le> 8 * n \<Longrightarrow> of_be (be_bytes n (x :: 'a::len word)) = x"
  by (simp add: of_be_def be_bytes_def of_le_le_bytes)

lemma le_bytes_bswap16 [simp]: "le_bytes 2 (bswap16 x) = be_bytes 2 x"
  by (simp add: bswap16_def be_bytes_def le_bytes_of_le)

lemma le_bytes_bswap32 [simp]: "le_bytes 4 (bswap32 x) = be_bytes 4 x"
  by (simp add: bswap32_def be_bytes_def le_bytes_of_le)

lemma le_bytes_bswap64 [simp]: "le_bytes 8 (bswap64 x) = be_bytes 8 x"
  by (simp add: bswap64_def be_bytes_def le_bytes_of_le)

lemma bswap32_of_le: "length bs = 4 \<Longrightarrow> bswap32 (of_le bs) = of_be bs"
  by (simp add: bswap32_def of_be_def le_bytes_of_le)

lemma bswap16_bswap16 [simp]: "bswap16 (bswap16 x) = x"
  by (simp add: bswap16_def le_bytes_of_le of_le_le_bytes)

lemma bswap32_bswap32 [simp]: "bswap32 (bswap32 x) = x"
  by (simp add: bswap32_def le_bytes_of_le of_le_le_bytes)

lemma and_mask6: "unat ((c :: u32) AND 0x3f) = unat c mod 64"
proof -
  have "c AND 0x3f = take_bit 6 c" by (simp add: take_bit_eq_mask mask_eq_exp_minus_1)
  then have "unat (c AND 0x3f) = take_bit 6 (unat c)" by (simp add: unsigned_take_bit_eq)
  then show ?thesis by (simp add: take_bit_eq_mod)
qed

lemma unat_of_nat_small: "n < 2 ^ LENGTH('a) \<Longrightarrow> unat (of_nat n :: 'a::len word) = n"
  by (simp add: unsigned_of_nat take_bit_nat_eq_self)

section \<open>Rotations of 32-bit words\<close>

lemma shifts_rotl32:
  assumes "0 < n" "n < 32"
  shows "push_bit n x OR drop_bit (32 - n) x = word_rotl n (x :: u32)"
proof (rule bit_word_eqI)
  fix i assume i: "i < LENGTH(32)"
  have idx: "(i + 32 - n) mod 32 = (if n \<le> i then i - n else i + 32 - n)"
  proof (cases "n \<le> i")
    case True
    then have "i + 32 - n = (i - n) + 32" by simp
    then have "(i + 32 - n) mod 32 = (i - n) mod 32" by (simp only: mod_add_self2)
    with True i show ?thesis by simp
  next
    case False
    with assms i show ?thesis by simp
  qed
  have "bit (word_rotl n x) i \<longleftrightarrow> bit x (if n \<le> i then i - n else 32 + i - n)"
    using assms i by (simp add: bit_word_rotl_iff idx add.commute [of 32 i] del: if_split)
  then show "bit (push_bit n x OR drop_bit (32 - n) x) i \<longleftrightarrow> bit (word_rotl n x) i"
    using assms i by (auto simp: bit_or_iff bit_push_bit_iff bit_drop_bit_eq
      dest: bit_imp_le_length)
qed

lemma shifts_rotr32:
  assumes "0 < n" "n < 32"
  shows "drop_bit n x OR push_bit (32 - n) x = word_rotr n (x :: u32)"
proof (rule bit_word_eqI)
  fix i assume i: "i < LENGTH(32)"
  have idx: "(i + n) mod 32 = (if i + n < 32 then i + n else i - (32 - n))"
    using assms i by (auto simp: mod_if)
  show "bit (drop_bit n x OR push_bit (32 - n) x) i \<longleftrightarrow> bit (word_rotr n x) i"
    using assms i by (auto simp: bit_simps idx add.commute dest: bit_imp_le_length)
qed

section \<open>Lists\<close>

text \<open>Overwriting part of an array, as \<^verbatim>\<open>memcpy\<close> or \<^verbatim>\<open>memset\<close> into a buffer does.\<close>

definition overwrite :: "nat \<Rightarrow> 'a list \<Rightarrow> 'a list \<Rightarrow> 'a list" where
  "overwrite off ys xs = take off xs @ ys @ drop (off + length ys) xs"

lemma length_overwrite [simp]:
  "off + length ys \<le> length xs \<Longrightarrow> length (overwrite off ys xs) = length xs"
  by (simp add: overwrite_def)

lemma overwrite_Nil [simp]: "overwrite off [] xs = xs"
  by (simp add: overwrite_def)

lemma fold_append_upt:
  "i \<le> j \<Longrightarrow> j \<le> k \<Longrightarrow> fold f [i..<k] s = fold f [j..<k] (fold f [i..<j] s)"
  by (metis comp_apply fold_append le_Suc_ex upt_add_eq_append)

section \<open>Physical memory\<close>

text \<open>
  Addresses are natural numbers. The loader runs on an identity map of the first 4 GB;
  every pointer it forms is a 32-bit value, or a short walk from one, so 64-bit pointer
  arithmetic never wraps. Where the code adds 32-bit integers before it makes a pointer
  of the sum, the addition is done on \<^typ>\<open>u32\<close> and does wrap.
\<close>

type_synonym mem = "addr \<Rightarrow> u8"

definition mem_read :: "mem \<Rightarrow> addr \<Rightarrow> nat \<Rightarrow> u8 list" where
  "mem_read m a n = map m [a..<a + n]"

definition mem_write :: "mem \<Rightarrow> addr \<Rightarrow> u8 list \<Rightarrow> mem" where
  "mem_write m a bs = (\<lambda>x. if a \<le> x \<and> x < a + length bs then bs ! (x - a) else m x)"

definition load16 :: "mem \<Rightarrow> addr \<Rightarrow> u16" where
  "load16 m a = of_le (mem_read m a 2)"

definition load32 :: "mem \<Rightarrow> addr \<Rightarrow> u32" where
  "load32 m a = of_le (mem_read m a 4)"

definition store32 :: "mem \<Rightarrow> addr \<Rightarrow> u32 \<Rightarrow> mem" where
  "store32 m a v = mem_write m a (le_bytes 4 v)"

lemma length_mem_read [simp]: "length (mem_read m a n) = n"
  by (simp add: mem_read_def)

lemma mem_read_0 [simp]: "mem_read m a 0 = []"
  by (simp add: mem_read_def)

lemma mem_read_nth [simp]: "i < n \<Longrightarrow> mem_read m a n ! i = m (a + i)"
  by (simp add: mem_read_def)

lemma mem_read_add: "mem_read m a (n + k) = mem_read m a n @ mem_read m (a + n) k"
  unfolding mem_read_def map_append [symmetric]
  by (metis add.assoc le_add1 upt_add_eq_append)

lemma mem_write_Nil [simp]: "mem_write m a [] = m"
  by (rule ext) (auto simp: mem_write_def)

lemma mem_write_out [mem_simps]: "x < a \<or> a + length bs \<le> x \<Longrightarrow> mem_write m a bs x = m x"
  by (auto simp: mem_write_def)

lemma mem_write_in: "i < length bs \<Longrightarrow> mem_write m a bs (a + i) = bs ! i"
  by (simp add: mem_write_def)

lemma mem_read_write_same [mem_simps]:
  "length bs = n \<Longrightarrow> mem_read (mem_write m a bs) a n = bs"
  by (rule nth_equalityI) (simp_all add: mem_write_def)

lemma mem_read_cong:
  "(\<And>i. i < n \<Longrightarrow> m (a + i) = m' (a + i)) \<Longrightarrow> mem_read m a n = mem_read m' a n"
  by (rule nth_equalityI) simp_all

lemma mem_read_write_disj [mem_simps]:
  "a + n \<le> b \<or> b + length bs \<le> a \<Longrightarrow> mem_read (mem_write m b bs) a n = mem_read m a n"
  by (rule mem_read_cong) (auto simp: mem_write_def)

lemma mem_write_append:
  "mem_write (mem_write m a xs) (a + length xs) ys = mem_write m a (xs @ ys)"
  by (rule ext) (auto simp: mem_write_def nth_append)

lemma mem_read_sub:
  "i + k \<le> n \<Longrightarrow> mem_read m (a + i) k = take k (drop i (mem_read m a n))"
  by (rule nth_equalityI) (simp_all add: add.assoc)

lemma mem_read_overwrite:
  "i + length ys \<le> n \<Longrightarrow>
     mem_read (mem_write m (a + i) ys) a n = overwrite i ys (mem_read m a n)"
  by (rule nth_equalityI)
     (auto simp: overwrite_def mem_write_def nth_append min_def)

lemma mem_read_write_part:
  "i + n \<le> length bs \<Longrightarrow> mem_read (mem_write m a bs) (a + i) n = take n (drop i bs)"
  by (rule nth_equalityI) (simp_all add: mem_write_def)

lemma mem_read_cut: "k \<le> n \<Longrightarrow> mem_read m a n = mem_read m a k @ mem_read m (a + k) (n - k)"
  using mem_read_add [of m a k "n - k"] by simp

lemma load32_store32 [mem_simps]: "load32 (store32 m a v) a = v"
  by (simp add: load32_def store32_def mem_read_write_same of_le_le_bytes)

text \<open>The bytes of a string literal, without the NUL.\<close>

definition ascii :: "string \<Rightarrow> u8 list" where
  "ascii s = map of_char s"

lemma length_ascii [simp]: "length (ascii s) = length s"
  by (simp add: ascii_def)

end
