(* ===== verification/Hash_Common.thy ===== *)
theory Hash_Common
  imports Prelude
begin

text \<open>
  What the two hash files \<^verbatim>\<open>sha1sum.c\<close> and \<^verbatim>\<open>sha256.c\<close> share: the padding and the
  block chaining of the FIPS 180-4 standard as a reference, and the contract of a
  context-based implementation (a block loop, a partial buffer, a final padding step),
  from which the equality with the reference is proved once.
\<close>

section \<open>Reference: padding and chaining\<close>

text \<open>
  A message of \<open>n\<close> bytes is followed by \<open>0x80\<close>, the least number of zero bytes that
  leaves eight bytes of the last 64-byte block free, and its length in bits, big endian.
\<close>

definition md_pad :: "u8 list \<Rightarrow> u8 list" where
  "md_pad msg = msg @ [0x80] @ replicate ((119 - length msg mod 64) mod 64) 0
     @ be_bytes 8 (of_nat (8 * length msg) :: u64)"

function md_fold :: "('h \<Rightarrow> u8 list \<Rightarrow> 'h) \<Rightarrow> 'h \<Rightarrow> u8 list \<Rightarrow> 'h" where
  "md_fold f h bs =
     (if length bs < 64 then h else md_fold f (f h (take 64 bs)) (drop 64 bs))"
  by pat_completeness auto
termination
  by (relation "measure (\<lambda>(f, h, bs). length bs)") auto

declare md_fold.simps [simp del]

lemma md_fold_short: "length bs < 64 \<Longrightarrow> md_fold f h bs = h"
  by (subst md_fold.simps) simp

lemma md_fold_long:
  "64 \<le> length bs \<Longrightarrow> md_fold f h bs = md_fold f (f h (take 64 bs)) (drop 64 bs)"
  by (subst md_fold.simps) simp

lemma md_fold_block: "length b = 64 \<Longrightarrow> md_fold f h (b @ bs) = md_fold f (f h b) bs"
  by (subst md_fold.simps) simp

lemma md_fold_one: "length b = 64 \<Longrightarrow> md_fold f h b = f h b"
  using md_fold_block [of b f h "[]"] by (simp add: md_fold_short)

lemma md_fold_two:
  "length b = 64 \<Longrightarrow> length b' = 64 \<Longrightarrow> md_fold f h (b @ b') = f (f h b) b'"
  by (simp add: md_fold_block md_fold_one)

lemma md_fold_append:
  "length a mod 64 = 0 \<Longrightarrow> md_fold f h (a @ b) = md_fold f (md_fold f h a) b"
proof (induction f h a rule: md_fold.induct)
  case (1 f h a)
  show ?case
  proof (cases "length a < 64")
    case True
    with 1(2) have "a = []" by simp
    then show ?thesis by (simp add: md_fold_short)
  next
    case False
    then have "length (drop 64 a) mod 64 = 0" using 1(2) by (simp add: le_mod_geq)
    with False 1(1) have "md_fold f (f h (take 64 a)) (drop 64 a @ b)
        = md_fold f (md_fold f (f h (take 64 a)) (drop 64 a)) b" by blast
    with False show ?thesis by (simp add: md_fold_long)
  qed
qed

text \<open>A padded message is the whole blocks of the message and one or two more.\<close>

definition md_tail :: "nat \<Rightarrow> u8 list \<Rightarrow> u8 list" where
  "md_tail n part = part @ [0x80] @ replicate ((119 - length part) mod 64) 0
     @ be_bytes 8 (of_nat (8 * n) :: u64)"

lemma md_pad_split:
  "md_pad msg = take (length msg div 64 * 64) msg
     @ md_tail (length msg) (drop (length msg div 64 * 64) msg)"
proof -
  have "length (drop (length msg div 64 * 64) msg) = length msg mod 64"
    by (simp add: minus_div_mult_eq_mod)
  then show ?thesis by (simp add: md_pad_def md_tail_def)
qed

section \<open>The padded buffer\<close>

text \<open>What the buffer of a context holds after the stores of the final step.\<close>

lemma pad_mark:
  assumes "length b = 64" "p < 64"
  shows "take (Suc p) (b[p := v]) = take p b @ [v]"
  using assms by (simp add: take_Suc_conv_app_nth)

lemma pad_short:
  assumes b: "length b = 64" and p: "p < 56" and z: "length z = 8"
  shows "overwrite 56 z (overwrite (Suc p) (replicate (55 - p) v0) (b[p := v]))
     = take p b @ [v] @ replicate (55 - p) v0 @ z"
proof -
  have "overwrite (Suc p) (replicate (55 - p) v0) (b[p := v])
      = (take p b @ [v] @ replicate (55 - p) v0) @ drop 56 b"
    using b p by (simp only: overwrite_def) (simp add: pad_mark)
  moreover have "length (take p b @ [v] @ replicate (55 - p) v0) = 56" using b p by simp
  ultimately show ?thesis using b z by (simp only: overwrite_def take_append drop_append) simp
qed

lemma pad_long:
  assumes "length b = 64" "p < 64"
  shows "overwrite (Suc p) (replicate (63 - p) v0) (b[p := v]) = take p b @ [v] @ replicate (63 - p) v0"
  using assms by (simp only: overwrite_def) (simp add: pad_mark)

lemma pad_second:
  assumes "length b = 64" "length z = 8"
  shows "overwrite 56 z (overwrite 0 (replicate 56 v0) b) = replicate 56 v0 @ z"
  using assms by (simp add: overwrite_def)

section \<open>A circular message schedule\<close>

text \<open>
  Both transforms keep the last sixteen schedule words in a 16-entry array, entry
  \<open>j mod 16\<close> holding word \<open>j\<close>.
\<close>

definition circ :: "(nat \<Rightarrow> u32) \<Rightarrow> nat \<Rightarrow> u32 list \<Rightarrow> bool" where
  "circ W i x \<longleftrightarrow> 16 \<le> i \<and> length x = 16 \<and> (\<forall>j. i - 16 \<le> j \<and> j < i \<longrightarrow> x ! (j mod 16) = W j)"

lemma circ_nth: "circ W i x \<Longrightarrow> 0 < k \<Longrightarrow> k \<le> 16 \<Longrightarrow> x ! ((i - k) mod 16) = W (i - k)"
  by (simp add: circ_def)

lemma circ_oldest: "circ W i x \<Longrightarrow> x ! (i mod 16) = W (i - 16)"
  using circ_nth [of W i x 16] by (simp add: circ_def le_mod_geq)

lemma circ_start: "length x = 16 \<Longrightarrow> (\<And>j. j < 16 \<Longrightarrow> x ! j = W j) \<Longrightarrow> circ W 16 x"
  by (simp add: circ_def)

lemma mod16_distinct:
  assumes "j < i" "i - j < (16 :: nat)"
  shows "j mod 16 \<noteq> i mod 16"
proof
  assume "j mod 16 = i mod 16"
  then have "16 dvd i - j" using assms by (metis less_imp_le mod_eq_dvd_iff_nat)
  with assms show False by (simp add: nat_dvd_not_less)
qed

lemma circ_step:
  assumes c: "circ W i x"
  shows "circ W (Suc i) (x[i mod 16 := W i])"
proof -
  have "x[i mod 16 := W i] ! (j mod 16) = W j" if "Suc i - 16 \<le> j" "j < Suc i" for j
  proof (cases "j = i")
    case True
    then show ?thesis using c by (simp add: circ_def)
  next
    case False
    with that have "j mod 16 \<noteq> i mod 16" by (intro mod16_distinct) auto
    with False that c show ?thesis by (simp add: circ_def)
  qed
  with c show ?thesis by (simp add: circ_def)
qed

text \<open>The index expression \<^verbatim>\<open>(i - k) & 15\<close> of the blend functions.\<close>

lemma and15_index: "k \<le> i \<Longrightarrow> nat ((int i - int k) AND 15) = (i - k) mod 16"
proof -
  assume "k \<le> i"
  have "(int i - int k) AND 15 = take_bit 4 (int i - int k)"
    by (simp add: take_bit_eq_mask mask_eq_exp_minus_1)
  also have "\<dots> = int ((i - k) mod 16)"
    using \<open>k \<le> i\<close> by (simp add: take_bit_eq_mod of_nat_mod)
  finally show ?thesis by simp
qed

section \<open>The contract of a hash implementation\<close>

text \<open>
  \<open>transform\<close> is the compression of one block into the context, \<open>loop\<close> the loop of
  \<^verbatim>\<open>*_once\<close>, \<open>final\<close> the padding and output of \<^verbatim>\<open>*_final\<close>; \<open>compress\<close> and \<open>out\<close> are
  the reference compression and output.
\<close>

locale block_hash =
  fixes compress :: "'h \<Rightarrow> u8 list \<Rightarrow> 'h"
    and out :: "'h \<Rightarrow> u8 list"
    and hash_of :: "'c \<Rightarrow> 'h"
    and buf_of :: "'c \<Rightarrow> u8 list"
    and count_of :: "'c \<Rightarrow> u32"
    and transform :: "'c \<Rightarrow> u8 list \<Rightarrow> 'c"
    and loop :: "'c \<Rightarrow> u8 list \<Rightarrow> u32 \<Rightarrow> 'c"
    and final :: "'c \<Rightarrow> u8 list"
  assumes hash_transform:
      "64 \<le> length d \<Longrightarrow> hash_of (transform c d) = compress (hash_of c) (take 64 d)"
    and buf_transform: "buf_of (transform c d) = buf_of c"
    and count_transform: "count_of (transform c d) = count_of c"
    and loop_more:
      "64 \<le> len \<Longrightarrow> loop c d len = loop (transform c d) (drop 64 d) (len - 64)"
    and loop_hash: "\<not> 64 \<le> len \<Longrightarrow> hash_of (loop c d len) = hash_of c"
    and loop_count: "\<not> 64 \<le> len \<Longrightarrow> count_of (loop c d len) = count_of c"
    and loop_buf:
      "\<not> 64 \<le> len \<Longrightarrow> buf_of (loop c d len) = overwrite 0 (take (unat len) d) (buf_of c)"
    and final_short:
      "\<lbrakk>length (buf_of c) = 64; p = unat (count_of c) mod 64; p < 56\<rbrakk> \<Longrightarrow>
       final c = out (compress (hash_of c)
         (take p (buf_of c) @ [0x80] @ replicate (55 - p) 0
          @ be_bytes 8 (push_bit 3 (ucast (count_of c)) :: u64)))"
    and final_long:
      "\<lbrakk>length (buf_of c) = 64; p = unat (count_of c) mod 64; \<not> p < 56\<rbrakk> \<Longrightarrow>
       final c = out (compress
         (compress (hash_of c) (take p (buf_of c) @ [0x80] @ replicate (63 - p) 0))
         (replicate 56 0 @ be_bytes 8 (push_bit 3 (ucast (count_of c)) :: u64)))"
begin

lemma loop_spec:
  assumes "length (buf_of c) = 64" "unat len = length d"
  shows "hash_of (loop c d len) = md_fold compress (hash_of c) d
     \<and> count_of (loop c d len) = count_of c
     \<and> length (buf_of (loop c d len)) = 64
     \<and> take (length d mod 64) (buf_of (loop c d len)) = drop (length d div 64 * 64) d"
  using assms
proof (induction "length d" arbitrary: c d len rule: less_induct)
  case less
  show ?case
  proof (cases "64 \<le> len")
    case True
    then have n: "64 \<le> length d" using less.prems by (simp add: word_le_nat_alt)
    have u: "unat (len - 64) = length (drop 64 d)"
      using True less.prems by (simp add: unat_sub)
    have "length (drop 64 d) < length d" using n by simp
    note IH = less.hyps [OF this _ u, of "transform c d"]
    have m: "length (drop 64 d) mod 64 = length d mod 64"
      using n by (simp add: le_mod_geq)
    have "drop (length (drop 64 d) div 64 * 64) (drop 64 d) = drop (length d div 64 * 64) d"
      using n by (simp add: le_div_geq add.commute)
    moreover have "md_fold compress (hash_of c) d
        = md_fold compress (compress (hash_of c) (take 64 d)) (drop 64 d)"
      using n by (simp add: md_fold_long)
    ultimately show ?thesis
      using IH m True n less.prems
      by (simp add: loop_more hash_transform buf_transform count_transform)
  next
    case False
    then have "length d < 64" using less.prems by (simp add: word_le_nat_alt)
    with False less.prems show ?thesis
      by (simp add: loop_hash loop_count loop_buf md_fold_short overwrite_def)
  qed
qed

lemma bits_of_count:
  "unat (count :: u32) = n \<Longrightarrow> push_bit 3 (ucast count :: u64) = of_nat (8 * n)"
  by (auto simp: push_bit_eq_mult mult.commute)

text \<open>The whole computation equals the reference on the padded message.\<close>

lemma digest_is_reference:
  assumes b: "length (buf_of c) = 64" and len: "unat len = length d"
    and cnt: "count_of c = len"
  shows "final (loop c d len) = out (md_fold compress (hash_of c) (md_pad d))"
proof -
  define n p where "n = length d" and "p = length d mod 64"
  define c' where "c' = loop c d len"
  define part where "part = drop (n div 64 * 64) d"
  have c': "hash_of c' = md_fold compress (hash_of c) d" "count_of c' = len"
    "length (buf_of c') = 64" "take p (buf_of c') = part"
    using loop_spec [OF b len] cnt by (simp_all add: c'_def p_def n_def part_def)
  have part: "length part = p"
    by (simp add: part_def p_def n_def minus_div_mult_eq_mod)
  have whole: "md_fold compress (hash_of c) (take (n div 64 * 64) d)
      = md_fold compress (hash_of c) d"
  proof -
    have "md_fold compress (hash_of c) (take (n div 64 * 64) d @ part)
        = md_fold compress (md_fold compress (hash_of c) (take (n div 64 * 64) d)) part"
      by (rule md_fold_append) (simp add: n_def min_absorb2)
    then show ?thesis
      using part by (simp add: part_def p_def md_fold_short)
  qed
  have ref: "md_fold compress (hash_of c) (md_pad d)
      = md_fold compress (hash_of c') (md_tail n part)"
  proof -
    have "md_pad d = take (n div 64 * 64) d @ md_tail n part"
      by (simp only: md_pad_split n_def part_def)
    moreover have "md_fold compress (hash_of c) (take (n div 64 * 64) d @ md_tail n part)
        = md_fold compress (md_fold compress (hash_of c) (take (n div 64 * 64) d)) (md_tail n part)"
      by (rule md_fold_append) (simp add: n_def min_absorb2)
    ultimately show ?thesis by (simp only: whole c'(1))
  qed
  have p: "p = unat (count_of c') mod 64" using len by (simp add: c' p_def)
  have bits: "push_bit 3 (ucast len :: u64) = of_nat (8 * n)"
    using len by (intro bits_of_count) (simp add: n_def)
  show ?thesis
  proof (cases "p < 56")
    case True
    then have "119 - p = 55 - p + 64" by simp
    then have z: "(119 - p) mod 64 = 55 - p" by (simp only: mod_add_self2) simp
    have "md_tail n part = take p (buf_of c') @ [0x80] @ replicate (55 - p) 0
        @ be_bytes 8 (push_bit 3 (ucast (count_of c')) :: u64)"
      by (simp add: md_tail_def part bits c' z)
    moreover have "length (md_tail n part) = 64" using True by (simp add: md_tail_def part z)
    ultimately show ?thesis
      using True final_short [OF c'(3) p] ref by (simp add: c'_def md_fold_one)
  next
    case False
    have "p < 64" using p by simp
    then have "119 - p = (63 - p) + 56" by simp
    moreover from False have "(119 - p) mod 64 = 119 - p" by simp
    ultimately have z: "replicate ((119 - p) mod 64) (0 :: u8) = replicate (63 - p) 0 @ replicate 56 0"
      by (simp only: replicate_add)
    have "md_tail n part = (take p (buf_of c') @ [0x80] @ replicate (63 - p) 0)
        @ (replicate 56 0 @ be_bytes 8 (push_bit 3 (ucast (count_of c')) :: u64))"
      by (simp add: md_tail_def part bits c' z)
    moreover have "length (take p (buf_of c') @ [0x80::u8] @ replicate (63 - p) 0) = 64"
      using \<open>p < 64\<close> c'(3) by simp
    moreover have
      "length (replicate 56 0 @ be_bytes 8 (push_bit 3 (ucast (count_of c')) :: u64)) = 64"
      by simp
    ultimately have "md_fold compress (hash_of c') (md_tail n part)
        = compress (compress (hash_of c') (take p (buf_of c') @ [0x80] @ replicate (63 - p) 0))
            (replicate 56 0 @ be_bytes 8 (push_bit 3 (ucast (count_of c')) :: u64))"
      by (simp only: md_fold_two)
    with False final_long [OF c'(3) p] ref show ?thesis by (simp add: c'_def)
  qed
qed

end

end
