(* ===== verification/Sha1.thy ===== *)
theory Sha1
  imports Hash_Common
begin

text \<open>
  \<^verbatim>\<open>sha1sum.c\<close>: the context, the unrolled block transform with its circular 16-word
  message schedule and renamed registers, the block loop and the final padding; and the
  proof that it computes SHA-1 as FIPS 180-4 defines it.
\<close>

section \<open>The code\<close>

definition rol :: "u32 \<Rightarrow> nat \<Rightarrow> u32" where
  "rol x n = push_bit n x OR drop_bit (nat ((- int n) AND 31)) x"

record sha1_context =
  sha1_count :: u32
  h0 :: u32
  h1 :: u32
  h2 :: u32
  h3 :: u32
  h4 :: u32
  sha1_buf :: "u8 list"

text \<open>The compound literal of \<^verbatim>\<open>sha1_init\<close> zeroes the members it does not name.\<close>

definition sha1_init :: sha1_context where
  "sha1_init = \<lparr>sha1_count = 0, h0 = 0x67452301, h1 = 0xefcdab89, h2 = 0x98badcfe,
     h3 = 0x10325476, h4 = 0xc3d2e1f0, sha1_buf = replicate 64 0\<rparr>"

definition sha1_X :: "int \<Rightarrow> nat" where
  "sha1_X i = nat (i AND 15)"

definition sha1_blend :: "u32 list \<Rightarrow> int \<Rightarrow> u32 \<times> u32 list" where
  "sha1_blend x i =
     (let v = rol (x ! sha1_X i XOR x ! sha1_X (i - 14) XOR x ! sha1_X (i - 8)
                   XOR x ! sha1_X (i - 3)) 1
      in (v, x[sha1_X i := v]))"

definition sha1_K1 :: u32 where "sha1_K1 = 0x5A827999"
definition sha1_K2 :: u32 where "sha1_K2 = 0x6ED9EBA1"
definition sha1_K3 :: u32 where "sha1_K3 = 0x8F1BBCDC"
definition sha1_K4 :: u32 where "sha1_K4 = 0xCA62C1D6"

definition sha1_F1 :: "u32 \<Rightarrow> u32 \<Rightarrow> u32 \<Rightarrow> u32" where
  "sha1_F1 x y z = z XOR (x AND (y XOR z))"
definition sha1_F2 :: "u32 \<Rightarrow> u32 \<Rightarrow> u32 \<Rightarrow> u32" where
  "sha1_F2 x y z = x XOR y XOR z"
definition sha1_F3 :: "u32 \<Rightarrow> u32 \<Rightarrow> u32 \<Rightarrow> u32" where
  "sha1_F3 x y z = (x AND y) OR (z AND (x OR y))"
definition sha1_F4 :: "u32 \<Rightarrow> u32 \<Rightarrow> u32 \<Rightarrow> u32" where
  "sha1_F4 x y z = x XOR y XOR z"

text \<open>
  The macro \<^verbatim>\<open>R(a,b,c,d,e,f,k,m)\<close> assigns to its second and its fifth argument;
  the result is the new pair \<open>(b, e)\<close>.
\<close>

definition sha1_R :: "(u32 \<Rightarrow> u32 \<Rightarrow> u32 \<Rightarrow> u32) \<Rightarrow> u32 \<Rightarrow> u32
    \<Rightarrow> u32 \<Rightarrow> u32 \<Rightarrow> u32 \<Rightarrow> u32 \<Rightarrow> u32 \<Rightarrow> u32 \<times> u32" where
  "sha1_R f k m a b c d e = (rol b 30, e + (rol a 5 + f b c d + k + m))"

type_synonym sha1_regs = "u32 \<times> u32 \<times> u32 \<times> u32 \<times> u32"

text \<open>The three loop bodies: words straight from the block, the mixed one, blended words.\<close>

fun sha1_first :: "int \<Rightarrow> u32 list \<times> sha1_regs \<Rightarrow> u32 list \<times> sha1_regs" where
  "sha1_first i (x, a, b, c, d, e) =
     (let (b, e) = sha1_R sha1_F1 sha1_K1 (x ! nat (i + 0)) a b c d e;
          (a, d) = sha1_R sha1_F1 sha1_K1 (x ! nat (i + 1)) e a b c d;
          (e, c) = sha1_R sha1_F1 sha1_K1 (x ! nat (i + 2)) d e a b c;
          (d, b) = sha1_R sha1_F1 sha1_K1 (x ! nat (i + 3)) c d e a b;
          (c, a) = sha1_R sha1_F1 sha1_K1 (x ! nat (i + 4)) b c d e a
      in (x, a, b, c, d, e))"

fun sha1_mixed :: "u32 list \<times> sha1_regs \<Rightarrow> u32 list \<times> sha1_regs" where
  "sha1_mixed (x, a, b, c, d, e) =
     (let (b, e) = sha1_R sha1_F1 sha1_K1 (x ! 15) a b c d e;
          (m, x) = sha1_blend x 16; (a, d) = sha1_R sha1_F1 sha1_K1 m e a b c d;
          (m, x) = sha1_blend x 17; (e, c) = sha1_R sha1_F1 sha1_K1 m d e a b c;
          (m, x) = sha1_blend x 18; (d, b) = sha1_R sha1_F1 sha1_K1 m c d e a b;
          (m, x) = sha1_blend x 19; (c, a) = sha1_R sha1_F1 sha1_K1 m b c d e a
      in (x, a, b, c, d, e))"

fun sha1_rest :: "(u32 \<Rightarrow> u32 \<Rightarrow> u32 \<Rightarrow> u32) \<Rightarrow> u32 \<Rightarrow> int
    \<Rightarrow> u32 list \<times> sha1_regs \<Rightarrow> u32 list \<times> sha1_regs" where
  "sha1_rest f k i (x, a, b, c, d, e) =
     (let (m, x) = sha1_blend x (i + 0); (b, e) = sha1_R f k m a b c d e;
          (m, x) = sha1_blend x (i + 1); (a, d) = sha1_R f k m e a b c d;
          (m, x) = sha1_blend x (i + 2); (e, c) = sha1_R f k m d e a b c;
          (m, x) = sha1_blend x (i + 3); (d, b) = sha1_R f k m c d e a b;
          (m, x) = sha1_blend x (i + 4); (c, a) = sha1_R f k m b c d e a
      in (x, a, b, c, d, e))"

text \<open>The 16 words of a block, \<^verbatim>\<open>cpu_to_be32(data[i])\<close>.\<close>

definition sha1_load :: "u8 list \<Rightarrow> u32 list" where
  "sha1_load data = map (\<lambda>i. bswap32 (of_le (take 4 (drop (4 * i) data)))) [0..<16]"

definition sha1_transform :: "sha1_context \<Rightarrow> u8 list \<Rightarrow> sha1_context" where
  "sha1_transform ctx data =
     (let s = (sha1_load data, h0 ctx, h1 ctx, h2 ctx, h3 ctx, h4 ctx);
          s = fold sha1_first [0, 5, 10] s;
          s = sha1_mixed s;
          s = fold (sha1_rest sha1_F2 sha1_K2) [20, 25, 30, 35] s;
          s = fold (sha1_rest sha1_F3 sha1_K3) [40, 45, 50, 55] s;
          s = fold (sha1_rest sha1_F4 sha1_K4) [60, 65, 70, 75] s;
          (x, a, b, c, d, e) = s
      in ctx\<lparr>h0 := h0 ctx + a, h1 := h1 ctx + b, h2 := h2 ctx + c, h3 := h3 ctx + d,
            h4 := h4 ctx + e\<rparr>)"

text \<open>
  \<^verbatim>\<open>sha1_once\<close>: \<open>data\<close> is the list of bytes from the pointer on; the loop advances it
  by 64 and lowers the 32-bit \<open>len\<close>; the rest is copied to the front of the buffer.
\<close>

function sha1_once_loop :: "sha1_context \<Rightarrow> u8 list \<Rightarrow> u32 \<Rightarrow> sha1_context" where
  "sha1_once_loop ctx data len =
     (if 64 \<le> len then sha1_once_loop (sha1_transform ctx data) (drop 64 data) (len - 64)
      else ctx\<lparr>sha1_buf := overwrite 0 (take (unat len) data) (sha1_buf ctx)\<rparr>)"
  by pat_completeness auto
termination
  by (relation "measure (\<lambda>(ctx, data, len). unat len)") (auto simp: word_le_nat_alt unat_sub)

declare sha1_once_loop.simps [simp del]

definition sha1_once :: "sha1_context \<Rightarrow> u8 list \<Rightarrow> u32 \<Rightarrow> sha1_context" where
  "sha1_once ctx data len = sha1_once_loop (ctx\<lparr>sha1_count := len\<rparr>) data len"

definition sha1_final :: "sha1_context \<Rightarrow> u8 list" where
  "sha1_final ctx =
     (let partial = unat (sha1_count ctx AND 0x3f);
          ctx = ctx\<lparr>sha1_buf := (sha1_buf ctx)[partial := 0x80]\<rparr>;
          partial = partial + 1;
          (ctx, partial) =
            (if 56 < partial
             then (let ctx = ctx\<lparr>sha1_buf := overwrite partial (replicate (64 - partial) 0) (sha1_buf ctx)\<rparr>
                   in (sha1_transform ctx (sha1_buf ctx), 0))
             else (ctx, partial));
          ctx = ctx\<lparr>sha1_buf := overwrite partial (replicate (56 - partial) 0) (sha1_buf ctx)\<rparr>;
          ctx = ctx\<lparr>sha1_buf := overwrite 56
                 (le_bytes 8 (bswap64 (push_bit 3 (ucast (sha1_count ctx))))) (sha1_buf ctx)\<rparr>;
          ctx = sha1_transform ctx (sha1_buf ctx)
      in concat (map (\<lambda>h. le_bytes 4 (bswap32 h)) [h0 ctx, h1 ctx, h2 ctx, h3 ctx, h4 ctx]))"

definition sha1sum :: "u8 list \<Rightarrow> u32 \<Rightarrow> u8 list" where
  "sha1sum ptr len = sha1_final (sha1_once sha1_init ptr len)"

section \<open>Reference: SHA-1 of FIPS 180-4\<close>

fun fips1_W :: "u32 list \<Rightarrow> nat \<Rightarrow> u32" where
  "fips1_W ws t =
     (if t < 16 then ws ! t
      else word_rotl 1 (fips1_W ws (t - 3) XOR fips1_W ws (t - 8)
             XOR fips1_W ws (t - 14) XOR fips1_W ws (t - 16)))"

declare fips1_W.simps [simp del]

definition fips1_f :: "nat \<Rightarrow> u32 \<Rightarrow> u32 \<Rightarrow> u32 \<Rightarrow> u32" where
  "fips1_f t x y z =
     (if t < 20 then (x AND y) XOR (NOT x AND z)
      else if t < 40 then x XOR y XOR z
      else if t < 60 then (x AND y) XOR (x AND z) XOR (y AND z)
      else x XOR y XOR z)"

definition fips1_K :: "nat \<Rightarrow> u32" where
  "fips1_K t = (if t < 20 then 0x5A827999 else if t < 40 then 0x6ED9EBA1
     else if t < 60 then 0x8F1BBCDC else 0xCA62C1D6)"

fun fips1_round :: "u32 list \<Rightarrow> nat \<Rightarrow> sha1_regs \<Rightarrow> sha1_regs" where
  "fips1_round ws t (a, b, c, d, e) =
     (word_rotl 5 a + fips1_f t b c d + e + fips1_K t + fips1_W ws t,
      a, word_rotl 30 b, c, d)"

definition fips1_words :: "u8 list \<Rightarrow> u32 list" where
  "fips1_words blk = map (\<lambda>i. of_be (take 4 (drop (4 * i) blk))) [0..<16]"

fun fips1_compress :: "sha1_regs \<Rightarrow> u8 list \<Rightarrow> sha1_regs" where
  "fips1_compress (a0, b0, c0, d0, e0) blk =
     (case fold (fips1_round (fips1_words blk)) [0..<80] (a0, b0, c0, d0, e0) of
        (a, b, c, d, e) \<Rightarrow> (a0 + a, b0 + b, c0 + c, d0 + d, e0 + e))"

fun fips1_out :: "sha1_regs \<Rightarrow> u8 list" where
  "fips1_out (a, b, c, d, e) = concat (map (be_bytes 4) [a, b, c, d, e])"

definition fips1 :: "u8 list \<Rightarrow> u8 list" where
  "fips1 msg = fips1_out (md_fold fips1_compress
     (0x67452301, 0xefcdab89, 0x98badcfe, 0x10325476, 0xc3d2e1f0) (md_pad msg))"

section \<open>The transform equals the reference compression\<close>

lemma rol_is_rotl: "0 < n \<Longrightarrow> n < 32 \<Longrightarrow> rol x n = word_rotl n x"
proof -
  assume n: "0 < n" "n < 32"
  have "(- int n) AND 31 = take_bit 5 (- int n)" by (simp add: take_bit_eq_mask mask_eq_exp_minus_1)
  also have "\<dots> = 32 - int n" using n by (simp add: take_bit_eq_mod zmod_zminus1_eq_if)
  finally have s: "nat ((- int n) AND 31) = 32 - n" by simp
  then show ?thesis using shifts_rotl32 [OF n, of x] by (simp add: rol_def)
qed

lemma sha1_F1_Ch: "sha1_F1 x y z = (x AND y) XOR (NOT x AND z)"
  by (rule bit_word_eqI) (auto simp: sha1_F1_def bit_simps)

lemma sha1_F3_Maj: "sha1_F3 x y z = (x AND y) XOR (x AND z) XOR (y AND z)"
  by (rule bit_word_eqI) (auto simp: sha1_F3_def bit_simps)

lemma sha1_X_mod: "sha1_X i = nat (i mod 16)"
proof -
  have "i AND 15 = take_bit 4 i" by (simp add: take_bit_eq_mask mask_eq_exp_minus_1)
  then show ?thesis by (simp add: sha1_X_def take_bit_eq_mod)
qed


lemma sha1_X_sub:
  "sha1_X (int i) = i mod 16"
  "k \<le> i \<Longrightarrow> sha1_X (int i - int k) = (i - k) mod 16"
  using and15_index [of 0 i] and15_index [of k i] by (simp_all add: sha1_X_def)

lemma sha1_blend_W:
  assumes c: "circ (fips1_W ws) i x"
  shows "sha1_blend x (int i) = (fips1_W ws i, x[i mod 16 := fips1_W ws i])"
proof -
  have i: "16 \<le> i" using c by (simp add: circ_def)
  have X: "sha1_X (int i - 14) = (i - 14) mod 16" "sha1_X (int i - 8) = (i - 8) mod 16"
    "sha1_X (int i - 3) = (i - 3) mod 16"
    using sha1_X_sub(2) [of 14 i] sha1_X_sub(2) [of 8 i] sha1_X_sub(2) [of 3 i] i by simp_all
  have W: "fips1_W ws i = word_rotl 1 (fips1_W ws (i - 16) XOR fips1_W ws (i - 14)
      XOR fips1_W ws (i - 8) XOR fips1_W ws (i - 3))"
    using i by (subst fips1_W.simps) (simp add: ac_simps)
  show ?thesis
    unfolding sha1_blend_def W Let_def X sha1_X_sub(1) circ_oldest [OF c]
    using circ_nth [OF c, of 14] circ_nth [OF c, of 8] circ_nth [OF c, of 3]
    by (simp add: rol_is_rotl)
qed

text \<open>Five unrolled steps are five rounds; the registers are back in their places.\<close>

fun sha1_rnd :: "(u32 \<Rightarrow> u32 \<Rightarrow> u32 \<Rightarrow> u32) \<Rightarrow> u32 \<Rightarrow> u32 \<Rightarrow> sha1_regs \<Rightarrow> sha1_regs" where
  "sha1_rnd f k m (a, b, c, d, e) = (word_rotl 5 a + f b c d + e + k + m, a, word_rotl 30 b, c, d)"

lemma fips1_round_rnd: "fips1_round ws t r = sha1_rnd (fips1_f t) (fips1_K t) (fips1_W ws t) r"
  by (cases r) simp

lemma sha1_R_rotl: "sha1_R f k m a b c d e = (word_rotl 30 b, word_rotl 5 a + f b c d + e + k + m)"
  by (simp add: sha1_R_def rol_is_rotl ac_simps)

lemma upt5: "[i..<i + 5] = [i, Suc i, i + 2, i + 3, i + 4]"
  by (simp add: upt_conv_Cons)

lemma sha1_rest_rounds:
  assumes c: "circ (fips1_W ws) i x"
    and f: "\<And>j. i \<le> j \<Longrightarrow> j < i + 5 \<Longrightarrow> fips1_f j = f \<and> fips1_K j = k"
  obtains x' where "circ (fips1_W ws) (i + 5) x'"
    and "sha1_rest f k (int i) (x, r) = (x', fold (fips1_round ws) [i..<i + 5] r)"
proof -
  obtain a b c0 d e where r: "r = (a, b, c0, d, e)" by (cases r)
  define x1 where "x1 = x[i mod 16 := fips1_W ws i]"
  define x2 where "x2 = x1[Suc i mod 16 := fips1_W ws (Suc i)]"
  define x3 where "x3 = x2[(i + 2) mod 16 := fips1_W ws (i + 2)]"
  define x4 where "x4 = x3[(i + 3) mod 16 := fips1_W ws (i + 3)]"
  define x5 where "x5 = x4[(i + 4) mod 16 := fips1_W ws (i + 4)]"
  have c1: "circ (fips1_W ws) (Suc i) x1" unfolding x1_def by (rule circ_step [OF c])
  have c2: "circ (fips1_W ws) (i + 2) x2" using circ_step [OF c1] by (simp add: x2_def)
  have c3: "circ (fips1_W ws) (i + 3) x3" using circ_step [OF c2] by (simp add: x3_def numeral_3_eq_3)
  have c4: "circ (fips1_W ws) (i + 4) x4" using circ_step [OF c3] by (simp add: x4_def add.commute)
  have c5: "circ (fips1_W ws) (i + 5) x5" using circ_step [OF c4] by (simp add: x5_def add.commute)
  have b: "sha1_blend x (int i) = (fips1_W ws i, x1)"
    "sha1_blend x1 (int i + 1) = (fips1_W ws (Suc i), x2)"
    "sha1_blend x2 (int i + 2) = (fips1_W ws (i + 2), x3)"
    "sha1_blend x3 (int i + 3) = (fips1_W ws (i + 3), x4)"
    "sha1_blend x4 (int i + 4) = (fips1_W ws (i + 4), x5)"
    using sha1_blend_W [OF c] sha1_blend_W [OF c1] sha1_blend_W [OF c2] sha1_blend_W [OF c3]
      sha1_blend_W [OF c4]
    by (simp_all add: x1_def x2_def x3_def x4_def x5_def add.commute)
  have F: "fips1_f j = f" "fips1_K j = k" if "j \<in> {i, Suc i, i + 2, i + 3, i + 4}" for j
    using f [of j] that by auto
  have "sha1_rest f k (int i) (x, r) = (x5, fold (fips1_round ws) [i..<i + 5] r)"
    by (simp add: r b sha1_R_rotl upt5 fips1_round_rnd F)
  with c5 show ?thesis by (rule that)
qed

lemma sha1_rest_loop:
  assumes "circ (fips1_W ws) i x"
    and "\<And>j. i \<le> j \<Longrightarrow> j < i + 5 * n \<Longrightarrow> fips1_f j = f \<and> fips1_K j = k"
  shows "\<exists>x'. circ (fips1_W ws) (i + 5 * n) x' \<and>
    fold (sha1_rest f k) (map (\<lambda>j. int (i + 5 * j)) [0..<n]) (x, r)
      = (x', fold (fips1_round ws) [i..<i + 5 * n] r)"
  using assms
proof (induction n)
  case 0
  then show ?case by auto
next
  case (Suc n)
  then obtain x' where c: "circ (fips1_W ws) (i + 5 * n) x'"
    and e: "fold (sha1_rest f k) (map (\<lambda>j. int (i + 5 * j)) [0..<n]) (x, r)
      = (x', fold (fips1_round ws) [i..<i + 5 * n] r)"
    by auto
  obtain x'' where "circ (fips1_W ws) (i + 5 * n + 5) x''"
    "sha1_rest f k (int (i + 5 * n)) (x', fold (fips1_round ws) [i..<i + 5 * n] r)
      = (x'', fold (fips1_round ws) [i + 5 * n..<i + 5 * n + 5] (fold (fips1_round ws) [i..<i + 5 * n] r))"
    by (rule sha1_rest_rounds [OF c]) (use Suc.prems(2) in auto)
  with e show ?case
    using fold_append_upt [of i "i + 5 * n" "i + 5 * Suc n" "fips1_round ws" r]
    by (auto simp: add.assoc [symmetric] add.commute [of 5])
qed

lemma sha1_rest_twenty:
  assumes "circ (fips1_W ws) i x"
    and "\<And>j. i \<le> j \<Longrightarrow> j < i + 20 \<Longrightarrow> fips1_f j = f \<and> fips1_K j = k"
  obtains x' where "circ (fips1_W ws) (i + 20) x'"
    and "fold (sha1_rest f k) [int i, int i + 5, int i + 10, int i + 15] (x, r)
      = (x', fold (fips1_round ws) [i..<i + 20] r)"
proof -
  have "[0..<4] = [0, 1, 2, 3 :: nat]" by (simp add: numeral_eq_Suc)
  then have "map (\<lambda>j. int (i + 5 * j)) [0..<4] = [int i, int i + 5, int i + 10, int i + 15]"
    by simp
  with sha1_rest_loop [of ws i x 4 f k r] assms show ?thesis by (auto intro: that)
qed

lemma sha1_first_rounds:
  assumes x: "\<And>j. j < 16 \<Longrightarrow> x ! j = fips1_W ws j" and i: "i < 11"
  shows "sha1_first (int i) (x, r) = (x, fold (fips1_round ws) [i..<i + 5] r)"
proof -
  obtain a b c d e where r: "r = (a, b, c, d, e)" by (cases r)
  have n: "nat (int i + int k) = i + k" for k by simp
  have F: "fips1_f j = sha1_F1" "fips1_K j = sha1_K1" if "j < 16" for j
    using that by (auto simp: fun_eq_iff fips1_f_def sha1_F1_Ch fips1_K_def sha1_K1_def)
  show ?thesis
    using x [of i] x [of "i + 1"] x [of "i + 2"] x [of "i + 3"] x [of "i + 4"] i
      n [of 1] n [of 2] n [of 3] n [of 4]
    by (simp add: r sha1_R_rotl upt5 fips1_round_rnd F)
qed

lemma sha1_mixed_rounds:
  assumes x: "\<And>j. j < 16 \<Longrightarrow> x ! j = fips1_W ws j" and len: "length x = 16"
  obtains x' where "circ (fips1_W ws) 20 x'"
    and "sha1_mixed (x, r) = (x', fold (fips1_round ws) [15..<20] r)"
proof -
  obtain a b c d e where r: "r = (a, b, c, d, e)" by (cases r)
  have c0: "circ (fips1_W ws) 16 x" using len x by (rule circ_start)
  define x1 where "x1 = x[16 mod 16 := fips1_W ws 16]"
  define x2 where "x2 = x1[17 mod 16 := fips1_W ws 17]"
  define x3 where "x3 = x2[18 mod 16 := fips1_W ws 18]"
  define x4 where "x4 = x3[19 mod 16 := fips1_W ws 19]"
  have c1: "circ (fips1_W ws) 17 x1" using circ_step [OF c0] unfolding x1_def by simp
  have c2: "circ (fips1_W ws) 18 x2" using circ_step [OF c1] unfolding x2_def by simp
  have c3: "circ (fips1_W ws) 19 x3" using circ_step [OF c2] unfolding x3_def by simp
  have c4: "circ (fips1_W ws) 20 x4" using circ_step [OF c3] unfolding x4_def by simp
  have b: "sha1_blend x 16 = (fips1_W ws 16, x1)" "sha1_blend x1 17 = (fips1_W ws 17, x2)"
    "sha1_blend x2 18 = (fips1_W ws 18, x3)" "sha1_blend x3 19 = (fips1_W ws 19, x4)"
    using sha1_blend_W [OF c0] sha1_blend_W [OF c1] sha1_blend_W [OF c2] sha1_blend_W [OF c3]
    by (simp_all only: x1_def x2_def x3_def x4_def of_nat_numeral)
  have F: "fips1_f j = sha1_F1" "fips1_K j = sha1_K1" if "j < 20" for j
    using that by (auto simp: fun_eq_iff fips1_f_def sha1_F1_Ch fips1_K_def sha1_K1_def)
  have "[15..<20] = [15, 16, 17, 18, 19 :: nat]" by (simp add: upt_rec_numeral)
  then have "sha1_mixed (x, r) = (x4, fold (fips1_round ws) [15..<20] r)"
    using x [of 15] by (simp add: r b sha1_R_rotl fips1_round_rnd F)
  with c4 show ?thesis by (rule that)
qed

lemma sha1_load_words: "64 \<le> length data \<Longrightarrow> sha1_load data = fips1_words (take 64 data)"
  by (auto simp: sha1_load_def fips1_words_def drop_take min_def intro!: bswap32_of_le)

lemma sha1_rounds_all:
  assumes d: "64 \<le> length data"
  defines "ws \<equiv> fips1_words (take 64 data)"
  shows "\<exists>x'. fold (sha1_rest sha1_F4 sha1_K4) [60, 65, 70, 75]
      (fold (sha1_rest sha1_F3 sha1_K3) [40, 45, 50, 55]
        (fold (sha1_rest sha1_F2 sha1_K2) [20, 25, 30, 35]
          (sha1_mixed (fold sha1_first [0, 5, 10] (sha1_load data, r)))))
      = (x', fold (fips1_round ws) [0..<80] r)"
proof -
  let ?f = "fips1_round ws" and ?x = "sha1_load data"
  have x: "?x ! j = fips1_W ws j" if "j < 16" for j
    using that d by (subst fips1_W.simps) (simp add: sha1_load_words ws_def)
  have "fold sha1_first [0, 5, 10] (?x, r) = (?x, fold ?f [10..<15] (fold ?f [5..<10] (fold ?f [0..<5] r)))"
    using sha1_first_rounds [OF x, of 0] sha1_first_rounds [OF x, of 5]
      sha1_first_rounds [OF x, of 10] by simp
  then have A: "fold sha1_first [0, 5, 10] (?x, r) = (?x, fold ?f [0..<15] r)"
    by (simp only: fold_append_upt [of 0 5 15] fold_append_upt [of 5 10 15])
  obtain x1 where c1: "circ (fips1_W ws) 20 x1"
    and B: "sha1_mixed (?x, fold ?f [0..<15] r) = (x1, fold ?f [15..<20] (fold ?f [0..<15] r))"
    by (rule sha1_mixed_rounds [of ?x ws]) (use x in \<open>auto simp: sha1_load_def\<close>)
  have F2: "\<And>j. 20 \<le> j \<Longrightarrow> j < 20 + 20 \<Longrightarrow> fips1_f j = sha1_F2 \<and> fips1_K j = sha1_K2"
    and F3: "\<And>j. 40 \<le> j \<Longrightarrow> j < 40 + 20 \<Longrightarrow> fips1_f j = sha1_F3 \<and> fips1_K j = sha1_K3"
    and F4: "\<And>j. 60 \<le> j \<Longrightarrow> j < 60 + 20 \<Longrightarrow> fips1_f j = sha1_F4 \<and> fips1_K j = sha1_K4"
    by (auto simp: fun_eq_iff fips1_f_def sha1_F2_def sha1_F3_Maj sha1_F4_def fips1_K_def
        sha1_K2_def sha1_K3_def sha1_K4_def)
  obtain x2 where c2: "circ (fips1_W ws) (20 + 20) x2"
    and C: "fold (sha1_rest sha1_F2 sha1_K2) [int 20, int 20 + 5, int 20 + 10, int 20 + 15]
      (x1, fold ?f [0..<20] r) = (x2, fold ?f [20..<20 + 20] (fold ?f [0..<20] r))"
    by (rule sha1_rest_twenty [OF c1 F2])
  then have c2': "circ (fips1_W ws) 40 x2" by simp
  obtain x3 where c3: "circ (fips1_W ws) (40 + 20) x3"
    and D: "fold (sha1_rest sha1_F3 sha1_K3) [int 40, int 40 + 5, int 40 + 10, int 40 + 15]
      (x2, fold ?f [0..<40] r) = (x3, fold ?f [40..<40 + 20] (fold ?f [0..<40] r))"
    by (rule sha1_rest_twenty [OF c2' F3])
  then have c3': "circ (fips1_W ws) 60 x3" by simp
  obtain x4 where "circ (fips1_W ws) (60 + 20) x4"
    and E: "fold (sha1_rest sha1_F4 sha1_K4) [int 60, int 60 + 5, int 60 + 10, int 60 + 15]
      (x3, fold ?f [0..<60] r) = (x4, fold ?f [60..<60 + 20] (fold ?f [0..<60] r))"
    by (rule sha1_rest_twenty [OF c3' F4])
  have j: "fold ?f [15..<20] (fold ?f [0..<15] r) = fold ?f [0..<20] r"
    "fold ?f [20..<40] (fold ?f [0..<20] r) = fold ?f [0..<40] r"
    "fold ?f [40..<60] (fold ?f [0..<40] r) = fold ?f [0..<60] r"
    "fold ?f [60..<80] (fold ?f [0..<60] r) = fold ?f [0..<80] r"
    using fold_append_upt [of 0 15 20 ?f r] fold_append_upt [of 0 20 40 ?f r]
      fold_append_upt [of 0 40 60 ?f r] fold_append_upt [of 0 60 80 ?f r] by auto
  have n: "int 20 = 20" "20 + 5 = (25 :: int)" "20 + 10 = (30 :: int)" "20 + 15 = (35 :: int)"
    "int 40 = 40" "40 + 5 = (45 :: int)" "40 + 10 = (50 :: int)" "40 + 15 = (55 :: int)"
    "int 60 = 60" "60 + 5 = (65 :: int)" "60 + 10 = (70 :: int)" "60 + 15 = (75 :: int)"
    "20 + 20 = (40 :: nat)" "40 + 20 = (60 :: nat)" "60 + 20 = (80 :: nat)"
    by simp_all
  show ?thesis
    by (intro exI [of _ x4]) (simp only: A B j C [unfolded n] D [unfolded n] E [unfolded n])
qed

section \<open>The interface and the digest\<close>

fun sha1_regs_of :: "sha1_context \<Rightarrow> sha1_regs" where
  "sha1_regs_of c = (h0 c, h1 c, h2 c, h3 c, h4 c)"

lemma sha1_transform_compress:
  assumes "64 \<le> length data"
  shows "sha1_regs_of (sha1_transform c data) = fips1_compress (sha1_regs_of c) (take 64 data)"
proof -
  obtain a b c' d e where
    "fold (fips1_round (fips1_words (take 64 data))) [0..<80] (sha1_regs_of c) = (a, b, c', d, e)"
    by (cases "fold (fips1_round (fips1_words (take 64 data))) [0..<80] (sha1_regs_of c)") auto
  with sha1_rounds_all [OF assms, of "sha1_regs_of c"] show ?thesis
    by (auto simp: sha1_transform_def Let_def simp del: fold_simps)
qed

lemma sha1_transform_frame [simp]:
  "sha1_buf (sha1_transform c d) = sha1_buf c"
  "sha1_count (sha1_transform c d) = sha1_count c"
  by (simp_all add: sha1_transform_def Let_def split: prod.split)

lemma sha1_regs_buf [simp]: "sha1_regs_of (c\<lparr>sha1_buf := b\<rparr>) = sha1_regs_of c"
  by simp

lemma sha1_output:
  "concat (map (\<lambda>h. le_bytes 4 (bswap32 h)) [h0 c, h1 c, h2 c, h3 c, h4 c])
     = fips1_out (sha1_regs_of c)"
  by simp

lemma sha1_block:
  "length d = 64 \<Longrightarrow> sha1_regs_of (sha1_transform c d) = fips1_compress (sha1_regs_of c) d"
  by (simp add: sha1_transform_compress del: sha1_regs_of.simps)

lemma sha1_final_short:
  assumes b: "length (sha1_buf c) = 64" and p: "p = unat (sha1_count c) mod 64" and "p < 56"
  shows "sha1_final c = fips1_out (fips1_compress (sha1_regs_of c)
     (take p (sha1_buf c) @ [0x80] @ replicate (55 - p) 0
      @ be_bytes 8 (push_bit 3 (ucast (sha1_count c)) :: u64)))"
proof -
  have part: "unat (sha1_count c AND 0x3f) = p" by (simp add: p and_mask6)
  define w where "w = take p (sha1_buf c) @ [0x80] @ replicate (55 - p) 0
      @ be_bytes 8 (push_bit 3 (ucast (sha1_count c)) :: u64)"
  have w: "length w = 64" using b \<open>p < 56\<close> by (simp add: w_def)
  have "sha1_final c = fips1_out (sha1_regs_of (sha1_transform (c\<lparr>sha1_buf := w\<rparr>) w))"
    using \<open>p < 56\<close> pad_short [OF b \<open>p < 56\<close>, of "be_bytes 8 (push_bit 3 (ucast (sha1_count c)) :: u64)"]
    by (simp add: sha1_final_def Let_def part w_def)
  also have "\<dots> = fips1_out (fips1_compress (sha1_regs_of c) w)"
    by (simp only: sha1_block [OF w] sha1_regs_buf)
  finally show ?thesis by (simp only: w_def)
qed

lemma sha1_final_long:
  assumes b: "length (sha1_buf c) = 64" and p: "p = unat (sha1_count c) mod 64" and "\<not> p < 56"
  shows "sha1_final c = fips1_out (fips1_compress
     (fips1_compress (sha1_regs_of c) (take p (sha1_buf c) @ [0x80] @ replicate (63 - p) 0))
     (replicate 56 0 @ be_bytes 8 (push_bit 3 (ucast (sha1_count c)) :: u64)))"
proof -
  have part: "unat (sha1_count c AND 0x3f) = p" by (simp add: p and_mask6)
  have "p < 64" by (simp add: p)
  define w where "w = take p (sha1_buf c) @ [0x80] @ replicate (63 - p) 0"
  define z where "z = be_bytes 8 (push_bit 3 (ucast (sha1_count c)) :: u64)"
  have w: "length w = 64" "length (replicate 56 0 @ z) = 64"
    using b \<open>p < 64\<close> by (simp_all add: w_def z_def)
  have "sha1_final c = fips1_out (sha1_regs_of (sha1_transform
      ((sha1_transform (c\<lparr>sha1_buf := w\<rparr>) w)\<lparr>sha1_buf := replicate 56 0 @ z\<rparr>) (replicate 56 0 @ z)))"
    using \<open>\<not> p < 56\<close> pad_long [OF b \<open>p < 64\<close>] pad_second [OF w(1), of z]
    by (simp add: sha1_final_def Let_def part w_def z_def)
  also have "\<dots> = fips1_out (fips1_compress (fips1_compress (sha1_regs_of c) w) (replicate 56 0 @ z))"
    by (simp only: sha1_block [OF w(1)] sha1_block [OF w(2)] sha1_regs_buf)
  finally show ?thesis by (simp only: w_def z_def)
qed

interpretation sha1: block_hash fips1_compress fips1_out sha1_regs_of sha1_buf sha1_count
  sha1_transform sha1_once_loop sha1_final
  by unfold_locales
    (auto simp: sha1_transform_compress sha1_once_loop.simps sha1_final_short sha1_final_long
      simp del: sha1_regs_of.simps fips1_out.simps split: if_splits)

lemma sha1sum_fips:
  assumes "unat len = length msg"
  shows "sha1sum msg len = fips1 msg"
proof -
  let ?c = "sha1_init\<lparr>sha1_count := len\<rparr>"
  have "length (sha1_buf ?c) = 64" "sha1_count ?c = len"
    "sha1_regs_of ?c = (0x67452301, 0xefcdab89, 0x98badcfe, 0x10325476, 0xc3d2e1f0)"
    by (simp_all add: sha1_init_def)
  then show ?thesis
    using sha1.digest_is_reference [of ?c len msg] assms
    by (simp add: sha1sum_def sha1_once_def fips1_def del: fips1_out.simps sha1_regs_of.simps)
qed

text \<open>
  C13. SHA-1 is correct: for every message whose length fits the 32-bit length argument,
  the digest that \<^verbatim>\<open>sha1sum\<close> writes is the SHA-1 of FIPS 180-4, with the standard's
  message schedule, round functions, padding and output order.
\<close>

theorem sha1sum_is_sha1:
  assumes "unat len = length msg"
  shows "sha1sum msg len = fips1 msg"
  by (rule sha1sum_fips [OF assms])

theorem sha1sum_is_sha1_witness:
  "sha1sum [0x61, 0x62, 0x63] 3 = fips1 [0x61, 0x62, 0x63]"
  by (rule sha1sum_is_sha1) simp

end
