(* ===== verification/Sha256.thy ===== *)
theory Sha256
  imports Hash_Common
begin

text \<open>
  \<^verbatim>\<open>sha256.c\<close>: the context, the eightfold unrolled block transform with its circular
  message schedule, the block loop and the final padding; and the proof that it
  computes SHA-256 as FIPS 180-4 defines it.
\<close>

section \<open>The code\<close>

record sha256_state =
  state :: "u32 list"
  sha256_count :: u32
  sha256_buf :: "u8 list"

definition ror32 :: "u32 \<Rightarrow> nat \<Rightarrow> u32" where
  "ror32 word shift = drop_bit shift word OR push_bit (32 - shift) word"

definition sha256_Ch :: "u32 \<Rightarrow> u32 \<Rightarrow> u32 \<Rightarrow> u32" where
  "sha256_Ch x y z = z XOR (x AND (y XOR z))"
definition sha256_Maj :: "u32 \<Rightarrow> u32 \<Rightarrow> u32 \<Rightarrow> u32" where
  "sha256_Maj x y z = (x AND y) OR (z AND (x OR y))"

definition sha256_e0 :: "u32 \<Rightarrow> u32" where
  "sha256_e0 x = ror32 x 2 XOR ror32 x 13 XOR ror32 x 22"
definition sha256_e1 :: "u32 \<Rightarrow> u32" where
  "sha256_e1 x = ror32 x 6 XOR ror32 x 11 XOR ror32 x 25"
definition sha256_s0 :: "u32 \<Rightarrow> u32" where
  "sha256_s0 x = ror32 x 7 XOR ror32 x 18 XOR drop_bit 3 x"
definition sha256_s1 :: "u32 \<Rightarrow> u32" where
  "sha256_s1 x = ror32 x 17 XOR ror32 x 19 XOR drop_bit 10 x"

definition sha256_I :: "int \<Rightarrow> nat" where
  "sha256_I i = nat (i AND 15)"

definition sha256_blend :: "u32 list \<Rightarrow> int \<Rightarrow> u32 \<times> u32 list" where
  "sha256_blend W i =
     (let v = W ! sha256_I i + (sha256_s1 (W ! sha256_I (i - 2)) + W ! sha256_I (i - 7)
                + sha256_s0 (W ! sha256_I (i - 15)))
      in (v, W[sha256_I i := v]))"

definition sha256_K :: "u32 list" where
  "sha256_K = concat [
    [0x428a2f98, 0x71374491, 0xb5c0fbcf, 0xe9b5dba5],
    [0x3956c25b, 0x59f111f1, 0x923f82a4, 0xab1c5ed5],
    [0xd807aa98, 0x12835b01, 0x243185be, 0x550c7dc3],
    [0x72be5d74, 0x80deb1fe, 0x9bdc06a7, 0xc19bf174],
    [0xe49b69c1, 0xefbe4786, 0x0fc19dc6, 0x240ca1cc],
    [0x2de92c6f, 0x4a7484aa, 0x5cb0a9dc, 0x76f988da],
    [0x983e5152, 0xa831c66d, 0xb00327c8, 0xbf597fc7],
    [0xc6e00bf3, 0xd5a79147, 0x06ca6351, 0x14292967],
    [0x27b70a85, 0x2e1b2138, 0x4d2c6dfc, 0x53380d13],
    [0x650a7354, 0x766a0abb, 0x81c2c92e, 0x92722c85],
    [0xa2bfe8a1, 0xa81a664b, 0xc24b8b70, 0xc76c51a3],
    [0xd192e819, 0xd6990624, 0xf40e3585, 0x106aa070],
    [0x19a4c116, 0x1e376c08, 0x2748774c, 0x34b0bcb5],
    [0x391c0cb3, 0x4ed8aa4a, 0x5b9cca4f, 0x682e6ff3],
    [0x748f82ee, 0x78a5636f, 0x84c87814, 0x8cc70208],
    [0x90befffa, 0xa4506ceb, 0xbef9a3f7, 0xc67178f2]]"

text \<open>
  One line pair of the unrolled loops: \<open>t1\<close>, \<open>t2\<close>, and the new fourth and eighth
  register.
\<close>

definition sha256_line :: "u32 \<Rightarrow> u32 \<Rightarrow> u32 \<Rightarrow> u32 \<Rightarrow> u32 \<Rightarrow> u32 \<Rightarrow> u32 \<Rightarrow> u32 \<Rightarrow> u32 \<Rightarrow> u32
    \<Rightarrow> u32 \<times> u32" where
  "sha256_line a b c d e f g h k w =
     (let t1 = h + sha256_e1 e + sha256_Ch e f g + k + w;
          t2 = sha256_e0 a + sha256_Maj a b c
      in (d + t1, t1 + t2))"

type_synonym sha256_regs = "u32 \<times> u32 \<times> u32 \<times> u32 \<times> u32 \<times> u32 \<times> u32 \<times> u32"

fun sha256_first :: "int \<Rightarrow> u32 list \<times> sha256_regs \<Rightarrow> u32 list \<times> sha256_regs" where
  "sha256_first i (W, a, b, c, d, e, f, g, h) =
     (let (d, h) = sha256_line a b c d e f g h (sha256_K ! nat (i + 0)) (W ! nat (i + 0));
          (c, g) = sha256_line h a b c d e f g (sha256_K ! nat (i + 1)) (W ! nat (i + 1));
          (b, f) = sha256_line g h a b c d e f (sha256_K ! nat (i + 2)) (W ! nat (i + 2));
          (a, e) = sha256_line f g h a b c d e (sha256_K ! nat (i + 3)) (W ! nat (i + 3));
          (h, d) = sha256_line e f g h a b c d (sha256_K ! nat (i + 4)) (W ! nat (i + 4));
          (g, c) = sha256_line d e f g h a b c (sha256_K ! nat (i + 5)) (W ! nat (i + 5));
          (f, b) = sha256_line c d e f g h a b (sha256_K ! nat (i + 6)) (W ! nat (i + 6));
          (e, a) = sha256_line b c d e f g h a (sha256_K ! nat (i + 7)) (W ! nat (i + 7))
      in (W, a, b, c, d, e, f, g, h))"

fun sha256_rest :: "int \<Rightarrow> u32 list \<times> sha256_regs \<Rightarrow> u32 list \<times> sha256_regs" where
  "sha256_rest i (W, a, b, c, d, e, f, g, h) =
     (let (w, W) = sha256_blend W (i + 0);
          (d, h) = sha256_line a b c d e f g h (sha256_K ! nat (i + 0)) w;
          (w, W) = sha256_blend W (i + 1);
          (c, g) = sha256_line h a b c d e f g (sha256_K ! nat (i + 1)) w;
          (w, W) = sha256_blend W (i + 2);
          (b, f) = sha256_line g h a b c d e f (sha256_K ! nat (i + 2)) w;
          (w, W) = sha256_blend W (i + 3);
          (a, e) = sha256_line f g h a b c d e (sha256_K ! nat (i + 3)) w;
          (w, W) = sha256_blend W (i + 4);
          (h, d) = sha256_line e f g h a b c d (sha256_K ! nat (i + 4)) w;
          (w, W) = sha256_blend W (i + 5);
          (g, c) = sha256_line d e f g h a b c (sha256_K ! nat (i + 5)) w;
          (w, W) = sha256_blend W (i + 6);
          (f, b) = sha256_line c d e f g h a b (sha256_K ! nat (i + 6)) w;
          (w, W) = sha256_blend W (i + 7);
          (e, a) = sha256_line b c d e f g h a (sha256_K ! nat (i + 7)) w
      in (W, a, b, c, d, e, f, g, h))"

definition sha256_load :: "u8 list \<Rightarrow> u32 list" where
  "sha256_load input = map (\<lambda>i. bswap32 (of_le (take 4 (drop (4 * i) input)))) [0..<16]"

definition sha256_transform :: "u32 list \<Rightarrow> u8 list \<Rightarrow> u32 list" where
  "sha256_transform st input =
     (let s = (sha256_load input, st ! 0, st ! 1, st ! 2, st ! 3, st ! 4, st ! 5, st ! 6, st ! 7);
          s = fold sha256_first [0, 8] s;
          s = fold sha256_rest [16, 24, 32, 40, 48, 56] s;
          (W, a, b, c, d, e, f, g, h) = s
      in [st ! 0 + a, st ! 1 + b, st ! 2 + c, st ! 3 + d,
          st ! 4 + e, st ! 5 + f, st ! 6 + g, st ! 7 + h])"

text \<open>The compound literal of \<^verbatim>\<open>sha256_init\<close> zeroes the members it does not name.\<close>

definition sha256_init :: sha256_state where
  "sha256_init = \<lparr>state = [0x6a09e667, 0xbb67ae85, 0x3c6ef372, 0xa54ff53a,
       0x510e527f, 0x9b05688c, 0x1f83d9ab, 0x5be0cd19],
     sha256_count = 0, sha256_buf = replicate 64 0\<rparr>"

function sha256_once_loop :: "sha256_state \<Rightarrow> u8 list \<Rightarrow> u32 \<Rightarrow> sha256_state" where
  "sha256_once_loop sctx data len =
     (if 64 \<le> len
      then sha256_once_loop (sctx\<lparr>state := sha256_transform (state sctx) data\<rparr>)
             (drop 64 data) (len - 64)
      else sctx\<lparr>sha256_buf := overwrite 0 (take (unat len) data) (sha256_buf sctx)\<rparr>)"
  by pat_completeness auto
termination
  by (relation "measure (\<lambda>(sctx, data, len). unat len)") (auto simp: word_le_nat_alt unat_sub)

declare sha256_once_loop.simps [simp del]

definition sha256_once :: "sha256_state \<Rightarrow> u8 list \<Rightarrow> u32 \<Rightarrow> sha256_state" where
  "sha256_once sctx data len = sha256_once_loop (sctx\<lparr>sha256_count := len\<rparr>) data len"

definition sha256_final :: "sha256_state \<Rightarrow> u8 list" where
  "sha256_final sctx =
     (let partial = unat (sha256_count sctx AND 0x3f);
          buf = (sha256_buf sctx)[partial := 0x80];
          partial = partial + 1;
          (st, buf, partial) =
            (if 56 < partial
             then (let buf = overwrite partial (replicate (64 - partial) 0) buf
                   in (sha256_transform (state sctx) buf, buf, 0))
             else (state sctx, buf, partial));
          buf = overwrite partial (replicate (56 - partial) 0) buf;
          buf = overwrite 56 (le_bytes 8 (bswap64 (push_bit 3 (ucast (sha256_count sctx))))) buf;
          st = sha256_transform st buf
      in concat (map (\<lambda>i. le_bytes 4 (bswap32 (st ! i))) [0..<8]))"

definition sha256sum :: "u8 list \<Rightarrow> u32 \<Rightarrow> u8 list" where
  "sha256sum data len = sha256_final (sha256_once sha256_init data len)"

section \<open>Reference: SHA-256 of FIPS 180-4\<close>

definition fips2_sigma0 :: "u32 \<Rightarrow> u32" where
  "fips2_sigma0 x = word_rotr 7 x XOR word_rotr 18 x XOR drop_bit 3 x"
definition fips2_sigma1 :: "u32 \<Rightarrow> u32" where
  "fips2_sigma1 x = word_rotr 17 x XOR word_rotr 19 x XOR drop_bit 10 x"
definition fips2_Sigma0 :: "u32 \<Rightarrow> u32" where
  "fips2_Sigma0 x = word_rotr 2 x XOR word_rotr 13 x XOR word_rotr 22 x"
definition fips2_Sigma1 :: "u32 \<Rightarrow> u32" where
  "fips2_Sigma1 x = word_rotr 6 x XOR word_rotr 11 x XOR word_rotr 25 x"

text \<open>
  The constants: the first 32 bits of the fractional parts of the cube roots of the first
  64 primes. \<open>iroot k ds r N\<close> finds a root digit by digit, \<open>ds\<close> being the weights of the
  binary digits from the highest down.
\<close>

primrec iroot :: "nat \<Rightarrow> int list \<Rightarrow> int \<Rightarrow> int \<Rightarrow> int" where
  "iroot k [] r N = r"
| "iroot k (d # ds) r N = iroot k ds (if (r + d) ^ k \<le> N then r + d else r) N"

definition binary_weights :: "nat \<Rightarrow> int list" where
  "binary_weights n = rev (map (\<lambda>i. 2 ^ i) [0..<n])"

definition fips2_primes :: "int list" where
  "fips2_primes = [2, 3, 5, 7, 11, 13, 17, 19, 23, 29, 31, 37, 41, 43, 47, 53] @
    [59, 61, 67, 71, 73, 79, 83, 89, 97, 101, 103, 107, 109, 113, 127, 131] @
    [137, 139, 149, 151, 157, 163, 167, 173, 179, 181, 191, 193, 197, 199, 211, 223] @
    [227, 229, 233, 239, 241, 251, 257, 263, 269, 271, 277, 281, 283, 293, 307, 311]"

definition fips2_K :: "u32 list" where
  "fips2_K = map (\<lambda>p. word_of_int (iroot 3 (binary_weights 35) 0 (p * 2 ^ 96))) fips2_primes"

fun fips2_W :: "u32 list \<Rightarrow> nat \<Rightarrow> u32" where
  "fips2_W ws t =
     (if t < 16 then ws ! t
      else fips2_sigma1 (fips2_W ws (t - 2)) + fips2_W ws (t - 7)
         + fips2_sigma0 (fips2_W ws (t - 15)) + fips2_W ws (t - 16))"

declare fips2_W.simps [simp del]

fun fips2_round :: "u32 list \<Rightarrow> nat \<Rightarrow> sha256_regs \<Rightarrow> sha256_regs" where
  "fips2_round ws t (a, b, c, d, e, f, g, h) =
     (let t1 = h + fips2_Sigma1 e + ((e AND f) XOR (NOT e AND g)) + fips2_K ! t + fips2_W ws t;
          t2 = fips2_Sigma0 a + ((a AND b) XOR (a AND c) XOR (b AND c))
      in (t1 + t2, a, b, c, d + t1, e, f, g))"

definition fips2_words :: "u8 list \<Rightarrow> u32 list" where
  "fips2_words blk = map (\<lambda>i. of_be (take 4 (drop (4 * i) blk))) [0..<16]"

fun fips2_compress :: "sha256_regs \<Rightarrow> u8 list \<Rightarrow> sha256_regs" where
  "fips2_compress (a0, b0, c0, d0, e0, f0, g0, h0) blk =
     (case fold (fips2_round (fips2_words blk)) [0..<64] (a0, b0, c0, d0, e0, f0, g0, h0) of
        (a, b, c, d, e, f, g, h) \<Rightarrow>
          (a0 + a, b0 + b, c0 + c, d0 + d, e0 + e, f0 + f, g0 + g, h0 + h))"

fun fips2_out :: "sha256_regs \<Rightarrow> u8 list" where
  "fips2_out (a, b, c, d, e, f, g, h) = concat (map (be_bytes 4) [a, b, c, d, e, f, g, h])"

definition fips256 :: "u8 list \<Rightarrow> u8 list" where
  "fips256 msg = fips2_out (md_fold fips2_compress
     (0x6a09e667, 0xbb67ae85, 0x3c6ef372, 0xa54ff53a,
      0x510e527f, 0x9b05688c, 0x1f83d9ab, 0x5be0cd19) (md_pad msg))"

section \<open>The constants\<close>

lemma binary_weights_Suc: "binary_weights (Suc n) = 2 ^ n # binary_weights n"
  by (simp add: binary_weights_def)

text \<open>\<open>iroot\<close> is the integer root.\<close>

lemma iroot_nonneg: "0 \<le> r \<Longrightarrow> 0 \<le> iroot k (binary_weights n) r N"
  by (induction n arbitrary: r) (simp_all add: binary_weights_Suc binary_weights_def [of 0])

lemma iroot_root:
  assumes "0 \<le> r" "r ^ k \<le> N" "N < (r + 2 ^ n) ^ k"
  shows "iroot k (binary_weights n) r N ^ k \<le> N \<and> N < (iroot k (binary_weights n) r N + 1) ^ k"
  using assms
proof (induction n arbitrary: r)
  case 0
  then show ?case by (simp add: binary_weights_def)
next
  case (Suc n)
  have "r + 2 ^ Suc n = (r + 2 ^ n) + 2 ^ n" by simp
  with Suc.prems Suc.IH [of r] Suc.IH [of "r + 2 ^ n"] show ?case
    by (simp add: binary_weights_Suc add.assoc)
qed

lemma iroot_eq:
  assumes "0 \<le> q" "q < 2 ^ n" "0 < k" "q ^ k \<le> N" "N < (q + 1) ^ k"
  shows "iroot k (binary_weights n) 0 N = q"
proof -
  let ?r = "iroot k (binary_weights n) 0 N"
  have "0 \<le> N" using order_trans [OF zero_le_power assms(4)] assms(1) by simp
  moreover have "N < (2 ^ n) ^ k"
    using less_le_trans [OF assms(5) power_mono [of "q + 1" "2 ^ n" k]] assms(1,2) by simp
  ultimately have r: "?r ^ k \<le> N" "N < (?r + 1) ^ k"
    using iroot_root [of 0 k N n] assms(3) by (simp_all add: zero_power)
  have "0 \<le> ?r" by (rule iroot_nonneg) simp
  then have "q < ?r + 1" "?r < q + 1"
    using power_less_imp_less_base [OF le_less_trans [OF assms(4) r(2)]]
      power_less_imp_less_base [OF le_less_trans [OF r(1) assms(5)]] assms(1) by simp_all
  then show ?thesis by simp
qed

text \<open>The roots: integer part and the 32 bits after the point.\<close>

definition fips2_roots :: "int list" where
  "fips2_roots = [
    5411319704, 6194414737, 7344290767, 8215976869, 9551921755, 10098905585, 11043570340, 11460697813,
    12214315672, 13195500289, 13492127166, 14311783875, 14809980276, 15046980094, 15499789991, 16133124468,
    16720292289, 16907126662, 17444216262, 17784676812, 17950125167, 18429019306, 18734950876, 19175934170,
    19734090066, 20001703533, 20132865992, 20390182855, 20516441075, 20764397895, 21588763473, 21813078375,
    22141143685, 22248366392, 22769593852, 22871018771, 23170020180, 23461497531, 23651862830, 23931792517,
    24205322401, 24295138891, 24734567280, 24820601251, 24990902297, 25075189284, 25569408389, 26045227120,
    26200031510, 26276752392, 26428864332, 26653801653, 26727943347, 27092625994, 27306805839, 27517677555,
    27725365998, 27793908591, 27997534228, 28131656200, 28198240250, 28526537963, 28973835255, 29099129074]"

lemma roots_ok:
  "list_all2 (\<lambda>p q. 0 \<le> q \<and> q < 2 ^ 35 \<and> q ^ 3 \<le> p * 2 ^ 96 \<and> p * 2 ^ 96 < (q + 1) ^ 3) fips2_primes fips2_roots"
  by (simp add: fips2_primes_def fips2_roots_def power3_eq_cube)

lemma fips2_K: "fips2_K = sha256_K"
proof -
  have "map (\<lambda>p. iroot 3 (binary_weights 35) 0 (p * 2 ^ 96)) fips2_primes = fips2_roots"
    using roots_ok
  proof (induction rule: list_all2_induct)
    case (Cons p ps q qs)
    then show ?case using iroot_eq [of q 35 3 "p * 2 ^ 96"] by simp
  qed simp
  then have k: "fips2_K = map word_of_int fips2_roots"
    unfolding fips2_K_def by (metis (mono_tags, lifting) map_map comp_apply map_eq_conv)
  show ?thesis unfolding k by (simp add: fips2_roots_def sha256_K_def)
qed

section \<open>The transform equals the reference compression\<close>

lemma ror32_is_rotr: "0 < n \<Longrightarrow> n < 32 \<Longrightarrow> ror32 x n = word_rotr n x"
  by (simp add: ror32_def shifts_rotr32)

lemma sha256_sigmas:
  "sha256_s0 = fips2_sigma0" "sha256_s1 = fips2_sigma1"
  "sha256_e0 = fips2_Sigma0" "sha256_e1 = fips2_Sigma1"
  by (auto simp: fun_eq_iff sha256_s0_def sha256_s1_def sha256_e0_def sha256_e1_def ror32_is_rotr
      fips2_sigma0_def fips2_sigma1_def fips2_Sigma0_def fips2_Sigma1_def)

lemma sha256_Ch_std: "sha256_Ch x y z = (x AND y) XOR (NOT x AND z)"
  by (rule bit_word_eqI) (auto simp: sha256_Ch_def bit_simps)

lemma sha256_Maj_std: "sha256_Maj x y z = (x AND y) XOR (x AND z) XOR (y AND z)"
  by (rule bit_word_eqI) (auto simp: sha256_Maj_def bit_simps)

lemma sha256_I_sub:
  "sha256_I (int i) = i mod 16"
  "k \<le> i \<Longrightarrow> sha256_I (int i - int k) = (i - k) mod 16"
  using and15_index [of 0 i] and15_index [of k i] by (simp_all add: sha256_I_def)

lemma sha256_blend_W:
  assumes c: "circ (fips2_W ws) i x"
  shows "sha256_blend x (int i) = (fips2_W ws i, x[i mod 16 := fips2_W ws i])"
proof -
  have i: "16 \<le> i" using c by (simp add: circ_def)
  have X: "sha256_I (int i - 2) = (i - 2) mod 16" "sha256_I (int i - 7) = (i - 7) mod 16"
    "sha256_I (int i - 15) = (i - 15) mod 16"
    using sha256_I_sub(2) [of 2 i] sha256_I_sub(2) [of 7 i] sha256_I_sub(2) [of 15 i] i by simp_all
  have W: "fips2_W ws i = fips2_W ws (i - 16) + (fips2_sigma1 (fips2_W ws (i - 2))
      + fips2_W ws (i - 7) + fips2_sigma0 (fips2_W ws (i - 15)))"
    using i by (subst fips2_W.simps) (simp add: ac_simps)
  show ?thesis
    unfolding sha256_blend_def W Let_def X sha256_I_sub(1) circ_oldest [OF c]
    using circ_nth [OF c, of 2] circ_nth [OF c, of 7] circ_nth [OF c, of 15]
    by (simp add: sha256_sigmas)
qed

text \<open>A line of the unrolled loop is a round, up to the names of the registers.\<close>

lemma sha256_line_round:
  "sha256_line a b c d e f g h (sha256_K ! t) (fips2_W ws t) = (d', h') \<Longrightarrow>
     fips2_round ws t (a, b, c, d, e, f, g, h) = (h', a, b, c, d', e, f, g)"
  by (auto simp: sha256_line_def Let_def sha256_sigmas sha256_Ch_std sha256_Maj_std fips2_K)

lemma upt8: "[i..<i + 8] = [i, Suc i, i + 2, i + 3, i + 4, i + 5, i + 6, i + 7]"
  by (simp add: upt_conv_Cons)

text \<open>
  Eight lines are eight rounds: the registers are threaded through the eight renamed
  calls and are back in their places at the end.
\<close>

lemma sha256_eight_rounds:
  obtains d1 h1 c1 g1 b1 f1 a1 e1 h2 d2 g2 c2 f2 b2 e2 a2 where
    "sha256_line a b c d e f g h (sha256_K ! i) (fips2_W ws i) = (d1, h1)"
    "sha256_line h1 a b c d1 e f g (sha256_K ! Suc i) (fips2_W ws (Suc i)) = (c1, g1)"
    "sha256_line g1 h1 a b c1 d1 e f (sha256_K ! (i + 2)) (fips2_W ws (i + 2)) = (b1, f1)"
    "sha256_line f1 g1 h1 a b1 c1 d1 e (sha256_K ! (i + 3)) (fips2_W ws (i + 3)) = (a1, e1)"
    "sha256_line e1 f1 g1 h1 a1 b1 c1 d1 (sha256_K ! (i + 4)) (fips2_W ws (i + 4)) = (h2, d2)"
    "sha256_line d2 e1 f1 g1 h2 a1 b1 c1 (sha256_K ! (i + 5)) (fips2_W ws (i + 5)) = (g2, c2)"
    "sha256_line c2 d2 e1 f1 g2 h2 a1 b1 (sha256_K ! (i + 6)) (fips2_W ws (i + 6)) = (f2, b2)"
    "sha256_line b2 c2 d2 e1 f2 g2 h2 a1 (sha256_K ! (i + 7)) (fips2_W ws (i + 7)) = (e2, a2)"
    "fold (fips2_round ws) [i..<i + 8] (a, b, c, d, e, f, g, h) = (a2, b2, c2, d2, e2, f2, g2, h2)"
proof -
  obtain d1 h1 where 1: "sha256_line a b c d e f g h (sha256_K ! i) (fips2_W ws i) = (d1, h1)"
    by fastforce
  obtain c1 g1 where 2: "sha256_line h1 a b c d1 e f g (sha256_K ! Suc i) (fips2_W ws (Suc i)) = (c1, g1)"
    by fastforce
  obtain b1 f1 where 3: "sha256_line g1 h1 a b c1 d1 e f (sha256_K ! (i + 2)) (fips2_W ws (i + 2)) = (b1, f1)"
    by fastforce
  obtain a1 e1 where 4: "sha256_line f1 g1 h1 a b1 c1 d1 e (sha256_K ! (i + 3)) (fips2_W ws (i + 3)) = (a1, e1)"
    by fastforce
  obtain h2 d2 where 5: "sha256_line e1 f1 g1 h1 a1 b1 c1 d1 (sha256_K ! (i + 4)) (fips2_W ws (i + 4)) = (h2, d2)"
    by fastforce
  obtain g2 c2 where 6: "sha256_line d2 e1 f1 g1 h2 a1 b1 c1 (sha256_K ! (i + 5)) (fips2_W ws (i + 5)) = (g2, c2)"
    by fastforce
  obtain f2 b2 where 7: "sha256_line c2 d2 e1 f1 g2 h2 a1 b1 (sha256_K ! (i + 6)) (fips2_W ws (i + 6)) = (f2, b2)"
    by fastforce
  obtain e2 a2 where 8: "sha256_line b2 c2 d2 e1 f2 g2 h2 a1 (sha256_K ! (i + 7)) (fips2_W ws (i + 7)) = (e2, a2)"
    by fastforce
  have "fold (fips2_round ws) [i..<i + 8] (a, b, c, d, e, f, g, h) = (a2, b2, c2, d2, e2, f2, g2, h2)"
    by (simp only: upt8 fold_simps sha256_line_round [OF 1] sha256_line_round [OF 2]
        sha256_line_round [OF 3] sha256_line_round [OF 4] sha256_line_round [OF 5]
        sha256_line_round [OF 6] sha256_line_round [OF 7] sha256_line_round [OF 8])
  with 1 2 3 4 5 6 7 8 show ?thesis by (rule that)
qed

lemma sha256_regs_cases:
  obtains a b c d e f g h where "(r :: sha256_regs) = (a, b, c, d, e, f, g, h)"
proof -
  obtain a b c d e f gh where "r = (a, b, c, d, e, f, gh)" by (cases r)
  moreover obtain g h where "gh = (g, h)" by (cases gh)
  ultimately show ?thesis by (auto intro: that)
qed

lemma nat_idx: "nat (int i + 1) = Suc i" "nat (int i + 2) = i + 2" "nat (int i + 3) = i + 3"
  "nat (int i + 4) = i + 4" "nat (int i + 5) = i + 5" "nat (int i + 6) = i + 6"
  "nat (int i + 7) = i + 7"
  by simp_all

lemma sha256_first_rounds:
  assumes x: "\<And>j. j < 16 \<Longrightarrow> x ! j = fips2_W ws j" and i: "i < 9"
  shows "sha256_first (int i) (x, r) = (x, fold (fips2_round ws) [i..<i + 8] r)"
proof -
  obtain a b c d e f g h where r: "r = (a, b, c, d, e, f, g, h)" by (rule sha256_regs_cases)
  have X: "x ! i = fips2_W ws i" "x ! Suc i = fips2_W ws (Suc i)"
    "x ! (i + 2) = fips2_W ws (i + 2)" "x ! (i + 3) = fips2_W ws (i + 3)"
    "x ! (i + 4) = fips2_W ws (i + 4)" "x ! (i + 5) = fips2_W ws (i + 5)"
    "x ! (i + 6) = fips2_W ws (i + 6)" "x ! (i + 7) = fips2_W ws (i + 7)"
    using x i by simp_all
  show ?thesis
    unfolding r by (rule sha256_eight_rounds [of a b c d e f g h i ws]) 
      (simp only: sha256_first.simps X nat_idx Let_def prod.case nat_int add_0_right)
qed

lemma sha256_rest_rounds:
  assumes c: "circ (fips2_W ws) i x"
  obtains x' where "circ (fips2_W ws) (i + 8) x'"
    and "sha256_rest (int i) (x, r) = (x', fold (fips2_round ws) [i..<i + 8] r)"
proof -
  obtain a b c0 d e f g h where r: "r = (a, b, c0, d, e, f, g, h)" by (rule sha256_regs_cases)
  define x1 where "x1 = x[i mod 16 := fips2_W ws i]"
  define x2 where "x2 = x1[Suc i mod 16 := fips2_W ws (Suc i)]"
  define x3 where "x3 = x2[(i + 2) mod 16 := fips2_W ws (i + 2)]"
  define x4 where "x4 = x3[(i + 3) mod 16 := fips2_W ws (i + 3)]"
  define x5 where "x5 = x4[(i + 4) mod 16 := fips2_W ws (i + 4)]"
  define x6 where "x6 = x5[(i + 5) mod 16 := fips2_W ws (i + 5)]"
  define x7 where "x7 = x6[(i + 6) mod 16 := fips2_W ws (i + 6)]"
  define x8 where "x8 = x7[(i + 7) mod 16 := fips2_W ws (i + 7)]"
  have s: "Suc (Suc i) = i + 2" "Suc (i + 2) = i + 3" "Suc (i + 3) = i + 4" "Suc (i + 4) = i + 5"
    "Suc (i + 5) = i + 6" "Suc (i + 6) = i + 7" "Suc (i + 7) = i + 8"
    by simp_all
  have c1: "circ (fips2_W ws) (Suc i) x1" unfolding x1_def by (rule circ_step [OF c])
  have c2: "circ (fips2_W ws) (i + 2) x2" using circ_step [OF c1] by (simp only: x2_def s)
  have c3: "circ (fips2_W ws) (i + 3) x3" using circ_step [OF c2] by (simp only: x3_def s)
  have c4: "circ (fips2_W ws) (i + 4) x4" using circ_step [OF c3] by (simp only: x4_def s)
  have c5: "circ (fips2_W ws) (i + 5) x5" using circ_step [OF c4] by (simp only: x5_def s)
  have c6: "circ (fips2_W ws) (i + 6) x6" using circ_step [OF c5] by (simp only: x6_def s)
  have c7: "circ (fips2_W ws) (i + 7) x7" using circ_step [OF c6] by (simp only: x7_def s)
  have c8: "circ (fips2_W ws) (i + 8) x8" using circ_step [OF c7] by (simp only: x8_def s)
  have b: "sha256_blend x (int i) = (fips2_W ws i, x1)"
    "sha256_blend x1 (int i + 1) = (fips2_W ws (Suc i), x2)"
    "sha256_blend x2 (int i + 2) = (fips2_W ws (i + 2), x3)"
    "sha256_blend x3 (int i + 3) = (fips2_W ws (i + 3), x4)"
    "sha256_blend x4 (int i + 4) = (fips2_W ws (i + 4), x5)"
    "sha256_blend x5 (int i + 5) = (fips2_W ws (i + 5), x6)"
    "sha256_blend x6 (int i + 6) = (fips2_W ws (i + 6), x7)"
    "sha256_blend x7 (int i + 7) = (fips2_W ws (i + 7), x8)"
    using sha256_blend_W [OF c] sha256_blend_W [OF c1] sha256_blend_W [OF c2]
      sha256_blend_W [OF c3] sha256_blend_W [OF c4] sha256_blend_W [OF c5]
      sha256_blend_W [OF c6] sha256_blend_W [OF c7]
    by (simp_all add: x1_def x2_def x3_def x4_def x5_def x6_def x7_def x8_def add.commute)
  have "sha256_rest (int i) (x, r) = (x8, fold (fips2_round ws) [i..<i + 8] r)"
    unfolding r
    by (rule sha256_eight_rounds [of a b c0 d e f g h i ws])
       (simp only: sha256_rest.simps b nat_idx Let_def prod.case nat_int add_0_right)
  with c8 show ?thesis by (rule that)
qed

lemma sha256_rest_loop:
  assumes "circ (fips2_W ws) i x"
  shows "\<exists>x'. circ (fips2_W ws) (i + 8 * n) x' \<and>
    fold sha256_rest (map (\<lambda>j. int (i + 8 * j)) [0..<n]) (x, r)
      = (x', fold (fips2_round ws) [i..<i + 8 * n] r)"
  using assms
proof (induction n)
  case 0
  then show ?case by auto
next
  case (Suc n)
  then obtain x' where c: "circ (fips2_W ws) (i + 8 * n) x'"
    and e: "fold sha256_rest (map (\<lambda>j. int (i + 8 * j)) [0..<n]) (x, r)
      = (x', fold (fips2_round ws) [i..<i + 8 * n] r)"
    by auto
  obtain x'' where "circ (fips2_W ws) (i + 8 * n + 8) x''"
    "sha256_rest (int (i + 8 * n)) (x', fold (fips2_round ws) [i..<i + 8 * n] r)
      = (x'', fold (fips2_round ws) [i + 8 * n..<i + 8 * n + 8] (fold (fips2_round ws) [i..<i + 8 * n] r))"
    by (rule sha256_rest_rounds [OF c])
  with e show ?case
    using fold_append_upt [of i "i + 8 * n" "i + 8 * Suc n" "fips2_round ws" r]
    by (auto simp: add.assoc [symmetric] add.commute [of 8])
qed

lemma sha256_load_words: "64 \<le> length data \<Longrightarrow> sha256_load data = fips2_words (take 64 data)"
  by (auto simp: sha256_load_def fips2_words_def drop_take min_def intro!: bswap32_of_le)

lemma sha256_rounds_all:
  assumes d: "64 \<le> length data"
  defines "ws \<equiv> fips2_words (take 64 data)"
  shows "\<exists>x'. fold sha256_rest [16, 24, 32, 40, 48, 56] (fold sha256_first [0, 8] (sha256_load data, r))
      = (x', fold (fips2_round ws) [0..<64] r)"
proof -
  let ?f = "fips2_round ws" and ?x = "sha256_load data"
  have x: "?x ! j = fips2_W ws j" if "j < 16" for j
    using that d by (subst fips2_W.simps) (simp add: sha256_load_words ws_def)
  have "fold sha256_first [0, 8] (?x, r) = (?x, fold ?f [8..<16] (fold ?f [0..<8] r))"
    using sha256_first_rounds [OF x, of 0] sha256_first_rounds [OF x, of 8] by simp
  then have A: "fold sha256_first [0, 8] (?x, r) = (?x, fold ?f [0..<16] r)"
    by (simp only: fold_append_upt [of 0 8 16])
  have c: "circ (fips2_W ws) 16 ?x"
    by (rule circ_start) (simp_all add: x, simp add: sha256_load_def)
  have "[0..<6] = [0, 1, 2, 3, 4, 5 :: nat]" by (simp add: numeral_eq_Suc)
  then have l: "map (\<lambda>j. int (16 + 8 * j)) [0..<6] = [16, 24, 32, 40, 48, 56]" by simp
  from sha256_rest_loop [OF c, of 6 "fold ?f [0..<16] r"] obtain x' where
    "fold sha256_rest [16, 24, 32, 40, 48, 56] (?x, fold ?f [0..<16] r)
       = (x', fold ?f [16..<64] (fold ?f [0..<16] r))"
    unfolding l by auto
  with A show ?thesis using fold_append_upt [of 0 16 64 ?f r] by auto
qed

section \<open>The interface and the digest\<close>

fun sha256_regs_of :: "u32 list \<Rightarrow> sha256_regs" where
  "sha256_regs_of s = (s ! 0, s ! 1, s ! 2, s ! 3, s ! 4, s ! 5, s ! 6, s ! 7)"

declare sha256_regs_of.simps [simp del]

lemma sha256_transform_compress:
  assumes "64 \<le> length data"
  shows "sha256_regs_of (sha256_transform s data) = fips2_compress (sha256_regs_of s) (take 64 data)"
proof -
  obtain a b c d e f g h where
    "fold (fips2_round (fips2_words (take 64 data))) [0..<64] (sha256_regs_of s) = (a, b, c, d, e, f, g, h)"
    by (rule sha256_regs_cases)
  with sha256_rounds_all [OF assms, of "sha256_regs_of s"] show ?thesis
    by (auto simp: sha256_transform_def sha256_regs_of.simps Let_def simp del: fold_simps)
qed

lemma sha256_block:
  "length d = 64 \<Longrightarrow> sha256_regs_of (sha256_transform s d) = fips2_compress (sha256_regs_of s) d"
  by (simp add: sha256_transform_compress)

lemma sha256_output:
  "concat (map (\<lambda>i. be_bytes 4 (s ! i)) [0..<8]) = fips2_out (sha256_regs_of s)"
proof -
  have "[0..<8] = [0, 1, 2, 3, 4, 5, 6, 7 :: nat]" by (simp add: numeral_eq_Suc)
  then show ?thesis by (simp add: sha256_regs_of.simps)
qed

lemma sha256_final_short:
  assumes b: "length (sha256_buf c) = 64" and p: "p = unat (sha256_count c) mod 64" and "p < 56"
  shows "sha256_final c = fips2_out (fips2_compress (sha256_regs_of (state c))
     (take p (sha256_buf c) @ [0x80] @ replicate (55 - p) 0
      @ be_bytes 8 (push_bit 3 (ucast (sha256_count c)) :: u64)))"
proof -
  have part: "unat (sha256_count c AND 0x3f) = p" by (simp add: p and_mask6)
  define w where "w = take p (sha256_buf c) @ [0x80] @ replicate (55 - p) 0
      @ be_bytes 8 (push_bit 3 (ucast (sha256_count c)) :: u64)"
  have w: "length w = 64" using b \<open>p < 56\<close> by (simp add: w_def)
  have "sha256_final c = fips2_out (sha256_regs_of (sha256_transform (state c) w))"
    using \<open>p < 56\<close> pad_short [OF b \<open>p < 56\<close>, of "be_bytes 8 (push_bit 3 (ucast (sha256_count c)) :: u64)"]
    by (simp add: sha256_final_def Let_def part w_def sha256_output del: upt.simps)
  also have "\<dots> = fips2_out (fips2_compress (sha256_regs_of (state c)) w)"
    by (simp only: sha256_block [OF w])
  finally show ?thesis by (simp only: w_def)
qed

lemma sha256_final_long:
  assumes b: "length (sha256_buf c) = 64" and p: "p = unat (sha256_count c) mod 64" and "\<not> p < 56"
  shows "sha256_final c = fips2_out (fips2_compress
     (fips2_compress (sha256_regs_of (state c)) (take p (sha256_buf c) @ [0x80] @ replicate (63 - p) 0))
     (replicate 56 0 @ be_bytes 8 (push_bit 3 (ucast (sha256_count c)) :: u64)))"
proof -
  have part: "unat (sha256_count c AND 0x3f) = p" by (simp add: p and_mask6)
  have "p < 64" by (simp add: p)
  define w where "w = take p (sha256_buf c) @ [0x80] @ replicate (63 - p) 0"
  define z where "z = be_bytes 8 (push_bit 3 (ucast (sha256_count c)) :: u64)"
  have w: "length w = 64" "length (replicate 56 0 @ z) = 64"
    using b \<open>p < 64\<close> by (simp_all add: w_def z_def)
  have "sha256_final c = fips2_out (sha256_regs_of
      (sha256_transform (sha256_transform (state c) w) (replicate 56 0 @ z)))"
    using \<open>\<not> p < 56\<close> pad_long [OF b \<open>p < 64\<close>] pad_second [OF w(1), of z]
    by (simp add: sha256_final_def Let_def part w_def z_def sha256_output del: upt.simps)
  also have "\<dots> = fips2_out (fips2_compress (fips2_compress (sha256_regs_of (state c)) w) (replicate 56 0 @ z))"
    by (simp only: sha256_block [OF w(1)] sha256_block [OF w(2)])
  finally show ?thesis by (simp only: w_def z_def)
qed

interpretation sha256: block_hash fips2_compress fips2_out "\<lambda>c. sha256_regs_of (state c)"
  sha256_buf sha256_count "\<lambda>c d. c\<lparr>state := sha256_transform (state c) d\<rparr>" sha256_once_loop sha256_final
  by unfold_locales
    (auto simp: sha256_transform_compress sha256_once_loop.simps sha256_final_short sha256_final_long
      simp del: fips2_out.simps split: if_splits)

lemma sha256sum_fips:
  assumes "unat len = length msg"
  shows "sha256sum msg len = fips256 msg"
proof -
  let ?c = "sha256_init\<lparr>sha256_count := len\<rparr>"
  have "length (sha256_buf ?c) = 64" "sha256_count ?c = len"
    "sha256_regs_of (state ?c) = (0x6a09e667, 0xbb67ae85, 0x3c6ef372, 0xa54ff53a,
      0x510e527f, 0x9b05688c, 0x1f83d9ab, 0x5be0cd19)"
    by (simp_all add: sha256_init_def sha256_regs_of.simps)
  then show ?thesis
    using sha256.digest_is_reference [of ?c len msg] assms
    by (simp add: sha256sum_def sha256_once_def fips256_def del: fips2_out.simps)
qed

text \<open>
  C14. SHA-256 is correct: for every message whose length fits the 32-bit length
  argument, the digest that \<^verbatim>\<open>sha256sum\<close> writes is the SHA-256 of FIPS 180-4.
\<close>

theorem sha256sum_is_sha256:
  assumes "unat len = length msg"
  shows "sha256sum msg len = fips256 msg"
  by (rule sha256sum_fips [OF assms])

theorem sha256sum_is_sha256_witness:
  "sha256sum [0x61, 0x62, 0x63] 3 = fips256 [0x61, 0x62, 0x63]"
  by (rule sha256sum_is_sha256) simp

end
