(* ===== verification/Hash_Eval.thy ===== *)
theory Hash_Eval
  imports Sha1 Sha256
begin

text \<open>
  Fast evaluation of the reference hashes: the rounds of SHA-1 and SHA-256 on integers, with the
  last sixteen words of the message schedule in a tuple, so that a digest of a concrete message
  is computed inside the kernel. \<open>eval1\<close> and \<open>eval256\<close> give the words of the digests.
\<close>

section \<open>Words as integers\<close>

type_synonym window = "int \<times> int \<times> int \<times> int \<times> int \<times> int \<times> int \<times> int
  \<times> int \<times> int \<times> int \<times> int \<times> int \<times> int \<times> int \<times> int"
type_synonym int5 = "int \<times> int \<times> int \<times> int \<times> int"
type_synonym int8 = "int \<times> int \<times> int \<times> int \<times> int \<times> int \<times> int \<times> int"

text \<open>\<open>rot (2 ^ n) (2 ^ (32 - n))\<close> rotates to the left by \<open>n\<close>; all powers are literals, for speed.\<close>

definition rot :: "int \<Rightarrow> int \<Rightarrow> int \<Rightarrow> int" where
  "rot p q x = (x * p) mod 0x100000000 OR x div q"

lemma uint_shl: "uint (push_bit n (x :: u32)) = (uint x * 2 ^ n) mod 2 ^ 32"
  by (simp only: unsigned_push_bit_eq) (simp only: push_bit_eq_mult, simp add: take_bit_eq_mod)

lemma uint_shr: "uint (drop_bit n (x :: u32)) = uint x div 2 ^ n"
  by (simp only: unsigned_drop_bit_eq) (use uint_lt2p [of x] in \<open>simp add: drop_bit_eq_div take_bit_eq_mod\<close>)

lemma uint_rotl: "0 < n \<Longrightarrow> n < 32 \<Longrightarrow> uint (word_rotl n (x :: u32)) = rot (2 ^ n) (2 ^ (32 - n)) (uint x)"
  by (simp add: rot_def shifts_rotl32 [symmetric] unsigned_or_eq uint_shl uint_shr)

lemma uint_rotr: "0 < n \<Longrightarrow> n < 32 \<Longrightarrow> uint (word_rotr n (x :: u32)) = rot (2 ^ (32 - n)) (2 ^ n) (uint x)"
  by (simp add: rot_def or.commute shifts_rotr32 [symmetric] unsigned_or_eq uint_shl uint_shr)

lemma uint_sum: "uint (x + y :: u32) = (uint x + uint y) mod 2 ^ 32"
  by (simp add: uint_word_ariths)

lemmas uint_logic = unsigned_xor_eq unsigned_and_eq unsigned_or_eq

lemma choose_xor: "(x AND y) XOR (NOT x AND z) = z XOR (x AND (y XOR z))" for x y z :: u32
  by (rule bit_word_eqI) (auto simp: bit_simps)

lemma majority_or: "(x AND y) XOR (x AND z) XOR (y AND z) = (x AND y) OR (z AND (x OR y))" for x y z :: u32
  by (rule bit_word_eqI) (auto simp: bit_simps)

text \<open>The window: sixteen words from \<open>t\<close> on.\<close>

definition window :: "(nat \<Rightarrow> u32) \<Rightarrow> nat \<Rightarrow> window" where
  "window W t = (uint (W t), uint (W (t + 1)), uint (W (t + 2)), uint (W (t + 3)), uint (W (t + 4)), uint (W (t + 5)),
     uint (W (t + 6)), uint (W (t + 7)), uint (W (t + 8)), uint (W (t + 9)), uint (W (t + 10)), uint (W (t + 11)),
     uint (W (t + 12)), uint (W (t + 13)), uint (W (t + 14)), uint (W (t + 15)))"

definition slide :: "int \<Rightarrow> window \<Rightarrow> window" where
  "slide x = (\<lambda>(w0, w1, w2, w3, w4, w5, w6, w7, w8, w9, w10, w11, w12, w13, w14, w15).
     (w1, w2, w3, w4, w5, w6, w7, w8, w9, w10, w11, w12, w13, w14, w15, x))"

lemma slide_window: "slide (uint (W (t + 16))) (window W t) = window W (Suc t)"
  by (simp add: slide_def window_def numeral_eq_Suc)

text \<open>A message as blocks of sixteen integers.\<close>

definition words_of :: "u8 list \<Rightarrow> u32 list" where
  "words_of blk = map (\<lambda>i. of_be (take 4 (drop (4 * i) blk))) [0..<16]"

function blocks_of :: "u8 list \<Rightarrow> window list" where
  "blocks_of bs = (if length bs < 64 then [] else window ((!) (words_of (take 64 bs))) 0 # blocks_of (drop 64 bs))"
  by pat_completeness auto
termination by (relation "measure length") auto

declare blocks_of.simps [simp del]

text \<open>A fold of a compression over the blocks of a message, on integers.\<close>

lemma md_fold_blocks:
  assumes c: "\<And>h blk. length blk = 64 \<Longrightarrow> U (f h blk) = g (window ((!) (words_of blk)) 0) (U h)"
  shows "U (md_fold f h bs) = fold g (blocks_of bs) (U h)"
proof (induction bs arbitrary: h rule: blocks_of.induct)
  case (1 bs)
  show ?case
  proof (cases "length bs < 64")
    case True
    then show ?thesis by (simp add: md_fold_short blocks_of.simps)
  next
    case False
    with 1 [of "f h (take 64 bs)"] c [of "take 64 bs" h] show ?thesis
      by (simp add: md_fold_long blocks_of.simps [of bs])
  qed
qed

section \<open>SHA-1\<close>

datatype phase = Choose | Parity | Majority

primrec phase_f :: "phase \<Rightarrow> int \<Rightarrow> int \<Rightarrow> int \<Rightarrow> int" where
  "phase_f Choose x y z = z XOR (x AND (y XOR z))"
| "phase_f Parity x y z = x XOR y XOR z"
| "phase_f Majority x y z = (x AND y) OR (z AND (x OR y))"

definition phases1 :: "(phase \<times> int) list" where
  "phases1 = replicate 20 (Choose, 0x5A827999) @ replicate 20 (Parity, 0x6ED9EBA1)
     @ replicate 20 (Majority, 0x8F1BBCDC) @ replicate 20 (Parity, 0xCA62C1D6)"

definition next_word1 :: "window \<Rightarrow> int" where
  "next_word1 = (\<lambda>(w0, w1, w2, w3, w4, w5, w6, w7, w8, w9, w10, w11, w12, w13, w14, w15).
     rot 0x2 0x80000000 (w13 XOR w8 XOR w2 XOR w0))"

definition next_regs1 :: "phase \<times> int \<Rightarrow> int \<Rightarrow> int5 \<Rightarrow> int5" where
  "next_regs1 = (\<lambda>(p, k) w (a, b, c, d, e).
     ((rot 0x20 0x8000000 a + phase_f p b c d + e + k + w) mod 0x100000000, a, rot 0x40000000 0x4 b, c, d))"

primrec run1 :: "(phase \<times> int) list \<Rightarrow> window \<Rightarrow> int5 \<Rightarrow> int5" where
  "run1 [] ws r = r"
| "run1 (p # ps) ws r = run1 ps (slide (next_word1 ws) ws) (next_regs1 p (fst ws) r)"

definition add5 :: "int5 \<Rightarrow> int5 \<Rightarrow> int5" where
  "add5 = (\<lambda>(a, b, c, d, e) (a', b', c', d', e').
     ((a + a') mod 0x100000000, (b + b') mod 0x100000000, (c + c') mod 0x100000000, (d + d') mod 0x100000000, (e + e') mod 0x100000000))"

definition block1 :: "window \<Rightarrow> int5 \<Rightarrow> int5" where
  "block1 ws r = add5 r (run1 phases1 ws r)"

definition uints5 :: "sha1_regs \<Rightarrow> int5" where
  "uints5 = (\<lambda>(a, b, c, d, e). (uint a, uint b, uint c, uint d, uint e))"

lemma next_word1: "next_word1 (window (fips1_W ws) t) = uint (fips1_W ws (t + 16))"
  by (subst fips1_W.simps) (simp add: next_word1_def window_def uint_rotl uint_logic add.commute)

lemma phases1_nth:
  assumes "t < 80"
  shows "phases1 ! t = (if t < 20 then Choose else if t < 40 then Parity else if t < 60 then Majority else Parity, uint (fips1_K t))"
  using assms by (auto simp: phases1_def nth_append fips1_K_def)

lemma next_regs1:
  assumes "t < 80"
  shows "next_regs1 (phases1 ! t) (uint (fips1_W ws t)) (uints5 r) = uints5 (fips1_round ws t r)"
  by (cases r)
    (simp add: phases1_nth [OF assms] next_regs1_def uints5_def fips1_f_def choose_xor majority_or uint_rotl uint_sum uint_logic
      mod_simps cong: if_cong)

lemma run1:
  assumes "t + n = 80"
  shows "run1 (drop t phases1) (window (fips1_W ws) t) (uints5 r) = uints5 (fold (fips1_round ws) [t..<80] r)"
  using assms
proof (induction n arbitrary: t r)
  case 0
  then show ?case by (simp add: phases1_def)
next
  case (Suc n)
  have "length phases1 = 80" by (simp add: phases1_def)
  then have "drop t phases1 = phases1 ! t # drop (Suc t) phases1" using Suc.prems by (simp add: Cons_nth_drop_Suc)
  moreover have "fst (window (fips1_W ws) t) = uint (fips1_W ws t)" by (simp add: window_def)
  moreover have "[t..<80] = t # [Suc t..<80]" using Suc.prems by (simp add: upt_conv_Cons)
  ultimately show ?case
    using Suc.IH [of "Suc t" "fips1_round ws t r"] Suc.prems
    by (simp add: next_word1 slide_window next_regs1 del: fips1_round.simps)
qed

lemma block1:
  assumes "length blk = 64"
  shows "uints5 (fips1_compress h blk) = block1 (window ((!) (words_of blk)) 0) (uints5 h)"
proof -
  have w: "fips1_words blk = words_of blk" by (simp add: fips1_words_def words_of_def)
  have "window (fips1_W (words_of blk)) 0 = window ((!) (words_of blk)) 0"
    by (simp add: window_def fips1_W.simps)
  then show ?thesis
    using run1 [of 0 80 "words_of blk" h]
    by (cases h, cases "fold (fips1_round (words_of blk)) [0..<80] h")
      (simp add: block1_def w add5_def uints5_def uint_sum)
qed

definition eval1 :: "window list \<Rightarrow> int5" where
  "eval1 bs = fold block1 bs (0x67452301, 0xefcdab89, 0x98badcfe, 0x10325476, 0xc3d2e1f0)"

lemma fips1_eval:
  assumes "blocks_of (md_pad msg) = bs" and "eval1 bs = uints5 (a, b, c, d, e)"
  shows "fips1 msg = concat (map (be_bytes 4) [a, b, c, d, e])"
proof -
  let ?h = "md_fold fips1_compress (0x67452301, 0xefcdab89, 0x98badcfe, 0x10325476, 0xc3d2e1f0) (md_pad msg)"
  have "uints5 ?h = uints5 (a, b, c, d, e)"
    by (subst md_fold_blocks [where g = block1, OF block1]) (use assms in \<open>simp_all add: uints5_def eval1_def\<close>)
  then have "?h = (a, b, c, d, e)" by (cases ?h) (simp add: uints5_def flip: word_uint_eq_iff)
  then show ?thesis by (simp add: fips1_def)
qed

section \<open>SHA-256\<close>

definition next_word2 :: "window \<Rightarrow> int" where
  "next_word2 = (\<lambda>(w0, w1, w2, w3, w4, w5, w6, w7, w8, w9, w10, w11, w12, w13, w14, w15).
     ((rot 0x8000 0x20000 w14 XOR rot 0x2000 0x80000 w14 XOR w14 div 0x400) + w9 + (rot 0x2000000 0x80 w1 XOR rot 0x4000 0x40000 w1 XOR w1 div 8) + w0) mod 0x100000000)"

definition sum_e :: "int \<Rightarrow> int8 \<Rightarrow> int" where
  "sum_e kw = (\<lambda>(a, b, c, d, e, f, g, h).
     (h + (rot 0x4000000 0x40 e XOR rot 0x200000 0x800 e XOR rot 0x80 0x2000000 e) + (g XOR (e AND (f XOR g))) + kw) mod 0x100000000)"

definition sum_a :: "int8 \<Rightarrow> int" where
  "sum_a = (\<lambda>(a, b, c, d, e, f, g, h).
     (rot 0x40000000 0x4 a XOR rot 0x80000 0x2000 a XOR rot 0x400 0x400000 a) + ((a AND b) OR (c AND (a OR b))))"

definition next_regs2 :: "int \<Rightarrow> int \<Rightarrow> int8 \<Rightarrow> int8" where
  "next_regs2 t1 t2 = (\<lambda>(a, b, c, d, e, f, g, h). ((t1 + t2) mod 0x100000000, a, b, c, (d + t1) mod 0x100000000, e, f, g))"

primrec run2 :: "int list \<Rightarrow> window \<Rightarrow> int8 \<Rightarrow> int8" where
  "run2 [] ws r = r"
| "run2 (k # ks) ws r = run2 ks (slide (next_word2 ws) ws) (next_regs2 (sum_e (k + fst ws) r) (sum_a r) r)"

definition keys2 :: "int list" where "keys2 = map uint sha256_K"

definition add8 :: "int8 \<Rightarrow> int8 \<Rightarrow> int8" where
  "add8 = (\<lambda>(a, b, c, d, e, f, g, h) (a', b', c', d', e', f', g', h').
     ((a + a') mod 0x100000000, (b + b') mod 0x100000000, (c + c') mod 0x100000000, (d + d') mod 0x100000000,
      (e + e') mod 0x100000000, (f + f') mod 0x100000000, (g + g') mod 0x100000000, (h + h') mod 0x100000000))"

definition block2 :: "window \<Rightarrow> int8 \<Rightarrow> int8" where
  "block2 ws r = add8 r (run2 keys2 ws r)"

definition uints8 :: "sha256_regs \<Rightarrow> int8" where
  "uints8 = (\<lambda>(a, b, c, d, e, f, g, h). (uint a, uint b, uint c, uint d, uint e, uint f, uint g, uint h))"

lemma next_word2: "next_word2 (window (fips2_W ws) t) = uint (fips2_W ws (t + 16))"
  by (subst fips2_W.simps)
    (simp add: next_word2_def window_def uint_rotr uint_shr uint_logic uint_sum fips2_sigma0_def fips2_sigma1_def add.commute mod_simps)

lemma next_regs2:
  assumes "t < 64"
  shows "next_regs2 (sum_e (keys2 ! t + uint (fips2_W ws t)) (uints8 r)) (sum_a (uints8 r)) (uints8 r) = uints8 (fips2_round ws t r)"
proof -
  have "length sha256_K = 64" by (simp add: sha256_K_def)
  then have "keys2 ! t = uint (fips2_K ! t)" using assms by (simp add: keys2_def fips2_K)
  then show ?thesis
    by (cases r rule: sha256_regs_cases)
      (simp add: next_regs2_def sum_e_def sum_a_def uints8_def choose_xor majority_or uint_rotr uint_sum uint_logic
        fips2_Sigma0_def fips2_Sigma1_def Let_def mod_simps, simp add: add_ac)
qed

lemma run2:
  assumes "t + n = 64"
  shows "run2 (drop t keys2) (window (fips2_W ws) t) (uints8 r) = uints8 (fold (fips2_round ws) [t..<64] r)"
  using assms
proof (induction n arbitrary: t r)
  case 0
  then show ?case by (simp add: keys2_def sha256_K_def)
next
  case (Suc n)
  have "length keys2 = 64" by (simp add: keys2_def sha256_K_def)
  then have "drop t keys2 = keys2 ! t # drop (Suc t) keys2" using Suc.prems by (simp add: Cons_nth_drop_Suc)
  moreover have "fst (window (fips2_W ws) t) = uint (fips2_W ws t)" by (simp add: window_def)
  moreover have "[t..<64] = t # [Suc t..<64]" using Suc.prems by (simp add: upt_conv_Cons)
  ultimately show ?case
    using Suc.IH [of "Suc t" "fips2_round ws t r"] Suc.prems
    by (simp add: next_word2 slide_window next_regs2 del: fips2_round.simps)
qed

lemma block2:
  assumes "length blk = 64"
  shows "uints8 (fips2_compress h blk) = block2 (window ((!) (words_of blk)) 0) (uints8 h)"
proof -
  have w: "fips2_words blk = words_of blk" by (simp add: fips2_words_def words_of_def)
  have "window (fips2_W (words_of blk)) 0 = window ((!) (words_of blk)) 0"
    by (simp add: window_def fips2_W.simps)
  then show ?thesis
    using run2 [of 0 64 "words_of blk" h]
    by (cases h rule: sha256_regs_cases, cases "fold (fips2_round (words_of blk)) [0..<64] h" rule: sha256_regs_cases)
      (simp add: block2_def w add8_def uints8_def uint_sum)
qed

definition eval256 :: "window list \<Rightarrow> int8" where
  "eval256 bs = fold block2 bs (0x6a09e667, 0xbb67ae85, 0x3c6ef372, 0xa54ff53a,
      0x510e527f, 0x9b05688c, 0x1f83d9ab, 0x5be0cd19)"

lemma fips256_eval:
  assumes "blocks_of (md_pad msg) = bs" and "eval256 bs = uints8 (a, b, c, d, e, f, g, h)"
  shows "fips256 msg = concat (map (be_bytes 4) [a, b, c, d, e, f, g, h])"
proof -
  let ?h = "md_fold fips2_compress (0x6a09e667, 0xbb67ae85, 0x3c6ef372, 0xa54ff53a,
      0x510e527f, 0x9b05688c, 0x1f83d9ab, 0x5be0cd19) (md_pad msg)"
  have "uints8 ?h = uints8 (a, b, c, d, e, f, g, h)"
    by (subst md_fold_blocks [where g = block2, OF block2]) (use assms in \<open>simp_all add: uints8_def eval256_def\<close>)
  then have "?h = (a, b, c, d, e, f, g, h)" by (cases ?h rule: sha256_regs_cases) (simp add: uints8_def flip: word_uint_eq_iff)
  then show ?thesis by (simp add: fips256_def)
qed

end
