(* ===== verification/Hash_Tests.thy ===== *)
theory Hash_Tests
  imports Hash_Eval
begin

text \<open>
  The programs \<^verbatim>\<open>test-sha1.c\<close> and \<^verbatim>\<open>test-sha256.c\<close>: their tables of messages and digests, the loop
  over them and the text they print. Every block of every message is evaluated once, so that the
  programs, and with them the reference hashes, are known to give the published digests.
\<close>

section \<open>The programs\<close>

record 'w hash_test =
  msg :: string
  hash :: "'w list"

text \<open>\<^verbatim>\<open>HASH\<close> of the two files: the digits as written, stored big endian.\<close>

definition sha1_HASH :: "u32 list \<Rightarrow> u32 list" where "sha1_HASH = map bswap32"
definition sha256_HASH :: "u64 list \<Rightarrow> u64 list" where "sha256_HASH = map bswap64"

definition sha1_tests :: "u32 hash_test list" where
  "sha1_tests = [
    \<lparr>msg = '''', hash = sha1_HASH [0xda39a3ee, 0x5e6b4b0d, 0x3255bfef, 0x95601890, 0xafd80709]\<rparr>,
    \<lparr>msg = ''a'', hash = sha1_HASH [0x86f7e437, 0xfaa5a7fc, 0xe15d1ddc, 0xb9eaeaea, 0x377667b8]\<rparr>,
    \<lparr>msg = ''abc'', hash = sha1_HASH [0xa9993e36, 0x4706816a, 0xba3e2571, 0x7850c26c, 0x9cd0d89d]\<rparr>,
    \<lparr>msg = ''The quick brown fox jumps over the lazy dog'',
      hash = sha1_HASH [0x2fd4e1c6, 0x7a2d28fc, 0xed849ee1, 0xbb76e739, 0x1b93eb12]\<rparr>,
    \<lparr>msg = ''                                        '',
      hash = sha1_HASH [0x108a95c4, 0x27e99c98, 0xffec5980, 0xf74ae18d, 0xd7e6a6f1]\<rparr>,
    \<lparr>msg = ''                                                  '',
      hash = sha1_HASH [0x346729de, 0xbaf8c9e1, 0x042ae6e3, 0x82768fc2, 0xc172c351]\<rparr>,
    \<lparr>msg = ''                                                            '',
      hash = sha1_HASH [0x3c82ec78, 0xda97a701, 0x6b999152, 0x468f3488, 0x16c55e28]\<rparr>,
    \<lparr>msg = ''                                                                      '',
      hash = sha1_HASH [0x6f2a4b80, 0x7e4fd5ac, 0xcdae059f, 0x9ec553b1, 0xa6872a27]\<rparr>]"

definition sha256_tests :: "u64 hash_test list" where
  "sha256_tests = [
    \<lparr>msg = '''', hash = sha256_HASH [0xe3b0c44298fc1c14, 0x9afbf4c8996fb924, 0x27ae41e4649b934c, 0xa495991b7852b855]\<rparr>,
    \<lparr>msg = ''a'', hash = sha256_HASH [0xca978112ca1bbdca, 0xfac231b39a23dc4d, 0xa786eff8147c4e72, 0xb9807785afee48bb]\<rparr>,
    \<lparr>msg = ''abc'', hash = sha256_HASH [0xba7816bf8f01cfea, 0x414140de5dae2223, 0xb00361a396177a9c, 0xb410ff61f20015ad]\<rparr>,
    \<lparr>msg = ''The quick brown fox jumps over the lazy dog'',
      hash = sha256_HASH [0xd7a8fbb307d78094, 0x69ca9abcb0082e4f, 0x8d5651e46d3cdb76, 0x2d02d0bf37c9e592]\<rparr>,
    \<lparr>msg = ''                                        '',
      hash = sha256_HASH [0x7ea876d646ae9ac0, 0xdc26b5dade35c8ca, 0x70498aaef0464db2, 0x247d0afbe823d62d]\<rparr>,
    \<lparr>msg = ''                                                  '',
      hash = sha256_HASH [0x4c38d6d8bd1c5a30, 0x61e0c20067679faa, 0x28868831d7b83880, 0x0e3b64729af34354]\<rparr>,
    \<lparr>msg = ''                                                            '',
      hash = sha256_HASH [0x6a9c3911d69fdb86, 0xd4b5a6b93dbdd9d5, 0xd3b1125551416b7a, 0xf129b29936ae48e2]\<rparr>,
    \<lparr>msg = ''                                                                      '',
      hash = sha256_HASH [0xf5d88515972d5d9b, 0xdf69f17f5cfde6d0, 0x33357f359c155efb, 0xdf18ca64a6dd6335]\<rparr>]"

text \<open>\<^verbatim>\<open>printf\<close> of a number in hexadecimal, padded with zeros to \<open>n\<close> digits.\<close>

definition hex_text :: "nat \<Rightarrow> nat \<Rightarrow> string" where
  "hex_text n v = map (\<lambda>i. ''0123456789abcdef'' ! (v div 16 ^ (n - 1 - i) mod 16)) [0..<n]"

definition newline :: string where "newline = [CHR 0x0A]"

definition sha1_dump_hash :: "u32 list \<Rightarrow> string" where
  "sha1_dump_hash h = concat (map (\<lambda>j. hex_text 8 (unat (bswap32 (h ! j)))) [0..<5])"

definition sha256_dump_hash :: "u64 list \<Rightarrow> string" where
  "sha256_dump_hash h = concat (map (\<lambda>j. hex_text 16 (unat (bswap64 (h ! j)))) [0..<4])"

text \<open>
  One iteration of a loop, on the flag \<^verbatim>\<open>fail\<close> and the text printed so far. The array \<^verbatim>\<open>hash\<close> holds the
  bytes that the hash function wrote; \<^verbatim>\<open>memcmp\<close> compares it with the one of the table.
\<close>

definition sha1_test_step :: "u32 hash_test \<Rightarrow> bool \<times> string \<Rightarrow> bool \<times> string" where
  "sha1_test_step t = (\<lambda>(fail, out).
     (let got = sha1sum (ascii (msg t)) (of_nat (length (msg t)));
          got_words = map (\<lambda>j. of_le (take 4 (drop (4 * j) got))) [0..<5]
      in if got = concat (map (le_bytes 4) (hash t)) then (fail, out)
         else (True, out @ ''Fail: Message '' @ [CHR 0x27] @ msg t @ [CHR 0x27] @ newline @ ''  Got:      ''
           @ sha1_dump_hash got_words @ newline @ ''  Expected: '' @ sha1_dump_hash (hash t) @ newline)))"

definition sha256_test_step :: "u64 hash_test \<Rightarrow> bool \<times> string \<Rightarrow> bool \<times> string" where
  "sha256_test_step t = (\<lambda>(fail, out).
     (let got = sha256sum (ascii (msg t)) (of_nat (length (msg t)));
          got_words = map (\<lambda>j. of_le (take 8 (drop (8 * j) got))) [0..<4]
      in if got = concat (map (le_bytes 8) (hash t)) then (fail, out)
         else (True, out @ ''Fail: Message '' @ [CHR 0x27] @ msg t @ [CHR 0x27] @ newline @ ''  Got:      ''
           @ sha256_dump_hash got_words @ newline @ ''  Expected: '' @ sha256_dump_hash (hash t) @ newline)))"

text \<open>\<^verbatim>\<open>main\<close>: the exit status, which is true for failure, and the text.\<close>

definition sha1_test_main :: "bool \<times> string" where
  "sha1_test_main =
     (let (fail, out) = fold sha1_test_step sha1_tests (False, '''')
      in (fail, if fail then out else out @ ''All ok'' @ newline))"

definition sha256_test_main :: "bool \<times> string" where
  "sha256_test_main =
     (let (fail, out) = fold sha256_test_step sha256_tests (False, '''')
      in (fail, if fail then out else out @ ''All ok'' @ newline))"

section \<open>The blocks of the messages\<close>

lemma blocks_empty:
  "blocks_of (md_pad (ascii '''')) =
     [(0x80000000, 0, 0, 0, 0, 0, 0, 0, 0, 0, 0, 0, 0, 0, 0, 0)]"
  by code_simp

lemma blocks_a:
  "blocks_of (md_pad (ascii ''a'')) =
     [(0x61800000, 0, 0, 0, 0, 0, 0, 0, 0, 0, 0, 0, 0, 0, 0, 8)]"
  by code_simp

lemma blocks_abc:
  "blocks_of (md_pad (ascii ''abc'')) =
     [(0x61626380, 0, 0, 0, 0, 0, 0, 0, 0, 0, 0, 0, 0, 0, 0, 0x18)]"
  by code_simp

lemma blocks_fox:
  "blocks_of (md_pad (ascii ''The quick brown fox jumps over the lazy dog'')) =
     [(0x54686520, 0x71756963, 0x6b206272, 0x6f776e20, 0x666f7820, 0x6a756d70, 0x73206f76, 0x65722074, 0x6865206c,
      0x617a7920, 0x646f6780, 0, 0, 0, 0, 0x158)]"
  by code_simp

lemma blocks_s40:
  "blocks_of (md_pad (ascii ''                                        '')) =
     [(0x20202020, 0x20202020, 0x20202020, 0x20202020, 0x20202020, 0x20202020, 0x20202020, 0x20202020, 0x20202020,
      0x20202020, 0x80000000, 0, 0, 0, 0, 0x140)]"
  by code_simp

lemma blocks_s50:
  "blocks_of (md_pad (ascii ''                                                  '')) =
     [(0x20202020, 0x20202020, 0x20202020, 0x20202020, 0x20202020, 0x20202020, 0x20202020, 0x20202020, 0x20202020,
      0x20202020, 0x20202020, 0x20202020, 0x20208000, 0, 0, 0x190)]"
  by code_simp

lemma blocks_s60:
  "blocks_of (md_pad (ascii ''                                                            '')) =
     [(0x20202020, 0x20202020, 0x20202020, 0x20202020, 0x20202020, 0x20202020, 0x20202020, 0x20202020, 0x20202020,
      0x20202020, 0x20202020, 0x20202020, 0x20202020, 0x20202020, 0x20202020, 0x80000000), (0, 0, 0, 0, 0, 0, 0, 0,
      0, 0, 0, 0, 0, 0, 0, 0x1e0)]"
  by code_simp

lemma blocks_s70:
  "blocks_of (md_pad (ascii ''                                                                      '')) =
     [(0x20202020, 0x20202020, 0x20202020, 0x20202020, 0x20202020, 0x20202020, 0x20202020, 0x20202020, 0x20202020,
      0x20202020, 0x20202020, 0x20202020, 0x20202020, 0x20202020, 0x20202020, 0x20202020), (0x20202020, 0x20208000,
      0, 0, 0, 0, 0, 0, 0, 0, 0, 0, 0, 0, 0, 0x230)]"
  by code_simp

section \<open>Their digests\<close>

lemma sha1_empty_0:
  "block1 (0x80000000, 0, 0, 0, 0, 0, 0, 0, 0, 0, 0, 0, 0, 0, 0, 0)
     (0x67452301, 0xefcdab89, 0x98badcfe, 0x10325476, 0xc3d2e1f0)
   = (0xda39a3ee, 0x5e6b4b0d, 0x3255bfef, 0x95601890, 0xafd80709)"
  by code_simp

lemma sha1_empty:
  "fips1 (ascii '''') = concat (map (be_bytes 4)
     [0xda39a3ee, 0x5e6b4b0d, 0x3255bfef, 0x95601890, 0xafd80709 :: u32])"
  by (rule fips1_eval [OF blocks_empty]) (simp add: eval1_def sha1_empty_0 uints5_def)

lemma sha1_a_0:
  "block1 (0x61800000, 0, 0, 0, 0, 0, 0, 0, 0, 0, 0, 0, 0, 0, 0, 8)
     (0x67452301, 0xefcdab89, 0x98badcfe, 0x10325476, 0xc3d2e1f0)
   = (0x86f7e437, 0xfaa5a7fc, 0xe15d1ddc, 0xb9eaeaea, 0x377667b8)"
  by code_simp

lemma sha1_a:
  "fips1 (ascii ''a'') = concat (map (be_bytes 4)
     [0x86f7e437, 0xfaa5a7fc, 0xe15d1ddc, 0xb9eaeaea, 0x377667b8 :: u32])"
  by (rule fips1_eval [OF blocks_a]) (simp add: eval1_def sha1_a_0 uints5_def)

lemma sha1_abc_0:
  "block1 (0x61626380, 0, 0, 0, 0, 0, 0, 0, 0, 0, 0, 0, 0, 0, 0, 0x18)
     (0x67452301, 0xefcdab89, 0x98badcfe, 0x10325476, 0xc3d2e1f0)
   = (0xa9993e36, 0x4706816a, 0xba3e2571, 0x7850c26c, 0x9cd0d89d)"
  by code_simp

lemma sha1_abc:
  "fips1 (ascii ''abc'') = concat (map (be_bytes 4)
     [0xa9993e36, 0x4706816a, 0xba3e2571, 0x7850c26c, 0x9cd0d89d :: u32])"
  by (rule fips1_eval [OF blocks_abc]) (simp add: eval1_def sha1_abc_0 uints5_def)

lemma sha1_fox_0:
  "block1 (0x54686520, 0x71756963, 0x6b206272, 0x6f776e20, 0x666f7820, 0x6a756d70, 0x73206f76, 0x65722074, 0x6865206c,
      0x617a7920, 0x646f6780, 0, 0, 0, 0, 0x158)
     (0x67452301, 0xefcdab89, 0x98badcfe, 0x10325476, 0xc3d2e1f0)
   = (0x2fd4e1c6, 0x7a2d28fc, 0xed849ee1, 0xbb76e739, 0x1b93eb12)"
  by code_simp

lemma sha1_fox:
  "fips1 (ascii ''The quick brown fox jumps over the lazy dog'') = concat (map (be_bytes 4)
     [0x2fd4e1c6, 0x7a2d28fc, 0xed849ee1, 0xbb76e739, 0x1b93eb12 :: u32])"
  by (rule fips1_eval [OF blocks_fox]) (simp add: eval1_def sha1_fox_0 uints5_def)

lemma sha1_s40_0:
  "block1 (0x20202020, 0x20202020, 0x20202020, 0x20202020, 0x20202020, 0x20202020, 0x20202020, 0x20202020, 0x20202020,
      0x20202020, 0x80000000, 0, 0, 0, 0, 0x140)
     (0x67452301, 0xefcdab89, 0x98badcfe, 0x10325476, 0xc3d2e1f0)
   = (0x108a95c4, 0x27e99c98, 0xffec5980, 0xf74ae18d, 0xd7e6a6f1)"
  by code_simp

lemma sha1_s40:
  "fips1 (ascii ''                                        '') = concat (map (be_bytes 4)
     [0x108a95c4, 0x27e99c98, 0xffec5980, 0xf74ae18d, 0xd7e6a6f1 :: u32])"
  by (rule fips1_eval [OF blocks_s40]) (simp add: eval1_def sha1_s40_0 uints5_def)

lemma sha1_s50_0:
  "block1 (0x20202020, 0x20202020, 0x20202020, 0x20202020, 0x20202020, 0x20202020, 0x20202020, 0x20202020, 0x20202020,
      0x20202020, 0x20202020, 0x20202020, 0x20208000, 0, 0, 0x190)
     (0x67452301, 0xefcdab89, 0x98badcfe, 0x10325476, 0xc3d2e1f0)
   = (0x346729de, 0xbaf8c9e1, 0x42ae6e3, 0x82768fc2, 0xc172c351)"
  by code_simp

lemma sha1_s50:
  "fips1 (ascii ''                                                  '') = concat (map (be_bytes 4)
     [0x346729de, 0xbaf8c9e1, 0x42ae6e3, 0x82768fc2, 0xc172c351 :: u32])"
  by (rule fips1_eval [OF blocks_s50]) (simp add: eval1_def sha1_s50_0 uints5_def)

lemma sha1_s60_0:
  "block1 (0x20202020, 0x20202020, 0x20202020, 0x20202020, 0x20202020, 0x20202020, 0x20202020, 0x20202020, 0x20202020,
      0x20202020, 0x20202020, 0x20202020, 0x20202020, 0x20202020, 0x20202020, 0x80000000)
     (0x67452301, 0xefcdab89, 0x98badcfe, 0x10325476, 0xc3d2e1f0)
   = (0x71f0fe28, 0xff8c4c7d, 0x4551dbf6, 0x70526e6c, 0x4067ffb3)"
  by code_simp

lemma sha1_s60_1:
  "block1 (0, 0, 0, 0, 0, 0, 0, 0, 0, 0, 0, 0, 0, 0, 0, 0x1e0)
     (0x71f0fe28, 0xff8c4c7d, 0x4551dbf6, 0x70526e6c, 0x4067ffb3)
   = (0x3c82ec78, 0xda97a701, 0x6b999152, 0x468f3488, 0x16c55e28)"
  by code_simp

lemma sha1_s60:
  "fips1 (ascii ''                                                            '') = concat (map (be_bytes 4)
     [0x3c82ec78, 0xda97a701, 0x6b999152, 0x468f3488, 0x16c55e28 :: u32])"
  by (rule fips1_eval [OF blocks_s60]) (simp add: eval1_def sha1_s60_0 sha1_s60_1 uints5_def)

lemma sha1_s70_0:
  "block1 (0x20202020, 0x20202020, 0x20202020, 0x20202020, 0x20202020, 0x20202020, 0x20202020, 0x20202020, 0x20202020,
      0x20202020, 0x20202020, 0x20202020, 0x20202020, 0x20202020, 0x20202020, 0x20202020)
     (0x67452301, 0xefcdab89, 0x98badcfe, 0x10325476, 0xc3d2e1f0)
   = (0xda3d2964, 0x2954831e, 0x9a980293, 0x74d67c01, 0x903a5d15)"
  by code_simp

lemma sha1_s70_1:
  "block1 (0x20202020, 0x20208000, 0, 0, 0, 0, 0, 0, 0, 0, 0, 0, 0, 0, 0, 0x230)
     (0xda3d2964, 0x2954831e, 0x9a980293, 0x74d67c01, 0x903a5d15)
   = (0x6f2a4b80, 0x7e4fd5ac, 0xcdae059f, 0x9ec553b1, 0xa6872a27)"
  by code_simp

lemma sha1_s70:
  "fips1 (ascii ''                                                                      '') = concat (map (be_bytes 4)
     [0x6f2a4b80, 0x7e4fd5ac, 0xcdae059f, 0x9ec553b1, 0xa6872a27 :: u32])"
  by (rule fips1_eval [OF blocks_s70]) (simp add: eval1_def sha1_s70_0 sha1_s70_1 uints5_def)

lemma sha256_empty_0:
  "block2 (0x80000000, 0, 0, 0, 0, 0, 0, 0, 0, 0, 0, 0, 0, 0, 0, 0)
     (0x6a09e667, 0xbb67ae85, 0x3c6ef372, 0xa54ff53a, 0x510e527f, 0x9b05688c, 0x1f83d9ab, 0x5be0cd19)
   = (0xe3b0c442, 0x98fc1c14, 0x9afbf4c8, 0x996fb924, 0x27ae41e4, 0x649b934c, 0xa495991b, 0x7852b855)"
  by code_simp

lemma sha256_empty:
  "fips256 (ascii '''') = concat (map (be_bytes 4)
     [0xe3b0c442, 0x98fc1c14, 0x9afbf4c8, 0x996fb924, 0x27ae41e4, 0x649b934c, 0xa495991b, 0x7852b855 :: u32])"
  by (rule fips256_eval [OF blocks_empty]) (simp add: eval256_def sha256_empty_0 uints8_def)

lemma sha256_a_0:
  "block2 (0x61800000, 0, 0, 0, 0, 0, 0, 0, 0, 0, 0, 0, 0, 0, 0, 8)
     (0x6a09e667, 0xbb67ae85, 0x3c6ef372, 0xa54ff53a, 0x510e527f, 0x9b05688c, 0x1f83d9ab, 0x5be0cd19)
   = (0xca978112, 0xca1bbdca, 0xfac231b3, 0x9a23dc4d, 0xa786eff8, 0x147c4e72, 0xb9807785, 0xafee48bb)"
  by code_simp

lemma sha256_a:
  "fips256 (ascii ''a'') = concat (map (be_bytes 4)
     [0xca978112, 0xca1bbdca, 0xfac231b3, 0x9a23dc4d, 0xa786eff8, 0x147c4e72, 0xb9807785, 0xafee48bb :: u32])"
  by (rule fips256_eval [OF blocks_a]) (simp add: eval256_def sha256_a_0 uints8_def)

lemma sha256_abc_0:
  "block2 (0x61626380, 0, 0, 0, 0, 0, 0, 0, 0, 0, 0, 0, 0, 0, 0, 0x18)
     (0x6a09e667, 0xbb67ae85, 0x3c6ef372, 0xa54ff53a, 0x510e527f, 0x9b05688c, 0x1f83d9ab, 0x5be0cd19)
   = (0xba7816bf, 0x8f01cfea, 0x414140de, 0x5dae2223, 0xb00361a3, 0x96177a9c, 0xb410ff61, 0xf20015ad)"
  by code_simp

lemma sha256_abc:
  "fips256 (ascii ''abc'') = concat (map (be_bytes 4)
     [0xba7816bf, 0x8f01cfea, 0x414140de, 0x5dae2223, 0xb00361a3, 0x96177a9c, 0xb410ff61, 0xf20015ad :: u32])"
  by (rule fips256_eval [OF blocks_abc]) (simp add: eval256_def sha256_abc_0 uints8_def)

lemma sha256_fox_0:
  "block2 (0x54686520, 0x71756963, 0x6b206272, 0x6f776e20, 0x666f7820, 0x6a756d70, 0x73206f76, 0x65722074, 0x6865206c,
      0x617a7920, 0x646f6780, 0, 0, 0, 0, 0x158)
     (0x6a09e667, 0xbb67ae85, 0x3c6ef372, 0xa54ff53a, 0x510e527f, 0x9b05688c, 0x1f83d9ab, 0x5be0cd19)
   = (0xd7a8fbb3, 0x7d78094, 0x69ca9abc, 0xb0082e4f, 0x8d5651e4, 0x6d3cdb76, 0x2d02d0bf, 0x37c9e592)"
  by code_simp

lemma sha256_fox:
  "fips256 (ascii ''The quick brown fox jumps over the lazy dog'') = concat (map (be_bytes 4)
     [0xd7a8fbb3, 0x7d78094, 0x69ca9abc, 0xb0082e4f, 0x8d5651e4, 0x6d3cdb76, 0x2d02d0bf, 0x37c9e592 :: u32])"
  by (rule fips256_eval [OF blocks_fox]) (simp add: eval256_def sha256_fox_0 uints8_def)

lemma sha256_s40_0:
  "block2 (0x20202020, 0x20202020, 0x20202020, 0x20202020, 0x20202020, 0x20202020, 0x20202020, 0x20202020, 0x20202020,
      0x20202020, 0x80000000, 0, 0, 0, 0, 0x140)
     (0x6a09e667, 0xbb67ae85, 0x3c6ef372, 0xa54ff53a, 0x510e527f, 0x9b05688c, 0x1f83d9ab, 0x5be0cd19)
   = (0x7ea876d6, 0x46ae9ac0, 0xdc26b5da, 0xde35c8ca, 0x70498aae, 0xf0464db2, 0x247d0afb, 0xe823d62d)"
  by code_simp

lemma sha256_s40:
  "fips256 (ascii ''                                        '') = concat (map (be_bytes 4)
     [0x7ea876d6, 0x46ae9ac0, 0xdc26b5da, 0xde35c8ca, 0x70498aae, 0xf0464db2, 0x247d0afb, 0xe823d62d :: u32])"
  by (rule fips256_eval [OF blocks_s40]) (simp add: eval256_def sha256_s40_0 uints8_def)

lemma sha256_s50_0:
  "block2 (0x20202020, 0x20202020, 0x20202020, 0x20202020, 0x20202020, 0x20202020, 0x20202020, 0x20202020, 0x20202020,
      0x20202020, 0x20202020, 0x20202020, 0x20208000, 0, 0, 0x190)
     (0x6a09e667, 0xbb67ae85, 0x3c6ef372, 0xa54ff53a, 0x510e527f, 0x9b05688c, 0x1f83d9ab, 0x5be0cd19)
   = (0x4c38d6d8, 0xbd1c5a30, 0x61e0c200, 0x67679faa, 0x28868831, 0xd7b83880, 0xe3b6472, 0x9af34354)"
  by code_simp

lemma sha256_s50:
  "fips256 (ascii ''                                                  '') = concat (map (be_bytes 4)
     [0x4c38d6d8, 0xbd1c5a30, 0x61e0c200, 0x67679faa, 0x28868831, 0xd7b83880, 0xe3b6472, 0x9af34354 :: u32])"
  by (rule fips256_eval [OF blocks_s50]) (simp add: eval256_def sha256_s50_0 uints8_def)

lemma sha256_s60_0:
  "block2 (0x20202020, 0x20202020, 0x20202020, 0x20202020, 0x20202020, 0x20202020, 0x20202020, 0x20202020, 0x20202020,
      0x20202020, 0x20202020, 0x20202020, 0x20202020, 0x20202020, 0x20202020, 0x80000000)
     (0x6a09e667, 0xbb67ae85, 0x3c6ef372, 0xa54ff53a, 0x510e527f, 0x9b05688c, 0x1f83d9ab, 0x5be0cd19)
   = (0xf0fff760, 0xcbd60492, 0x5b0270e0, 0x2b0c7d33, 0x658d3ad1, 0xee66ae18, 0x55be9c40, 0xbb15eeb6)"
  by code_simp

lemma sha256_s60_1:
  "block2 (0, 0, 0, 0, 0, 0, 0, 0, 0, 0, 0, 0, 0, 0, 0, 0x1e0)
     (0xf0fff760, 0xcbd60492, 0x5b0270e0, 0x2b0c7d33, 0x658d3ad1, 0xee66ae18, 0x55be9c40, 0xbb15eeb6)
   = (0x6a9c3911, 0xd69fdb86, 0xd4b5a6b9, 0x3dbdd9d5, 0xd3b11255, 0x51416b7a, 0xf129b299, 0x36ae48e2)"
  by code_simp

lemma sha256_s60:
  "fips256 (ascii ''                                                            '') = concat (map (be_bytes 4)
     [0x6a9c3911, 0xd69fdb86, 0xd4b5a6b9, 0x3dbdd9d5, 0xd3b11255, 0x51416b7a, 0xf129b299, 0x36ae48e2 :: u32])"
  by (rule fips256_eval [OF blocks_s60]) (simp add: eval256_def sha256_s60_0 sha256_s60_1 uints8_def)

lemma sha256_s70_0:
  "block2 (0x20202020, 0x20202020, 0x20202020, 0x20202020, 0x20202020, 0x20202020, 0x20202020, 0x20202020, 0x20202020,
      0x20202020, 0x20202020, 0x20202020, 0x20202020, 0x20202020, 0x20202020, 0x20202020)
     (0x6a09e667, 0xbb67ae85, 0x3c6ef372, 0xa54ff53a, 0x510e527f, 0x9b05688c, 0x1f83d9ab, 0x5be0cd19)
   = (0x4268b9ff, 0x7558c82e, 0x963e7bc1, 0xea419fe6, 0x7219e763, 0x7a246bdb, 0x160fbff0, 0x7ef412d)"
  by code_simp

lemma sha256_s70_1:
  "block2 (0x20202020, 0x20208000, 0, 0, 0, 0, 0, 0, 0, 0, 0, 0, 0, 0, 0, 0x230)
     (0x4268b9ff, 0x7558c82e, 0x963e7bc1, 0xea419fe6, 0x7219e763, 0x7a246bdb, 0x160fbff0, 0x7ef412d)
   = (0xf5d88515, 0x972d5d9b, 0xdf69f17f, 0x5cfde6d0, 0x33357f35, 0x9c155efb, 0xdf18ca64, 0xa6dd6335)"
  by code_simp

lemma sha256_s70:
  "fips256 (ascii ''                                                                      '') = concat (map (be_bytes 4)
     [0xf5d88515, 0x972d5d9b, 0xdf69f17f, 0x5cfde6d0, 0x33357f35, 0x9c155efb, 0xdf18ca64, 0xa6dd6335 :: u32])"
  by (rule fips256_eval [OF blocks_s70]) (simp add: eval256_def sha256_s70_0 sha256_s70_1 uints8_def)

lemma sha256_empty_dwords:
  "fips256 (ascii '''') = concat (map (be_bytes 8)
     [0xe3b0c44298fc1c14, 0x9afbf4c8996fb924, 0x27ae41e4649b934c, 0xa495991b7852b855 :: u64])"
  unfolding sha256_empty by code_simp

lemma sha256_a_dwords:
  "fips256 (ascii ''a'') = concat (map (be_bytes 8)
     [0xca978112ca1bbdca, 0xfac231b39a23dc4d, 0xa786eff8147c4e72, 0xb9807785afee48bb :: u64])"
  unfolding sha256_a by code_simp

lemma sha256_abc_dwords:
  "fips256 (ascii ''abc'') = concat (map (be_bytes 8)
     [0xba7816bf8f01cfea, 0x414140de5dae2223, 0xb00361a396177a9c, 0xb410ff61f20015ad :: u64])"
  unfolding sha256_abc by code_simp

lemma sha256_fox_dwords:
  "fips256 (ascii ''The quick brown fox jumps over the lazy dog'') = concat (map (be_bytes 8)
     [0xd7a8fbb307d78094, 0x69ca9abcb0082e4f, 0x8d5651e46d3cdb76, 0x2d02d0bf37c9e592 :: u64])"
  unfolding sha256_fox by code_simp

lemma sha256_s40_dwords:
  "fips256 (ascii ''                                        '') = concat (map (be_bytes 8)
     [0x7ea876d646ae9ac0, 0xdc26b5dade35c8ca, 0x70498aaef0464db2, 0x247d0afbe823d62d :: u64])"
  unfolding sha256_s40 by code_simp

lemma sha256_s50_dwords:
  "fips256 (ascii ''                                                  '') = concat (map (be_bytes 8)
     [0x4c38d6d8bd1c5a30, 0x61e0c20067679faa, 0x28868831d7b83880, 0xe3b64729af34354 :: u64])"
  unfolding sha256_s50 by code_simp

lemma sha256_s60_dwords:
  "fips256 (ascii ''                                                            '') = concat (map (be_bytes 8)
     [0x6a9c3911d69fdb86, 0xd4b5a6b93dbdd9d5, 0xd3b1125551416b7a, 0xf129b29936ae48e2 :: u64])"
  unfolding sha256_s60 by code_simp

lemma sha256_s70_dwords:
  "fips256 (ascii ''                                                                      '') = concat (map (be_bytes 8)
     [0xf5d88515972d5d9b, 0xdf69f17f5cfde6d0, 0x33357f359c155efb, 0xdf18ca64a6dd6335 :: u64])"
  unfolding sha256_s70 by code_simp

section \<open>The runs\<close>

lemma sha1_step_passes:
  assumes "fips1 (ascii m) = concat (map (be_bytes 4) ws)" and "length m < 2 ^ 32"
  shows "sha1_test_step \<lparr>msg = m, hash = sha1_HASH ws\<rparr> st = st"
proof -
  have "sha1sum (ascii m) (of_nat (length m)) = concat (map (be_bytes 4) ws)"
    using assms by (subst sha1sum_fips) (simp_all add: unat_of_nat)
  then show ?thesis by (cases st) (simp add: sha1_test_step_def sha1_HASH_def comp_def)
qed

lemma sha256_step_passes:
  assumes "fips256 (ascii m) = concat (map (be_bytes 8) ws)" and "length m < 2 ^ 32"
  shows "sha256_test_step \<lparr>msg = m, hash = sha256_HASH ws\<rparr> st = st"
proof -
  have "sha256sum (ascii m) (of_nat (length m)) = concat (map (be_bytes 8) ws)"
    using assms by (subst sha256sum_fips) (simp_all add: unat_of_nat)
  then show ?thesis by (cases st) (simp add: sha256_test_step_def sha256_HASH_def comp_def)
qed

lemmas sha1_steps = sha1_step_passes [OF sha1_empty] sha1_step_passes [OF sha1_a] sha1_step_passes [OF sha1_abc] sha1_step_passes [OF sha1_fox] sha1_step_passes [OF sha1_s40] sha1_step_passes [OF sha1_s50] sha1_step_passes [OF sha1_s60] sha1_step_passes [OF sha1_s70]

lemmas sha256_steps = sha256_step_passes [OF sha256_empty_dwords] sha256_step_passes [OF sha256_a_dwords] sha256_step_passes [OF sha256_abc_dwords] sha256_step_passes [OF sha256_fox_dwords] sha256_step_passes [OF sha256_s40_dwords] sha256_step_passes [OF sha256_s50_dwords] sha256_step_passes [OF sha256_s60_dwords] sha256_step_passes [OF sha256_s70_dwords]


end
