(* ===== verification/Tags.thy ===== *)
theory Tags
  imports Prelude
begin

text \<open>
  \<^verbatim>\<open>include/tags.h\<close>: the tagged list that the boot loader leaves behind the measured part
  of the loader. The searches follow the one-byte length fields through memory; they
  trust the list, so their behaviour on a bad list (a walk past the end dereferences
  NULL, a zero length never ends) is part of the model. A well-formed list is an
  inductive chain; on a chain every search returns the first match.
\<close>

section \<open>Tag types and layouts\<close>

definition SKL_TAG_CLASS_MASK :: u8 where "SKL_TAG_CLASS_MASK = 0xF0"
definition SKL_TAG_END :: u8 where "SKL_TAG_END = 0x00"
definition SKL_TAG_TAGS_SIZE :: u8 where "SKL_TAG_TAGS_SIZE = 0x0F"
definition SKL_TAG_BOOT_CLASS :: u8 where "SKL_TAG_BOOT_CLASS = 0x10"
definition SKL_TAG_BOOT_LINUX :: u8 where "SKL_TAG_BOOT_LINUX = 0x10"
definition SKL_TAG_BOOT_MB2 :: u8 where "SKL_TAG_BOOT_MB2 = 0x11"
definition SKL_TAG_EVENT_LOG :: u8 where "SKL_TAG_EVENT_LOG = 0x20"
definition SKL_TAG_SKL_HASH :: u8 where "SKL_TAG_SKL_HASH = 0x21"

lemmas tag_consts = SKL_TAG_CLASS_MASK_def SKL_TAG_END_def SKL_TAG_TAGS_SIZE_def
  SKL_TAG_BOOT_CLASS_def SKL_TAG_BOOT_LINUX_def SKL_TAG_BOOT_MB2_def SKL_TAG_EVENT_LOG_def
  SKL_TAG_SKL_HASH_def

text \<open>The packed structures, read out of memory at the address of their tag.\<close>

record skl_tag_hdr =
  tag_type :: u8
  tag_len :: u8

record skl_tag_tags_size = skl_tag_hdr +
  tags_size :: u16

record skl_tag_boot_linux = skl_tag_hdr +
  zero_page :: u32

record skl_tag_boot_mb2 = skl_tag_hdr +
  mbi :: u32
  mb2_kernel_entry :: u32
  mb2_kernel_size :: u32

record skl_tag_evtlog = skl_tag_hdr +
  evtlog_address :: u32
  evtlog_size :: u32

record skl_tag_hash = skl_tag_hdr +
  algo_id :: u16
  digest_at :: addr

definition hdr_at :: "mem \<Rightarrow> addr \<Rightarrow> skl_tag_hdr" where
  "hdr_at m t = \<lparr>tag_type = m t, tag_len = m (t + 1)\<rparr>"

definition tags_size_at :: "mem \<Rightarrow> addr \<Rightarrow> skl_tag_tags_size" where
  "tags_size_at m t = \<lparr>tag_type = m t, tag_len = m (t + 1), tags_size = load16 m (t + 2)\<rparr>"

definition boot_linux_at :: "mem \<Rightarrow> addr \<Rightarrow> skl_tag_boot_linux" where
  "boot_linux_at m t = \<lparr>tag_type = m t, tag_len = m (t + 1), zero_page = load32 m (t + 2)\<rparr>"

definition boot_mb2_at :: "mem \<Rightarrow> addr \<Rightarrow> skl_tag_boot_mb2" where
  "boot_mb2_at m t = \<lparr>tag_type = m t, tag_len = m (t + 1), mbi = load32 m (t + 2),
     mb2_kernel_entry = load32 m (t + 6), mb2_kernel_size = load32 m (t + 10)\<rparr>"

definition evtlog_at :: "mem \<Rightarrow> addr \<Rightarrow> skl_tag_evtlog" where
  "evtlog_at m t = \<lparr>tag_type = m t, tag_len = m (t + 1), evtlog_address = load32 m (t + 2),
     evtlog_size = load32 m (t + 6)\<rparr>"

definition hash_at :: "mem \<Rightarrow> addr \<Rightarrow> skl_tag_hash" where
  "hash_at m t = \<lparr>tag_type = m t, tag_len = m (t + 1), algo_id = load16 m (t + 2),
     digest_at = t + 4\<rparr>"

section \<open>The walk\<close>

text \<open>\<open>bd\<close> is the address of \<^verbatim>\<open>bootloader_data\<close>; a NULL pointer is address 0.\<close>

definition end_of_tags :: "mem \<Rightarrow> addr \<Rightarrow> addr" where
  "end_of_tags m bd = bd + unat (tags_size (tags_size_at m bd))"

definition next_tag :: "mem \<Rightarrow> addr \<Rightarrow> addr \<Rightarrow> addr" where
  "next_tag m bd t =
     (let x = t + unat (tag_len (hdr_at m t)) in if x < end_of_tags m bd then x else 0)"

partial_function (option) next_of_type :: "mem \<Rightarrow> addr \<Rightarrow> addr \<Rightarrow> u8 \<Rightarrow> (fault + addr) option" where
  "next_of_type m bd t type =
     (if t = 0 then Some (Inl Null_Deref)
      else if tag_type (hdr_at m t) = SKL_TAG_END then Some (Inr 0)
      else let t = next_tag m bd t in
        if t = 0 then Some (Inl Null_Deref)
        else if tag_type (hdr_at m t) = type
        then Some (Inr (if t < end_of_tags m bd then t else 0))
        else next_of_type m bd t type)"

partial_function (option) next_of_class :: "mem \<Rightarrow> addr \<Rightarrow> addr \<Rightarrow> u8 \<Rightarrow> (fault + addr) option" where
  "next_of_class m bd t c =
     (if t = 0 then Some (Inl Null_Deref)
      else if tag_type (hdr_at m t) = SKL_TAG_END then Some (Inr 0)
      else let t = next_tag m bd t in
        if t = 0 then Some (Inl Null_Deref)
        else if tag_type (hdr_at m t) AND SKL_TAG_CLASS_MASK = c
        then Some (Inr (if t < end_of_tags m bd then t else 0))
        else next_of_class m bd t c)"

text \<open>
  The check that \<^verbatim>\<open>skl_main\<close> makes before it uses the list: the first tag is the size
  tag, the end of the list is inside the 64 KB of the loader (which starts at
  \<open>start\<close>), and the end tag that the walk reaches is the last thing in the list.
\<close>

definition SLB_SIZE :: nat where "SLB_SIZE = 0x10000"

definition bootloader_data_ok :: "mem \<Rightarrow> addr \<Rightarrow> addr \<Rightarrow> (fault + bool) option" where
  "bootloader_data_ok m start bd =
     (if tag_type (hdr_at m bd) \<noteq> SKL_TAG_TAGS_SIZE \<or> tag_len (hdr_at m bd) \<noteq> 4
         \<or> end_of_tags m bd > start + SLB_SIZE
      then Some (Inr False)
      else do {
        r \<leftarrow> next_of_type m bd bd SKL_TAG_END;
        Some (case r of
          Inl e \<Rightarrow> Inl e
        | Inr t \<Rightarrow> if t = 0 then Inr False
                  else Inr (t + unat (tag_len (hdr_at m t)) = end_of_tags m bd))
      })"

section \<open>Well-formed lists\<close>

inductive tag_chain :: "mem \<Rightarrow> addr \<Rightarrow> addr \<Rightarrow> addr list \<Rightarrow> bool" for m bd where
  chain_end: "t \<noteq> 0 \<Longrightarrow> tag_type (hdr_at m t) = SKL_TAG_END \<Longrightarrow> tag_chain m bd t [t]"
| chain_tag: "t \<noteq> 0 \<Longrightarrow> tag_type (hdr_at m t) \<noteq> SKL_TAG_END \<Longrightarrow> next_tag m bd t = t' \<Longrightarrow>
     tag_chain m bd t' ts \<Longrightarrow> tag_chain m bd t (t # ts)"

inductive_cases chain_NilE: "tag_chain m bd t []"
inductive_cases chain_ConsE: "tag_chain m bd t (t' # ts)"

lemma chain_nonzero: "tag_chain m bd t ts \<Longrightarrow> t \<noteq> 0 \<and> ts \<noteq> [] \<and> hd ts = t"
  by (induction rule: tag_chain.induct) auto

lemma chain_unique: "tag_chain m bd t ts \<Longrightarrow> tag_chain m bd t ts' \<Longrightarrow> ts = ts'"
proof (induction arbitrary: ts' rule: tag_chain.induct)
  case (chain_end t)
  from chain_end.prems show ?case
    by (rule tag_chain.cases) (use chain_end.hyps in auto)
next
  case (chain_tag t t' ts)
  from chain_tag.prems obtain us where us: "ts' = t # us" "tag_chain m bd (next_tag m bd t) us"
    by (rule tag_chain.cases) (use chain_tag.hyps(2) in auto)
  with chain_tag.hyps(3) have "ts = us" by (intro chain_tag.IH) simp
  with us show ?case by simp
qed

lemma next_tag_bounds:
  "next_tag m bd t \<noteq> 0 \<Longrightarrow>
     next_tag m bd t = t + unat (tag_len (hdr_at m t)) \<and> next_tag m bd t < end_of_tags m bd"
  by (auto simp: next_tag_def Let_def split: if_splits)

lemma chain_next: "tag_chain m bd t (t # t' # ts) \<Longrightarrow> next_tag m bd t = t'"
proof -
  assume "tag_chain m bd t (t # t' # ts)"
  then have "tag_chain m bd (next_tag m bd t) (t' # ts)" by (auto elim: chain_ConsE)
  from chain_nonzero [OF this] show ?thesis by simp
qed

text \<open>A chain has no zero length, so its addresses increase, and it stays below the end.\<close>

lemma chain_increases: "tag_chain m bd t (t # t' # ts) \<Longrightarrow> t < t' \<and> t' < end_of_tags m bd"
proof -
  assume c: "tag_chain m bd t (t # t' # ts)"
  then have c': "tag_chain m bd (next_tag m bd t) (t' # ts)" by (auto elim: chain_ConsE)
  then have t': "next_tag m bd t = t'" "t' \<noteq> 0" using chain_nonzero by fastforce+
  moreover have "t' \<noteq> t"
  proof
    assume "t' = t"
    with c' t' have "tag_chain m bd t (t' # ts)" by simp
    from chain_unique [OF c this] show False by simp
  qed
  ultimately show ?thesis using next_tag_bounds [of m bd t] by auto
qed

lemma chain_tl: "tag_chain m bd t (t # t' # ts) \<Longrightarrow> tag_chain m bd t' (t' # ts)"
proof -
  assume "tag_chain m bd t (t # t' # ts)"
  then have "tag_chain m bd (next_tag m bd t) (t' # ts)" by (auto elim: chain_ConsE)
  moreover from chain_nonzero [OF this] have "next_tag m bd t = t'" by simp
  ultimately show ?thesis by simp
qed

lemma chain_drop: "tag_chain m bd t (pre @ a # post) \<Longrightarrow> tag_chain m bd a (a # post)"
proof (induction pre arbitrary: t)
  case Nil
  with chain_nonzero show ?case by fastforce
next
  case (Cons p pre)
  then have "tag_chain m bd (next_tag m bd t) (pre @ a # post)" by (auto elim: chain_ConsE)
  then show ?case by (rule Cons.IH)
qed

lemma chain_suffix: "tag_chain m bd t ts \<Longrightarrow> a \<in> set ts \<Longrightarrow>
    \<exists>pre post. ts = pre @ a # post \<and> tag_chain m bd a (a # post)"
proof (induction rule: tag_chain.induct)
  case (chain_end t)
  then show ?case by (auto intro: tag_chain.chain_end)
next
  case (chain_tag t t' ts)
  show ?case
  proof (cases "a = t")
    case True
    with chain_tag have "tag_chain m bd a (a # ts)" by (auto intro: tag_chain.chain_tag)
    with True show ?thesis by auto
  next
    case False
    with chain_tag obtain pre post where "ts = pre @ a # post" "tag_chain m bd a (a # post)"
      by auto
    then show ?thesis by (metis append_Cons)
  qed
qed

lemma chain_bounds:
  "tag_chain m bd t ts \<Longrightarrow> a \<in> set ts \<Longrightarrow> t \<le> a \<and> (a = t \<or> a < end_of_tags m bd)"
proof (induction rule: tag_chain.induct)
  case (chain_end t)
  then show ?case by simp
next
  case (chain_tag t t' ts)
  then obtain ts' where ts: "ts = t' # ts'"
    using chain_nonzero by (metis list.collapse)
  have "tag_chain m bd t (t # t' # ts')"
    using chain_tag.hyps ts by (auto intro: tag_chain.chain_tag)
  from chain_increases [OF this] chain_tag ts show ?case by fastforce
qed

section \<open>The searches, once for both\<close>

text \<open>
  \<^verbatim>\<open>next_of_type\<close> and \<^verbatim>\<open>next_of_class\<close> differ in the test on the type byte only. The
  contract is the loop's unfolding for a test \<open>hit\<close>.
\<close>

locale tag_search =
  fixes search :: "mem \<Rightarrow> addr \<Rightarrow> addr \<Rightarrow> u8 \<Rightarrow> (fault + addr) option"
    and hit :: "u8 \<Rightarrow> u8 \<Rightarrow> bool"
  assumes search_null: "search m bd 0 k = Some (Inl Null_Deref)"
    and search_end: "t \<noteq> 0 \<Longrightarrow> tag_type (hdr_at m t) = SKL_TAG_END \<Longrightarrow> search m bd t k = Some (Inr 0)"
    and search_next: "t \<noteq> 0 \<Longrightarrow> tag_type (hdr_at m t) \<noteq> SKL_TAG_END \<Longrightarrow> next_tag m bd t = t' \<Longrightarrow>
      search m bd t k = (if t' = 0 then Some (Inl Null_Deref)
        else if hit (tag_type (hdr_at m t')) k then Some (Inr t') else search m bd t' k)"
begin

definition first_hit :: "mem \<Rightarrow> addr list \<Rightarrow> u8 \<Rightarrow> addr" where
  "first_hit m ts k =
     (case find (\<lambda>a. hit (tag_type (hdr_at m a)) k) ts of None \<Rightarrow> 0 | Some a \<Rightarrow> a)"

lemma search_chain:
  "tag_chain m bd t (t # ts) \<Longrightarrow> search m bd t k = Some (Inr (first_hit m ts k))"
proof (induction ts arbitrary: t)
  case Nil
  then have "t \<noteq> 0" "tag_type (hdr_at m t) = SKL_TAG_END"
    by (auto elim: chain_ConsE chain_NilE)
  then show ?case by (simp add: search_end first_hit_def)
next
  case (Cons t' ts)
  then have c: "tag_chain m bd t' (t' # ts)" and t: "t \<noteq> 0" "tag_type (hdr_at m t) \<noteq> SKL_TAG_END"
    by (auto intro: chain_tl elim: chain_ConsE)
  have "next_tag m bd t = t'" "t' \<noteq> 0"
    using Cons.prems chain_nonzero [OF c] by (auto elim!: chain_ConsE dest: chain_nonzero)
  then show ?case
    using t Cons.IH [OF c] by (simp add: search_next first_hit_def)
qed

lemma first_hit_0_or_in: "first_hit m ts k = 0 \<or> first_hit m ts k \<in> set ts \<and> hit (tag_type (hdr_at m (first_hit m ts k))) k"
  by (auto simp: first_hit_def find_Some_iff in_set_conv_nth split: option.splits)

end

interpretation by_type: tag_search next_of_type "(=)"
proof
  show "next_of_type m bd 0 k = Some (Inl Null_Deref)" for m bd k
    by (subst next_of_type.simps) simp
  show "next_of_type m bd t k = Some (Inr 0)"
    if "t \<noteq> 0" "tag_type (hdr_at m t) = SKL_TAG_END" for m bd t k
    using that by (subst next_of_type.simps) simp
  show "next_of_type m bd t k = (if t' = 0 then Some (Inl Null_Deref)
        else if tag_type (hdr_at m t') = k then Some (Inr t') else next_of_type m bd t' k)"
    if "t \<noteq> 0" "tag_type (hdr_at m t) \<noteq> SKL_TAG_END" "next_tag m bd t = t'" for m bd t t' k
    using that next_tag_bounds [of m bd t] by (subst next_of_type.simps) auto
qed

interpretation by_class: tag_search next_of_class "\<lambda>type c. type AND SKL_TAG_CLASS_MASK = c"
proof
  show "next_of_class m bd 0 k = Some (Inl Null_Deref)" for m bd k
    by (subst next_of_class.simps) simp
  show "next_of_class m bd t k = Some (Inr 0)"
    if "t \<noteq> 0" "tag_type (hdr_at m t) = SKL_TAG_END" for m bd t k
    using that by (subst next_of_class.simps) simp
  show "next_of_class m bd t k = (if t' = 0 then Some (Inl Null_Deref)
        else if tag_type (hdr_at m t') AND SKL_TAG_CLASS_MASK = k then Some (Inr t')
        else next_of_class m bd t' k)"
    if "t \<noteq> 0" "tag_type (hdr_at m t) \<noteq> SKL_TAG_END" "next_tag m bd t = t'" for m bd t t' k
    using that next_tag_bounds [of m bd t] by (subst next_of_class.simps) auto
qed

section \<open>What the check of the list establishes\<close>

lemma next_of_type_chain:
  assumes "next_of_type m bd t k = Some r" "r = Inr e" "e \<noteq> 0" "k = SKL_TAG_END"
  shows "\<exists>ts. tag_chain m bd t ts \<and> last ts = e \<and> tag_type (hdr_at m e) = SKL_TAG_END"
proof -
  define P where "P = (\<lambda>m bd t k (r :: fault + addr). \<forall>e. r = Inr e \<longrightarrow> e \<noteq> 0 \<longrightarrow> k = SKL_TAG_END \<longrightarrow>
    (\<exists>ts. tag_chain m bd t ts \<and> last ts = e \<and> tag_type (hdr_at m e) = SKL_TAG_END))"
  have "P m bd t k r"
  proof (rule next_of_type.raw_induct [where P = P, OF _ assms(1)])
    fix f m bd t k r
    assume IH: "\<And>m bd t k r. f m bd t k = Some r \<Longrightarrow> P m bd t k r"
      and eq: "(if t = 0 then Some (Inl Null_Deref)
        else if tag_type (hdr_at m t) = SKL_TAG_END then Some (Inr 0)
        else let t = next_tag m bd t in
          if t = 0 then Some (Inl Null_Deref)
          else if tag_type (hdr_at m t) = k
          then Some (Inr (if t < end_of_tags m bd then t else 0))
          else f m bd t k) = Some r"
    show "P m bd t k r"
      unfolding P_def
    proof (intro allI impI)
      fix e assume r: "r = Inr e" "e \<noteq> 0" "k = SKL_TAG_END"
      let ?t = "next_tag m bd t"
      from eq r have t: "t \<noteq> 0" "tag_type (hdr_at m t) \<noteq> SKL_TAG_END" "?t \<noteq> 0"
        by (auto simp: Let_def split: if_splits)
      show "\<exists>ts. tag_chain m bd t ts \<and> last ts = e \<and> tag_type (hdr_at m e) = SKL_TAG_END"
      proof (cases "tag_type (hdr_at m ?t) = k")
        case True
        with eq t r have "e = ?t" by (auto simp: Let_def split: if_splits)
        moreover from True t r have "tag_chain m bd t [t, ?t]"
          by (auto intro!: tag_chain.intros)
        ultimately show ?thesis using True r by (intro exI [of _ "[t, ?t]"]) simp
      next
        case False
        with eq t have "f m bd ?t k = Some r" by (simp add: Let_def)
        from IH [OF this] r obtain ts where ts: "tag_chain m bd ?t ts" "last ts = e"
          "tag_type (hdr_at m e) = SKL_TAG_END" by (auto simp: P_def)
        then have "tag_chain m bd t (t # ts)" using t by (auto intro: tag_chain.chain_tag)
        with ts chain_nonzero [OF ts(1)] show ?thesis by (intro exI [of _ "t # ts"]) simp
      qed
    qed
  qed
  with assms show ?thesis by (simp add: P_def)
qed

text \<open>
  A valid list: a chain from the size tag to the end tag, whose last byte is the last
  byte of the list, inside the 64 KB of the loader.
\<close>

definition valid_tags :: "mem \<Rightarrow> addr \<Rightarrow> addr \<Rightarrow> addr list \<Rightarrow> bool" where
  "valid_tags m start bd ts \<longleftrightarrow>
     tag_chain m bd bd ts \<and> 1 < length ts
   \<and> tag_type (hdr_at m bd) = SKL_TAG_TAGS_SIZE \<and> tag_len (hdr_at m bd) = 4
   \<and> last ts + unat (tag_len (hdr_at m (last ts))) = end_of_tags m bd
   \<and> end_of_tags m bd \<le> start + SLB_SIZE"

lemma chain_last_end:
  "tag_chain m bd t ts \<Longrightarrow> tag_type (hdr_at m (last ts)) = SKL_TAG_END"
  by (induction rule: tag_chain.induct) (auto dest: chain_nonzero)

lemma chain_only_last_end:
  "tag_chain m bd t ts \<Longrightarrow> a \<in> set (butlast ts) \<Longrightarrow> tag_type (hdr_at m a) \<noteq> SKL_TAG_END"
  by (induction rule: tag_chain.induct) (auto split: if_splits)

lemma find_last:
  assumes "tag_chain m bd t ts"
  shows "find (\<lambda>a. tag_type (hdr_at m a) = SKL_TAG_END) ts = Some (last ts)"
  using assms by (induction rule: tag_chain.induct) (auto dest: chain_nonzero)

lemma valid_tags_ConsE:
  assumes "valid_tags m start bd ts"
  obtains t ts' where "ts = bd # t # ts'" "tag_chain m bd bd (bd # t # ts')"
proof -
  from assms have c: "tag_chain m bd bd ts" "1 < length ts" by (auto simp: valid_tags_def)
  then obtain a t ts' where "ts = a # t # ts'" by (cases ts; cases "tl ts") auto
  with c chain_nonzero [OF c(1)] that show ?thesis by simp
qed

lemma valid_tags_check:
  assumes v: "valid_tags m start bd ts"
  shows "bootloader_data_ok m start bd = Some (Inr True)"
proof -
  from v obtain t ts' where ts: "ts = bd # t # ts'" and c: "tag_chain m bd bd (bd # t # ts')"
    by (rule valid_tags_ConsE)
  have "find (\<lambda>a. tag_type (hdr_at m a) = SKL_TAG_END) (t # ts') = Some (last ts)"
    using find_last [OF chain_tl [OF c]] ts by simp
  then have "next_of_type m bd bd SKL_TAG_END = Some (Inr (last ts))"
    using by_type.search_chain [OF c, of SKL_TAG_END] by (simp add: by_type.first_hit_def)
  moreover have "last ts \<noteq> 0" using chain_bounds [OF c, of "last ts"] ts chain_nonzero [OF c] by auto
  ultimately show ?thesis using v by (simp add: bootloader_data_ok_def valid_tags_def)
qed

lemma check_valid_tags:
  assumes "bootloader_data_ok m start bd = Some (Inr True)"
  shows "\<exists>ts. valid_tags m start bd ts"
proof -
  from assms have h: "tag_type (hdr_at m bd) = SKL_TAG_TAGS_SIZE" "tag_len (hdr_at m bd) = 4"
      "end_of_tags m bd \<le> start + SLB_SIZE"
    by (auto simp: bootloader_data_ok_def split: if_splits)
  with assms obtain r where r: "next_of_type m bd bd SKL_TAG_END = Some r"
    and c: "(case r of Inl e \<Rightarrow> Inl e | Inr t \<Rightarrow> if t = 0 then Inr False
       else Inr (t + unat (tag_len (hdr_at m t)) = end_of_tags m bd)) = Inr True"
    by (auto simp: bootloader_data_ok_def bind_eq_Some_conv split: if_splits)
  from c obtain e where "r = Inr e" "e \<noteq> 0"
      "e + unat (tag_len (hdr_at m e)) = end_of_tags m bd"
    by (auto split: sum.splits if_splits)
  with r have e: "next_of_type m bd bd SKL_TAG_END = Some (Inr e)" "e \<noteq> 0"
      "e + unat (tag_len (hdr_at m e)) = end_of_tags m bd" by simp_all
  from next_of_type_chain [OF e(1) refl e(2) refl] obtain ts where
    ts: "tag_chain m bd bd ts" "last ts = e" "tag_type (hdr_at m e) = SKL_TAG_END" by blast
  have "e \<noteq> bd" using ts(3) h(1) by (auto simp: tag_consts)
  with ts(1,2) chain_nonzero [OF ts(1)] have "1 < length ts" by (cases ts; cases "tl ts") auto
  with h e ts show ?thesis by (auto simp: valid_tags_def)
qed

text \<open>
  C9. The check of the boot loader's data is exact: it accepts (without faulting and
  without running forever) precisely the well-formed lists, chains from the size tag to
  an end tag that closes the list inside the loader's 64 KB.
\<close>

theorem bootloader_data_check_exact:
  "bootloader_data_ok m start bd = Some (Inr True) \<longleftrightarrow> (\<exists>ts. valid_tags m start bd ts)"
  by (metis valid_tags_check check_valid_tags)

text \<open>
  C19. After the check, every later search is safe: from any tag of the list it ends,
  never dereferences NULL, and returns the first following tag of the type (or class)
  asked for, or NULL if there is none.
\<close>

theorem searches_after_check:
  assumes "bootloader_data_ok m start bd = Some (Inr True)"
  shows "\<exists>ts. valid_tags m start bd ts \<and>
    (\<forall>pre a post k. ts = pre @ a # post \<longrightarrow>
       next_of_type m bd a k = Some (Inr
         (case find (\<lambda>b. tag_type (hdr_at m b) = k) post of None \<Rightarrow> 0 | Some b \<Rightarrow> b))
     \<and> next_of_class m bd a k = Some (Inr
         (case find (\<lambda>b. tag_type (hdr_at m b) AND SKL_TAG_CLASS_MASK = k) post of
            None \<Rightarrow> 0 | Some b \<Rightarrow> b)))"
proof -
  from check_valid_tags [OF assms] obtain ts where v: "valid_tags m start bd ts" ..
  have "tag_chain m bd a (a # post)" if "ts = pre @ a # post" for pre a post
    using v that by (intro chain_drop [of m bd bd pre]) (simp add: valid_tags_def)
  note c = this
  have "next_of_type m bd a k = Some (Inr
         (case find (\<lambda>b. tag_type (hdr_at m b) = k) post of None \<Rightarrow> 0 | Some b \<Rightarrow> b))
     \<and> next_of_class m bd a k = Some (Inr
         (case find (\<lambda>b. tag_type (hdr_at m b) AND SKL_TAG_CLASS_MASK = k) post of
            None \<Rightarrow> 0 | Some b \<Rightarrow> b))" if "ts = pre @ a # post" for pre a post k
    using by_type.search_chain [OF c [OF that], of k] by_class.search_chain [OF c [OF that], of k]
    by (simp add: by_type.first_hit_def by_class.first_hit_def)
  with v show ?thesis by blast
qed

text \<open>A list of three tags (size, Linux boot, end) at address 256, for the witnesses.\<close>

definition demo_tags :: mem where
  "demo_tags = mem_write (\<lambda>_. 0) 256 [0x0F, 4, 12, 0, 0x10, 6, 0, 0, 2, 0, 0, 2]"

lemma demo_tags_end: "end_of_tags demo_tags 256 = 268"
  by (simp add: end_of_tags_def tags_size_at_def load16_def mem_read_def upt_rec demo_tags_def
      mem_write_def of_le_def)

lemma demo_tags_valid: "valid_tags demo_tags 0 256 [256, 260, 266]"
proof -
  have h: "hdr_at demo_tags 256 = \<lparr>tag_type = 0x0F, tag_len = 4\<rparr>"
    "hdr_at demo_tags 260 = \<lparr>tag_type = 0x10, tag_len = 6\<rparr>"
    "hdr_at demo_tags 266 = \<lparr>tag_type = 0, tag_len = 2\<rparr>"
    by (simp_all add: hdr_at_def demo_tags_def mem_write_def)
  have 3: "tag_chain demo_tags 256 266 [266]" by (rule chain_end) (simp_all add: h tag_consts)
  have 2: "tag_chain demo_tags 256 260 [260, 266]"
    by (rule chain_tag [OF _ _ _ 3]) (simp_all add: h tag_consts next_tag_def demo_tags_end)
  have "tag_chain demo_tags 256 256 [256, 260, 266]"
    by (rule chain_tag [OF _ _ _ 2]) (simp_all add: h tag_consts next_tag_def demo_tags_end)
  then show ?thesis by (simp add: valid_tags_def demo_tags_end h tag_consts SLB_SIZE_def)
qed

theorem searches_after_check_witness:
  "\<exists>ts. valid_tags demo_tags 0 256 ts \<and>
    (\<forall>pre a post k. ts = pre @ a # post \<longrightarrow>
       next_of_type demo_tags 256 a k = Some (Inr
         (case find (\<lambda>b. tag_type (hdr_at demo_tags b) = k) post of None \<Rightarrow> 0 | Some b \<Rightarrow> b))
     \<and> next_of_class demo_tags 256 a k = Some (Inr
         (case find (\<lambda>b. tag_type (hdr_at demo_tags b) AND SKL_TAG_CLASS_MASK = k) post of
            None \<Rightarrow> 0 | Some b \<Rightarrow> b)))"
  by (rule searches_after_check [OF valid_tags_check [OF demo_tags_valid]])


text \<open>
  A tag of length zero stops the loader for good: the search for anything else than
  that tag's own type runs in place and does not return.
\<close>

lemma zero_length_tag_hangs:
  assumes "t \<noteq> 0" "tag_type (hdr_at m t) \<noteq> SKL_TAG_END" "tag_len (hdr_at m t) = 0"
    and "tag_type (hdr_at m t) \<noteq> k" "t < end_of_tags m bd"
  shows "next_of_type m bd t k = None"
proof -
  have "False" if r: "next_of_type m bd t k = Some r" for r
  proof -
    define P where "P = (\<lambda>m bd t k (r :: fault + addr). \<not> (t \<noteq> 0 \<and> tag_type (hdr_at m t) \<noteq> SKL_TAG_END
      \<and> tag_len (hdr_at m t) = 0 \<and> tag_type (hdr_at m t) \<noteq> k \<and> t < end_of_tags m bd))"
    have "P m bd t k r"
    proof (rule next_of_type.raw_induct [where P = P, OF _ r])
      fix f m bd t k r
      assume IH: "\<And>m bd t k r. f m bd t k = Some r \<Longrightarrow> P m bd t k r"
        and eq: "(if t = 0 then Some (Inl Null_Deref)
          else if tag_type (hdr_at m t) = SKL_TAG_END then Some (Inr 0)
          else let t = next_tag m bd t in
            if t = 0 then Some (Inl Null_Deref)
            else if tag_type (hdr_at m t) = k
            then Some (Inr (if t < end_of_tags m bd then t else 0))
            else f m bd t k) = Some r"
      show "P m bd t k r"
        using IH [of m bd t k r] eq by (auto simp: P_def Let_def next_tag_def split: if_splits)
    qed
    with assms show False by (simp add: P_def)
  qed
  then show ?thesis by (cases "next_of_type m bd t k") auto
qed


text \<open>The two bad lists of the last two properties, at address 256.\<close>

lemma zero_length_tag_hangs_demo:
  "next_of_type (mem_write (\<lambda>_. 0) 256 [0x0F, 0, 12, 0]) 256 256 SKL_TAG_END = None"
  by (rule zero_length_tag_hangs)
     (simp_all add: end_of_tags_def tags_size_at_def load16_def mem_read_def upt_rec
       mem_write_def of_le_def hdr_at_def tag_consts)


section \<open>Writes elsewhere leave the list alone\<close>

text \<open>
  The list and its searches depend on the bytes of the list only (and on the byte after
  it, which a final length field could occupy).
\<close>

lemma tag_chain_cong:
  assumes "tag_chain m bd t ts" and "bd \<le> t" "t < end_of_tags m bd"
    and same: "\<And>x. bd \<le> x \<Longrightarrow> x \<le> end_of_tags m bd \<Longrightarrow> m' x = m x"
    and e: "end_of_tags m' bd = end_of_tags m bd"
  shows "tag_chain m' bd t ts"
  using assms(1-3)
proof (induction rule: tag_chain.induct)
  case (chain_end t)
  then show ?case using same [of t] by (auto simp: hdr_at_def intro!: tag_chain.chain_end)
next
  case (chain_tag t t' ts)
  have h: "hdr_at m' t = hdr_at m t" using chain_tag same by (simp add: hdr_at_def)
  have "t' \<noteq> 0" using chain_nonzero [OF chain_tag.hyps(4)] by simp
  then have "bd \<le> t'" "t' < end_of_tags m bd"
    using next_tag_bounds [of m bd t] chain_tag by auto
  moreover have "next_tag m' bd t = t'" using chain_tag.hyps h e by (simp add: next_tag_def)
  ultimately show ?case
    using chain_tag h by (auto intro!: tag_chain.chain_tag)
qed

lemma valid_tags_cong:
  assumes v: "valid_tags m start bd ts"
    and same: "\<And>x. bd \<le> x \<Longrightarrow> x \<le> end_of_tags m bd \<Longrightarrow> m' x = m x"
  shows "valid_tags m' start bd ts"
proof -
  from v obtain t ts' where ts: "ts = bd # t # ts'" and c: "tag_chain m bd bd (bd # t # ts')"
    by (rule valid_tags_ConsE)
  from chain_increases [OF c] have lt: "bd < t" "t < end_of_tags m bd" by auto
  have "bd + 4 \<le> end_of_tags m bd"
  proof -
    from chain_next [OF c] chain_nonzero [OF chain_tl [OF c]]
    have "t = bd + unat (tag_len (hdr_at m bd))" using next_tag_bounds [of m bd bd] by simp
    then show ?thesis using v lt by (simp add: valid_tags_def)
  qed
  then have "load16 m' (bd + 2) = load16 m (bd + 2)"
    unfolding load16_def by (intro arg_cong [where f = of_le] mem_read_cong same) auto
  then have e: "end_of_tags m' bd = end_of_tags m bd"
    by (simp add: end_of_tags_def tags_size_at_def)
  have "tag_chain m' bd bd ts"
    unfolding ts by (rule tag_chain_cong [OF c _ _ same e]) (use lt in auto)
  moreover have "hdr_at m' bd = hdr_at m bd" using lt same by (simp add: hdr_at_def)
  moreover have "last ts < end_of_tags m bd" "bd \<le> last ts"
    using chain_bounds [OF c, of "last ts"] lt by (auto simp: ts)
  then have "hdr_at m' (last ts) = hdr_at m (last ts)" using same by (simp add: hdr_at_def)
  ultimately show ?thesis using v e by (simp add: valid_tags_def)
qed

end
