(* ===== verification/Tpm_Types.thy ===== *)
theory Tpm_Types
  imports Prelude
begin

text \<open>
  The enumerations of \<^verbatim>\<open>tpmlib/tpm.h\<close> and the constants of \<^verbatim>\<open>tpmlib/tpm2_constants.h\<close>,
  \<^verbatim>\<open>tpm1.h\<close> and \<^verbatim>\<open>tpm_common.h\<close> that several components use.
\<close>

datatype tpm_hw_intf = TPM_TIS | TPM_CRB

datatype tpm_family = TPM12 | TPM20

definition TPM_ALG_SHA1 :: u16 where "TPM_ALG_SHA1 = 0x0004"
definition TPM_ALG_SHA256 :: u16 where "TPM_ALG_SHA256 = 0x000B"
definition TPM_ALG_SHA384 :: u16 where "TPM_ALG_SHA384 = 0x000C"
definition TPM_ALG_SHA512 :: u16 where "TPM_ALG_SHA512 = 0x000D"
definition TPM_ALG_SM3_256 :: u16 where "TPM_ALG_SM3_256 = 0x0012"

text \<open>The whole table of identifiers, of which the loader uses the hashes above.\<close>

definition TPM_ALG_table :: "(string \<times> u16) list" where
  "TPM_ALG_table =
     [(''ERROR'', 0x0000), (''RSA'', 0x0001), (''SHA'', 0x0004), (''SHA1'', 0x0004), (''HMAC'', 0x0005), (''AES'', 0x0006),
      (''MGF1'', 0x0007), (''KEYEDHASH'', 0x0008), (''XOR'', 0x000A), (''SHA256'', 0x000B), (''SHA384'', 0x000C), (''SHA512'', 0x000D),
      (''NULL'', 0x0010), (''SM3_256'', 0x0012), (''SM4'', 0x0013), (''RSASSA'', 0x0014), (''RSAES'', 0x0015), (''RSAPSS'', 0x0016),
      (''OAEP'', 0x0017), (''ECDSA'', 0x0018), (''ECDH'', 0x0019), (''ECDAA'', 0x001A), (''SM2'', 0x001B), (''ECSCHNORR'', 0x001C),
      (''ECMQV'', 0x001D), (''KDF1_SP800_56A'', 0x0020), (''KDF2'', 0x0021), (''KDF1_SP800_108'', 0x0022), (''ECC'', 0x0023),
      (''SYMCIPHER'', 0x0025), (''CAMELLIA'', 0x0026), (''CTR'', 0x0040), (''OFB'', 0x0041), (''CBC'', 0x0042), (''CFB'', 0x0043),
      (''ECB'', 0x0044)]"

definition TPM_ALG_FIRST :: u16 where "TPM_ALG_FIRST = 0x0001"
definition TPM_ALG_LAST :: u16 where "TPM_ALG_LAST = 0x0044"

text \<open>Ascending between the two bounds, with SHA a second name of SHA1.\<close>

lemma TPM_ALG_ordered:
  "sorted (map snd TPM_ALG_table)" "distinct (map fst TPM_ALG_table)" "distinct (remove1 TPM_ALG_SHA1 (map snd TPM_ALG_table))"
  "\<forall>(n, a) \<in> set TPM_ALG_table. n = ''ERROR'' \<or> TPM_ALG_FIRST \<le> a \<and> a \<le> TPM_ALG_LAST"
  by (simp_all add: TPM_ALG_table_def TPM_ALG_SHA1_def TPM_ALG_FIRST_def TPM_ALG_LAST_def)

definition TPM_CC_PCR_EXTEND :: u32 where "TPM_CC_PCR_EXTEND = 0x00000182"
definition TPM_ST_SESSIONS :: u16 where "TPM_ST_SESSIONS = 0x8002"
definition TPM_RS_PW :: u32 where "TPM_RS_PW = 0x40000009"

definition TPM_TAG_RQU_COMMAND :: u16 where "TPM_TAG_RQU_COMMAND = 0x00C1"
definition TPM_ORD_EXTEND :: u32 where "TPM_ORD_EXTEND = 0x00000014"
definition TPM_SUCCESS :: u32 where "TPM_SUCCESS = 0x0"

definition SHA1_SIZE :: nat where "SHA1_SIZE = 20"
definition SHA256_SIZE :: nat where "SHA256_SIZE = 32"
definition SHA384_SIZE :: nat where "SHA384_SIZE = 48"
definition SHA512_SIZE :: nat where "SHA512_SIZE = 64"
definition SM3256_SIZE :: nat where "SM3256_SIZE = 32"

lemmas tpm_algs = TPM_ALG_SHA1_def TPM_ALG_SHA256_def TPM_ALG_SHA384_def TPM_ALG_SHA512_def
  TPM_ALG_SM3_256_def
lemmas tpm_sizes = SHA1_SIZE_def SHA256_SIZE_def SHA384_SIZE_def SHA512_SIZE_def SM3256_SIZE_def

end
