(* ===== verification/Event_Log.thy ===== *)
theory Event_Log
  imports Tags Tpm_Types
begin

text \<open>
  \<^verbatim>\<open>event_log.c\<close>: the TPM event log. Its packed structures are records with an encoder
  each; the three static pointers and the two static header structures are the record
  \<open>evlog\<close>. The log grows by \<^verbatim>\<open>log_event_tpm12\<close> or \<^verbatim>\<open>log_event_tpm20\<close>, which also
  advance the offset field of the header that is already in memory. What both promise
  is one locale: an append-only log of encoded records inside the region that the boot
  loader gave, with the header offset equal to the end of the last record.
\<close>

section \<open>The static variables and the packed structures\<close>

record common_spec_id_ev =
  signature :: "u8 list"
  platform_class :: u32
  spec_ver_minor :: u8
  spec_ver_major :: u8
  errata :: u8
  uintn_size :: u8

record tpm12_event_log_header =
  hdr_signature :: "u8 list"
  reserved :: "u8 list"
  container_ver_major :: u8
  container_ver_minor :: u8
  pcr_event_ver_major :: u8
  pcr_event_ver_minor :: u8
  container_size :: u32
  pcr_events_offset :: u32
  next_event_offset :: u32

record txt_event_log_pointer2_1_element =
  phys_addr :: u64
  allocated_event_container_size :: u32
  first_record_offset :: u32
  next_record_offset :: u32

record tpm12_spec_id_ev =
  c12 :: common_spec_id_ev
  vendor_info_size12 :: u8
  hdr12 :: tpm12_event_log_header

record tpm20_spec_id_ev =
  c20 :: common_spec_id_ev
  number_of_algorithms :: u32
  digest_sizes :: "(u16 \<times> u16) list"
  vendor_info_size20 :: u8
  el20 :: txt_event_log_pointer2_1_element

definition common_bytes :: "common_spec_id_ev \<Rightarrow> u8 list" where
  "common_bytes c = signature c @ le_bytes 4 (platform_class c)
     @ [spec_ver_minor c, spec_ver_major c, errata c, uintn_size c]"

definition hdr12_bytes :: "tpm12_event_log_header \<Rightarrow> u8 list" where
  "hdr12_bytes h = hdr_signature h @ reserved h
     @ [container_ver_major h, container_ver_minor h, pcr_event_ver_major h, pcr_event_ver_minor h]
     @ le_bytes 4 (container_size h) @ le_bytes 4 (pcr_events_offset h)
     @ le_bytes 4 (next_event_offset h)"

definition el_bytes :: "txt_event_log_pointer2_1_element \<Rightarrow> u8 list" where
  "el_bytes e = le_bytes 8 (phys_addr e) @ le_bytes 4 (allocated_event_container_size e)
     @ le_bytes 4 (first_record_offset e) @ le_bytes 4 (next_record_offset e)"

definition id12_bytes :: "tpm12_spec_id_ev \<Rightarrow> u8 list" where
  "id12_bytes i = common_bytes (c12 i) @ [vendor_info_size12 i] @ hdr12_bytes (hdr12 i)"

definition id20_bytes :: "tpm20_spec_id_ev \<Rightarrow> u8 list" where
  "id20_bytes i = common_bytes (c20 i) @ le_bytes 4 (number_of_algorithms i)
     @ concat (map (\<lambda>(i, s). le_bytes 2 i @ le_bytes 2 s) (digest_sizes i))
     @ [vendor_info_size20 i] @ el_bytes (el20 i)"

text \<open>\<^verbatim>\<open>sizeof\<close> of the packed structures; the offset fields, from the base of the log.\<close>

definition sizeof_tpm12_event :: nat where "sizeof_tpm12_event = 32"
definition sizeof_tpm20_event :: nat where "sizeof_tpm20_event = 72"
definition sizeof_id12 :: nat where "sizeof_id12 = 73"
definition sizeof_id20 :: nat where "sizeof_id20 = 57"
definition next_event_offset_at :: nat where "next_event_offset_at = 32 + 24 + 1 + 44"
definition next_record_offset_at :: nat where "next_record_offset_at = 32 + 24 + 12 + 1 + 16"

lemmas sizeofs = sizeof_tpm12_event_def sizeof_tpm20_event_def sizeof_id12_def sizeof_id20_def
  next_event_offset_at_def next_record_offset_at_def

definition tpm12_id_struct_init :: tpm12_spec_id_ev where
  "tpm12_id_struct_init = \<lparr>
     c12 = \<lparr>signature = ascii ''Spec ID Event00'' @ [0], platform_class = 0,
       spec_ver_minor = 2, spec_ver_major = 1, errata = 1, uintn_size = 0\<rparr>,
     vendor_info_size12 = 48,
     hdr12 = \<lparr>hdr_signature = ascii ''TXT Event Container'' @ [0], reserved = replicate 12 0,
       container_ver_major = 1, container_ver_minor = 0,
       pcr_event_ver_major = 1, pcr_event_ver_minor = 0,
       container_size = 0, pcr_events_offset = 48, next_event_offset = 48\<rparr>\<rparr>"

definition tpm20_id_struct_init :: tpm20_spec_id_ev where
  "tpm20_id_struct_init = \<lparr>
     c20 = \<lparr>signature = ascii ''Spec ID Event03'' @ [0], platform_class = 0,
       spec_ver_minor = 0, spec_ver_major = 2, errata = 0, uintn_size = 2\<rparr>,
     number_of_algorithms = 2,
     digest_sizes = [(TPM_ALG_SHA1, 20), (TPM_ALG_SHA256, 32)],
     vendor_info_size20 = 20,
     el20 = \<lparr>phys_addr = 0, allocated_event_container_size = 0, first_record_offset = 0,
       next_record_offset = of_nat (sizeof_id20 + sizeof_tpm12_event)\<rparr>\<rparr>"

record evlog =
  evtlog_base :: addr
  ptr_current :: addr
  limit :: addr
  tpm12_id_struct :: tpm12_spec_id_ev
  tpm20_id_struct :: tpm20_spec_id_ev

definition evlog_init :: evlog where
  "evlog_init = \<lparr>evtlog_base = 0, ptr_current = 0, limit = 0,
     tpm12_id_struct = tpm12_id_struct_init, tpm20_id_struct = tpm20_id_struct_init\<rparr>"

record tpm12_event =
  pcr12 :: u32
  event_type12 :: u32
  digest12 :: "u8 list"
  event_size12 :: u32

record ev_log_hash =
  count :: u32
  sha1_id :: u16
  sha1_hash :: "u8 list"
  sha256_id :: u16
  sha256_hash :: "u8 list"

record tpm20_event =
  pcr20 :: u32
  event_type20 :: u32
  digests20 :: ev_log_hash
  event_size20 :: u32

definition event12_bytes :: "tpm12_event \<Rightarrow> u8 list" where
  "event12_bytes e = le_bytes 4 (pcr12 e) @ le_bytes 4 (event_type12 e) @ digest12 e
     @ le_bytes 4 (event_size12 e)"

definition ev_log_hash_bytes :: "ev_log_hash \<Rightarrow> u8 list" where
  "ev_log_hash_bytes d = le_bytes 4 (count d) @ le_bytes 2 (sha1_id d) @ sha1_hash d
     @ le_bytes 2 (sha256_id d) @ sha256_hash d"

definition event20_bytes :: "tpm20_event \<Rightarrow> u8 list" where
  "event20_bytes e = le_bytes 4 (pcr20 e) @ le_bytes 4 (event_type20 e)
     @ ev_log_hash_bytes (digests20 e) @ le_bytes 4 (event_size20 e)"

definition EV_NO_ACTION :: u32 where "EV_NO_ACTION = 0x3"
definition EV_TYPE_SLAUNCH :: u32 where "EV_TYPE_SLAUNCH = 0x502"

section \<open>Writing to the log\<close>

text \<open>
  \<^verbatim>\<open>HAS_ENOUGH_SPACE(n)\<close>: the pointer difference is signed and is converted to the
  unsigned \<^verbatim>\<open>size_t\<close> of \<open>n\<close> for the comparison; in \<^verbatim>\<open>log_write\<close> the unsigned int
  \<open>size\<close> is converted to the signed type of the difference.
\<close>

definition has_enough_space :: "evlog \<Rightarrow> nat \<Rightarrow> bool" where
  "has_enough_space l n \<longleftrightarrow> (of_int (int (limit l) - int (ptr_current l)) :: u64) > of_nat n"

definition log_write :: "u8 list \<Rightarrow> evlog \<Rightarrow> mem \<Rightarrow> int \<times> evlog \<times> mem" where
  "log_write data l m =
     (if int (length data) \<ge> int (limit l) - int (ptr_current l) then (1, l, m)
      else (0, l\<lparr>ptr_current := ptr_current l + length data\<rparr>, mem_write m (ptr_current l) data))"

text \<open>The string argument is the list of its bytes; \<^verbatim>\<open>event_size\<close> is a \<^verbatim>\<open>u32\<close>.\<close>

definition log_event_tpm12 :: "u32 \<Rightarrow> u8 list \<Rightarrow> u8 list \<Rightarrow> evlog \<Rightarrow> mem \<Rightarrow> int \<times> evlog \<times> mem" where
  "log_event_tpm12 pcr sha1 event l m =
     (let base = evtlog_base l;
          event_size = of_nat (length event) :: u32
      in if has_enough_space l (sizeof_tpm12_event + unat event_size)
         then
           (let ev = \<lparr>pcr12 = pcr, event_type12 = EV_TYPE_SLAUNCH, digest12 = take 20 sha1,
                      event_size12 = event_size\<rparr>;
                m = store32 m (base + next_event_offset_at)
                      (load32 m (base + next_event_offset_at)
                       + (of_nat sizeof_tpm12_event + event_size));
                (_, l, m) = log_write (event12_bytes ev) l m
            in log_write event l m)
         else (1, l, m))"

definition log_event_tpm20 :: "u32 \<Rightarrow> u8 list \<Rightarrow> u8 list \<Rightarrow> u8 list \<Rightarrow> evlog \<Rightarrow> mem \<Rightarrow> int \<times> evlog \<times> mem" where
  "log_event_tpm20 pcr sha1 sha256 event l m =
     (let base = evtlog_base l;
          event_size = of_nat (length event) :: u32
      in if has_enough_space l (sizeof_tpm20_event + unat event_size)
         then
           (let ev = \<lparr>pcr20 = pcr, event_type20 = EV_TYPE_SLAUNCH,
                      digests20 = \<lparr>count = 2, sha1_id = TPM_ALG_SHA1, sha1_hash = take 20 sha1,
                        sha256_id = TPM_ALG_SHA256, sha256_hash = take 32 sha256\<rparr>,
                      event_size20 = event_size\<rparr>;
                m = store32 m (base + next_record_offset_at)
                      (load32 m (base + next_record_offset_at)
                       + (of_nat sizeof_tpm20_event + event_size));
                (_, l, m) = log_write (event20_bytes ev) l m
            in log_write event l m)
         else (1, l, m))"

section \<open>Initialisation\<close>

text \<open>The loops over the SKINIT hash tags: the digest address, or none.\<close>

partial_function (option) skinit_sha1 :: "mem \<Rightarrow> addr \<Rightarrow> addr \<Rightarrow> (fault + addr option) option" where
  "skinit_sha1 m bd h =
     (if h = 0 then Some (Inr None)
      else if algo_id (hash_at m h) = TPM_ALG_SHA1 then Some (Inr (Some (digest_at (hash_at m h))))
      else do {
        r \<leftarrow> next_of_type m bd h SKL_TAG_SKL_HASH;
        case r of Inl e \<Rightarrow> Some (Inl e) | Inr h \<Rightarrow> skinit_sha1 m bd h
      })"

partial_function (option) skinit_both :: "mem \<Rightarrow> addr \<Rightarrow> addr \<Rightarrow> addr \<Rightarrow> addr
    \<Rightarrow> (fault + (addr \<times> addr) option) option" where
  "skinit_both m bd h sha1 sha256 =
     (if h = 0 then Some (Inr None)
      else
        let sha1 = (if algo_id (hash_at m h) = TPM_ALG_SHA1 then digest_at (hash_at m h) else sha1);
            sha256 = (if algo_id (hash_at m h) = TPM_ALG_SHA256 then digest_at (hash_at m h) else sha256)
        in if sha1 \<noteq> 0 \<and> sha256 \<noteq> 0 then Some (Inr (Some (sha1, sha256)))
           else do {
             r \<leftarrow> next_of_type m bd h SKL_TAG_SKL_HASH;
             case r of Inl e \<Rightarrow> Some (Inl e) | Inr h \<Rightarrow> skinit_both m bd h sha1 sha256
           })"

text \<open>The label \<^verbatim>\<open>err\<close>: further writes to the log fail.\<close>

definition event_log_err :: "evlog \<Rightarrow> mem \<Rightarrow> int \<times> evlog \<times> mem" where
  "event_log_err l m = (1, l\<lparr>limit := ptr_current l\<rparr>, m)"

definition evlog_min_size :: "tpm_family \<Rightarrow> u32" where
  "evlog_min_size family = of_nat (sizeof_tpm12_event
     + (case family of TPM12 \<Rightarrow> sizeof_id12 + 2 * sizeof_tpm12_event
                     | TPM20 \<Rightarrow> sizeof_id20 + 2 * sizeof_tpm20_event))"

text \<open>
  From the tag on: the size, overflow and overlap checks, the wipe and the header. The
  result is the state with a flag that says whether the checks passed. The sum
  \<^verbatim>\<open>t->address + t->size\<close> is a 32-bit sum.
\<close>

definition event_log_open :: "tpm_family \<Rightarrow> addr \<Rightarrow> u32 \<Rightarrow> u32 \<Rightarrow> evlog \<Rightarrow> mem \<Rightarrow> bool \<times> evlog \<times> mem" where
  "event_log_open family start address sz l m =
     (if sz < evlog_min_size family then (False, l, m)
      else
        let l = l\<lparr>ptr_current := unat address, evtlog_base := unat address,
                  limit := unat (address + sz)\<rparr>
        in if ptr_current l > limit l then (False, l, m)
           else if \<not> (limit l < start \<or> start + SLB_SIZE < ptr_current l) then (False, l, m)
           else
             let l = l\<lparr>tpm12_id_struct := (tpm12_id_struct l)\<lparr>hdr12 :=
                          (hdr12 (tpm12_id_struct l))\<lparr>container_size := sz\<rparr>\<rparr>,
                       tpm20_id_struct := (tpm20_id_struct l)\<lparr>el20 :=
                          (el20 (tpm20_id_struct l))\<lparr>allocated_event_container_size := sz,
                             phys_addr := of_nat (evtlog_base l)\<rparr>\<rparr>\<rparr>;
                 m = mem_write m (ptr_current l) (replicate (unat sz) 0);
                 ev = \<lparr>pcr12 = 0, event_type12 = EV_NO_ACTION, digest12 = replicate 20 0,
                       event_size12 = of_nat (case family of TPM12 \<Rightarrow> sizeof_id12 | TPM20 \<Rightarrow> sizeof_id20)\<rparr>;
                 (_, l, m) = log_write (event12_bytes ev) l m;
                 (_, l, m) = (case family of
                     TPM12 \<Rightarrow> log_write (id12_bytes (tpm12_id_struct l)) l m
                   | TPM20 \<Rightarrow> log_write (id20_bytes (tpm20_id_struct l)) l m)
             in (True, l, m))"

text \<open>What SKINIT did, into PCR 17.\<close>

definition event_log_skinit :: "tpm_family \<Rightarrow> addr \<Rightarrow> evlog \<Rightarrow> mem \<Rightarrow> (fault + int \<times> evlog \<times> mem) option" where
  "event_log_skinit family bd l m = do {
     r \<leftarrow> next_of_type m bd bd SKL_TAG_SKL_HASH;
     case r of Inl e \<Rightarrow> Some (Inl e)
     | Inr h \<Rightarrow>
       (case family of
          TPM12 \<Rightarrow> do {
            d \<leftarrow> skinit_sha1 m bd h;
            Some (case d of Inl e \<Rightarrow> Inl e
              | Inr None \<Rightarrow> Inr (1, l, m)
              | Inr (Some sha1) \<Rightarrow> Inr (log_event_tpm12 17 (mem_read m sha1 20) (ascii ''SKINIT'') l m))
          }
        | TPM20 \<Rightarrow> do {
            d \<leftarrow> skinit_both m bd h 0 0;
            Some (case d of Inl e \<Rightarrow> Inl e
              | Inr None \<Rightarrow> Inr (1, l, m)
              | Inr (Some (sha1, sha256)) \<Rightarrow>
                  Inr (log_event_tpm20 17 (mem_read m sha1 20) (mem_read m sha256 32)
                         (ascii ''SKINIT'') l m))
          })
   }"

text \<open>
  \<^verbatim>\<open>event_log_init\<close>: \<open>tpm\<close> is NULL (\<open>None\<close>) or a TPM of some family; \<open>start\<close> is the
  address of \<^verbatim>\<open>_start\<close>, \<open>bd\<close> that of \<^verbatim>\<open>bootloader_data\<close>.
\<close>

definition event_log_init :: "tpm_family option \<Rightarrow> addr \<Rightarrow> addr \<Rightarrow> evlog \<Rightarrow> mem
    \<Rightarrow> (fault + int \<times> evlog \<times> mem) option" where
  "event_log_init tpm start bd l m = do {
     r \<leftarrow> next_of_type m bd bd SKL_TAG_EVENT_LOG;
     case r of Inl e \<Rightarrow> Some (Inl e)
     | Inr t \<Rightarrow>
       if t = 0 then Some (Inr (event_log_err l m))
       else do {
         r2 \<leftarrow> next_of_type m bd t SKL_TAG_EVENT_LOG;
         case r2 of Inl e \<Rightarrow> Some (Inl e)
         | Inr t2 \<Rightarrow>
           if t2 \<noteq> 0 then Some (Inr (event_log_err l m))
           else case tpm of None \<Rightarrow> Some (Inl Null_Deref)
           | Some family \<Rightarrow>
             (case event_log_open family start (evtlog_address (evtlog_at m t))
                     (evtlog_size (evtlog_at m t)) l m of
                (ok, l, m) \<Rightarrow>
                  if \<not> ok then Some (Inr (event_log_err l m))
                  else event_log_skinit family bd l m)
       }
   }"

end
