(* ===== verification/Event_Log_Props.thy ===== *)
theory Event_Log_Props
  imports Event_Log
begin

text \<open>
  The contract of the event log, stated once for the two formats: what is in memory is
  the encoding of the admitted records, in order, after an untouched header whose
  offset field says where the next record goes; nothing outside the region is written.
\<close>

section \<open>An append-only log of encoded records\<close>

definition log_repr :: "nat \<Rightarrow> nat \<Rightarrow> nat \<Rightarrow> ('e \<Rightarrow> u8 list) \<Rightarrow> evlog \<Rightarrow> mem \<Rightarrow> 'e list \<Rightarrow> bool" where
  "log_repr hdr_len off_at bias enc l m es \<longleftrightarrow>
     ptr_current l = evtlog_base l + hdr_len + length (concat (map enc es))
   \<and> ptr_current l \<le> limit l \<and> limit l < 2 ^ 32
   \<and> mem_read m (evtlog_base l + hdr_len) (length (concat (map enc es))) = concat (map enc es)
   \<and> load32 m (evtlog_base l + off_at) = of_nat (ptr_current l - evtlog_base l - bias)"

text \<open>
  The abstract log: a capacity in bytes, and the records so far. A record is admitted
  when a byte of room is left after it, as the strict comparison of the code wants.
\<close>

definition admit :: "nat \<Rightarrow> ('e \<Rightarrow> u8 list) \<Rightarrow> 'e \<Rightarrow> 'e list \<Rightarrow> 'e list" where
  "admit cap enc e es = (if length (concat (map enc (es @ [e]))) < cap then es @ [e] else es)"

definition room :: "nat \<Rightarrow> evlog \<Rightarrow> nat" where
  "room hdr_len l = limit l - evtlog_base l - hdr_len"

definition append_all :: "('e \<Rightarrow> evlog \<Rightarrow> mem \<Rightarrow> int \<times> evlog \<times> mem) \<Rightarrow> 'e list \<Rightarrow> evlog \<times> mem \<Rightarrow> evlog \<times> mem" where
  "append_all app = fold (\<lambda>e (l, m). snd (app e l m))"

locale log_format =
  fixes hdr_len off_at bias :: nat
    and ok :: "'e \<Rightarrow> bool"
    and enc :: "'e \<Rightarrow> u8 list"
    and app :: "'e \<Rightarrow> evlog \<Rightarrow> mem \<Rightarrow> int \<times> evlog \<times> mem"
  assumes off_in_hdr: "off_at + 4 \<le> hdr_len"
    and bias_in_hdr: "bias \<le> hdr_len"
    and append_fits: "\<lbrakk>ok e; ptr_current l + length (enc e) < limit l; limit l < 2 ^ 32\<rbrakk> \<Longrightarrow>
      app e l m = (0, l\<lparr>ptr_current := ptr_current l + length (enc e)\<rparr>,
        mem_write (store32 m (evtlog_base l + off_at)
          (load32 m (evtlog_base l + off_at) + of_nat (length (enc e)))) (ptr_current l) (enc e))"
    and append_full: "\<lbrakk>ok e; \<not> ptr_current l + length (enc e) < limit l; ptr_current l \<le> limit l;
      limit l < 2 ^ 32\<rbrakk> \<Longrightarrow> app e l m = (1, l, m)"
begin

abbreviation repr :: "evlog \<Rightarrow> mem \<Rightarrow> 'e list \<Rightarrow> bool" where
  "repr \<equiv> log_repr hdr_len off_at bias enc"

lemma append_cases:
  assumes r: "repr l m es" and e: "ok e" and a: "app e l m = (r, l', m')"
  shows "evtlog_base l' = evtlog_base l \<and> limit l' = limit l
     \<and> repr l' m' (admit (room hdr_len l) enc e es)
     \<and> (r = 0 \<longleftrightarrow> admit (room hdr_len l) enc e es = es @ [e]) \<and> (r \<noteq> 0 \<longrightarrow> r = 1 \<and> l' = l \<and> m' = m)"
proof -
  let ?n = "length (concat (map enc es))" and ?b = "evtlog_base l"
  have p: "ptr_current l = ?b + hdr_len + ?n" "ptr_current l \<le> limit l" "limit l < 2 ^ 32"
    using r by (simp_all add: log_repr_def)
  have fits: "length (concat (map enc (es @ [e]))) < room hdr_len l
      \<longleftrightarrow> ptr_current l + length (enc e) < limit l"
    using p by (auto simp: room_def)
  show ?thesis
  proof (cases "ptr_current l + length (enc e) < limit l")
    case True
    define m1 where "m1 = store32 m (?b + off_at) (load32 m (?b + off_at) + of_nat (length (enc e)))"
    have l': "r = 0" "l' = l\<lparr>ptr_current := ptr_current l + length (enc e)\<rparr>"
      "m' = mem_write m1 (ptr_current l) (enc e)"
      using append_fits [OF e True p(3), of m] a by (simp_all add: m1_def)
    have "mem_read m1 (?b + hdr_len) ?n = concat (map enc es)"
      using r off_in_hdr by (simp add: m1_def store32_def log_repr_def mem_read_write_disj)
    then have "mem_read m' (?b + hdr_len) (?n + length (enc e)) = concat (map enc es) @ enc e"
      using p by (simp add: l' mem_read_add mem_read_write_disj mem_read_write_same)
    moreover have "load32 m' (?b + off_at) = of_nat (ptr_current l - ?b - bias) + of_nat (length (enc e))"
    proof -
      have "load32 m' (?b + off_at) = load32 m1 (?b + off_at)"
        using off_in_hdr p by (simp add: l' load32_def mem_read_write_disj)
      then show ?thesis using r by (simp add: m1_def load32_store32 log_repr_def)
    qed
    moreover have "ptr_current l + length (enc e) - ?b - bias = (ptr_current l - ?b - bias) + length (enc e)"
      using p bias_in_hdr by simp
    ultimately have "repr l' m' (es @ [e])"
      using p True by (simp add: log_repr_def l')
    with True fits show ?thesis by (simp add: admit_def l')
  next
    case False
    then show ?thesis
      using append_full [OF e False p(2,3), of m] a r fits by (simp add: admit_def)
  qed
qed

lemma append_frame:
  assumes r: "repr l m es" and e: "ok e" and a: "app e l m = (r, l', m')"
    and x: "x < evtlog_base l \<or> limit l \<le> x
      \<or> evtlog_base l \<le> x \<and> x < ptr_current l \<and> \<not> (evtlog_base l + off_at \<le> x \<and> x < evtlog_base l + off_at + 4)"
  shows "m' x = m x"
proof -
  have p: "ptr_current l = evtlog_base l + hdr_len + length (concat (map enc es))"
    "ptr_current l \<le> limit l" "limit l < 2 ^ 32"
    using r by (simp_all add: log_repr_def)
  show ?thesis
  proof (cases "ptr_current l + length (enc e) < limit l")
    case True
    have o: "x < evtlog_base l + off_at \<or> evtlog_base l + off_at + 4 \<le> x"
      using x off_in_hdr p by auto
    have "x < ptr_current l \<or> ptr_current l + length (enc e) \<le> x" using x p True by auto
    then show ?thesis
      using append_fits [OF e True p(3), of m] a o
      by (auto simp: mem_write_out store32_def)
  next
    case False
    then show ?thesis using append_full [OF e False p(2,3), of m] a by simp
  qed
qed

text \<open>Any sequence of appends: the log is the fold of the abstract admission.\<close>

lemma append_all_repr:
  assumes "repr l m es" and "\<forall>e\<in>set q. ok e" and "append_all app q (l, m) = (l', m')"
  shows "evtlog_base l' = evtlog_base l \<and> limit l' = limit l
     \<and> repr l' m' (fold (admit (room hdr_len l) enc) q es)
     \<and> (\<forall>x. x < evtlog_base l \<or> limit l \<le> x \<longrightarrow> m' x = m x)"
  using assms
proof (induction q arbitrary: l m es)
  case Nil
  then show ?case by (simp add: append_all_def)
next
  case (Cons e q)
  obtain r l1 m1 where a: "app e l m = (r, l1, m1)" by (cases "app e l m") auto
  have s: "append_all app q (l1, m1) = (l', m')"
    using Cons.prems(3) a by (simp add: append_all_def)
  from append_cases [OF Cons.prems(1) _ a] Cons.prems(2)
  have c: "evtlog_base l1 = evtlog_base l" "limit l1 = limit l"
    "repr l1 m1 (admit (room hdr_len l) enc e es)" by simp_all
  have room: "room hdr_len l1 = room hdr_len l" by (simp add: room_def c)
  have "\<forall>x. x < evtlog_base l \<or> limit l \<le> x \<longrightarrow> m1 x = m x"
    using append_frame [OF Cons.prems(1) _ a] Cons.prems(2) by auto
  with Cons.IH [OF c(3) _ s] Cons.prems(2) c room show ?case by auto
qed

end

section \<open>The two formats\<close>

type_synonym ev12 = "u32 \<times> u8 list \<times> u8 list"
type_synonym ev20 = "u32 \<times> u8 list \<times> u8 list \<times> u8 list"

fun enc12 :: "ev12 \<Rightarrow> u8 list" where
  "enc12 (pcr, sha1, event) = event12_bytes \<lparr>pcr12 = pcr, event_type12 = EV_TYPE_SLAUNCH,
     digest12 = sha1, event_size12 = of_nat (length event)\<rparr> @ event"

fun ok12 :: "ev12 \<Rightarrow> bool" where
  "ok12 (pcr, sha1, event) \<longleftrightarrow> length sha1 = 20 \<and> length event < 2 ^ 32"

fun append12 :: "ev12 \<Rightarrow> evlog \<Rightarrow> mem \<Rightarrow> int \<times> evlog \<times> mem" where
  "append12 (pcr, sha1, event) = log_event_tpm12 pcr sha1 event"

fun enc20 :: "ev20 \<Rightarrow> u8 list" where
  "enc20 (pcr, sha1, sha256, event) = event20_bytes \<lparr>pcr20 = pcr, event_type20 = EV_TYPE_SLAUNCH,
     digests20 = \<lparr>count = 2, sha1_id = TPM_ALG_SHA1, sha1_hash = sha1,
       sha256_id = TPM_ALG_SHA256, sha256_hash = sha256\<rparr>,
     event_size20 = of_nat (length event)\<rparr> @ event"

fun ok20 :: "ev20 \<Rightarrow> bool" where
  "ok20 (pcr, sha1, sha256, event) \<longleftrightarrow>
     length sha1 = 20 \<and> length sha256 = 32 \<and> length event < 2 ^ 32"

fun append20 :: "ev20 \<Rightarrow> evlog \<Rightarrow> mem \<Rightarrow> int \<times> evlog \<times> mem" where
  "append20 (pcr, sha1, sha256, event) = log_event_tpm20 pcr sha1 sha256 event"

text \<open>Header lengths: the first record (32 bytes) with the Spec ID structure behind it.\<close>

definition hdr12_len :: nat where "hdr12_len = sizeof_tpm12_event + sizeof_id12"
definition hdr20_len :: nat where "hdr20_len = sizeof_tpm12_event + sizeof_id20"

text \<open>The offset of a TPM 1.2 log counts from the container signature, 57 bytes in.\<close>

definition bias12 :: nat where "bias12 = 32 + 24 + 1"

abbreviation repr12 :: "evlog \<Rightarrow> mem \<Rightarrow> ev12 list \<Rightarrow> bool" where
  "repr12 \<equiv> log_repr hdr12_len next_event_offset_at bias12 enc12"

abbreviation repr20 :: "evlog \<Rightarrow> mem \<Rightarrow> ev20 list \<Rightarrow> bool" where
  "repr20 \<equiv> log_repr hdr20_len next_record_offset_at 0 enc20"

lemma has_enough_space_iff:
  assumes "ptr_current l \<le> limit l" "limit l < 2 ^ 32" "n < 2 ^ 64"
  shows "has_enough_space l n \<longleftrightarrow> ptr_current l + n < limit l"
proof -
  have "int (limit l) - int (ptr_current l) = int (limit l - ptr_current l)"
    using assms by simp
  then have "(of_int (int (limit l) - int (ptr_current l)) :: u64) = of_nat (limit l - ptr_current l)"
    by (metis of_int_of_nat_eq)
  moreover have "unat (of_nat (limit l - ptr_current l) :: u64) = limit l - ptr_current l"
    using assms by (intro unat_of_nat_small) simp
  moreover have "unat (of_nat n :: u64) = n" using assms by (intro unat_of_nat_small) simp
  ultimately show ?thesis by (simp add: has_enough_space_def word_less_nat_alt) linarith
qed

lemma log_write_fits:
  "ptr_current l + length d < limit l \<Longrightarrow>
     log_write d l m = (0, l\<lparr>ptr_current := ptr_current l + length d\<rparr>, mem_write m (ptr_current l) d)"
  by (simp add: log_write_def)

lemma length_event12_bytes: "length (event12_bytes e) = 12 + length (digest12 e)"
  by (simp add: event12_bytes_def)

lemma length_event20_bytes:
  "length (event20_bytes e) = 20 + length (sha1_hash (digests20 e)) + length (sha256_hash (digests20 e))"
  by (simp add: event20_bytes_def ev_log_hash_bytes_def)

interpretation tpm12log: log_format hdr12_len next_event_offset_at bias12 ok12 enc12 append12
proof
  show "next_event_offset_at + 4 \<le> hdr12_len" "bias12 \<le> hdr12_len"
    by (simp_all add: sizeofs hdr12_len_def bias12_def)
  fix e :: ev12 and l :: evlog and m :: mem
  obtain pcr sha1 event where e: "e = (pcr, sha1, event)" by (cases e)
  assume "ok12 e" and lim: "limit l < 2 ^ 32"
  then have len: "length sha1 = 20" "length event < 2 ^ 32" by (simp_all add: e)
  have sz: "unat (of_nat (length event) :: u32) = length event"
    using len by (intro unat_of_nat_small) simp
  have enc: "length (enc12 e) = 32 + length event"
    by (simp add: e length_event12_bytes len)
  {
    assume fits: "ptr_current l + length (enc12 e) < limit l"
    then have "has_enough_space l (sizeof_tpm12_event + length event)"
      using len lim enc by (subst has_enough_space_iff) (auto simp: sizeofs)
    then show "append12 e l m = (0, l\<lparr>ptr_current := ptr_current l + length (enc12 e)\<rparr>,
        mem_write (store32 m (evtlog_base l + next_event_offset_at)
          (load32 m (evtlog_base l + next_event_offset_at) + of_nat (length (enc12 e))))
          (ptr_current l) (enc12 e))"
      using fits enc len
      by (simp add: e log_event_tpm12_def Let_def sz log_write_fits length_event12_bytes sizeof_tpm12_event_def
          mem_write_append [of _ _ "event12_bytes _", symmetric] add.assoc)
  next
    assume full: "\<not> ptr_current l + length (enc12 e) < limit l" and p: "ptr_current l \<le> limit l"
    then have "\<not> has_enough_space l (sizeof_tpm12_event + length event)"
      using len lim enc p by (subst has_enough_space_iff) (auto simp: sizeofs)
    then show "append12 e l m = (1, l, m)"
      by (simp add: e log_event_tpm12_def Let_def sz)
  }
qed

interpretation tpm20log: log_format hdr20_len next_record_offset_at 0 ok20 enc20 append20
proof
  show "next_record_offset_at + 4 \<le> hdr20_len" "0 \<le> hdr20_len"
    by (simp_all add: sizeofs hdr20_len_def)
  fix e :: ev20 and l :: evlog and m :: mem
  obtain pcr sha1 sha256 event where e: "e = (pcr, sha1, sha256, event)" by (cases e)
  assume "ok20 e" and lim: "limit l < 2 ^ 32"
  then have len: "length sha1 = 20" "length sha256 = 32" "length event < 2 ^ 32" by (simp_all add: e)
  have sz: "unat (of_nat (length event) :: u32) = length event"
    using len by (intro unat_of_nat_small) simp
  have enc: "length (enc20 e) = 72 + length event"
    by (simp add: e length_event20_bytes len)
  {
    assume fits: "ptr_current l + length (enc20 e) < limit l"
    then have "has_enough_space l (sizeof_tpm20_event + length event)"
      using len lim enc by (subst has_enough_space_iff) (auto simp: sizeofs)
    then show "append20 e l m = (0, l\<lparr>ptr_current := ptr_current l + length (enc20 e)\<rparr>,
        mem_write (store32 m (evtlog_base l + next_record_offset_at)
          (load32 m (evtlog_base l + next_record_offset_at) + of_nat (length (enc20 e))))
          (ptr_current l) (enc20 e))"
      using fits enc len
      by (simp add: e log_event_tpm20_def Let_def sz log_write_fits length_event20_bytes sizeof_tpm20_event_def
          mem_write_append [of _ _ "event20_bytes _", symmetric] add.assoc)
  next
    assume full: "\<not> ptr_current l + length (enc20 e) < limit l" and p: "ptr_current l \<le> limit l"
    then have "\<not> has_enough_space l (sizeof_tpm20_event + length event)"
      using len lim enc p by (subst has_enough_space_iff) (auto simp: sizeofs)
    then show "append20 e l m = (1, l, m)"
      by (simp add: e log_event_tpm20_def Let_def sz)
  }
qed

section \<open>Reading a log back\<close>

text \<open>Parsers for the two record formats; the fuel is an upper bound on the number of records.\<close>

definition dec12 :: "u8 list \<Rightarrow> (ev12 \<times> u8 list) option" where
  "dec12 bs =
     (let n = unat (of_le (take 4 (drop 28 bs)) :: u32)
      in if length bs < 32 + n \<or> of_le (take 4 (drop 4 bs)) \<noteq> EV_TYPE_SLAUNCH then None
         else Some ((of_le (take 4 bs), take 20 (drop 8 bs), take n (drop 32 bs)), drop (32 + n) bs))"

definition dec20 :: "u8 list \<Rightarrow> (ev20 \<times> u8 list) option" where
  "dec20 bs =
     (let n = unat (of_le (take 4 (drop 68 bs)) :: u32)
      in if length bs < 72 + n \<or> of_le (take 4 (drop 4 bs)) \<noteq> EV_TYPE_SLAUNCH
            \<or> of_le (take 4 (drop 8 bs)) \<noteq> (2 :: u32) \<or> of_le (take 2 (drop 12 bs)) \<noteq> TPM_ALG_SHA1
            \<or> of_le (take 2 (drop 34 bs)) \<noteq> TPM_ALG_SHA256 then None
         else Some ((of_le (take 4 bs), take 20 (drop 14 bs), take 32 (drop 36 bs), take n (drop 72 bs)),
                    drop (72 + n) bs))"

fun parse_all :: "(u8 list \<Rightarrow> ('e \<times> u8 list) option) \<Rightarrow> nat \<Rightarrow> u8 list \<Rightarrow> 'e list option" where
  "parse_all dec 0 bs = (if bs = [] then Some [] else None)"
| "parse_all dec (Suc n) bs =
     (if bs = [] then Some []
      else case dec bs of None \<Rightarrow> None
        | Some (e, rest) \<Rightarrow> map_option ((#) e) (parse_all dec n rest))"

lemma parse_all_enc:
  assumes "\<forall>e\<in>set es. enc e \<noteq> [] \<and> (\<forall>rest. dec (enc e @ rest) = Some (e, rest))"
    and "length es \<le> n"
  shows "parse_all dec n (concat (map enc es)) = Some es"
  using assms
proof (induction es arbitrary: n)
  case Nil
  then show ?case by (cases n) simp_all
next
  case (Cons e es)
  then obtain k where "n = Suc k" "length es \<le> k" by (cases n) auto
  with Cons show ?case by simp
qed

lemma dec12_enc12: "ok12 e \<Longrightarrow> enc12 e \<noteq> [] \<and> dec12 (enc12 e @ rest) = Some (e, rest)"
proof -
  assume ok: "ok12 e"
  obtain pcr sha1 event where e: "e = (pcr, sha1, event)" by (cases e)
  with ok have len: "length sha1 = 20" "length event < 2 ^ 32" by simp_all
  then have "unat (of_nat (length event) :: u32) = length event" by (simp add: unat_of_nat_small)
  with len show ?thesis
    by (simp add: e dec12_def event12_bytes_def of_le_le_bytes)
qed

lemma dec20_enc20: "ok20 e \<Longrightarrow> enc20 e \<noteq> [] \<and> dec20 (enc20 e @ rest) = Some (e, rest)"
proof -
  assume ok: "ok20 e"
  obtain pcr sha1 sha256 event where e: "e = (pcr, sha1, sha256, event)" by (cases e)
  with ok have len: "length sha1 = 20" "length sha256 = 32" "length event < 2 ^ 32" by simp_all
  then have "unat (of_nat (length event) :: u32) = length event" by (simp add: unat_of_nat_small)
  with len show ?thesis
    by (simp add: e dec20_def event20_bytes_def ev_log_hash_bytes_def of_le_le_bytes)
qed

lemma length_admit_fold: "length (fold (admit cap enc) q es) \<le> length es + length q"
proof (induction q arbitrary: es)
  case Nil
  then show ?case by simp
next
  case (Cons e q)
  have "length (admit cap enc e es) \<le> Suc (length es)" by (simp add: admit_def)
  with Cons.IH [of "admit cap enc e es"] show ?case by simp
qed

lemma admit_fold_ok:
  "\<forall>e\<in>set (es @ q). P e \<Longrightarrow> \<forall>e\<in>set (fold (admit cap enc) q es). P e"
proof (induction q arbitrary: es)
  case Nil
  then show ?case by simp
next
  case (Cons e q)
  have "\<forall>x\<in>set (admit cap enc e es @ q). P x" using Cons.prems by (auto simp: admit_def)
  from Cons.IH [OF this] show ?case by simp
qed

text \<open>
  C16. Appending to a TPM 1.2 log. After any sequence of \<^verbatim>\<open>log_event_tpm12\<close> calls on
  records that fit the format, the bytes after the header parse to exactly the records
  that were there before, followed by those that found room, in order; the offset field
  of the header points at the end of the last record; and no byte outside the region was
  written.
\<close>

theorem tpm12_log_is_append_only:
  assumes "repr12 l m es"
    and "\<forall>e\<in>set (es @ q). ok12 e"
    and "append_all append12 q (l, m) = (l', m')"
  shows "evtlog_base l' = evtlog_base l \<and> limit l' = limit l
   \<and> parse_all dec12 (length (es @ q))
       (mem_read m' (evtlog_base l + hdr12_len) (ptr_current l' - evtlog_base l - hdr12_len))
     = Some (fold (admit (room hdr12_len l) enc12) q es)
   \<and> load32 m' (evtlog_base l + next_event_offset_at)
     = of_nat (ptr_current l' - evtlog_base l - bias12)
   \<and> (\<forall>x. x < evtlog_base l \<or> limit l \<le> x \<longrightarrow> m' x = m x)"
proof -
  let ?es = "fold (admit (room hdr12_len l) enc12) q es"
  note a = tpm12log.append_all_repr [OF assms(1) _ assms(3)]
  from a assms(2) have r: "repr12 l' m' ?es"
    and b: "evtlog_base l' = evtlog_base l" "limit l' = limit l"
    and x: "\<forall>x. x < evtlog_base l \<or> limit l \<le> x \<longrightarrow> m' x = m x" by auto
  have "\<forall>e\<in>set ?es. ok12 e" using assms(2) by (rule admit_fold_ok)
  then have "parse_all dec12 (length (es @ q)) (concat (map enc12 ?es)) = Some ?es"
    by (intro parse_all_enc) (simp_all add: dec12_enc12 length_admit_fold)
  with r b x show ?thesis by (simp add: log_repr_def)
qed

text \<open>
  C17. Appending to a TPM 2.0 log: the same for \<^verbatim>\<open>log_event_tpm20\<close>, whose records hold
  both digests and whose offset field counts from the base of the log.
\<close>

theorem tpm20_log_is_append_only:
  assumes "repr20 l m es"
    and "\<forall>e\<in>set (es @ q). ok20 e"
    and "append_all append20 q (l, m) = (l', m')"
  shows "evtlog_base l' = evtlog_base l \<and> limit l' = limit l
   \<and> parse_all dec20 (length (es @ q))
       (mem_read m' (evtlog_base l + hdr20_len) (ptr_current l' - evtlog_base l - hdr20_len))
     = Some (fold (admit (room hdr20_len l) enc20) q es)
   \<and> load32 m' (evtlog_base l + next_record_offset_at)
     = of_nat (ptr_current l' - evtlog_base l)
   \<and> (\<forall>x. x < evtlog_base l \<or> limit l \<le> x \<longrightarrow> m' x = m x)"
proof -
  let ?es = "fold (admit (room hdr20_len l) enc20) q es"
  note a = tpm20log.append_all_repr [OF assms(1) _ assms(3)]
  from a assms(2) have r: "repr20 l' m' ?es"
    and b: "evtlog_base l' = evtlog_base l" "limit l' = limit l"
    and x: "\<forall>x. x < evtlog_base l \<or> limit l \<le> x \<longrightarrow> m' x = m x" by auto
  have "\<forall>e\<in>set ?es. ok20 e" using assms(2) by (rule admit_fold_ok)
  then have "parse_all dec20 (length (es @ q)) (concat (map enc20 ?es)) = Some ?es"
    by (intro parse_all_enc) (simp_all add: dec20_enc20 length_admit_fold)
  with r b x show ?thesis by (simp add: log_repr_def)
qed

section \<open>Opening the log\<close>

text \<open>The header that \<^verbatim>\<open>event_log_init\<close> writes, per family, for a region at \<open>base\<close>.\<close>

definition header_bytes :: "tpm_family \<Rightarrow> addr \<Rightarrow> u32 \<Rightarrow> evlog \<Rightarrow> u8 list" where
  "header_bytes family base sz l = event12_bytes \<lparr>pcr12 = 0, event_type12 = EV_NO_ACTION,
       digest12 = replicate 20 0,
       event_size12 = of_nat (case family of TPM12 \<Rightarrow> sizeof_id12 | TPM20 \<Rightarrow> sizeof_id20)\<rparr>
     @ (case family of
          TPM12 \<Rightarrow> id12_bytes ((tpm12_id_struct l)\<lparr>hdr12 :=
                     (hdr12 (tpm12_id_struct l))\<lparr>container_size := sz\<rparr>\<rparr>)
        | TPM20 \<Rightarrow> id20_bytes ((tpm20_id_struct l)\<lparr>el20 := (el20 (tpm20_id_struct l))
                     \<lparr>allocated_event_container_size := sz, phys_addr := of_nat base\<rparr>\<rparr>))"

lemma wraps_iff: "unat (a :: u32) \<le> unat (a + s) \<longleftrightarrow> unat a + unat s < 2 ^ 32"
proof (cases "unat a + unat s < 2 ^ 32")
  case True
  then have "unat (a + s) = unat a + unat s" by (simp add: unat_plus_if')
  with True show ?thesis by simp
next
  case False
  have "unat a < 2 ^ 32" "unat s < 2 ^ 32" using unsigned_less [of a] unsigned_less [of s] by simp_all
  with False show ?thesis by (simp add: unat_plus_if')
qed

lemma unat_sum: "unat (a :: u32) + unat s < 2 ^ 32 \<Longrightarrow> unat (a + s) = unat a + unat s"
  by (simp add: unat_plus_if')

lemma evlog_min_size_bounds: "evlog_min_size family \<le> sz \<Longrightarrow>
    unat sz \<ge> (case family of TPM12 \<Rightarrow> hdr12_len + 64 | TPM20 \<Rightarrow> hdr20_len + 144)"
  by (cases family) (simp_all add: evlog_min_size_def sizeofs hdr12_len_def hdr20_len_def
      word_le_nat_alt)

definition region_ok :: "tpm_family \<Rightarrow> addr \<Rightarrow> u32 \<Rightarrow> u32 \<Rightarrow> bool" where
  "region_ok family start address sz \<longleftrightarrow> evlog_min_size family \<le> sz \<and> unat address + unat sz < 2 ^ 32
     \<and> (unat address + unat sz < start \<or> start + SLB_SIZE < unat address)"

definition ids_fresh :: "evlog \<Rightarrow> bool" where
  "ids_fresh l \<longleftrightarrow> tpm12_id_struct l = tpm12_id_struct_init \<and> tpm20_id_struct l = tpm20_id_struct_init"

text \<open>The representation invariant of the log, for the family in use.\<close>

definition log_inv :: "tpm_family \<Rightarrow> evlog \<Rightarrow> mem \<Rightarrow> bool" where
  "log_inv family l m \<longleftrightarrow> (case family of
     TPM12 \<Rightarrow> (\<exists>es. (\<forall>e\<in>set es. ok12 e) \<and> repr12 l m es)
   | TPM20 \<Rightarrow> (\<exists>es. (\<forall>e\<in>set es. ok20 e) \<and> repr20 l m es))"

lemma length_header_bytes:
  "ids_fresh l \<Longrightarrow> length (header_bytes family base sz l) = (case family of TPM12 \<Rightarrow> hdr12_len | TPM20 \<Rightarrow> hdr20_len)"
  by (simp add: header_bytes_def ids_fresh_def tpm12_id_struct_init_def tpm20_id_struct_init_def
      id12_bytes_def id20_bytes_def common_bytes_def hdr12_bytes_def el_bytes_def
      length_event12_bytes hdr12_len_def hdr20_len_def sizeofs split: tpm_family.split)

lemma header_offset12:
  "ids_fresh l \<Longrightarrow> take 4 (drop next_event_offset_at (header_bytes TPM12 base sz l)) = le_bytes 4 (48 :: u32)"
  by (simp add: header_bytes_def ids_fresh_def tpm12_id_struct_init_def
      id12_bytes_def common_bytes_def hdr12_bytes_def event12_bytes_def sizeofs)

lemma header_offset20:
  "ids_fresh l \<Longrightarrow> take 4 (drop next_record_offset_at (header_bytes TPM20 base sz l)) = le_bytes 4 (89 :: u32)"
  by (simp add: header_bytes_def ids_fresh_def tpm20_id_struct_init_def
      id20_bytes_def common_bytes_def el_bytes_def event12_bytes_def sizeofs)

lemma event_log_open_rejects:
  "\<not> region_ok family start address sz \<Longrightarrow> \<exists>l'. event_log_open family start address sz l m = (False, l', m)
     \<and> (ptr_current l \<le> evtlog_base l \<longrightarrow> ptr_current l' \<le> evtlog_base l')"
  using wraps_iff [of address sz] unat_sum [of address sz]
  by (auto simp: event_log_open_def region_ok_def Let_def)

lemma event_log_open_accepts:
  assumes ok: "region_ok family start address sz" and ids: "ids_fresh l"
  shows "\<exists>l'. event_log_open family start address sz l m = (True, l',
      mem_write (mem_write m (unat address) (replicate (unat sz) 0)) (unat address)
        (header_bytes family (unat address) sz l))
    \<and> evtlog_base l' = unat address \<and> limit l' = unat address + unat sz
    \<and> ptr_current l' = unat address + (case family of TPM12 \<Rightarrow> hdr12_len | TPM20 \<Rightarrow> hdr20_len)"
proof -
  from ok have sz: "\<not> sz < evlog_min_size family" "evlog_min_size family \<le> sz"
    and nw: "unat address + unat sz < 2 ^ 32"
    and dj: "unat address + unat sz < start \<or> start + SLB_SIZE < unat address"
    by (auto simp: region_ok_def)
  note lim = unat_sum [OF nw]
  have dj': "unat address + unat sz < start \<or> start + SLB_SIZE < unat address \<longleftrightarrow> True" using dj by simp
  have min: "(case family of TPM12 \<Rightarrow> hdr12_len + 64 | TPM20 \<Rightarrow> hdr20_len + 144) \<le> unat sz"
    using evlog_min_size_bounds [OF sz(2)] by simp
  show ?thesis
  proof (cases family)
    case TPM12
    then have "hdr12_len < unat sz" "32 < unat sz" using min by (simp_all add: hdr12_len_def sizeofs)
    moreover have "length (id12_bytes ((tpm12_id_struct l)\<lparr>hdr12 :=
        (hdr12 (tpm12_id_struct l))\<lparr>container_size := sz\<rparr>\<rparr>)) = 73"
      using ids by (simp add: ids_fresh_def tpm12_id_struct_init_def id12_bytes_def common_bytes_def
        hdr12_bytes_def)
    ultimately show ?thesis
      using TPM12 sz dj'
      by (simp add: event_log_open_def lim log_write_fits length_event12_bytes hdr12_len_def sizeofs
          header_bytes_def mem_write_append [of _ _ "event12_bytes _", symmetric] add.assoc Let_def)
  next
    case TPM20
    then have "hdr20_len < unat sz" "32 < unat sz" using min by (simp_all add: hdr20_len_def sizeofs)
    moreover have "length (id20_bytes ((tpm20_id_struct l)\<lparr>el20 := (el20 (tpm20_id_struct l))
        \<lparr>allocated_event_container_size := sz, phys_addr := of_nat (unat address)\<rparr>\<rparr>)) = 57"
      using ids by (simp add: ids_fresh_def tpm20_id_struct_init_def id20_bytes_def common_bytes_def
        el_bytes_def)
    ultimately show ?thesis
      using TPM20 sz dj'
      by (simp add: event_log_open_def lim log_write_fits length_event12_bytes hdr20_len_def sizeofs
          header_bytes_def mem_write_append [of _ _ "event12_bytes _", symmetric] add.assoc Let_def)
  qed
qed

lemma opened_log_repr:
  assumes ok: "region_ok family start address sz" and ids: "ids_fresh l"
    and o: "event_log_open family start address sz l m = (True, l', m')"
  shows "(case family of TPM12 \<Rightarrow> repr12 l' m' [] | TPM20 \<Rightarrow> repr20 l' m' []) \<and> evtlog_base l' = unat address \<and> limit l' = unat address + unat sz"
proof -
  let ?h = "header_bytes family (unat address) sz l"
  from event_log_open_accepts [OF ok ids, of m] o
  have l': "evtlog_base l' = unat address" "limit l' = unat address + unat sz"
    "ptr_current l' = unat address + length ?h"
    "m' = mem_write (mem_write m (unat address) (replicate (unat sz) 0)) (unat address) ?h"
    using length_header_bytes [OF ids] by auto
  have len: "length ?h \<le> unat sz"
    using ok evlog_min_size_bounds [of family sz] length_header_bytes [OF ids]
    by (auto simp: region_ok_def split: tpm_family.splits)
  have lim: "limit l' < 2 ^ 32" using ok l' by (simp add: region_ok_def)
  have rd: "mem_read m' (unat address + i) k = take k (drop i ?h)" if "i + k \<le> length ?h" for i k
    using that mem_read_sub [of i k "length ?h" m' "unat address"] by (simp add: l' mem_read_write_same)
  have "case family of TPM12 \<Rightarrow> repr12 l' m' [] | TPM20 \<Rightarrow> repr20 l' m' []"
  proof (cases family)
    case TPM12
    then have h: "length ?h = hdr12_len" using length_header_bytes [OF ids] by simp
    have "load32 m' (unat address + next_event_offset_at) = of_nat (hdr12_len - bias12)"
      using rd [of next_event_offset_at 4] h header_offset12 [OF ids] TPM12
      by (simp add: load32_def of_le_le_bytes hdr12_len_def sizeofs bias12_def)
    with TPM12 h l' len lim show ?thesis
      by (auto simp: log_repr_def)
  next
    case TPM20
    then have h: "length ?h = hdr20_len" using length_header_bytes [OF ids] by simp
    have "load32 m' (unat address + next_record_offset_at) = of_nat hdr20_len"
      using rd [of next_record_offset_at 4] h header_offset20 [OF ids] TPM20
      by (simp add: load32_def of_le_le_bytes hdr20_len_def sizeofs)
    with TPM20 h l' len lim show ?thesis
      by (auto simp: log_repr_def)
  qed
  with l' show ?thesis by simp
qed

lemma opened_log_inv:
  assumes "region_ok family start address sz" "ids_fresh l"
    and "event_log_open family start address sz l m = (True, l', m')"
  shows "log_inv family l' m' \<and> evtlog_base l' = unat address \<and> limit l' = unat address + unat sz"
proof -
  note r = opened_log_repr [OF assms]
  then have "log_inv family l' m'"
    by (cases family) (auto simp: log_inv_def intro!: exI [of _ "[]"])
  with r show ?thesis by simp
qed

lemma event_log_open_outside:
  assumes ok: "region_ok family start address sz" and ids: "ids_fresh l"
    and o: "event_log_open family start address sz l m = (True, l', m')"
    and x: "x < unat address \<or> unat address + unat sz \<le> x"
  shows "m' x = m x"
proof -
  have "length (header_bytes family (unat address) sz l) \<le> unat sz"
    using ok evlog_min_size_bounds [of family sz] length_header_bytes [OF ids]
    by (auto simp: region_ok_def split: tpm_family.splits)
  with x event_log_open_accepts [OF ok ids, of m] o show ?thesis
    by (auto simp: mem_write_out)
qed

section \<open>Initialisation as a whole\<close>

lemma log_inv_append12:
  assumes "log_inv TPM12 l m" "ok12 e" "append12 e l m = (r, l', m')"
  shows "log_inv TPM12 l' m' \<and> evtlog_base l' = evtlog_base l \<and> limit l' = limit l
    \<and> (\<forall>x. x < evtlog_base l \<or> limit l \<le> x \<longrightarrow> m' x = m x)"
proof -
  from assms(1) obtain es where es: "\<forall>e\<in>set es. ok12 e"
    "repr12 l m es" by (auto simp: log_inv_def)
  note c = tpm12log.append_cases [OF es(2) assms(2,3)]
  have "\<forall>e'\<in>set (admit (room hdr12_len l) enc12 e es). ok12 e'"
    using es(1) assms(2) by (auto simp: admit_def)
  with c have "log_inv TPM12 l' m'" by (auto simp: log_inv_def)
  with c show ?thesis using tpm12log.append_frame [OF es(2) assms(2,3)] by blast
qed

lemma log_inv_append20:
  assumes "log_inv TPM20 l m" "ok20 e" "append20 e l m = (r, l', m')"
  shows "log_inv TPM20 l' m' \<and> evtlog_base l' = evtlog_base l \<and> limit l' = limit l
    \<and> (\<forall>x. x < evtlog_base l \<or> limit l \<le> x \<longrightarrow> m' x = m x)"
proof -
  from assms(1) obtain es where es: "\<forall>e\<in>set es. ok20 e"
    "repr20 l m es" by (auto simp: log_inv_def)
  note c = tpm20log.append_cases [OF es(2) assms(2,3)]
  have "\<forall>e'\<in>set (admit (room hdr20_len l) enc20 e es). ok20 e'"
    using es(1) assms(2) by (auto simp: admit_def)
  with c have "log_inv TPM20 l' m'" by (auto simp: log_inv_def)
  with c show ?thesis using tpm20log.append_frame [OF es(2) assms(2,3)] by blast
qed

text \<open>After a failed initialisation the log is closed: nothing is written any more.\<close>

definition log_closed :: "evlog \<Rightarrow> bool" where
  "log_closed l \<longleftrightarrow> ptr_current l = limit l"

lemma closed_no_space: "log_closed l \<Longrightarrow> \<not> has_enough_space l n"
  by (simp add: log_closed_def has_enough_space_def)

lemma closed_log12: "log_closed l \<Longrightarrow> log_event_tpm12 pcr sha1 event l m = (1, l, m)"
  by (simp add: log_event_tpm12_def closed_no_space Let_def)

lemma closed_log20: "log_closed l \<Longrightarrow> log_event_tpm20 pcr sha1 sha256 event l m = (1, l, m)"
  by (simp add: log_event_tpm20_def closed_no_space Let_def)

lemma skinit_inv:
  assumes i: "log_inv family l m" and s: "event_log_skinit family bd l m = Some (Inr (r, l', m'))"
  shows "log_inv family l' m' \<and> evtlog_base l' = evtlog_base l \<and> limit l' = limit l
    \<and> (\<forall>x. x < evtlog_base l \<or> limit l \<le> x \<longrightarrow> m' x = m x)"
proof (cases family)
  case TPM12
  from s have "l' = l \<and> m' = m \<or>
      (\<exists>d. append12 (17, mem_read m d 20, ascii ''SKINIT'') l m = (r, l', m'))"
    by (auto simp: event_log_skinit_def TPM12 bind_eq_Some_conv split: option.split_asm)
  then show ?thesis
    using i log_inv_append12 [of l m "(17, mem_read m _ 20, ascii ''SKINIT'')" r l' m']
    by (auto simp: TPM12)
next
  case TPM20
  from s have "l' = l \<and> m' = m \<or>
      (\<exists>d d2. append20 (17, mem_read m d 20, mem_read m d2 32, ascii ''SKINIT'') l m = (r, l', m'))"
    by (auto simp: event_log_skinit_def TPM20 bind_eq_Some_conv split: option.split_asm)
  then show ?thesis
    using i log_inv_append20 [of l m "(17, mem_read m _ 20, mem_read m _ 32, ascii ''SKINIT'')" r l' m']
    by (auto simp: TPM20)
qed

text \<open>The three ways through \<^verbatim>\<open>event_log_init\<close> that return.\<close>

lemma event_log_init_cases:
  assumes "event_log_init (Some family) start bd l m = Some (Inr (r, l', m'))" "ids_fresh l"
  shows "(r = 1 \<and> log_closed l' \<and> m' = m \<and> (ptr_current l \<le> evtlog_base l \<longrightarrow> limit l' \<le> evtlog_base l'))
    \<or> (\<exists>t l1 m1. region_ok family start (evtlog_address (evtlog_at m t)) (evtlog_size (evtlog_at m t))
         \<and> event_log_open family start (evtlog_address (evtlog_at m t)) (evtlog_size (evtlog_at m t)) l m
             = (True, l1, m1)
         \<and> event_log_skinit family bd l1 m1 = Some (Inr (r, l', m')))"
proof -
  from assms(1) obtain t where "(r, l', m') = event_log_err l m \<or>
     (case event_log_open family start (evtlog_address (evtlog_at m t)) (evtlog_size (evtlog_at m t)) l m of
        (ok, l, m) \<Rightarrow> if \<not> ok then Some (Inr (event_log_err l m)) else event_log_skinit family bd l m)
       = Some (Inr (r, l', m'))"
    by (auto simp: event_log_init_def bind_eq_Some_conv split: if_split_asm)
  then show ?thesis
  proof
    assume "(r, l', m') = event_log_err l m"
    then show ?thesis by (simp add: event_log_err_def log_closed_def)
  next
    let ?a = "evtlog_address (evtlog_at m t)" and ?s = "evtlog_size (evtlog_at m t)"
    assume c: "(case event_log_open family start ?a ?s l m of
        (ok, l, m) \<Rightarrow> if \<not> ok then Some (Inr (event_log_err l m)) else event_log_skinit family bd l m)
       = Some (Inr (r, l', m'))"
    show ?thesis
    proof (cases "region_ok family start ?a ?s")
      case True
      from event_log_open_accepts [OF this assms(2), of m] c True show ?thesis
        by (auto intro!: disjI2 exI [of _ t])
    next
      case False
      from event_log_open_rejects [OF this, of l m] c show ?thesis
        by (auto simp: event_log_err_def log_closed_def)
    qed
  qed
qed

lemma event_log_init_outside:
  assumes "ids_fresh l" and "event_log_init (Some family) start bd l m = Some (Inr (r, l', m'))"
  shows "(\<forall>x. start \<le> x \<and> x \<le> start + SLB_SIZE \<longrightarrow> m' x = m x)
    \<and> (r = 1 \<and> log_closed l' \<and> m' = m \<and> (ptr_current l \<le> evtlog_base l \<longrightarrow> limit l' \<le> evtlog_base l')
       \<or> log_inv family l' m' \<and> (limit l' < start \<or> start + SLB_SIZE < evtlog_base l'))"
  using event_log_init_cases [OF assms(2,1)]
proof (elim disjE exE conjE)
  assume "r = 1" "log_closed l'" "m' = m" "ptr_current l \<le> evtlog_base l \<longrightarrow> limit l' \<le> evtlog_base l'"
  then show ?thesis by simp
next
  fix t l1 m1
  let ?a = "evtlog_address (evtlog_at m t)" and ?s = "evtlog_size (evtlog_at m t)"
  assume ok: "region_ok family start ?a ?s"
    and o: "event_log_open family start ?a ?s l m = (True, l1, m1)"
    and s: "event_log_skinit family bd l1 m1 = Some (Inr (r, l', m'))"
  from opened_log_inv [OF ok assms(1) o] have i: "log_inv family l1 m1"
    and b: "evtlog_base l1 = unat ?a" "limit l1 = unat ?a + unat ?s" by auto
  from skinit_inv [OF i s] b have i': "log_inv family l' m'"
    and b': "evtlog_base l' = unat ?a" "limit l' = unat ?a + unat ?s"
    and f: "\<forall>x. x < unat ?a \<or> unat ?a + unat ?s \<le> x \<longrightarrow> m' x = m1 x" by auto
  have dj: "unat ?a + unat ?s < start \<or> start + SLB_SIZE < unat ?a" using ok by (simp add: region_ok_def)
  note out = event_log_open_outside [OF ok assms(1) o]
  have "\<forall>x. start \<le> x \<and> x \<le> start + SLB_SIZE \<longrightarrow> m' x = m x"
  proof (intro allI impI)
    fix x assume "start \<le> x \<and> x \<le> start + SLB_SIZE"
    with dj have "x < unat ?a \<or> unat ?a + unat ?s \<le> x" by auto
    with f out [OF this] show "m' x = m x" by metis
  qed
  with i' b' dj show ?thesis by simp
qed


end
