(* ===== verification/Event_Log_Init.thy ===== *)
theory Event_Log_Init
  imports Event_Log_Props
begin

text \<open>
  \<^verbatim>\<open>event_log_init\<close> on a valid tag list: it returns, and when the list holds one event log
  tag with an acceptable region and the hash tags of SKINIT, the log that it leaves
  behind holds exactly the SKINIT record.
\<close>

section \<open>Walking the hash tags\<close>

definition of_kind :: "mem \<Rightarrow> u8 \<Rightarrow> addr list \<Rightarrow> addr list" where
  "of_kind m k ts = filter (\<lambda>a. tag_type (hdr_at m a) = k) ts"

definition first_of :: "addr list \<Rightarrow> addr" where
  "first_of ts = (case ts of [] \<Rightarrow> 0 | t # _ \<Rightarrow> t)"

lemma of_kind_step:
  assumes "tag_chain m bd a (a # post)"
  shows "next_of_type m bd a k = Some (Inr (first_of (of_kind m k post)))"
    and "of_kind m k post = b # bs \<Longrightarrow> b \<noteq> 0 \<and> (\<exists>post'. tag_chain m bd b (b # post') \<and> of_kind m k post' = bs)"
proof -
  have "find P xs = (case filter P xs of [] \<Rightarrow> None | x # _ \<Rightarrow> Some x)" for P and xs :: "addr list"
    by (induction xs) auto
  then show "next_of_type m bd a k = Some (Inr (first_of (of_kind m k post)))"
    using by_type.search_chain [OF assms, of k]
    by (auto simp: by_type.first_hit_def of_kind_def first_of_def split: list.splits)
  assume "of_kind m k post = b # bs"
  then obtain us vs where us: "post = us @ b # vs" "of_kind m k vs = bs"
    by (auto simp: of_kind_def filter_eq_Cons_iff)
  with assms have "tag_chain m bd b (b # vs)" using chain_drop [of m bd a "a # us" b vs] by simp
  with us chain_nonzero [OF this]
  show "b \<noteq> 0 \<and> (\<exists>post'. tag_chain m bd b (b # post') \<and> of_kind m k post' = bs)" by blast
qed

text \<open>What the two loops compute, on the list of the hash tags.\<close>

fun sha1_of :: "mem \<Rightarrow> addr list \<Rightarrow> addr option" where
  "sha1_of m [] = None"
| "sha1_of m (h # hs) = (if algo_id (hash_at m h) = TPM_ALG_SHA1 then Some (h + 4) else sha1_of m hs)"

fun both_of :: "mem \<Rightarrow> addr list \<Rightarrow> addr \<Rightarrow> addr \<Rightarrow> (addr \<times> addr) option" where
  "both_of m [] s1 s2 = None"
| "both_of m (h # hs) s1 s2 =
     (let s1 = (if algo_id (hash_at m h) = TPM_ALG_SHA1 then h + 4 else s1);
          s2 = (if algo_id (hash_at m h) = TPM_ALG_SHA256 then h + 4 else s2)
      in if s1 \<noteq> 0 \<and> s2 \<noteq> 0 then Some (s1, s2) else both_of m hs s1 s2)"

lemma digest_at_hash [simp]: "digest_at (hash_at m h) = h + 4"
  by (simp add: hash_at_def)

lemma skinit_sha1_at: "h \<noteq> 0 \<Longrightarrow> tag_chain m bd h (h # post) \<Longrightarrow>
    skinit_sha1 m bd h = Some (Inr (sha1_of m (h # of_kind m SKL_TAG_SKL_HASH post)))"
proof (induction "length (of_kind m SKL_TAG_SKL_HASH post)" arbitrary: h post rule: less_induct)
  case less
  note step = of_kind_step [OF less.prems(2), where k = SKL_TAG_SKL_HASH]
  show ?case
  proof (cases "of_kind m SKL_TAG_SKL_HASH post")
    case Nil
    with step(1) less.prems(1) show ?thesis
      by (subst skinit_sha1.simps) (simp add: first_of_def skinit_sha1.simps [of m bd 0])
  next
    case (Cons b bs)
    with step(2) obtain post' where b: "b \<noteq> 0" "tag_chain m bd b (b # post')"
      "of_kind m SKL_TAG_SKL_HASH post' = bs" by blast
    with less.hyps [of post' b] Cons
    have "skinit_sha1 m bd b = Some (Inr (sha1_of m (b # bs)))" by simp
    with Cons step(1) less.prems(1) show ?thesis
      by (subst skinit_sha1.simps) (simp add: first_of_def)
  qed
qed

lemma skinit_both_at: "h \<noteq> 0 \<Longrightarrow> tag_chain m bd h (h # post) \<Longrightarrow>
    skinit_both m bd h s1 s2 = Some (Inr (both_of m (h # of_kind m SKL_TAG_SKL_HASH post) s1 s2))"
proof (induction "length (of_kind m SKL_TAG_SKL_HASH post)" arbitrary: h post s1 s2 rule: less_induct)
  case less
  note step = of_kind_step [OF less.prems(2), where k = SKL_TAG_SKL_HASH]
  show ?case
  proof (cases "of_kind m SKL_TAG_SKL_HASH post")
    case Nil
    with step(1) less.prems(1) show ?thesis
      by (subst skinit_both.simps)
         (simp add: first_of_def Let_def skinit_both.simps [of m bd 0])
  next
    case (Cons b bs)
    with step(2) obtain post' where b: "b \<noteq> 0" "tag_chain m bd b (b # post')"
      "of_kind m SKL_TAG_SKL_HASH post' = bs" by blast
    with less.hyps [of post' b] Cons
    have "\<And>s1 s2. skinit_both m bd b s1 s2 = Some (Inr (both_of m (b # bs) s1 s2))" by simp
    with Cons step(1) less.prems(1) show ?thesis
      by (subst skinit_both.simps) (simp add: first_of_def Let_def)
  qed
qed

lemma skinit_sha1_list:
  assumes "tag_chain m bd bd (bd # post)"
  shows "\<exists>h. next_of_type m bd bd SKL_TAG_SKL_HASH = Some (Inr h)
    \<and> skinit_sha1 m bd h = Some (Inr (sha1_of m (of_kind m SKL_TAG_SKL_HASH post)))"
proof (cases "of_kind m SKL_TAG_SKL_HASH post")
  case Nil
  with of_kind_step(1) [OF assms] show ?thesis
    by (simp add: first_of_def skinit_sha1.simps [of m bd 0])
next
  case (Cons b bs)
  with of_kind_step(2) [OF assms] obtain post' where "b \<noteq> 0" "tag_chain m bd b (b # post')"
    "of_kind m SKL_TAG_SKL_HASH post' = bs" by blast
  with skinit_sha1_at [of b m bd post'] of_kind_step(1) [OF assms] Cons show ?thesis
    by (simp add: first_of_def)
qed

lemma skinit_both_list:
  assumes "tag_chain m bd bd (bd # post)"
  shows "\<exists>h. next_of_type m bd bd SKL_TAG_SKL_HASH = Some (Inr h)
    \<and> skinit_both m bd h 0 0 = Some (Inr (both_of m (of_kind m SKL_TAG_SKL_HASH post) 0 0))"
proof (cases "of_kind m SKL_TAG_SKL_HASH post")
  case Nil
  with of_kind_step(1) [OF assms] show ?thesis
    by (simp add: first_of_def skinit_both.simps [of m bd 0])
next
  case (Cons b bs)
  with of_kind_step(2) [OF assms] obtain post' where "b \<noteq> 0" "tag_chain m bd b (b # post')"
    "of_kind m SKL_TAG_SKL_HASH post' = bs" by blast
  with skinit_both_at [of b m bd post' 0 0] of_kind_step(1) [OF assms] Cons show ?thesis
    by (simp add: first_of_def)
qed

text \<open>Hence \<^verbatim>\<open>event_log_skinit\<close> on a chain, in one equation per family.\<close>

lemma skinit12_list:
  assumes "tag_chain m bd bd (bd # post)"
  shows "event_log_skinit TPM12 bd l m = Some (Inr
    (case sha1_of m (of_kind m SKL_TAG_SKL_HASH post) of None \<Rightarrow> (1, l, m)
     | Some d \<Rightarrow> append12 (17, mem_read m d 20, ascii ''SKINIT'') l m))"
  using skinit_sha1_list [OF assms] by (auto simp: event_log_skinit_def split: option.splits)

lemma skinit20_list:
  assumes "tag_chain m bd bd (bd # post)"
  shows "event_log_skinit TPM20 bd l m = Some (Inr
    (case both_of m (of_kind m SKL_TAG_SKL_HASH post) 0 0 of None \<Rightarrow> (1, l, m)
     | Some (d, d2) \<Rightarrow> append20 (17, mem_read m d 20, mem_read m d2 32, ascii ''SKINIT'') l m))"
  using skinit_both_list [OF assms] by (auto simp: event_log_skinit_def split: option.splits)

lemma skinit_returns:
  "tag_chain m bd bd (bd # post) \<Longrightarrow> \<exists>r. event_log_skinit family bd l m = Some (Inr r)"
  by (cases family) (use skinit12_list skinit20_list in blast)+

section \<open>Initialisation on a valid list\<close>

lemma open_keeps_list:
  assumes v: "valid_tags m start bd ts" and bd: "start \<le> bd"
    and ok: "region_ok family start a sz" and ids: "ids_fresh l"
    and o: "event_log_open family start a sz l m = (True, l', m')"
  shows "(\<forall>x. start \<le> x \<and> x \<le> start + SLB_SIZE \<longrightarrow> m' x = m x) \<and> valid_tags m' start bd ts"
proof -
  have same: "m' x = m x" if "start \<le> x" "x \<le> start + SLB_SIZE" for x
    using that ok by (intro event_log_open_outside [OF ok ids o]) (auto simp: region_ok_def)
  moreover from this v bd have "valid_tags m' start bd ts"
    by (intro valid_tags_cong [OF v]) (auto simp: valid_tags_def)
  ultimately show ?thesis by blast
qed

lemma event_log_init_list:
  assumes v: "valid_tags m start bd ts" and t: "of_kind m SKL_TAG_EVENT_LOG (tl ts) = t # us"
  shows "event_log_init (Some family) start bd l m =
    (if us \<noteq> [] then Some (Inr (event_log_err l m))
     else case event_log_open family start (evtlog_address (evtlog_at m t)) (evtlog_size (evtlog_at m t)) l m
       of (ok, l, m) \<Rightarrow> if \<not> ok then Some (Inr (event_log_err l m)) else event_log_skinit family bd l m)"
proof -
  from v obtain t0 ts' where ts: "ts = bd # t0 # ts'" "tag_chain m bd bd (bd # t0 # ts')"
    by (rule valid_tags_ConsE)
  with t have k: "of_kind m SKL_TAG_EVENT_LOG (t0 # ts') = t # us" by simp
  note s = of_kind_step [OF ts(2), of SKL_TAG_EVENT_LOG]
  from s(2) [OF k] obtain post where p: "t \<noteq> 0" "tag_chain m bd t (t # post)"
    "of_kind m SKL_TAG_EVENT_LOG post = us" by blast
  have n2: "next_of_type m bd t SKL_TAG_EVENT_LOG = Some (Inr (first_of us))"
    using of_kind_step(1) [OF p(2), of SKL_TAG_EVENT_LOG] p(3) by simp
  have "us \<noteq> [] \<Longrightarrow> first_of us \<noteq> 0"
    using of_kind_step(2) [OF p(2), of SKL_TAG_EVENT_LOG] p(3)
    by (cases us) (auto simp: first_of_def)
  with s(1) n2 k p(1) show ?thesis
    by (auto simp: event_log_init_def first_of_def)
qed

lemma event_log_init_none:
  assumes v: "valid_tags m start bd ts" and t: "of_kind m SKL_TAG_EVENT_LOG (tl ts) = []"
  shows "event_log_init tpm start bd l m = Some (Inr (event_log_err l m))"
proof -
  from v obtain t0 ts' where ts: "ts = bd # t0 # ts'" "tag_chain m bd bd (bd # t0 # ts')"
    by (rule valid_tags_ConsE)
  with t of_kind_step(1) [OF ts(2), of SKL_TAG_EVENT_LOG] show ?thesis
    by (simp add: event_log_init_def first_of_def)
qed

lemma event_log_init_returns:
  assumes v: "valid_tags m start bd ts" and bd: "start \<le> bd" and ids: "ids_fresh l"
  shows "\<exists>r. event_log_init (Some family) start bd l m = Some (Inr r)"
proof (cases "of_kind m SKL_TAG_EVENT_LOG (tl ts)")
  case Nil
  with event_log_init_none [OF v] show ?thesis by blast
next
  case (Cons t us)
  let ?a = "evtlog_address (evtlog_at m t)" and ?s = "evtlog_size (evtlog_at m t)"
  note i = event_log_init_list [OF v Cons, of family l]
  show ?thesis
  proof (cases "us = [] \<and> region_ok family start ?a ?s")
    case True
    then obtain l1 m1 where o: "event_log_open family start ?a ?s l m = (True, l1, m1)"
      using event_log_open_accepts [of family start ?a ?s l m] ids by blast
    with open_keeps_list [OF v bd _ ids o] True have "valid_tags m1 start bd ts" by blast
    then obtain t0 ts' where "tag_chain m1 bd bd (bd # t0 # ts')" by (rule valid_tags_ConsE)
    from skinit_returns [OF this] i o True show ?thesis by auto
  next
    case False
    with i event_log_open_rejects [of family start ?a ?s l m] show ?thesis
      by (auto simp: event_log_err_def)
  qed
qed

text \<open>
  C18. On every list that the check of the boot loader's data accepts, initialisation of
  the event log ends: it neither faults nor loops, for either family, whatever the
  region and the hash tags are (\<open>start \<le> bd\<close>: the list lies behind the loader's start).
\<close>

theorem event_log_init_total:
  assumes "bootloader_data_ok m start bd = Some (Inr True)" and "start \<le> bd" and "ids_fresh l"
  shows "\<exists>r l' m'. event_log_init (Some family) start bd l m = Some (Inr (r, l', m'))"
proof -
  from check_valid_tags [OF assms(1)] obtain ts where "valid_tags m start bd ts" ..
  from event_log_init_returns [OF this assms(2,3), of family] show ?thesis by auto
qed

section \<open>What a well-formed list puts into the log\<close>

lemma of_kind_same:
  assumes v: "valid_tags m start bd ts" and same: "\<And>x. bd \<le> x \<Longrightarrow> x \<le> end_of_tags m bd \<Longrightarrow> m' x = m x"
  shows "of_kind m' k (tl ts) = of_kind m k (tl ts)"
  unfolding of_kind_def
proof (rule filter_cong [OF refl])
  fix a assume a: "a \<in> set (tl ts)"
  from v obtain t0 ts' where ts: "ts = bd # t0 # ts'" "tag_chain m bd bd (bd # t0 # ts')"
    by (rule valid_tags_ConsE)
  with a have "a \<in> set (t0 # ts')" by simp
  with chain_bounds [OF ts(2), of a] chain_increases [OF ts(2)] chain_bounds [OF chain_tl [OF ts(2)], of a]
  have "bd \<le> a" "a < end_of_tags m bd" by auto
  with same have "m' a = m a" by simp
  then show "(tag_type (hdr_at m' a) = k) = (tag_type (hdr_at m a) = k)" by (simp add: hdr_at_def)
qed

lemma of_kind_bounds:
  assumes v: "valid_tags m start bd ts" and a: "a \<in> set (of_kind m k (tl ts))"
  shows "bd \<le> a \<and> a < end_of_tags m bd"
proof -
  from v obtain t0 ts' where ts: "ts = bd # t0 # ts'" "tag_chain m bd bd (bd # t0 # ts')"
    by (rule valid_tags_ConsE)
  with a have "a \<in> set (t0 # ts')" by (auto simp: of_kind_def split: if_splits)
  with chain_increases [OF ts(2)] chain_bounds [OF chain_tl [OF ts(2)], of a] show ?thesis by auto
qed

lemma algo_same:
  assumes "\<And>x. bd \<le> x \<Longrightarrow> x \<le> e \<Longrightarrow> m' x = m x" "bd \<le> h" "h + 24 \<le> e"
  shows "algo_id (hash_at m' h) = algo_id (hash_at m h)"
proof -
  have "mem_read m' (h + 2) 2 = mem_read m (h + 2) 2"
    by (rule mem_read_cong) (use assms in auto)
  then show ?thesis by (simp add: hash_at_def load16_def)
qed

lemma sha1_of_same:
  "\<forall>h\<in>set hs. algo_id (hash_at m' h) = algo_id (hash_at m h) \<Longrightarrow> sha1_of m' hs = sha1_of m hs"
  by (induction hs) simp_all

lemma both_of_same:
  "\<forall>h\<in>set hs. algo_id (hash_at m' h) = algo_id (hash_at m h) \<Longrightarrow> both_of m' hs s1 s2 = both_of m hs s1 s2"
  by (induction hs arbitrary: s1 s2) (simp_all add: Let_def)

lemma sha1_of_in: "sha1_of m hs = Some d \<Longrightarrow> \<exists>h\<in>set hs. d = h + 4"
  by (induction hs) (auto split: if_splits)

lemma both_of_in: "both_of m hs s1 s2 = Some (d, d2) \<Longrightarrow>
    (d = s1 \<or> (\<exists>h\<in>set hs. d = h + 4)) \<and> d \<noteq> 0
  \<and> (d2 = s2 \<or> (\<exists>h\<in>set hs. d2 = h + 4 \<and> algo_id (hash_at m h) = TPM_ALG_SHA256)) \<and> d2 \<noteq> 0"
  by (induction hs arbitrary: s1 s2) (fastforce simp: Let_def split: if_splits)+

text \<open>The shape of a launch's list: one log region that is acceptable, hash tags with their digests.\<close>

definition launch_list :: "tpm_family \<Rightarrow> mem \<Rightarrow> addr \<Rightarrow> addr \<Rightarrow> addr list \<Rightarrow> addr \<Rightarrow> bool" where
  "launch_list family m start bd ts t \<longleftrightarrow> valid_tags m start bd ts \<and> start \<le> bd
     \<and> of_kind m SKL_TAG_EVENT_LOG (tl ts) = [t]
     \<and> region_ok family start (evtlog_address (evtlog_at m t)) (evtlog_size (evtlog_at m t))
     \<and> (\<forall>h\<in>set (of_kind m SKL_TAG_SKL_HASH (tl ts)).
          h + (if algo_id (hash_at m h) = TPM_ALG_SHA256 then 36 else 24) \<le> end_of_tags m bd)"

lemma launch_list_open:
  assumes L: "launch_list family m start bd ts t" and ids: "ids_fresh l"
  obtains l1 m1 where
    "event_log_open family start (evtlog_address (evtlog_at m t)) (evtlog_size (evtlog_at m t)) l m = (True, l1, m1)"
    "event_log_init (Some family) start bd l m = event_log_skinit family bd l1 m1"
    "valid_tags m1 start bd ts" "\<And>x. bd \<le> x \<Longrightarrow> x \<le> end_of_tags m bd \<Longrightarrow> m1 x = m x"
proof -
  from L have v: "valid_tags m start bd ts" and bd: "start \<le> bd"
    and t: "of_kind m SKL_TAG_EVENT_LOG (tl ts) = [t]"
    and ok: "region_ok family start (evtlog_address (evtlog_at m t)) (evtlog_size (evtlog_at m t))"
    by (auto simp: launch_list_def)
  from event_log_open_accepts [OF ok ids, of m] obtain l1 m1 where
    o: "event_log_open family start (evtlog_address (evtlog_at m t)) (evtlog_size (evtlog_at m t)) l m = (True, l1, m1)"
    by blast
  from open_keeps_list [OF v bd ok ids o] v bd
  have "valid_tags m1 start bd ts" "\<And>x. bd \<le> x \<Longrightarrow> x \<le> end_of_tags m bd \<Longrightarrow> m1 x = m x"
    by (auto simp: valid_tags_def)
  with that [OF o] event_log_init_list [OF v t, of family l] o show ?thesis by simp
qed

lemma launch_list_hash:
  assumes L: "launch_list family m start bd ts t"
    and same: "\<And>x. bd \<le> x \<Longrightarrow> x \<le> end_of_tags m bd \<Longrightarrow> m1 x = m x"
    and h: "h \<in> set (of_kind m SKL_TAG_SKL_HASH (tl ts))"
  shows "algo_id (hash_at m1 h) = algo_id (hash_at m h) \<and> mem_read m1 (h + 4) 20 = mem_read m (h + 4) 20
    \<and> (algo_id (hash_at m h) = TPM_ALG_SHA256 \<longrightarrow> mem_read m1 (h + 4) 32 = mem_read m (h + 4) 32)"
proof -
  from L have v: "valid_tags m start bd ts" by (simp add: launch_list_def)
  from of_kind_bounds [OF v h] have b: "bd \<le> h" by simp
  from L h have e: "h + (if algo_id (hash_at m h) = TPM_ALG_SHA256 then 36 else 24) \<le> end_of_tags m bd"
    by (simp add: launch_list_def)
  then have "h + 24 \<le> end_of_tags m bd" by (auto split: if_splits)
  with algo_same [OF same b, of "end_of_tags m bd"] b e show ?thesis
    by (auto intro!: mem_read_cong same)
qed

lemma skinit_ascii: "length (ascii ''SKINIT'') = 6"
  by simp

definition in_region :: "skl_tag_evtlog \<Rightarrow> addr \<Rightarrow> bool" where
  "in_region e x \<longleftrightarrow> unat (evtlog_address e) \<le> x \<and> x < unat (evtlog_address e) + unat (evtlog_size e)"

lemma init_skinit12:
  assumes L: "launch_list TPM12 m start bd ts t" and ids: "ids_fresh l"
    and d: "sha1_of m (of_kind m SKL_TAG_SKL_HASH (tl ts)) = Some d"
  shows "\<exists>l' m'. event_log_init (Some TPM12) start bd l m = Some (Inr (0, l', m'))
    \<and> evtlog_base l' = unat (evtlog_address (evtlog_at m t))
    \<and> log_repr hdr12_len next_event_offset_at bias12 enc12 l' m'
        [(17, mem_read m d 20, ascii ''SKINIT'')]
    \<and> limit l' = unat (evtlog_address (evtlog_at m t)) + unat (evtlog_size (evtlog_at m t))
    \<and> (\<forall>x. \<not> in_region (evtlog_at m t) x \<longrightarrow> m' x = m x)"
proof -
  let ?hs = "of_kind m SKL_TAG_SKL_HASH (tl ts)" and ?a = "evtlog_address (evtlog_at m t)"
  let ?s = "evtlog_size (evtlog_at m t)"
  from launch_list_open [OF L ids] obtain l1 m1 where
    o: "event_log_open TPM12 start ?a ?s l m = (True, l1, m1)"
    and i: "event_log_init (Some TPM12) start bd l m = event_log_skinit TPM12 bd l1 m1"
    and v1: "valid_tags m1 start bd ts" and same: "\<And>x. bd \<le> x \<Longrightarrow> x \<le> end_of_tags m bd \<Longrightarrow> m1 x = m x"
    by blast
  from L have ok: "region_ok TPM12 start ?a ?s" and v: "valid_tags m start bd ts"
    by (auto simp: launch_list_def)
  note h = launch_list_hash [OF L same]
  have hs: "of_kind m1 SKL_TAG_SKL_HASH (tl ts) = ?hs" by (rule of_kind_same [OF v same])
  have "sha1_of m1 ?hs = Some d" using h d by (subst sha1_of_same) auto
  moreover from sha1_of_in [OF d] h have "mem_read m1 d 20 = mem_read m d 20" by auto
  moreover from v1 obtain t0 ts' where ts: "ts = bd # t0 # ts'" "tag_chain m1 bd bd (bd # t0 # ts')"
    by (rule valid_tags_ConsE)
  ultimately have s: "event_log_skinit TPM12 bd l1 m1
      = Some (Inr (append12 (17, mem_read m d 20, ascii ''SKINIT'') l1 m1))"
    using skinit12_list [OF ts(2), of l1] hs by (simp del: append12.simps)
  from opened_log_repr [OF ok ids o] have r: "repr12 l1 m1 []"
    and b: "evtlog_base l1 = unat ?a" "limit l1 = unat ?a + unat ?s" by simp_all
  obtain r' l' m' where a: "append12 (17, mem_read m d 20, ascii ''SKINIT'') l1 m1 = (r', l', m')"
    by (cases "append12 (17, mem_read m d 20, ascii ''SKINIT'') l1 m1") auto
  have "hdr12_len + 64 \<le> unat ?s" using ok evlog_min_size_bounds [of TPM12 ?s] by (simp add: region_ok_def)
  then have "admit (room hdr12_len l1) enc12 (17, mem_read m d 20, ascii ''SKINIT'') []
      = [(17, mem_read m d 20, ascii ''SKINIT'')]"
    by (simp add: admit_def room_def b length_event12_bytes)
  with tpm12log.append_cases [OF r _ a] b have l': "r' = 0" "evtlog_base l' = unat ?a" "limit l' = unat ?a + unat ?s"
    "repr12 l' m' [(17, mem_read m d 20, ascii ''SKINIT'')]" by simp_all
  have "m' x = m x" if "\<not> in_region (evtlog_at m t) x" for x
  proof -
    have x: "x < unat ?a \<or> unat ?a + unat ?s \<le> x" using that by (auto simp: in_region_def)
    then have "m' x = m1 x" by (intro tpm12log.append_frame [OF r _ a]) (auto simp: b)
    with event_log_open_outside [OF ok ids o x] show ?thesis by simp
  qed
  with i s a l' show ?thesis by simp
qed

text \<open>
  A launch with a TPM 1.2: on a list of that shape whose hash tags hold a SHA-1
  digest, \<^verbatim>\<open>event_log_init\<close> succeeds and the log consists of one record, the SKINIT event
  for PCR 17 with the first SHA-1 digest of the list, as the boot loader passed it.
\<close>

lemma event_log_init_records_skinit_tpm12:
  assumes L: "launch_list TPM12 m start bd ts t" and ids: "ids_fresh l"
    and d: "sha1_of m (of_kind m SKL_TAG_SKL_HASH (tl ts)) = Some d"
  shows "\<exists>l' m'. event_log_init (Some TPM12) start bd l m = Some (Inr (0, l', m'))
    \<and> evtlog_base l' = unat (evtlog_address (evtlog_at m t))
    \<and> log_repr hdr12_len next_event_offset_at bias12 enc12 l' m'
        [(17, mem_read m d 20, ascii ''SKINIT'')]"
  using init_skinit12 [OF assms] by blast

lemma init_skinit20:
  assumes L: "launch_list TPM20 m start bd ts t" and ids: "ids_fresh l"
    and d: "both_of m (of_kind m SKL_TAG_SKL_HASH (tl ts)) 0 0 = Some (d, d2)"
  shows "\<exists>l' m'. event_log_init (Some TPM20) start bd l m = Some (Inr (0, l', m'))
    \<and> evtlog_base l' = unat (evtlog_address (evtlog_at m t))
    \<and> log_repr hdr20_len next_record_offset_at 0 enc20 l' m'
        [(17, mem_read m d 20, mem_read m d2 32, ascii ''SKINIT'')]
    \<and> limit l' = unat (evtlog_address (evtlog_at m t)) + unat (evtlog_size (evtlog_at m t))
    \<and> (\<forall>x. \<not> in_region (evtlog_at m t) x \<longrightarrow> m' x = m x)"
proof -
  let ?hs = "of_kind m SKL_TAG_SKL_HASH (tl ts)" and ?a = "evtlog_address (evtlog_at m t)"
  let ?s = "evtlog_size (evtlog_at m t)" and ?e = "(17, mem_read m d 20, mem_read m d2 32, ascii ''SKINIT'')"
  from launch_list_open [OF L ids] obtain l1 m1 where
    o: "event_log_open TPM20 start ?a ?s l m = (True, l1, m1)"
    and i: "event_log_init (Some TPM20) start bd l m = event_log_skinit TPM20 bd l1 m1"
    and v1: "valid_tags m1 start bd ts" and same: "\<And>x. bd \<le> x \<Longrightarrow> x \<le> end_of_tags m bd \<Longrightarrow> m1 x = m x"
    by blast
  from L have ok: "region_ok TPM20 start ?a ?s" and v: "valid_tags m start bd ts"
    by (auto simp: launch_list_def)
  note h = launch_list_hash [OF L same]
  have hs: "of_kind m1 SKL_TAG_SKL_HASH (tl ts) = ?hs" by (rule of_kind_same [OF v same])
  have "both_of m1 ?hs 0 0 = Some (d, d2)" using h d by (subst both_of_same) auto
  moreover from both_of_in [OF d] h
  have "mem_read m1 d 20 = mem_read m d 20" "mem_read m1 d2 32 = mem_read m d2 32" by auto
  moreover from v1 obtain t0 ts' where ts: "ts = bd # t0 # ts'" "tag_chain m1 bd bd (bd # t0 # ts')"
    by (rule valid_tags_ConsE)
  ultimately have s: "event_log_skinit TPM20 bd l1 m1 = Some (Inr (append20 ?e l1 m1))"
    using skinit20_list [OF ts(2), of l1] hs by (simp del: append20.simps)
  from opened_log_repr [OF ok ids o] have r: "repr20 l1 m1 []"
    and b: "evtlog_base l1 = unat ?a" "limit l1 = unat ?a + unat ?s" by simp_all
  obtain r' l' m' where a: "append20 ?e l1 m1 = (r', l', m')"
    by (cases "append20 ?e l1 m1") auto
  have "hdr20_len + 144 \<le> unat ?s" using ok evlog_min_size_bounds [of TPM20 ?s] by (simp add: region_ok_def)
  then have "admit (room hdr20_len l1) enc20 ?e [] = [?e]"
    by (simp add: admit_def room_def b length_event20_bytes)
  with tpm20log.append_cases [OF r _ a] b have l': "r' = 0" "evtlog_base l' = unat ?a" "limit l' = unat ?a + unat ?s"
    "repr20 l' m' [?e]" by simp_all
  have "m' x = m x" if "\<not> in_region (evtlog_at m t) x" for x
  proof -
    have x: "x < unat ?a \<or> unat ?a + unat ?s \<le> x" using that by (auto simp: in_region_def)
    then have "m' x = m1 x" by (intro tpm20log.append_frame [OF r _ a]) (auto simp: b)
    with event_log_open_outside [OF ok ids o x] show ?thesis by simp
  qed
  with i s a l' show ?thesis by simp
qed

text \<open>
  The same with a TPM 2.0: the record holds the SHA-1 and the SHA-256 digest that the
  loop over the hash tags finds.
\<close>

lemma event_log_init_records_skinit_tpm20:
  assumes L: "launch_list TPM20 m start bd ts t" and ids: "ids_fresh l"
    and d: "both_of m (of_kind m SKL_TAG_SKL_HASH (tl ts)) 0 0 = Some (d, d2)"
  shows "\<exists>l' m'. event_log_init (Some TPM20) start bd l m = Some (Inr (0, l', m'))
    \<and> evtlog_base l' = unat (evtlog_address (evtlog_at m t))
    \<and> log_repr hdr20_len next_record_offset_at 0 enc20 l' m'
        [(17, mem_read m d 20, mem_read m d2 32, ascii ''SKINIT'')]"
  using init_skinit20 [OF assms] by blast

section \<open>A concrete launch\<close>

text \<open>
  A list of six tags at 256 (size, event log, SHA-1 hash, SHA-256 hash, Linux, end) that names
  a log of 1 KB at 0xFEE00000 and a zero page at 0x20000; the loader starts at 0.
\<close>

definition demo_launch :: mem where
  "demo_launch = mem_write (\<lambda>_. 0) 256
     ([0x0F, 4, 82, 0, 0x20, 10, 0, 0, 0xE0, 0xFE, 0, 4, 0, 0, 0x21, 24, 4, 0] @ replicate 20 0xAA
      @ [0x21, 36, 0x0B, 0] @ replicate 32 0xBB @ [0x10, 6, 0, 0, 2, 0, 0, 2])"

lemma demo_launch_hdrs:
  "hdr_at demo_launch 256 = \<lparr>tag_type = 0x0F, tag_len = 4\<rparr>"
  "hdr_at demo_launch 260 = \<lparr>tag_type = 0x20, tag_len = 10\<rparr>"
  "hdr_at demo_launch 270 = \<lparr>tag_type = 0x21, tag_len = 24\<rparr>"
  "hdr_at demo_launch 294 = \<lparr>tag_type = 0x21, tag_len = 36\<rparr>"
  "hdr_at demo_launch 330 = \<lparr>tag_type = 0x10, tag_len = 6\<rparr>"
  "hdr_at demo_launch 336 = \<lparr>tag_type = 0, tag_len = 2\<rparr>"
  by (simp_all add: hdr_at_def demo_launch_def mem_write_def nth_append)

lemma demo_launch_end: "end_of_tags demo_launch 256 = 338"
  by (simp add: end_of_tags_def tags_size_at_def load16_def mem_read_def upt_rec demo_launch_def
      mem_write_def of_le_def nth_append)

lemma demo_launch_fields:
  "evtlog_address (evtlog_at demo_launch 260) = 0xFEE00000"
  "evtlog_size (evtlog_at demo_launch 260) = 0x400"
  "algo_id (hash_at demo_launch 270) = TPM_ALG_SHA1"
  "algo_id (hash_at demo_launch 294) = TPM_ALG_SHA256"
  by (simp_all add: evtlog_at_def hash_at_def load32_def load16_def mem_read_def upt_rec
      demo_launch_def mem_write_def of_le_def nth_append tpm_algs)

lemma demo_launch_valid: "valid_tags demo_launch 0 256 [256, 260, 270, 294, 330, 336]"
proof -
  note h = demo_launch_hdrs demo_launch_end tag_consts next_tag_def
  have "tag_chain demo_launch 256 336 [336]" by (rule chain_end) (simp_all add: h)
  then have "tag_chain demo_launch 256 330 [330, 336]" by (rule chain_tag [rotated 3]) (simp_all add: h)
  then have "tag_chain demo_launch 256 294 [294, 330, 336]" by (rule chain_tag [rotated 3]) (simp_all add: h)
  then have "tag_chain demo_launch 256 270 [270, 294, 330, 336]" by (rule chain_tag [rotated 3]) (simp_all add: h)
  then have "tag_chain demo_launch 256 260 [260, 270, 294, 330, 336]" by (rule chain_tag [rotated 3]) (simp_all add: h)
  then have "tag_chain demo_launch 256 256 [256, 260, 270, 294, 330, 336]" by (rule chain_tag [rotated 3]) (simp_all add: h)
  then show ?thesis by (simp add: valid_tags_def h SLB_SIZE_def)
qed

lemma demo_launch_list: "launch_list family demo_launch 0 256 [256, 260, 270, 294, 330, 336] 260"
  by (cases family)
     (simp_all add: launch_list_def demo_launch_valid of_kind_def demo_launch_hdrs tag_consts
       demo_launch_fields demo_launch_end region_ok_def evlog_min_size_def sizeofs SLB_SIZE_def tpm_algs)

lemma ids_fresh_init: "ids_fresh evlog_init"
  by (simp add: ids_fresh_def evlog_init_def)

theorem event_log_init_total_witness:
  "\<exists>r l' m'. event_log_init (Some TPM20) 0 256 evlog_init demo_launch = Some (Inr (r, l', m'))"
  by (rule event_log_init_total [OF valid_tags_check [OF demo_launch_valid] _ ids_fresh_init]) simp


lemma event_log_init_records_skinit_tpm12_demo:
  "\<exists>l' m'. event_log_init (Some TPM12) 0 256 evlog_init demo_launch = Some (Inr (0, l', m'))
    \<and> evtlog_base l' = unat (evtlog_address (evtlog_at demo_launch 260))
    \<and> log_repr hdr12_len next_event_offset_at bias12 enc12 l' m'
        [(17, mem_read demo_launch 274 20, ascii ''SKINIT'')]"
  by (rule event_log_init_records_skinit_tpm12 [OF demo_launch_list ids_fresh_init])
     (simp add: of_kind_def demo_launch_hdrs tag_consts demo_launch_fields)

lemma event_log_init_records_skinit_tpm20_demo:
  "\<exists>l' m'. event_log_init (Some TPM20) 0 256 evlog_init demo_launch = Some (Inr (0, l', m'))
    \<and> evtlog_base l' = unat (evtlog_address (evtlog_at demo_launch 260))
    \<and> log_repr hdr20_len next_record_offset_at 0 enc20 l' m'
        [(17, mem_read demo_launch 274 20, mem_read demo_launch 298 32, ascii ''SKINIT'')]"
  by (rule event_log_init_records_skinit_tpm20 [OF demo_launch_list ids_fresh_init])
     (simp add: of_kind_def demo_launch_hdrs tag_consts demo_launch_fields tpm_algs)

text \<open>Two records appended to a log that has just been opened.\<close>

lemma demo_open:
  obtains l m where "event_log_open family 0 0x20000 0x400 evlog_init (\<lambda>_. 0) = (True, l, m)"
    "case family of TPM12 \<Rightarrow> repr12 l m [] | TPM20 \<Rightarrow> repr20 l m []"
    "evtlog_base l = 0x20000" "limit l = 0x20400"
proof -
  have ok: "region_ok family 0 0x20000 0x400"
    by (cases family) (simp_all add: region_ok_def evlog_min_size_def sizeofs SLB_SIZE_def)
  from event_log_open_accepts [OF ok ids_fresh_init] obtain l m where
    "event_log_open family 0 0x20000 0x400 evlog_init (\<lambda>_. 0) = (True, l, m)" by blast
  from that [OF this] opened_log_repr [OF ok ids_fresh_init this] show ?thesis by simp
qed

theorem tpm12_log_is_append_only_witness:
  "\<exists>l m l' m' e1 e2. event_log_open TPM12 0 0x20000 0x400 evlog_init (\<lambda>_. 0) = (True, l, m)
    \<and> e1 = (17, replicate 20 1, ascii ''kernel'') \<and> e2 = (18, replicate 20 2, replicate 2000 65)
    \<and> append_all append12 [e1, e2, e1] (l, m) = (l', m')
    \<and> parse_all dec12 (length ([] @ [e1, e2, e1]))
       (mem_read m' (evtlog_base l + hdr12_len) (ptr_current l' - evtlog_base l - hdr12_len))
     = Some [e1, e1]"
proof -
  let ?e1 = "(17, replicate 20 1, ascii ''kernel'') :: ev12"
  let ?e2 = "(18, replicate 20 2, replicate 2000 65) :: ev12"
  obtain l m where o: "event_log_open TPM12 0 0x20000 0x400 evlog_init (\<lambda>_. 0) = (True, l, m)"
    "repr12 l m []" "evtlog_base l = 0x20000" "limit l = 0x20400"
    using demo_open [of TPM12] by auto
  obtain l' m' where a: "append_all append12 [?e1, ?e2, ?e1] (l, m) = (l', m')"
    by (cases "append_all append12 [?e1, ?e2, ?e1] (l, m)")
  have "fold (admit (room hdr12_len l) enc12) [?e1, ?e2, ?e1] [] = [?e1, ?e1]"
    by (simp add: admit_def room_def o hdr12_len_def sizeofs length_event12_bytes)
  with tpm12_log_is_append_only [OF o(2) _ a] o(1) a show ?thesis by auto
qed

theorem tpm20_log_is_append_only_witness:
  "\<exists>l m l' m' e1 e2. event_log_open TPM20 0 0x20000 0x400 evlog_init (\<lambda>_. 0) = (True, l, m)
    \<and> e1 = (17, replicate 20 1, replicate 32 3, ascii ''kernel'')
    \<and> e2 = (18, replicate 20 2, replicate 32 4, replicate 2000 65)
    \<and> append_all append20 [e1, e2, e1] (l, m) = (l', m')
    \<and> parse_all dec20 (length ([] @ [e1, e2, e1]))
       (mem_read m' (evtlog_base l + hdr20_len) (ptr_current l' - evtlog_base l - hdr20_len))
     = Some [e1, e1]"
proof -
  let ?e1 = "(17, replicate 20 1, replicate 32 3, ascii ''kernel'') :: ev20"
  let ?e2 = "(18, replicate 20 2, replicate 32 4, replicate 2000 65) :: ev20"
  obtain l m where o: "event_log_open TPM20 0 0x20000 0x400 evlog_init (\<lambda>_. 0) = (True, l, m)"
    "repr20 l m []" "evtlog_base l = 0x20000" "limit l = 0x20400"
    using demo_open [of TPM20] by auto
  obtain l' m' where a: "append_all append20 [?e1, ?e2, ?e1] (l, m) = (l', m')"
    by (cases "append_all append20 [?e1, ?e2, ?e1] (l, m)")
  have "fold (admit (room hdr20_len l) enc20) [?e1, ?e2, ?e1] [] = [?e1, ?e1]"
    by (simp add: admit_def room_def o hdr20_len_def sizeofs length_event20_bytes)
  with tpm20_log_is_append_only [OF o(2) _ a] o(1) a show ?thesis by auto
qed

end
