(* ===== verification/Machine.thy ===== *)
theory Machine
  imports Prelude
begin

text \<open>
  The machine below the loader: the accessors of \<^verbatim>\<open>include/boot.h\<close> (memory-mapped
  registers, ports, \<^verbatim>\<open>rdmsr\<close>) and the delays of \<^verbatim>\<open>tpmlib/tpmio.c\<close>. The hardware is a
  parameter: a record of functions on an abstract device state \<open>'d\<close> that answers every
  read and absorbs every write. Every access is appended to a ghost trace, so that what
  the drivers do is stated for all hardware. Ordinary memory is the field \<open>ram\<close>.

  Fences (\<^verbatim>\<open>mb\<close>, \<^verbatim>\<open>wmb\<close> and the like) order accesses that are already sequential here and
  have no counterpart. A function that polls returns an option: \<open>None\<close> means that it
  never returns.
\<close>

section \<open>Constants\<close>

text \<open>\<^verbatim>\<open>include/defs.h\<close>\<close>

definition PAGE_SHIFT :: nat where "PAGE_SHIFT = 12"
definition PAGE_SIZE :: nat where "PAGE_SIZE = 2 ^ PAGE_SHIFT"

section \<open>Hardware and accesses\<close>

datatype io_event =
    Load addr nat u64
  | Store addr nat u64
  | Port_In u16 nat u32
  | Port_Out u16 nat u32
  | Rdmsr u32 u64

record 'd hw =
  hw_load :: "addr \<Rightarrow> nat \<Rightarrow> 'd \<Rightarrow> u64 \<times> 'd"
  hw_store :: "addr \<Rightarrow> nat \<Rightarrow> u64 \<Rightarrow> 'd \<Rightarrow> 'd"
  hw_in :: "u16 \<Rightarrow> nat \<Rightarrow> 'd \<Rightarrow> u32 \<times> 'd"
  hw_out :: "u16 \<Rightarrow> nat \<Rightarrow> u32 \<Rightarrow> 'd \<Rightarrow> 'd"
  hw_rdmsr :: "u32 \<Rightarrow> 'd \<Rightarrow> u64 \<times> 'd"
  hw_tick :: "'d \<Rightarrow> 'd"
  hw_junk :: "'d \<Rightarrow> nat \<Rightarrow> u8"

record 'd machine =
  dev :: 'd
  trace :: "io_event list"
  ram :: mem

definition log_io :: "io_event \<Rightarrow> 'd \<Rightarrow> ('d, 'x) machine_scheme \<Rightarrow> ('d, 'x) machine_scheme" where
  "log_io e d s = s\<lparr>dev := d, trace := trace s @ [e]\<rparr>"

definition mmio_load :: "'d hw \<Rightarrow> addr \<Rightarrow> nat \<Rightarrow> ('d, 'x) machine_scheme \<Rightarrow> u64 \<times> ('d, 'x) machine_scheme" where
  "mmio_load hw a n s =
     (let (v, d) = hw_load hw a n (dev s); v = take_bit (8 * n) v in (v, log_io (Load a n v) d s))"

definition mmio_store :: "'d hw \<Rightarrow> addr \<Rightarrow> nat \<Rightarrow> u64 \<Rightarrow> ('d, 'x) machine_scheme \<Rightarrow> ('d, 'x) machine_scheme" where
  "mmio_store hw a n v s = log_io (Store a n v) (hw_store hw a n v (dev s)) s"

definition port_in :: "'d hw \<Rightarrow> u16 \<Rightarrow> nat \<Rightarrow> ('d, 'x) machine_scheme \<Rightarrow> u32 \<times> ('d, 'x) machine_scheme" where
  "port_in hw p n s =
     (let (v, d) = hw_in hw p n (dev s); v = take_bit (8 * n) v in (v, log_io (Port_In p n v) d s))"

definition port_out :: "'d hw \<Rightarrow> u16 \<Rightarrow> nat \<Rightarrow> u32 \<Rightarrow> ('d, 'x) machine_scheme \<Rightarrow> ('d, 'x) machine_scheme" where
  "port_out hw p n v s = log_io (Port_Out p n v) (hw_out hw p n v (dev s)) s"

text \<open>\<^verbatim>\<open>include/boot.h\<close>\<close>

definition ioread8 :: "'d hw \<Rightarrow> addr \<Rightarrow> ('d, 'x) machine_scheme \<Rightarrow> u8 \<times> ('d, 'x) machine_scheme" where
  "ioread8 hw a s = (let (v, s) = mmio_load hw a 1 s in (ucast v, s))"

definition ioread16 :: "'d hw \<Rightarrow> addr \<Rightarrow> ('d, 'x) machine_scheme \<Rightarrow> u16 \<times> ('d, 'x) machine_scheme" where
  "ioread16 hw a s = (let (v, s) = mmio_load hw a 2 s in (ucast v, s))"

definition ioread32 :: "'d hw \<Rightarrow> addr \<Rightarrow> ('d, 'x) machine_scheme \<Rightarrow> u32 \<times> ('d, 'x) machine_scheme" where
  "ioread32 hw a s = (let (v, s) = mmio_load hw a 4 s in (ucast v, s))"

definition iowrite8 :: "'d hw \<Rightarrow> u8 \<Rightarrow> addr \<Rightarrow> ('d, 'x) machine_scheme \<Rightarrow> ('d, 'x) machine_scheme" where
  "iowrite8 hw v a s = mmio_store hw a 1 (ucast v) s"

definition iowrite16 :: "'d hw \<Rightarrow> u16 \<Rightarrow> addr \<Rightarrow> ('d, 'x) machine_scheme \<Rightarrow> ('d, 'x) machine_scheme" where
  "iowrite16 hw v a s = mmio_store hw a 2 (ucast v) s"

definition iowrite32 :: "'d hw \<Rightarrow> u32 \<Rightarrow> addr \<Rightarrow> ('d, 'x) machine_scheme \<Rightarrow> ('d, 'x) machine_scheme" where
  "iowrite32 hw v a s = mmio_store hw a 4 (ucast v) s"

definition inb :: "'d hw \<Rightarrow> u16 \<Rightarrow> ('d, 'x) machine_scheme \<Rightarrow> u8 \<times> ('d, 'x) machine_scheme" where
  "inb hw p s = (let (v, s) = port_in hw p 1 s in (ucast v, s))"

definition inw :: "'d hw \<Rightarrow> u16 \<Rightarrow> ('d, 'x) machine_scheme \<Rightarrow> u16 \<times> ('d, 'x) machine_scheme" where
  "inw hw p s = (let (v, s) = port_in hw p 2 s in (ucast v, s))"

definition inl :: "'d hw \<Rightarrow> u16 \<Rightarrow> ('d, 'x) machine_scheme \<Rightarrow> u32 \<times> ('d, 'x) machine_scheme" where
  "inl hw p s = port_in hw p 4 s"

definition outb :: "'d hw \<Rightarrow> u8 \<Rightarrow> u16 \<Rightarrow> ('d, 'x) machine_scheme \<Rightarrow> ('d, 'x) machine_scheme" where
  "outb hw v p s = port_out hw p 1 (ucast v) s"

definition outw :: "'d hw \<Rightarrow> u16 \<Rightarrow> u16 \<Rightarrow> ('d, 'x) machine_scheme \<Rightarrow> ('d, 'x) machine_scheme" where
  "outw hw v p s = port_out hw p 2 (ucast v) s"

definition outl :: "'d hw \<Rightarrow> u32 \<Rightarrow> u16 \<Rightarrow> ('d, 'x) machine_scheme \<Rightarrow> ('d, 'x) machine_scheme" where
  "outl hw v p s = port_out hw p 4 v s"

text \<open>The low and high halves that \<^verbatim>\<open>rdmsr\<close> leaves in eax and edx.\<close>

definition rdmsr :: "'d hw \<Rightarrow> u32 \<Rightarrow> ('d, 'x) machine_scheme \<Rightarrow> (u32 \<times> u32) \<times> ('d, 'x) machine_scheme" where
  "rdmsr hw i s =
     (let (v, d) = hw_rdmsr hw i (dev s)
      in ((ucast v, ucast (drop_bit 32 v)), log_io (Rdmsr i v) d s))"

text \<open>64-bit registers, accessed through an ordinary pointer (\<^verbatim>\<open>iommu.c\<close>).\<close>

definition ioread64 :: "'d hw \<Rightarrow> addr \<Rightarrow> ('d, 'x) machine_scheme \<Rightarrow> u64 \<times> ('d, 'x) machine_scheme" where
  "ioread64 hw a s = mmio_load hw a 8 s"

definition iowrite64 :: "'d hw \<Rightarrow> u64 \<Rightarrow> addr \<Rightarrow> ('d, 'x) machine_scheme \<Rightarrow> ('d, 'x) machine_scheme" where
  "iowrite64 hw v a s = mmio_store hw a 8 v s"

text \<open>
  Delays: writes to port 0x80 that only let time pass, hence not part of the trace.
  Contents of uninitialised stack slots come from the environment.
\<close>

definition tpm_io_delay :: "'d hw \<Rightarrow> ('d, 'x) machine_scheme \<Rightarrow> ('d, 'x) machine_scheme" where
  "tpm_io_delay hw s = s\<lparr>dev := hw_tick hw (dev s)\<rparr>"

text \<open>\<^verbatim>\<open>io_delay\<close> of \<^verbatim>\<open>boot.h\<close>, which has no caller, is the same write.\<close>

definition io_delay :: "'d hw \<Rightarrow> ('d, 'x) machine_scheme \<Rightarrow> ('d, 'x) machine_scheme" where
  "io_delay hw s = s\<lparr>dev := hw_tick hw (dev s)\<rparr>"

fun tpm_udelay :: "'d hw \<Rightarrow> nat \<Rightarrow> ('d, 'x) machine_scheme \<Rightarrow> ('d, 'x) machine_scheme" where
  "tpm_udelay hw 0 s = s"
| "tpm_udelay hw (Suc n) s = tpm_udelay hw n (tpm_io_delay hw s)"

fun tpm_mdelay :: "'d hw \<Rightarrow> nat \<Rightarrow> ('d, 'x) machine_scheme \<Rightarrow> ('d, 'x) machine_scheme" where
  "tpm_mdelay hw 0 s = s"
| "tpm_mdelay hw (Suc n) s = tpm_mdelay hw n (tpm_udelay hw 1000 s)"

definition junk32 :: "'d hw \<Rightarrow> ('d, 'x) machine_scheme \<Rightarrow> u32" where
  "junk32 hw s = of_le (map (hw_junk hw (dev s)) [0..<4])"

lemmas io_defs = ioread8_def ioread16_def ioread32_def iowrite8_def iowrite16_def iowrite32_def
  ioread64_def iowrite64_def inb_def inw_def inl_def outb_def outw_def outl_def
  mmio_load_def mmio_store_def port_in_def port_out_def log_io_def

section \<open>What the accesses do\<close>

text \<open>
  An access changes the device and extends the trace by one event; everything else, the
  memory in particular, stays. \<open>io_ext P s s'\<close> says that \<open>s'\<close> differs from \<open>s\<close> in the
  device and in new events that satisfy \<open>P\<close> only. It is the frame that the drivers'
  lemmas compose.
\<close>

definition io_ext :: "(io_event \<Rightarrow> bool) \<Rightarrow> ('d, 'x) machine_scheme \<Rightarrow> ('d, 'x) machine_scheme \<Rightarrow> bool" where
  "io_ext P s s' \<longleftrightarrow> (\<exists>evs. trace s' = trace s @ evs \<and> (\<forall>e\<in>set evs. P e)
     \<and> s' = s\<lparr>dev := dev s', trace := trace s @ evs\<rparr>)"

lemma io_ext_refl [intro, simp]: "io_ext P s s"
  by (auto simp: io_ext_def intro!: exI [of _ "[]"])

lemma io_ext_trans [trans]: "io_ext P s t \<Longrightarrow> io_ext P t u \<Longrightarrow> io_ext P s u"
proof -
  assume "io_ext P s t" "io_ext P t u"
  then obtain a b where a: "trace t = trace s @ a" "\<forall>e\<in>set a. P e" "t = s\<lparr>dev := dev t, trace := trace s @ a\<rparr>"
    and b: "trace u = trace t @ b" "\<forall>e\<in>set b. P e" "u = t\<lparr>dev := dev u, trace := trace t @ b\<rparr>"
    unfolding io_ext_def by blast
  have "u = (s\<lparr>dev := dev t, trace := trace s @ a\<rparr>)\<lparr>dev := dev u, trace := trace t @ b\<rparr>"
    by (subst b(3), subst a(3)) (simp add: a(1))
  also have "\<dots> = s\<lparr>dev := dev u, trace := trace s @ (a @ b)\<rparr>" by (simp add: a(1))
  finally show ?thesis using a b unfolding io_ext_def by (intro exI [of _ "a @ b"]) auto
qed

lemma io_ext_mono: "io_ext P s s' \<Longrightarrow> (\<And>e. P e \<Longrightarrow> Q e) \<Longrightarrow> io_ext Q s s'"
  unfolding io_ext_def by blast

lemma io_ext_log [intro]: "P e \<Longrightarrow> io_ext P s (log_io e d s)"
  by (auto simp: io_ext_def log_io_def intro!: exI [of _ "[e]"])

lemma io_ext_ram [frame]: "io_ext P s s' \<Longrightarrow> ram s' = ram s"
  by (metis io_ext_def machine.select_convs(3) machine.surjective machine.update_convs(1,2))

lemma io_ext_more [frame]: "io_ext P s s' \<Longrightarrow> machine.more s' = machine.more s"
  unfolding io_ext_def by (metis machine.select_convs(4) machine.surjective machine.update_convs(1,2))

lemma io_ext_reads [intro]:
  "(\<And>v. P (Load a 1 v)) \<Longrightarrow> io_ext P s (snd (ioread8 hw a s))"
  "(\<And>v. P (Load a 2 v)) \<Longrightarrow> io_ext P s (snd (ioread16 hw a s))"
  "(\<And>v. P (Load a 4 v)) \<Longrightarrow> io_ext P s (snd (ioread32 hw a s))"
  "(\<And>v. P (Load a 8 v)) \<Longrightarrow> io_ext P s (snd (ioread64 hw a s))"
  "(\<And>v. P (Port_In p 1 v)) \<Longrightarrow> io_ext P s (snd (inb hw p s))"
  "(\<And>v. P (Port_In p 2 v)) \<Longrightarrow> io_ext P s (snd (inw hw p s))"
  "(\<And>v. P (Port_In p 4 v)) \<Longrightarrow> io_ext P s (snd (inl hw p s))"
  "(\<And>v. P (Rdmsr i v)) \<Longrightarrow> io_ext P s (snd (rdmsr hw i s))"
  by (simp_all add: ioread8_def ioread16_def ioread32_def ioread64_def inb_def inw_def inl_def
      mmio_load_def port_in_def rdmsr_def Let_def split_beta io_ext_log)

lemma io_ext_writes [intro]:
  "P (Store a 1 (ucast x)) \<Longrightarrow> io_ext P s (iowrite8 hw x a s)"
  "P (Store a 2 (ucast y)) \<Longrightarrow> io_ext P s (iowrite16 hw y a s)"
  "P (Store a 4 (ucast z)) \<Longrightarrow> io_ext P s (iowrite32 hw z a s)"
  "P (Store a 8 w) \<Longrightarrow> io_ext P s (iowrite64 hw w a s)"
  "P (Port_Out p 1 (ucast x)) \<Longrightarrow> io_ext P s (outb hw x p s)"
  "P (Port_Out p 2 (ucast y)) \<Longrightarrow> io_ext P s (outw hw y p s)"
  "P (Port_Out p 4 z) \<Longrightarrow> io_ext P s (outl hw z p s)"
  by (simp_all add: iowrite8_def iowrite16_def iowrite32_def iowrite64_def outb_def outw_def outl_def
      mmio_store_def port_out_def io_ext_log)

lemma io_ext_delay: "io_ext P s (tpm_io_delay hw s)"
  by (auto simp: tpm_io_delay_def io_ext_def intro!: exI [of _ "[]"])

lemma io_ext_udelay: "io_ext P s (tpm_udelay hw n s)"
  by (induction n arbitrary: s) (auto intro: io_ext_trans [OF io_ext_delay])

lemma io_ext_mdelay [intro]: "io_ext P s (tpm_mdelay hw n s)"
  by (induction n arbitrary: s) (auto intro: io_ext_trans [OF io_ext_udelay])

lemma trace_udelay [simp]: "trace (tpm_udelay hw n s) = trace s"
  by (induction n arbitrary: s) (simp_all add: tpm_io_delay_def)

lemma trace_mdelay [simp]: "trace (tpm_mdelay hw n s) = trace s"
  by (induction n arbitrary: s) simp_all

text \<open>The weaker frame that speaks of the trace only: it grows by events that satisfy \<open>P\<close>.\<close>

definition grows :: "(io_event \<Rightarrow> bool) \<Rightarrow> ('d, 'x) machine_scheme \<Rightarrow> ('d, 'x) machine_scheme \<Rightarrow> bool" where
  "grows P s s' \<longleftrightarrow> (\<exists>evs. trace s' = trace s @ evs \<and> (\<forall>e\<in>set evs. P e))"

lemma grows_refl [simp]: "grows P s s"
  by (simp add: grows_def)

lemma grows_trans: "grows P s t \<Longrightarrow> grows P t u \<Longrightarrow> grows P s u"
  by (force simp: grows_def)

lemma grows_io: "io_ext P s s' \<Longrightarrow> grows P s s'"
  by (auto simp: grows_def io_ext_def)

lemma grows_mono: "grows P s s' \<Longrightarrow> (\<And>e. P e \<Longrightarrow> Q e) \<Longrightarrow> grows Q s s'"
  by (force simp: grows_def)

lemma grows_same: "trace s' = trace s \<Longrightarrow> grows P s s'"
  by (simp add: grows_def)

section \<open>Runs with a known trace\<close>

text \<open>\<open>io_run s evs s'\<close>: from \<open>s\<close> the accesses \<open>evs\<close>, and nothing else, lead to \<open>s'\<close>.\<close>

definition io_run :: "('d, 'x) machine_scheme \<Rightarrow> io_event list \<Rightarrow> ('d, 'x) machine_scheme \<Rightarrow> bool" where
  "io_run s evs s' \<longleftrightarrow> s' = s\<lparr>dev := dev s', trace := trace s @ evs\<rparr>"

lemma io_run_Nil [simp, intro]: "io_run s [] s"
  by (simp add: io_run_def)

lemma io_run_append: "io_run s a t \<Longrightarrow> io_run t b u \<Longrightarrow> io_run s (a @ b) u"
proof -
  assume "io_run s a t" "io_run t b u"
  then have t: "t = s\<lparr>dev := dev t, trace := trace s @ a\<rparr>" and u: "u = t\<lparr>dev := dev u, trace := trace t @ b\<rparr>"
    by (simp_all add: io_run_def)
  have tr: "trace t = trace s @ a" by (subst t) simp
  have "u = (s\<lparr>dev := dev t, trace := trace s @ a\<rparr>)\<lparr>dev := dev u, trace := trace t @ b\<rparr>"
    using u t by simp
  then show ?thesis by (simp add: io_run_def tr)
qed

lemma io_run_ext: "io_run s evs s' \<Longrightarrow> \<forall>e\<in>set evs. P e \<Longrightarrow> io_ext P s s'"
  unfolding io_ext_def io_run_def
  by (metis machine.select_convs(2) machine.surjective machine.update_convs(1,2))

lemma io_ext_run: "io_ext P s s' \<Longrightarrow> \<exists>evs. io_run s evs s' \<and> (\<forall>e\<in>set evs. P e)"
  unfolding io_ext_def io_run_def by blast

lemma io_run_trace: "io_run s evs s' \<Longrightarrow> trace s' = trace s @ evs"
  unfolding io_run_def
  by (metis machine.select_convs(2) machine.surjective machine.update_convs(1,2))

lemma io_run_ram: "io_run s evs s' \<Longrightarrow> ram s' = ram s"
  by (rule io_ext_ram [OF io_run_ext [where P = "\<lambda>_. True"]]) simp_all

lemma io_run_iowrite8: "io_run s [Store a 1 (ucast x)] (iowrite8 hw x a s)"
  by (simp add: io_run_def io_defs)

lemma io_run_ioread8: "\<exists>v. io_run s [Load a 1 v] (snd (ioread8 hw a s))"
  by (simp add: io_run_def io_defs Let_def split_beta) blast

end
