(* ===== verification/Pci.thy ===== *)
theory Pci
  imports Machine
begin

text \<open>
  \<^verbatim>\<open>pci.c\<close>: configuration space through the type 1 ports or through the memory-mapped
  window, chosen once by \<^verbatim>\<open>pci_init\<close>, and the search of a function's capability list.
  The two function pointers of the source are one selector; a call through the unset
  pointers does not return (\<open>None\<close>), like a capability list that runs in a circle.
\<close>

section \<open>State and constants\<close>

datatype pci_access = Pci_Unset | Pci_Conf1 | Pci_Mmio

record 'd pci_machine = "'d machine" +
  pci_ops :: pci_access
  mmio_base_addr :: u32

definition EINVAL :: int where "EINVAL = 22"
definition ENOMEM :: int where "ENOMEM = 12"
definition EAGAIN :: int where "EAGAIN = 11"

definition PCI_CAPABILITY_LIST :: u32 where "PCI_CAPABILITY_LIST = 0x34"
definition PCI_CAPABILITIES_POINTER_ID_DEV :: u32 where "PCI_CAPABILITIES_POINTER_ID_DEV = 0x0F"

definition PCI_CAP_ID :: "u32 \<Rightarrow> u32" where "PCI_CAP_ID c = c AND 0xFF"
definition PCI_CAP_PTR :: "u32 \<Rightarrow> u32" where "PCI_CAP_PTR c = drop_bit 8 c AND 0xFF"

definition PCI_DEVFN :: "u32 \<Rightarrow> u32 \<Rightarrow> u32" where
  "PCI_DEVFN slot func = push_bit 3 (slot AND 0x1f) OR (func AND 0x07)"

definition INVALID_CAP :: "u32 \<Rightarrow> bool" where
  "INVALID_CAP c \<longleftrightarrow> c = 0 \<or> c = 0xFFFFFFFF \<or> c = 0xFF"

section \<open>Type 1 accesses\<close>

text \<open>\<open>reg\<close> and \<open>len\<close> are C ints; the comparisons with \<open>reg\<close> are signed.\<close>

definition bad_target :: "u32 \<Rightarrow> u32 \<Rightarrow> u32 \<Rightarrow> int \<Rightarrow> bool" where
  "bad_target seg bus devfn reg \<longleftrightarrow> seg \<noteq> 0 \<or> bus > 255 \<or> devfn > 255 \<or> reg > 4095"

definition PCI_CONF1_ADDRESS :: "u32 \<Rightarrow> u32 \<Rightarrow> int \<Rightarrow> u32" where
  "PCI_CONF1_ADDRESS bus devfn reg =
     0x80000000 OR push_bit 16 (word_of_int reg AND 0xF00) OR push_bit 16 bus
     OR push_bit 8 devfn OR (word_of_int reg AND 0xFC)"

definition pci_conf1_read :: "'d hw \<Rightarrow> u32 \<Rightarrow> u32 \<Rightarrow> u32 \<Rightarrow> int \<Rightarrow> int \<Rightarrow> u32
    \<Rightarrow> ('d, 'x) pci_machine_scheme \<Rightarrow> int \<times> u32 \<times> ('d, 'x) pci_machine_scheme" where
  "pci_conf1_read hw seg bus devfn reg len value s =
     (if bad_target seg bus devfn reg then (- EINVAL, - 1, s)
      else
        let s = outl hw (PCI_CONF1_ADDRESS bus devfn reg) 0xCF8 s in
        if len = 1 then (let (v, s) = inb hw (0xCFC + (word_of_int reg AND 3)) s in (0, ucast v, s))
        else if len = 2 then (let (v, s) = inw hw (0xCFC + (word_of_int reg AND 2)) s in (0, ucast v, s))
        else if len = 3 then (let (v, s) = inw hw 0xCFC s in (0, ucast v, s))
        else if len = 4 then (let (v, s) = inl hw 0xCFC s in (0, v, s))
        else (0, value, s))"

definition pci_conf1_write :: "'d hw \<Rightarrow> u32 \<Rightarrow> u32 \<Rightarrow> u32 \<Rightarrow> int \<Rightarrow> int \<Rightarrow> u32
    \<Rightarrow> ('d, 'x) pci_machine_scheme \<Rightarrow> int \<times> ('d, 'x) pci_machine_scheme" where
  "pci_conf1_write hw seg bus devfn reg len value s =
     (if bad_target seg bus devfn reg then (- EINVAL, s)
      else
        let s = outl hw (PCI_CONF1_ADDRESS bus devfn reg) 0xCF8 s in
        if len = 1 then (0, outb hw (ucast value) (0xCFC + (word_of_int reg AND 3)) s)
        else if len = 2 then (0, outw hw (ucast value) (0xCFC + (word_of_int reg AND 2)) s)
        else if len = 3 then (0, outw hw (ucast value) 0xCFC s)
        else if len = 4 then (0, outl hw value 0xCFC s)
        else (0, s))"

section \<open>Memory-mapped accesses\<close>

definition PCI_MMIO_ADDRESS :: "u32 \<Rightarrow> u32 \<Rightarrow> u32 \<Rightarrow> int \<Rightarrow> u64" where
  "PCI_MMIO_ADDRESS base bus devfn reg =
     ucast (base OR push_bit 20 bus OR push_bit 12 devfn OR word_of_int reg)"

definition pci_mmio_read :: "'d hw \<Rightarrow> u32 \<Rightarrow> u32 \<Rightarrow> u32 \<Rightarrow> int \<Rightarrow> int \<Rightarrow> u32
    \<Rightarrow> ('d, 'x) pci_machine_scheme \<Rightarrow> int \<times> u32 \<times> ('d, 'x) pci_machine_scheme" where
  "pci_mmio_read hw seg bus devfn reg len value s =
     (if bad_target seg bus devfn reg then (- EINVAL, - 1, s)
      else
        let addr = PCI_MMIO_ADDRESS (mmio_base_addr s) bus devfn reg in
        if len = 1 then (let (v, s) = ioread8 hw (unat addr) s in (0, ucast v, s))
        else if len = 2 then (let (v, s) = ioread16 hw (unat (addr AND NOT 1)) s in (0, ucast v, s))
        else if len = 3 then (let (v, s) = ioread16 hw (unat (addr AND NOT 3)) s in (0, ucast v, s))
        else if len = 4 then (let (v, s) = ioread32 hw (unat (addr AND NOT 3)) s in (0, v, s))
        else (0, value, s))"

definition pci_mmio_write :: "'d hw \<Rightarrow> u32 \<Rightarrow> u32 \<Rightarrow> u32 \<Rightarrow> int \<Rightarrow> int \<Rightarrow> u32
    \<Rightarrow> ('d, 'x) pci_machine_scheme \<Rightarrow> int \<times> ('d, 'x) pci_machine_scheme" where
  "pci_mmio_write hw seg bus devfn reg len value s =
     (if bad_target seg bus devfn reg then (- EINVAL, s)
      else
        let addr = PCI_MMIO_ADDRESS (mmio_base_addr s) bus devfn reg in
        if len = 1 then (0, iowrite8 hw (ucast value) (unat addr) s)
        else if len = 2 then (0, iowrite16 hw (ucast value) (unat (addr AND NOT 1)) s)
        else if len = 3 then (0, iowrite16 hw (ucast value) (unat (addr AND NOT 3)) s)
        else if len = 4 then (0, iowrite32 hw value (unat (addr AND NOT 3)) s)
        else (0, s))"

section \<open>The function pointers\<close>

definition pci_read :: "'d hw \<Rightarrow> u32 \<Rightarrow> u32 \<Rightarrow> u32 \<Rightarrow> int \<Rightarrow> int \<Rightarrow> u32
    \<Rightarrow> ('d, 'x) pci_machine_scheme \<Rightarrow> (int \<times> u32 \<times> ('d, 'x) pci_machine_scheme) option" where
  "pci_read hw seg bus devfn reg len value s =
     (case pci_ops s of
        Pci_Unset \<Rightarrow> None
      | Pci_Conf1 \<Rightarrow> Some (pci_conf1_read hw seg bus devfn reg len value s)
      | Pci_Mmio \<Rightarrow> Some (pci_mmio_read hw seg bus devfn reg len value s))"

definition pci_write :: "'d hw \<Rightarrow> u32 \<Rightarrow> u32 \<Rightarrow> u32 \<Rightarrow> int \<Rightarrow> int \<Rightarrow> u32
    \<Rightarrow> ('d, 'x) pci_machine_scheme \<Rightarrow> (int \<times> ('d, 'x) pci_machine_scheme) option" where
  "pci_write hw seg bus devfn reg len value s =
     (case pci_ops s of
        Pci_Unset \<Rightarrow> None
      | Pci_Conf1 \<Rightarrow> Some (pci_conf1_write hw seg bus devfn reg len value s)
      | Pci_Mmio \<Rightarrow> Some (pci_mmio_write hw seg bus devfn reg len value s))"

definition pci_init :: "'d hw \<Rightarrow> ('d, 'x) pci_machine_scheme \<Rightarrow> ('d, 'x) pci_machine_scheme" where
  "pci_init hw s =
     (let ((eax, edx), s) = rdmsr hw 0xc0010058 s
      in if eax AND 1 \<noteq> 0
         then s\<lparr>mmio_base_addr := eax AND 0xfff00000, pci_ops := Pci_Mmio\<rparr>
         else s\<lparr>pci_ops := Pci_Conf1\<rparr>)"

section \<open>Capabilities\<close>

partial_function (option) pci_cap_walk :: "'d hw \<Rightarrow> u32 \<Rightarrow> u32 \<Rightarrow> u32 \<Rightarrow> ('d, 'x) pci_machine_scheme
    \<Rightarrow> (u32 \<times> ('d, 'x) pci_machine_scheme) option" where
  "pci_cap_walk hw bus devfn pci_cap_ptr s =
     (if pci_cap_ptr = 0 then Some (pci_cap_ptr, s)
      else do {
        (_, next, s) \<leftarrow> pci_read hw 0 bus devfn (sint pci_cap_ptr) 4 0 s;
        if PCI_CAP_ID next = PCI_CAPABILITIES_POINTER_ID_DEV then Some (pci_cap_ptr, s)
        else pci_cap_walk hw bus devfn (PCI_CAP_PTR next) s
      })"

definition pci_locate :: "'d hw \<Rightarrow> u32 \<Rightarrow> u32 \<Rightarrow> ('d, 'x) pci_machine_scheme
    \<Rightarrow> (u32 \<times> ('d, 'x) pci_machine_scheme) option" where
  "pci_locate hw bus devfn s = do {
     (_, pci_cap_ptr, s) \<leftarrow> pci_read hw 0 bus devfn (sint PCI_CAPABILITY_LIST) 4 0 s;
     if INVALID_CAP pci_cap_ptr then Some (0, s)
     else do {
       (pci_cap_ptr, s) \<leftarrow> pci_cap_walk hw bus devfn (pci_cap_ptr AND 0xFF) s;
       if INVALID_CAP pci_cap_ptr then Some (0, s) else Some (pci_cap_ptr, s)
     }
   }"

end
