(* ===== verification/Pci_Props.thy ===== *)
theory Pci_Props
  imports Pci
begin

text \<open>
  Configuration space: what the two access methods share, that an address names the
  function and register it was built from, and what the capability search finds.
\<close>

section \<open>Addresses\<close>

lemma word_consts:
  "(0xFF :: u32) = mask 8" "(0xFC :: u32) = push_bit 2 (mask 6)" "(0xF00 :: u32) = push_bit 8 (mask 4)"
  "(0x80000000 :: u32) = push_bit 31 1" "(0xF :: u32) = mask 4" "(0xFFF :: u32) = mask 12" "(3 :: u32) = mask 2"
  by (simp_all add: mask_eq_exp_minus_1 push_bit_eq_mult)

lemma le255_take: "(x :: u32) \<le> 255 \<Longrightarrow> take_bit 8 x = x"
proof -
  assume x: "x \<le> 255"
  have "unat x < 2 ^ 8" using x by (simp add: word_le_nat_alt)
  then have "take_bit 8 (unat x) = unat x" by (simp add: take_bit_nat_eq_self)
  then show "take_bit 8 x = x" by (metis unsigned_take_bit_eq unsigned_word_eqI)
qed

lemma le4095_take: "0 \<le> r \<Longrightarrow> r \<le> 4095 \<Longrightarrow> take_bit 12 (word_of_int r :: u32) = word_of_int r"
proof -
  assume r: "0 \<le> r" "r \<le> 4095"
  then have "take_bit 12 r = r" by (simp add: take_bit_int_eq_self)
  then show "take_bit 12 (word_of_int r :: u32) = word_of_int r"
    by (metis (no_types, lifting) of_int_take_bit)
qed

definition conf1_decode :: "u32 \<Rightarrow> u32 \<times> u32 \<times> u32" where
  "conf1_decode a = (drop_bit 16 a AND 0xFF, drop_bit 8 a AND 0xFF,
     push_bit 8 (drop_bit 24 a AND 0xF) OR (a AND 0xFC))"

definition mmio_decode :: "u64 \<Rightarrow> u32 \<times> u32 \<times> u32" where
  "mmio_decode a = (ucast (drop_bit 20 a) AND 0xFF, ucast (drop_bit 12 a) AND 0xFF, ucast a AND 0xFFF)"



lemma bit31: "bit (0x80000000 :: u32) i \<longleftrightarrow> i = 31"
proof -
  have "(0x80000000 :: u32) = 2 ^ 31" by simp
  then show ?thesis by (simp only: bit_exp_iff) auto
qed

lemma bit_masks:
  "bit (0xFF :: u32) i \<longleftrightarrow> i < 8" "bit (0xFC :: u32) i \<longleftrightarrow> 2 \<le> i \<and> i < 8"
  "bit (0xF00 :: u32) i \<longleftrightarrow> 8 \<le> i \<and> i < 12" "bit (0xF :: u32) i \<longleftrightarrow> i < 4"
  "bit (0xFFF :: u32) i \<longleftrightarrow> i < 12" "bit (3 :: u32) i \<longleftrightarrow> i < 2"
  by (auto simp only: word_consts bit_mask_iff bit_push_bit_iff possible_bit_word len_of_numeral_defs)

lemmas bit_fields = bit_and_iff bit_or_iff bit_not_iff bit_drop_bit_eq bit_push_bit_iff bit_take_bit_iff
  bit31 bit_masks o_apply possible_bit_word

definition mmio_window :: "u32 \<Rightarrow> bool" where
  "mmio_window base \<longleftrightarrow> base AND 0x0FFFFFFF = 0"

text \<open>
  A type 1 address decodes to the bus, the function and the dword of the register it
  was built from, with the enable bit set: the fields do not overlap, extended registers
  (bits 8 to 11) included.
\<close>

lemma conf1_address_roundtrip:
  assumes "bus \<le> 255" "devfn \<le> 255" "0 \<le> reg" "reg \<le> 4095"
  shows "conf1_decode (PCI_CONF1_ADDRESS bus devfn reg) = (bus, devfn, word_of_int reg AND NOT 3)
     \<and> bit (PCI_CONF1_ADDRESS bus devfn reg) 31"
proof -
  define a :: "u32 \<Rightarrow> u32 \<Rightarrow> u32 \<Rightarrow> u32" where
    "a b d r = 0x80000000 OR push_bit 16 (r AND 0xF00) OR push_bit 16 b OR push_bit 8 d OR (r AND 0xFC)" for b d r
  have 1: "drop_bit 16 (a (take_bit 8 b) (take_bit 8 d) (take_bit 12 r)) AND 0xFF = take_bit 8 b" for b d r
    unfolding a_def by (rule bit_word_eqI, simp only: bit_fields) auto
  have 2: "drop_bit 8 (a (take_bit 8 b) (take_bit 8 d) (take_bit 12 r)) AND 0xFF = take_bit 8 d" for b d r
    unfolding a_def by (rule bit_word_eqI, simp only: bit_fields) auto
  have 3: "push_bit 8 (drop_bit 24 (a (take_bit 8 b) (take_bit 8 d) (take_bit 12 r)) AND 0xF)
      OR (a (take_bit 8 b) (take_bit 8 d) (take_bit 12 r) AND 0xFC) = take_bit 12 r AND NOT 3" for b d r
  proof (rule bit_word_eqI)
    fix i assume "i < LENGTH(32)"
    then have i: "i < 32" by simp
    show "bit (push_bit 8 (drop_bit 24 (a (take_bit 8 b) (take_bit 8 d) (take_bit 12 r)) AND 0xF)
        OR (a (take_bit 8 b) (take_bit 8 d) (take_bit 12 r) AND 0xFC)) i
      \<longleftrightarrow> bit (take_bit 12 r AND NOT 3) i"
    proof (cases "i < 8")
      case True
      then show ?thesis unfolding a_def by (simp only: bit_fields) auto
    next
      case False
      then obtain j where "i = j + 8" by (metis add.commute le_Suc_ex not_less)
      with i have j: "i = j + 8" "j < 24" by simp_all
      show ?thesis unfolding a_def j(1) by (simp only: bit_fields) (use j(2) in \<open>auto simp: add.commute\<close>)
    qed
  qed
  have 4: "bit (a b d r) 31" for b d r
    unfolding a_def by (simp only: bit_fields) auto
  note t = le255_take [OF assms(1)] le255_take [OF assms(2)] le4095_take [OF assms(3,4)]
  have "PCI_CONF1_ADDRESS bus devfn reg = a bus devfn (word_of_int reg)"
    by (simp add: a_def PCI_CONF1_ADDRESS_def)
  with 1 [of bus devfn "word_of_int reg"] 2 [of bus devfn "word_of_int reg"]
    3 [of bus devfn "word_of_int reg"] 4 t
  show ?thesis by (simp add: conf1_decode_def)
qed

text \<open>
  In a window aligned to 256 MB the memory-mapped address decodes to the bus, the
  function and the register, and stays inside the window; so accesses to different
  functions never meet.
\<close>

lemma mmio_address_roundtrip:
  assumes "mmio_window base" "bus \<le> 255" "devfn \<le> 255" "0 \<le> reg" "reg \<le> 4095"
  shows "mmio_decode (PCI_MMIO_ADDRESS base bus devfn reg) = (bus, devfn, word_of_int reg)
     \<and> ucast (PCI_MMIO_ADDRESS base bus devfn reg) AND NOT (0x0FFFFFFF :: u32) = base"
proof -
  define a :: "u32 \<Rightarrow> u32 \<Rightarrow> u32 \<Rightarrow> u32" where
    "a b d r = push_bit 20 b OR push_bit 12 d OR r" for b d r
  have m28: "(0x0FFFFFFF :: u32) = mask 28" by (simp add: mask_eq_exp_minus_1)
  have base: "bit base i \<Longrightarrow> 28 \<le> i" for i
  proof (rule ccontr)
    assume "bit base i" "\<not> 28 \<le> i"
    then have "bit (base AND mask 28) i" by (auto simp: bit_and_iff bit_mask_iff dest: bit_imp_le_length)
    with assms(1) show False by (simp only: mmio_window_def m28) simp
  qed
  have 1: "drop_bit 20 (base OR a (take_bit 8 b) (take_bit 8 d) (take_bit 12 r)) AND 0xFF = take_bit 8 b" for b d r
    unfolding a_def by (rule bit_word_eqI, simp only: bit_fields) (auto dest: base)
  have 2: "drop_bit 12 (base OR a (take_bit 8 b) (take_bit 8 d) (take_bit 12 r)) AND 0xFF = take_bit 8 d" for b d r
    unfolding a_def by (rule bit_word_eqI, simp only: bit_fields) (auto dest: base)
  have 3: "(base OR a (take_bit 8 b) (take_bit 8 d) (take_bit 12 r)) AND 0xFFF = take_bit 12 r" for b d r
    unfolding a_def by (rule bit_word_eqI, simp only: bit_fields) (auto dest: base)
  have 4: "(base OR a (take_bit 8 b) (take_bit 8 d) (take_bit 12 r)) AND NOT (mask 28) = base" for b d r
    unfolding a_def by (rule bit_word_eqI, simp only: bit_fields bit_mask_iff) (auto dest: base)
  note t = le255_take [OF assms(2)] le255_take [OF assms(3)] le4095_take [OF assms(4,5)]
  have A: "PCI_MMIO_ADDRESS base bus devfn reg = ucast (base OR a bus devfn (word_of_int reg))"
    by (simp add: a_def PCI_MMIO_ADDRESS_def or.assoc)
  have u: "ucast (ucast w :: u64) = w" for w :: u32
    by (rule bit_word_eqI) (simp add: bit_simps)
  have d: "ucast (drop_bit n (ucast w :: u64)) = drop_bit n w" for w :: u32 and n
    by (rule bit_word_eqI) (auto simp: bit_simps dest: bit_imp_le_length)
  from 1 [of bus devfn "word_of_int reg"] 2 [of bus devfn "word_of_int reg"]
    3 [of bus devfn "word_of_int reg"] 4 [of bus devfn "word_of_int reg"] t
  show ?thesis by (simp only: A mmio_decode_def u d m28)
qed

theorem conf1_address_roundtrip_witness:
  "conf1_decode (PCI_CONF1_ADDRESS 0 (PCI_DEVFN 0x18 3) 0x384) = (0, PCI_DEVFN 0x18 3, word_of_int 0x384 AND NOT 3)
     \<and> bit (PCI_CONF1_ADDRESS 0 (PCI_DEVFN 0x18 3) 0x384) 31"
  by (rule conf1_address_roundtrip) (simp_all add: PCI_DEVFN_def)

theorem mmio_address_roundtrip_witness:
  "mmio_decode (PCI_MMIO_ADDRESS 0xE0000000 0 (PCI_DEVFN 0 2) 0x44) = (0, PCI_DEVFN 0 2, word_of_int 0x44)
     \<and> ucast (PCI_MMIO_ADDRESS 0xE0000000 0 (PCI_DEVFN 0 2) 0x44) AND NOT (0x0FFFFFFF :: u32) = 0xE0000000"
  by (rule mmio_address_roundtrip) (simp_all add: PCI_DEVFN_def mmio_window_def)

section \<open>The two access methods\<close>

text \<open>
  The accesses that belong to the configuration space of one function; \<open>w\<close> says whether
  writes to it are among them.
\<close>

definition data_port :: "u16 \<Rightarrow> bool" where
  "data_port p \<longleftrightarrow> (\<exists>k. p = 0xCFC + (k AND 3))"

definition cfg_address :: "u32 \<Rightarrow> u32 \<Rightarrow> u32 \<Rightarrow> addr \<Rightarrow> bool" where
  "cfg_address base bus devfn a \<longleftrightarrow> (\<exists>reg k. 0 \<le> reg \<and> reg \<le> 4095 \<and> k \<in> {0, 1, 3}
     \<and> a = unat (PCI_MMIO_ADDRESS base bus devfn reg AND NOT k))"

fun cfg_event :: "bool \<Rightarrow> u32 \<Rightarrow> u32 \<Rightarrow> u32 \<Rightarrow> io_event \<Rightarrow> bool" where
  "cfg_event w base bus devfn (Port_Out p n v) \<longleftrightarrow>
     p = 0xCF8 \<and> n = 4 \<and> (\<exists>reg. 0 \<le> reg \<and> reg \<le> 4095 \<and> v = PCI_CONF1_ADDRESS bus devfn reg)
     \<or> w \<and> data_port p"
| "cfg_event w base bus devfn (Port_In p n v) \<longleftrightarrow> data_port p"
| "cfg_event w base bus devfn (Load a n v) \<longleftrightarrow> cfg_address base bus devfn a"
| "cfg_event w base bus devfn (Store a n v) \<longleftrightarrow> w \<and> cfg_address base bus devfn a"
| "cfg_event w base bus devfn (Rdmsr i v) \<longleftrightarrow> False"

lemma data_ports: "data_port (0xCFC + (k AND 3))" "data_port (0xCFC + (k AND 2))" "data_port 0xCFC"
proof -
  show "data_port (0xCFC + (k AND 3))" by (auto simp: data_port_def)
  have "(k AND 2) AND 3 = k AND (2 :: u16)" by (simp add: and.assoc)
  then show "data_port (0xCFC + (k AND 2))" unfolding data_port_def by (metis (no_types))
  have "(0xCFC :: u16) = 0xCFC + (0 AND 3)" by simp
  then show "data_port 0xCFC" unfolding data_port_def by blast
qed

lemma cfg_addresses:
  assumes "0 \<le> reg" "reg \<le> 4095"
  shows "cfg_address base bus devfn (unat (PCI_MMIO_ADDRESS base bus devfn reg))"
    "cfg_address base bus devfn (unat (PCI_MMIO_ADDRESS base bus devfn reg AND NOT 1))"
    "cfg_address base bus devfn (unat (PCI_MMIO_ADDRESS base bus devfn reg AND NOT 3))"
proof -
  have "PCI_MMIO_ADDRESS base bus devfn reg = PCI_MMIO_ADDRESS base bus devfn reg AND NOT 0" by simp
  with assms show "cfg_address base bus devfn (unat (PCI_MMIO_ADDRESS base bus devfn reg))"
    unfolding cfg_address_def by (metis insertI1)
  show "cfg_address base bus devfn (unat (PCI_MMIO_ADDRESS base bus devfn reg AND NOT 1))"
    "cfg_address base bus devfn (unat (PCI_MMIO_ADDRESS base bus devfn reg AND NOT 3))"
    unfolding cfg_address_def using assms by blast+
qed

lemma io_ext_pci [frame]:
  "io_ext P s s' \<Longrightarrow> pci_ops s' = pci_ops s \<and> mmio_base_addr s' = mmio_base_addr s"
  unfolding io_ext_def
  by (metis pci_machine.select_convs(1,2) pci_machine.surjective pci_machine.update_convs(1,2)
      machine.update_convs(1,2) pci_machine.ext_inject)

text \<open>
  The contract of an access method: a bad target is refused with \<^verbatim>\<open>-EINVAL\<close> (and all ones
  for a read) without an access; any other access succeeds and stays in the function's
  configuration space, and a read writes nothing.
\<close>

locale pci_method =
  fixes kind :: pci_access
    and rd :: "'d hw \<Rightarrow> u32 \<Rightarrow> u32 \<Rightarrow> u32 \<Rightarrow> int \<Rightarrow> int \<Rightarrow> u32 \<Rightarrow> ('d, 'x) pci_machine_scheme
      \<Rightarrow> int \<times> u32 \<times> ('d, 'x) pci_machine_scheme"
    and wr :: "'d hw \<Rightarrow> u32 \<Rightarrow> u32 \<Rightarrow> u32 \<Rightarrow> int \<Rightarrow> int \<Rightarrow> u32 \<Rightarrow> ('d, 'x) pci_machine_scheme
      \<Rightarrow> int \<times> ('d, 'x) pci_machine_scheme"
  assumes select: "pci_ops s = kind \<Longrightarrow> pci_read hw seg bus devfn reg len v s = Some (rd hw seg bus devfn reg len v s)
        \<and> pci_write hw seg bus devfn reg len v s = Some (wr hw seg bus devfn reg len v s)"
    and rd_bad: "bad_target seg bus devfn reg \<Longrightarrow> rd hw seg bus devfn reg len v s = (- EINVAL, - 1, s)"
    and wr_bad: "bad_target seg bus devfn reg \<Longrightarrow> wr hw seg bus devfn reg len v s = (- EINVAL, s)"
    and rd_ok: "\<not> bad_target seg bus devfn reg \<Longrightarrow> 0 \<le> reg \<Longrightarrow> fst (rd hw seg bus devfn reg len v s) = 0
        \<and> io_ext (cfg_event False (mmio_base_addr s) bus devfn) s (snd (snd (rd hw seg bus devfn reg len v s)))"
    and wr_ok: "\<not> bad_target seg bus devfn reg \<Longrightarrow> 0 \<le> reg \<Longrightarrow> fst (wr hw seg bus devfn reg len v s) = 0
        \<and> io_ext (cfg_event True (mmio_base_addr s) bus devfn) s (snd (wr hw seg bus devfn reg len v s))"
begin

lemma read_spec:
  fixes hw :: "'d hw" and s :: "('d, 'x) pci_machine_scheme"
  assumes "pci_ops s = kind" "0 \<le> reg"
  shows "\<exists>r v' s'. pci_read hw seg bus devfn reg len v s = Some (r, v', s')
    \<and> (r = 0 \<longleftrightarrow> \<not> bad_target seg bus devfn reg) \<and> (r \<noteq> 0 \<longrightarrow> r = - EINVAL \<and> v' = - 1 \<and> s' = s)
    \<and> io_ext (cfg_event False (mmio_base_addr s) bus devfn) s s'"
proof -
  obtain r v' s' where e: "rd hw seg bus devfn reg len v s = (r, v', s')"
    by (cases "rd hw seg bus devfn reg len v s")
  with select [OF assms(1), of hw seg bus devfn reg len v] rd_ok [of seg bus devfn reg hw len v s] assms(2)
    rd_bad [of seg bus devfn reg hw len v s]
  show ?thesis by (cases "bad_target seg bus devfn reg") (auto simp: EINVAL_def)
qed

lemma write_spec:
  fixes hw :: "'d hw" and s :: "('d, 'x) pci_machine_scheme"
  assumes "pci_ops s = kind" "0 \<le> reg"
  shows "\<exists>r s'. pci_write hw seg bus devfn reg len v s = Some (r, s')
    \<and> (r = 0 \<longleftrightarrow> \<not> bad_target seg bus devfn reg) \<and> (r \<noteq> 0 \<longrightarrow> r = - EINVAL \<and> s' = s)
    \<and> io_ext (cfg_event True (mmio_base_addr s) bus devfn) s s'"
proof -
  obtain r s' where e: "wr hw seg bus devfn reg len v s = (r, s')"
    by (cases "wr hw seg bus devfn reg len v s")
  with select [OF assms(1), of hw seg bus devfn reg len v] wr_ok [of seg bus devfn reg hw len v s] assms(2)
    wr_bad [of seg bus devfn reg hw len v s]
  show ?thesis by (cases "bad_target seg bus devfn reg") (auto simp: EINVAL_def)
qed

end

lemma conf1_select_event:
  assumes "0 \<le> reg" "\<not> bad_target seg bus devfn reg"
  shows "io_ext (cfg_event w base bus devfn) s (outl hw (PCI_CONF1_ADDRESS bus devfn reg) 0xCF8 s)"
  using assms by (intro io_ext_writes) (auto simp: bad_target_def)

lemma conf1_reads:
  assumes "0 \<le> reg" "\<not> bad_target seg bus devfn reg" "data_port p"
  shows "io_ext (cfg_event w base bus devfn) s (snd (inb hw p (outl hw (PCI_CONF1_ADDRESS bus devfn reg) 0xCF8 s)))"
    "io_ext (cfg_event w base bus devfn) s (snd (inw hw p (outl hw (PCI_CONF1_ADDRESS bus devfn reg) 0xCF8 s)))"
    "io_ext (cfg_event w base bus devfn) s (snd (inl hw p (outl hw (PCI_CONF1_ADDRESS bus devfn reg) 0xCF8 s)))"
  by (rule io_ext_trans [OF conf1_select_event [OF assms(1,2)]], rule io_ext_reads, simp add: assms(3))+

lemma conf1_writes:
  assumes "0 \<le> reg" "\<not> bad_target seg bus devfn reg" "data_port p"
  shows "io_ext (cfg_event True base bus devfn) s (outb hw x p (outl hw (PCI_CONF1_ADDRESS bus devfn reg) 0xCF8 s))"
    "io_ext (cfg_event True base bus devfn) s (outw hw y p (outl hw (PCI_CONF1_ADDRESS bus devfn reg) 0xCF8 s))"
    "io_ext (cfg_event True base bus devfn) s (outl hw z p (outl hw (PCI_CONF1_ADDRESS bus devfn reg) 0xCF8 s))"
  by (rule io_ext_trans [OF conf1_select_event [OF assms(1,2)]], rule io_ext_writes, simp add: assms(3))+

interpretation conf1: pci_method Pci_Conf1 pci_conf1_read pci_conf1_write
proof
  fix seg bus devfn :: u32 and reg len :: int and v :: u32 and s :: "('a, 'b) pci_machine_scheme" and hw :: "'a hw"
  assume ok: "\<not> bad_target seg bus devfn reg" "0 \<le> reg"
  show "fst (pci_conf1_read hw seg bus devfn reg len v s) = 0
      \<and> io_ext (cfg_event False (mmio_base_addr s) bus devfn) s (snd (snd (pci_conf1_read hw seg bus devfn reg len v s)))"
    using ok(1) by (simp add: pci_conf1_read_def Let_def split_beta data_ports
        conf1_reads [OF ok(2,1)] conf1_select_event [OF ok(2,1)])
  show "fst (pci_conf1_write hw seg bus devfn reg len v s) = 0
      \<and> io_ext (cfg_event True (mmio_base_addr s) bus devfn) s (snd (pci_conf1_write hw seg bus devfn reg len v s))"
    using ok(1) by (simp add: pci_conf1_write_def Let_def data_ports
        conf1_writes [OF ok(2,1)] conf1_select_event [OF ok(2,1)])
qed (simp_all add: pci_read_def pci_write_def pci_conf1_read_def pci_conf1_write_def)

interpretation mmio: pci_method Pci_Mmio pci_mmio_read pci_mmio_write
proof
  fix seg bus devfn :: u32 and reg len :: int and v :: u32 and s :: "('a, 'b) pci_machine_scheme" and hw :: "'a hw"
  assume ok: "\<not> bad_target seg bus devfn reg" "0 \<le> reg"
  then have reg: "0 \<le> reg" "reg \<le> 4095" by (simp_all add: bad_target_def)
  show "fst (pci_mmio_read hw seg bus devfn reg len v s) = 0
      \<and> io_ext (cfg_event False (mmio_base_addr s) bus devfn) s (snd (snd (pci_mmio_read hw seg bus devfn reg len v s)))"
    using ok(1) by (auto simp: pci_mmio_read_def Let_def split_beta cfg_addresses [OF reg, simplified] intro!: io_ext_reads)
  show "fst (pci_mmio_write hw seg bus devfn reg len v s) = 0
      \<and> io_ext (cfg_event True (mmio_base_addr s) bus devfn) s (snd (pci_mmio_write hw seg bus devfn reg len v s))"
    using ok(1) by (auto simp: pci_mmio_write_def Let_def split_beta cfg_addresses [OF reg, simplified] intro!: io_ext_writes)
qed (simp_all add: pci_read_def pci_write_def pci_mmio_read_def pci_mmio_write_def)

text \<open>Both at once, for a machine on which \<^verbatim>\<open>pci_init\<close> has run.\<close>

lemma pci_read_spec:
  assumes "pci_ops s \<noteq> Pci_Unset" "0 \<le> reg"
  shows "\<exists>r v' s'. pci_read hw seg bus devfn reg len v s = Some (r, v', s')
    \<and> (r = 0 \<longleftrightarrow> \<not> bad_target seg bus devfn reg) \<and> (r \<noteq> 0 \<longrightarrow> r = - EINVAL \<and> v' = - 1 \<and> s' = s)
    \<and> io_ext (cfg_event False (mmio_base_addr s) bus devfn) s s'"
  using assms conf1.read_spec [of s reg hw seg bus devfn len v] mmio.read_spec [of s reg hw seg bus devfn len v]
  by (cases "pci_ops s") blast+

lemma pci_write_spec:
  assumes "pci_ops s \<noteq> Pci_Unset" "0 \<le> reg"
  shows "\<exists>r s'. pci_write hw seg bus devfn reg len v s = Some (r, s')
    \<and> (r = 0 \<longleftrightarrow> \<not> bad_target seg bus devfn reg) \<and> (r \<noteq> 0 \<longrightarrow> r = - EINVAL \<and> s' = s)
    \<and> io_ext (cfg_event True (mmio_base_addr s) bus devfn) s s'"
  using assms conf1.write_spec [of s reg hw seg bus devfn len v] mmio.write_spec [of s reg hw seg bus devfn len v]
  by (cases "pci_ops s") blast+

section \<open>The capability search\<close>

lemma sint_and_FF: "sint (p AND 0xFF :: u32) = uint (p AND 0xFF)" "0 \<le> sint (p AND 0xFF :: u32)"
  "sint (p AND 0xFF :: u32) < 256"
proof -
  have m: "p AND 0xFF = take_bit 8 p" by (rule bit_word_eqI, simp only: bit_fields) auto
  have "uint (take_bit 8 p) = take_bit 8 (uint p)" by (simp add: unsigned_take_bit_eq)
  also have "\<dots> < 2 ^ 8" by (rule take_bit_int_less_exp)
  finally have u: "uint (p AND 0xFF) < 256" by (simp add: m)
  then have "signed_take_bit 31 (uint (p AND 0xFF)) = uint (p AND 0xFF)"
  proof (intro signed_take_bit_int_eq_self)
    have "0 \<le> uint (p AND 0xFF)" by simp
    then show "- (2 ^ 31) \<le> uint (p AND 0xFF)" by (rule order_trans [rotated]) simp
  qed simp
  then show "sint (p AND 0xFF :: u32) = uint (p AND 0xFF)" by (simp add: sint_uint)
  with u show "0 \<le> sint (p AND 0xFF :: u32)" "sint (p AND 0xFF :: u32) < 256" by simp_all
qed

lemma pci_cap_walk_ext:
  assumes "pci_cap_walk hw bus devfn p s = Some (c, s')" "pci_ops s \<noteq> Pci_Unset" "p = p AND 0xFF"
  shows "io_ext (cfg_event False (mmio_base_addr s) bus devfn) s s' \<and> c = c AND 0xFF"
proof -
  define P where "P = (\<lambda>(hw :: 'a hw) (bus :: u32) (devfn :: u32) (p :: u32) (s :: ('a, 'b) pci_machine_scheme) (c :: u32, s').
    pci_ops s \<noteq> Pci_Unset \<longrightarrow> p = p AND 0xFF \<longrightarrow>
    io_ext (cfg_event False (mmio_base_addr s) bus devfn) s s' \<and> c = c AND 0xFF)"
  have "P hw bus devfn p s (c, s')"
  proof (rule pci_cap_walk.raw_induct [where P = P, OF _ assms(1)])
    fix f and hw :: "'a hw" and bus devfn p and s :: "('a, 'b) pci_machine_scheme" and r
    assume IH: "\<And>hw bus devfn p s r. f hw bus devfn p s = Some r \<Longrightarrow> P hw bus devfn p s r"
      and eq: "(if p = 0 then Some (p, s)
        else do {
          (_, next, s) \<leftarrow> pci_read hw 0 bus devfn (sint p) 4 0 s;
          if PCI_CAP_ID next = PCI_CAPABILITIES_POINTER_ID_DEV then Some (p, s)
          else f hw bus devfn (PCI_CAP_PTR next) s
        }) = Some r"
    show "P hw bus devfn p s r"
      unfolding P_def
    proof (clarify)
      fix c s' assume r: "r = (c, s')" and ops: "pci_ops s \<noteq> Pci_Unset" and p: "p = p AND 0xFF"
      show "io_ext (cfg_event False (mmio_base_addr s) bus devfn) s s' \<and> c = c AND 0xFF"
      proof (cases "p = 0")
        case True
        with eq r show ?thesis by simp
      next
        case False
        have "0 \<le> sint p" by (subst p) (rule sint_and_FF)
        from pci_read_spec [OF ops this, of hw 0 bus devfn 4 0] obtain v nx t where
          rd: "pci_read hw 0 bus devfn (sint p) 4 0 s = Some (v, nx, t)"
          and e: "io_ext (cfg_event False (mmio_base_addr s) bus devfn) s t" by blast
        from io_ext_pci [OF e] ops have ops': "pci_ops t \<noteq> Pci_Unset" "mmio_base_addr t = mmio_base_addr s"
          by simp_all
        show ?thesis
        proof (cases "PCI_CAP_ID nx = PCI_CAPABILITIES_POINTER_ID_DEV")
          case True
          with eq False rd r e p show ?thesis by simp
        next
          case neq: False
          have ptr: "PCI_CAP_PTR nx = PCI_CAP_PTR nx AND 0xFF"
            by (simp add: PCI_CAP_PTR_def and.assoc)
          from neq eq False rd r have "f hw bus devfn (PCI_CAP_PTR nx) t = Some (c, s')" by simp
          from IH [OF this] ops' ptr
          have "io_ext (cfg_event False (mmio_base_addr s) bus devfn) t s' \<and> c = c AND 0xFF"
            unfolding P_def by simp
          with e show ?thesis by (blast intro: io_ext_trans)
        qed
      qed
    qed
  qed
  with assms show ?thesis by (simp add: P_def)
qed

lemma pci_locate_ext:
  assumes "pci_ops s \<noteq> Pci_Unset" and "pci_locate hw bus devfn s = Some (c, s')"
  shows "io_ext (cfg_event False (mmio_base_addr s) bus devfn) s s' \<and> c < 0xFF"
proof -
  have "0 \<le> sint PCI_CAPABILITY_LIST" by (simp add: PCI_CAPABILITY_LIST_def)
  from pci_read_spec [OF assms(1) this, of hw 0 bus devfn 4 0] obtain v p t where
    rd: "pci_read hw 0 bus devfn (sint PCI_CAPABILITY_LIST) 4 0 s = Some (v, p, t)"
    and e: "io_ext (cfg_event False (mmio_base_addr s) bus devfn) s t" by blast
  from io_ext_pci [OF e] assms(1) have ops: "pci_ops t \<noteq> Pci_Unset" "mmio_base_addr t = mmio_base_addr s"
    by simp_all
  show ?thesis
  proof (cases "INVALID_CAP p")
    case True
    with assms(2) rd e show ?thesis by (simp add: pci_locate_def)
  next
    case False
    with assms(2) rd obtain q u where w: "pci_cap_walk hw bus devfn (p AND 0xFF) t = Some (q, u)"
      and r: "(if INVALID_CAP q then (0, u) else (q, u)) = (c, s')"
      by (auto simp: pci_locate_def bind_eq_Some_conv split: if_splits)
    from pci_cap_walk_ext [OF w ops(1)] ops(2)
    have e2: "io_ext (cfg_event False (mmio_base_addr s) bus devfn) t u" and q: "q = q AND 0xFF"
      by (simp_all add: and.assoc)
    have "q \<le> 0xFF" by (subst q) (rule word_and_le1)
    with r have "c < 0xFF" by (auto simp: INVALID_CAP_def split: if_splits)
    moreover have "s' = u" using r by (auto split: if_splits)
    ultimately show ?thesis using io_ext_trans [OF e e2] by simp
  qed
qed

text \<open>
  The search for a capability only reads, and only the configuration space of the
  function it is asked about, whatever the hardware answers and however the list runs;
  the offset that it returns is below 255.
\<close>

lemma pci_locate_only_reads:
  assumes "pci_ops s \<noteq> Pci_Unset" and "pci_locate hw bus devfn s = Some (c, s')"
  shows "io_ext (cfg_event False (mmio_base_addr s) bus devfn) s s' \<and> c < 0xFF"
  by (rule pci_locate_ext [OF assms])

text \<open>
  What the configuration space has to offer for the search to be determined: reads of the
  function's first 256 bytes return the dwords \<open>cfg\<close>, in all states of a set \<open>Q\<close> that
  the reads do not leave.
\<close>

definition serves :: "'d hw \<Rightarrow> (('d, 'x) pci_machine_scheme \<Rightarrow> bool) \<Rightarrow> u32 \<Rightarrow> u32 \<Rightarrow> (int \<Rightarrow> u32) \<Rightarrow> bool" where
  "serves hw Q bus devfn cfg \<longleftrightarrow> (\<forall>s reg v. Q s \<and> 0 \<le> reg \<and> reg < 256 \<longrightarrow>
     (\<exists>s'. pci_read hw 0 bus devfn reg 4 v s = Some (0, cfg reg, s') \<and> Q s'))"

text \<open>The first DEV capability on the list from \<open>p\<close> on; 0 at the end of the list.\<close>

inductive cap_found :: "(int \<Rightarrow> u32) \<Rightarrow> u32 \<Rightarrow> u32 \<Rightarrow> bool" for cfg where
  cap_null: "cap_found cfg 0 0"
| cap_hit: "p \<noteq> 0 \<Longrightarrow> PCI_CAP_ID (cfg (sint p)) = PCI_CAPABILITIES_POINTER_ID_DEV \<Longrightarrow> cap_found cfg p p"
| cap_next: "p \<noteq> 0 \<Longrightarrow> PCI_CAP_ID (cfg (sint p)) \<noteq> PCI_CAPABILITIES_POINTER_ID_DEV \<Longrightarrow>
    cap_found cfg (PCI_CAP_PTR (cfg (sint p))) r \<Longrightarrow> cap_found cfg p r"

lemma cap_ptr_and: "PCI_CAP_PTR c AND 0xFF = PCI_CAP_PTR c"
  by (simp add: PCI_CAP_PTR_def and.assoc)

lemma cap_found_walk:
  assumes "cap_found cfg p r" "serves hw Q bus devfn cfg" "Q s" "p AND 0xFF = p"
  shows "\<exists>s'. pci_cap_walk hw bus devfn p s = Some (r, s')"
  using assms(1,3,4)
proof (induction arbitrary: s)
  case cap_null
  then show ?case by (subst pci_cap_walk.simps) simp
next
  case (cap_hit p)
  have "0 \<le> sint p" "sint p < 256" using sint_and_FF [of p] cap_hit.prems by simp_all
  with assms(2) cap_hit.prems obtain s' where
    "pci_read hw 0 bus devfn (sint p) 4 0 s = Some (0, cfg (sint p), s')"
    unfolding serves_def by blast
  with cap_hit.hyps show ?case by (subst pci_cap_walk.simps) simp
next
  case (cap_next p r)
  have "0 \<le> sint p" "sint p < 256" using sint_and_FF [of p] cap_next.prems by simp_all
  with assms(2) cap_next.prems obtain s' where
    "pci_read hw 0 bus devfn (sint p) 4 0 s = Some (0, cfg (sint p), s')" "Q s'"
    unfolding serves_def by blast
  moreover from cap_next.IH [OF this(2)] obtain s'' where
    "pci_cap_walk hw bus devfn (PCI_CAP_PTR (cfg (sint p))) s' = Some (r, s'')"
    by (auto simp: cap_ptr_and)
  ultimately show ?case using cap_next.hyps by (subst pci_cap_walk.simps) simp
qed

lemma walk_cap_found:
  assumes "pci_cap_walk hw bus devfn p s = Some (r, s')" "serves hw Q bus devfn cfg" "Q s" "p AND 0xFF = p"
  shows "cap_found cfg p r"
proof -
  define P where "P = (\<lambda>(hw :: 'a hw) bus devfn (p :: u32) (s :: ('a, 'b) pci_machine_scheme) (r :: u32, s' :: ('a, 'b) pci_machine_scheme).
    serves hw Q bus devfn cfg \<longrightarrow> Q s \<longrightarrow> p AND 0xFF = p \<longrightarrow> cap_found cfg p r)"
  have "P hw bus devfn p s (r, s')"
  proof (rule pci_cap_walk.raw_induct [where P = P, OF _ assms(1)])
    fix f and hw :: "'a hw" and bus devfn p and s :: "('a, 'b) pci_machine_scheme" and res
    assume IH: "\<And>hw bus devfn p s r. f hw bus devfn p s = Some r \<Longrightarrow> P hw bus devfn p s r"
      and eq: "(if p = 0 then Some (p, s)
        else do {
          (_, next, s) \<leftarrow> pci_read hw 0 bus devfn (sint p) 4 0 s;
          if PCI_CAP_ID next = PCI_CAPABILITIES_POINTER_ID_DEV then Some (p, s)
          else f hw bus devfn (PCI_CAP_PTR next) s
        }) = Some res"
    show "P hw bus devfn p s res"
      unfolding P_def
    proof (clarify)
      fix r s' assume r: "res = (r, s')" and sv: "serves hw Q bus devfn cfg" and Q: "Q s" and p: "p AND 0xFF = p"
      have b: "0 \<le> sint p" "sint p < 256" using sint_and_FF [of p] p by simp_all
      from sv Q b obtain t where rd: "pci_read hw 0 bus devfn (sint p) 4 0 s = Some (0, cfg (sint p), t)" "Q t"
        unfolding serves_def by blast
      show "cap_found cfg p r"
      proof (cases "p = 0 \<or> PCI_CAP_ID (cfg (sint p)) = PCI_CAPABILITIES_POINTER_ID_DEV")
        case True
        with eq r rd show ?thesis by (auto intro: cap_found.intros split: if_splits)
      next
        case False
        with eq r rd have "f hw bus devfn (PCI_CAP_PTR (cfg (sint p))) t = Some (r, s')" by simp
        from IH [OF this] sv rd(2) have "cap_found cfg (PCI_CAP_PTR (cfg (sint p))) r"
          by (simp add: P_def cap_ptr_and)
        with False show ?thesis by (auto intro: cap_found.intros)
      qed
    qed
  qed
  with assms show ?thesis by (simp add: P_def)
qed

lemma pci_locate_iff:
  assumes "serves hw Q bus devfn cfg" and "Q s"
  shows "(\<exists>s'. pci_locate hw bus devfn s = Some (c, s')) \<longleftrightarrow>
    (if INVALID_CAP (cfg 0x34) then c = 0
     else \<exists>r. cap_found cfg (cfg 0x34 AND 0xFF) r \<and> c = (if INVALID_CAP r then 0 else r))"
proof -
  have "sint PCI_CAPABILITY_LIST = 0x34" by (simp add: PCI_CAPABILITY_LIST_def)
  moreover have "(0 :: int) \<le> 0x34" "(0x34 :: int) < 256" by simp_all
  ultimately obtain t where rd: "pci_read hw 0 bus devfn (sint PCI_CAPABILITY_LIST) 4 0 s = Some (0, cfg 0x34, t)" "Q t"
    using assms unfolding serves_def by metis
  have a: "(cfg 0x34 AND 0xFF) AND 0xFF = cfg 0x34 AND 0xFF" by (simp add: and.assoc)
  show ?thesis
  proof (cases "INVALID_CAP (cfg 0x34)")
    case True
    with rd show ?thesis by (auto simp: pci_locate_def)
  next
    case False
    with rd have l: "pci_locate hw bus devfn s = do {
        (p, u) \<leftarrow> pci_cap_walk hw bus devfn (cfg 0x34 AND 0xFF) t;
        if INVALID_CAP p then Some (0, u) else Some (p, u) }"
      by (simp add: pci_locate_def)
    have w: "(\<exists>u. pci_cap_walk hw bus devfn (cfg 0x34 AND 0xFF) t = Some (r, u))
        \<longleftrightarrow> cap_found cfg (cfg 0x34 AND 0xFF) r" for r
      using walk_cap_found [OF _ assms(1) rd(2) a] cap_found_walk [OF _ assms(1) rd(2) a] by blast
    have "(\<exists>s'. pci_locate hw bus devfn s = Some (c, s')) \<longleftrightarrow>
        (\<exists>r. (\<exists>u. pci_cap_walk hw bus devfn (cfg 0x34 AND 0xFF) t = Some (r, u))
           \<and> c = (if INVALID_CAP r then 0 else r))"
      unfolding l by (cases "pci_cap_walk hw bus devfn (cfg 0x34 AND 0xFF) t") (auto split: if_splits)
    then show ?thesis using False by (simp only: w if_False)
  qed
qed

text \<open>
  C25. What \<^verbatim>\<open>pci_locate\<close> returns is the first DEV capability of the function's list, 0
  when the list pointer is invalid or the list ends; and it returns at all exactly when
  the list ends or has such a capability. A list that runs in a circle is never left.
\<close>

theorem pci_locate_exact:
  assumes "serves hw Q bus devfn cfg" and "Q s"
  shows "(\<exists>s'. pci_locate hw bus devfn s = Some (c, s')) \<longleftrightarrow>
    (if INVALID_CAP (cfg 0x34) then c = 0
     else \<exists>r. cap_found cfg (cfg 0x34 AND 0xFF) r \<and> c = (if INVALID_CAP r then 0 else r))"
  by (rule pci_locate_iff [OF assms])

text \<open>A machine with the type 1 ports and a capability list at 0x40, 0x50 (the DEV one).\<close>

definition demo_pci_hw :: "(u32 \<Rightarrow> u32) \<Rightarrow> u32 hw" where
  "demo_pci_hw f = \<lparr>hw_load = \<lambda>a n d. (0, d), hw_store = \<lambda>a n v d. d, hw_in = \<lambda>p n d. (f d, d),
     hw_out = \<lambda>p n v d. v, hw_rdmsr = \<lambda>i d. (0, d), hw_tick = \<lambda>d. d, hw_junk = \<lambda>d i. 0\<rparr>"

definition demo_pci_state :: "u32 pci_machine" where
  "demo_pci_state = \<lparr>dev = 0, trace = [], ram = \<lambda>_. 0, pci_ops = Pci_Conf1, mmio_base_addr = 0\<rparr>"

definition demo_cfg :: "u32 \<Rightarrow> u32" where
  "demo_cfg a = (if a = PCI_CONF1_ADDRESS 0 2 0x34 then 0x40
     else if a = PCI_CONF1_ADDRESS 0 2 0x40 then 0x5001
     else if a = PCI_CONF1_ADDRESS 0 2 0x50 then 0x0F else 0)"

lemma demo_serves:
  assumes "bus \<le> 255" "devfn \<le> 255"
  shows "serves (demo_pci_hw f) (\<lambda>s. pci_ops s = Pci_Conf1) bus devfn (\<lambda>reg. f (PCI_CONF1_ADDRESS bus devfn reg))"
  using assms
  by (auto simp: serves_def pci_read_def pci_conf1_read_def bad_target_def demo_pci_hw_def outl_def inl_def
      port_in_def port_out_def log_io_def Let_def not_less take_bit_word_eq_self)

lemma demo_caps:
  "(\<exists>s'. pci_locate (demo_pci_hw demo_cfg) 0 2 demo_pci_state = Some (0x50, s'))"
proof -
  have s: "serves (demo_pci_hw demo_cfg) (\<lambda>s :: u32 pci_machine. pci_ops s = Pci_Conf1) 0 2
      (\<lambda>reg. demo_cfg (PCI_CONF1_ADDRESS 0 2 reg))"
    by (rule demo_serves) simp_all
  note d = demo_cfg_def PCI_CONF1_ADDRESS_def
  let ?c = "\<lambda>reg. demo_cfg (PCI_CONF1_ADDRESS 0 2 reg)"
  have c: "?c 0x34 = 0x40" "?c 0x40 = 0x5001" "?c 0x50 = 0x0F" by (simp_all add: d)
  have "cap_found ?c 0x50 0x50"
    by (rule cap_hit) (simp_all add: c PCI_CAP_ID_def PCI_CAPABILITIES_POINTER_ID_DEV_def)
  then have "cap_found ?c 0x40 0x50"
    using cap_next [of "0x40" ?c "0x50"]
    by (simp add: c PCI_CAP_ID_def PCI_CAP_PTR_def PCI_CAPABILITIES_POINTER_ID_DEV_def)
  then have "\<exists>r. cap_found ?c (?c 0x34 AND 0xFF) r \<and> (0x50 :: u32) = (if INVALID_CAP r then 0 else r)"
    by (intro exI [of _ "0x50"]) (simp add: c INVALID_CAP_def)
  moreover have "\<not> INVALID_CAP (?c 0x34)" by (simp add: c INVALID_CAP_def)
  moreover have "pci_ops demo_pci_state = Pci_Conf1" by (simp add: demo_pci_state_def)
  ultimately show ?thesis using pci_locate_iff [OF s] by presburger
qed

theorem pci_locate_only_reads_witness:
  "\<exists>s'. pci_locate (demo_pci_hw demo_cfg) 0 2 demo_pci_state = Some (0x50, s')
    \<and> io_ext (cfg_event False (mmio_base_addr demo_pci_state) 0 2) demo_pci_state s' \<and> (0x50 :: u32) < 0xFF"
proof -
  from demo_caps obtain s' where l: "pci_locate (demo_pci_hw demo_cfg) 0 2 demo_pci_state = Some (0x50, s')" ..
  have "pci_ops demo_pci_state \<noteq> Pci_Unset" by (simp add: demo_pci_state_def)
  from pci_locate_only_reads [OF this l] l show ?thesis by blast
qed

text \<open>A list that runs in a circle: the search does not return.\<close>

lemma circle: "\<not> cap_found (\<lambda>reg. 0x5001) 0x50 r"
proof
  assume "cap_found (\<lambda>reg. 0x5001) 0x50 r"
  then show False
    by (induction "0x50 :: u32" r rule: cap_found.induct)
       (simp_all add: PCI_CAP_ID_def PCI_CAP_PTR_def PCI_CAPABILITIES_POINTER_ID_DEV_def)
qed

theorem pci_locate_exact_witness:
  "pci_locate (demo_pci_hw (\<lambda>_. 0x5001)) 0 2 demo_pci_state = None"
proof -
  have s: "serves (demo_pci_hw (\<lambda>_. 0x5001)) (\<lambda>s :: u32 pci_machine. pci_ops s = Pci_Conf1) 0 2 (\<lambda>reg. 0x5001)"
    by (rule demo_serves) simp_all
  have "\<not> cap_found (\<lambda>reg. 0x5001) 1 r" for r
  proof
    assume "cap_found (\<lambda>reg. 0x5001) 1 r"
    then show False
      using circle by (cases rule: cap_found.cases)
        (auto simp: PCI_CAP_ID_def PCI_CAP_PTR_def PCI_CAPABILITIES_POINTER_ID_DEV_def)
  qed
  then have "\<nexists>c s'. pci_locate (demo_pci_hw (\<lambda>_. 0x5001)) 0 2 demo_pci_state = Some (c, s')"
    using pci_locate_exact [OF s, of demo_pci_state]
    by (simp add: demo_pci_state_def INVALID_CAP_def)
  then show ?thesis by (cases "pci_locate (demo_pci_hw (\<lambda>_. 0x5001)) 0 2 demo_pci_state") auto
qed

end
