(* ===== verification/Dev.thy ===== *)
theory Dev
  imports Pci_Props
begin

text \<open>
  \<^verbatim>\<open>dev.c\<close>: lifting the DMA protection that SKINIT puts over the loader's 64 KB, through
  the DEV capability where there is one and through the control register of family 17h
  otherwise.
\<close>

definition DEV_PCI_BUS :: u32 where "DEV_PCI_BUS = 0"
definition DEV_PCI_DEVICE :: u32 where "DEV_PCI_DEVICE = 0x18"
definition DEV_PCI_FUNCTION :: u32 where "DEV_PCI_FUNCTION = 3"
definition DEV_OP_OFFSET :: u32 where "DEV_OP_OFFSET = 4"
definition DEV_DATA_OFFSET :: u32 where "DEV_DATA_OFFSET = 8"
definition DEV_CR :: u32 where "DEV_CR = 4"
definition DEV_CR_SL_DEV_EN_MASK :: u32 where "DEV_CR_SL_DEV_EN_MASK = 0x20"
definition MCH_PCI_BUS :: u32 where "MCH_PCI_BUS = 0"
definition MCH_PCI_DEVICE :: u32 where "MCH_PCI_DEVICE = 0x18"
definition MCH_PCI_FUNCTION :: u32 where "MCH_PCI_FUNCTION = 0"
definition MEMPROT_CR :: u32 where "MEMPROT_CR = 0x384"
definition MEMPROT_EN :: u32 where "MEMPROT_EN = 1"

lemmas dev_consts = DEV_PCI_BUS_def DEV_PCI_DEVICE_def DEV_PCI_FUNCTION_def DEV_OP_OFFSET_def
  DEV_DATA_OFFSET_def DEV_CR_def DEV_CR_SL_DEV_EN_MASK_def MCH_PCI_BUS_def MCH_PCI_DEVICE_def
  MCH_PCI_FUNCTION_def MEMPROT_CR_def MEMPROT_EN_def

definition dev_locate :: "'d hw \<Rightarrow> ('d, 'x) pci_machine_scheme \<Rightarrow> (u32 \<times> ('d, 'x) pci_machine_scheme) option" where
  "dev_locate hw s = pci_locate hw DEV_PCI_BUS (PCI_DEVFN DEV_PCI_DEVICE DEV_PCI_FUNCTION) s"

definition dev_op :: "u32 \<Rightarrow> u32 \<Rightarrow> u32" where
  "dev_op func index = push_bit 8 (func AND 0xff) + (index AND 0xff)"

definition dev_read :: "'d hw \<Rightarrow> u32 \<Rightarrow> u32 \<Rightarrow> u32 \<Rightarrow> ('d, 'x) pci_machine_scheme
    \<Rightarrow> (u32 \<times> ('d, 'x) pci_machine_scheme) option" where
  "dev_read hw dev_cap func index s = do {
     (_, s) \<leftarrow> pci_write hw 0 DEV_PCI_BUS (PCI_DEVFN DEV_PCI_DEVICE DEV_PCI_FUNCTION)
                 (sint (dev_cap + DEV_OP_OFFSET)) 4 (dev_op func index) s;
     (_, value, s) \<leftarrow> pci_read hw 0 DEV_PCI_BUS (PCI_DEVFN DEV_PCI_DEVICE DEV_PCI_FUNCTION)
                 (sint (dev_cap + DEV_DATA_OFFSET)) 4 0 s;
     Some (value, s)
   }"

definition dev_write :: "'d hw \<Rightarrow> u32 \<Rightarrow> u32 \<Rightarrow> u32 \<Rightarrow> u32 \<Rightarrow> ('d, 'x) pci_machine_scheme
    \<Rightarrow> ('d, 'x) pci_machine_scheme option" where
  "dev_write hw cap func index value s = do {
     (_, s) \<leftarrow> pci_write hw 0 DEV_PCI_BUS (PCI_DEVFN DEV_PCI_DEVICE DEV_PCI_FUNCTION)
                 (sint (cap + DEV_OP_OFFSET)) 4 (dev_op func index) s;
     (_, s) \<leftarrow> pci_write hw 0 DEV_PCI_BUS (PCI_DEVFN DEV_PCI_DEVICE DEV_PCI_FUNCTION)
                 (sint (cap + DEV_DATA_OFFSET)) 4 value s;
     Some s
   }"

definition dev_disable_sl :: "'d hw \<Rightarrow> u32 \<Rightarrow> ('d, 'x) pci_machine_scheme \<Rightarrow> ('d, 'x) pci_machine_scheme option" where
  "dev_disable_sl hw cap s = do {
     (dev_cr, s) \<leftarrow> dev_read hw cap DEV_CR 0 s;
     dev_write hw cap DEV_CR 0 (dev_cr AND NOT DEV_CR_SL_DEV_EN_MASK) s
   }"

definition disable_memory_protection :: "'d hw \<Rightarrow> ('d, 'x) pci_machine_scheme
    \<Rightarrow> ('d, 'x) pci_machine_scheme option" where
  "disable_memory_protection hw s = do {
     (dev_cap, s) \<leftarrow> dev_locate hw s;
     if dev_cap \<noteq> 0 then dev_disable_sl hw dev_cap s
     else do {
       (_, sldev, s) \<leftarrow> pci_read hw 0 MCH_PCI_BUS (PCI_DEVFN MCH_PCI_DEVICE MCH_PCI_FUNCTION)
                          (sint MEMPROT_CR) 4 0 s;
       (_, s) \<leftarrow> pci_write hw 0 MCH_PCI_BUS (PCI_DEVFN MCH_PCI_DEVICE MCH_PCI_FUNCTION)
                          (sint MEMPROT_CR) 4 (sldev AND NOT MEMPROT_EN) s;
       Some s
     }
   }"

section \<open>The accesses, one by one\<close>

text \<open>The trace of one dword access to configuration space, for either method.\<close>

definition read_events :: "pci_access \<Rightarrow> u32 \<Rightarrow> u32 \<Rightarrow> u32 \<Rightarrow> int \<Rightarrow> u32 \<Rightarrow> io_event list" where
  "read_events k base bus devfn reg v = (case k of
     Pci_Unset \<Rightarrow> []
   | Pci_Conf1 \<Rightarrow> [Port_Out 0xCF8 4 (PCI_CONF1_ADDRESS bus devfn reg), Port_In 0xCFC 4 v]
   | Pci_Mmio \<Rightarrow> [Load (unat (PCI_MMIO_ADDRESS base bus devfn reg AND NOT 3)) 4 (ucast v)])"

definition write_events :: "pci_access \<Rightarrow> u32 \<Rightarrow> u32 \<Rightarrow> u32 \<Rightarrow> int \<Rightarrow> u32 \<Rightarrow> io_event list" where
  "write_events k base bus devfn reg v = (case k of
     Pci_Unset \<Rightarrow> []
   | Pci_Conf1 \<Rightarrow> [Port_Out 0xCF8 4 (PCI_CONF1_ADDRESS bus devfn reg), Port_Out 0xCFC 4 v]
   | Pci_Mmio \<Rightarrow> [Store (unat (PCI_MMIO_ADDRESS base bus devfn reg AND NOT 3)) 4 (ucast v)])"

lemma ucast_ucast_32: "ucast (ucast (v :: u64) :: u32) = take_bit 32 v"
  by (rule bit_word_eqI) (auto simp: bit_simps)

lemma pci_read4:
  assumes "pci_ops s \<noteq> Pci_Unset" "bus \<le> 255" "devfn \<le> 255" "reg \<le> 4095"
  shows "\<exists>x s'. pci_read hw 0 bus devfn reg 4 v s = Some (0, x, s')
    \<and> trace s' = trace s @ read_events (pci_ops s) (mmio_base_addr s) bus devfn reg x
    \<and> io_ext (\<lambda>_. True) s s'"
proof -
  have "\<exists>x s'. pci_read hw 0 bus devfn reg 4 v s = Some (0, x, s')
    \<and> trace s' = trace s @ read_events (pci_ops s) (mmio_base_addr s) bus devfn reg x"
    using assms
    by (cases "pci_ops s")
       (auto simp: pci_read_def pci_conf1_read_def pci_mmio_read_def bad_target_def read_events_def
         io_defs Let_def split_beta not_less ucast_ucast_32)
  moreover have "io_ext (\<lambda>_. True) s (snd (snd (the (pci_read hw 0 bus devfn reg 4 v s))))"
    using assms
    by (cases "pci_ops s")
       (auto simp: pci_read_def pci_conf1_read_def pci_mmio_read_def bad_target_def
         Let_def split_beta not_less intro!: io_ext_reads intro: io_ext_trans io_ext_writes)
  ultimately show ?thesis by auto
qed

lemma pci_write4:
  assumes "pci_ops s \<noteq> Pci_Unset" "bus \<le> 255" "devfn \<le> 255" "reg \<le> 4095"
  shows "\<exists>s'. pci_write hw 0 bus devfn reg 4 v s = Some (0, s')
    \<and> trace s' = trace s @ write_events (pci_ops s) (mmio_base_addr s) bus devfn reg v
    \<and> io_ext (\<lambda>_. True) s s'"
proof -
  have "\<exists>s'. pci_write hw 0 bus devfn reg 4 v s = Some (0, s')
    \<and> trace s' = trace s @ write_events (pci_ops s) (mmio_base_addr s) bus devfn reg v"
    using assms
    by (cases "pci_ops s")
       (auto simp: pci_write_def pci_conf1_write_def pci_mmio_write_def bad_target_def write_events_def
         io_defs Let_def not_less)
  moreover have "io_ext (\<lambda>_. True) s (snd (the (pci_write hw 0 bus devfn reg 4 v s)))"
    using assms
    by (cases "pci_ops s")
       (auto simp: pci_write_def pci_conf1_write_def pci_mmio_write_def bad_target_def
         Let_def not_less intro!: io_ext_writes intro: io_ext_trans)
  ultimately show ?thesis by auto
qed

lemma sint_small: "uint (x :: u32) < 2 ^ 31 \<Longrightarrow> sint x = uint x"
proof -
  assume u: "uint x < 2 ^ 31"
  have "0 \<le> uint x" by simp
  then have "- (2 ^ 31) \<le> uint x" by (rule order_trans [rotated]) simp
  then have "signed_take_bit 31 (uint x) = uint x" using u by (rule signed_take_bit_int_eq_self)
  then show ?thesis by (simp add: sint_uint)
qed

lemma cap_offset: "cap < 0xFF \<Longrightarrow> k \<le> 8 \<Longrightarrow> sint (cap + k :: u32) = uint cap + uint k \<and> sint (cap + k) \<le> 4095"
proof -
  assume "cap < 0xFF" "k \<le> 8"
  then have b: "uint cap < 255" "uint k \<le> 8" by (simp_all add: word_less_def word_le_def)
  then have "uint (cap + k) = uint cap + uint k" by (subst uint_plus_if') simp
  with b sint_small [of "cap + k"] show ?thesis by simp
qed

section \<open>What is written to lift the protection\<close>

lemma io_ext_access: "io_ext P s s' \<Longrightarrow> pci_ops s' = pci_ops s" "io_ext P s s' \<Longrightarrow> mmio_base_addr s' = mmio_base_addr s"
  using io_ext_pci by blast+

definition protection_events :: "pci_access \<Rightarrow> u32 \<Rightarrow> u32 \<Rightarrow> u32 \<Rightarrow> io_event list" where
  "protection_events k base cap v =
     (if cap \<noteq> 0
      then write_events k base 0 (PCI_DEVFN 0x18 3) (uint cap + 4) 0x400
        @ read_events k base 0 (PCI_DEVFN 0x18 3) (uint cap + 8) v
        @ write_events k base 0 (PCI_DEVFN 0x18 3) (uint cap + 4) 0x400
        @ write_events k base 0 (PCI_DEVFN 0x18 3) (uint cap + 8) (v AND NOT 0x20)
      else read_events k base 0 (PCI_DEVFN 0x18 0) 0x384 v
        @ write_events k base 0 (PCI_DEVFN 0x18 0) 0x384 (v AND NOT 1))"

lemma devfns: "PCI_DEVFN 0x18 3 \<le> 255" "PCI_DEVFN 0x18 0 \<le> 255" "PCI_DEVFN 0 2 \<le> 255"
  by (simp_all add: PCI_DEVFN_def)

lemma dev_disable_sl_events:
  assumes ops: "pci_ops s \<noteq> Pci_Unset" and cap: "cap < 0xFF" "cap \<noteq> 0"
  shows "\<exists>v s'. dev_disable_sl hw cap s = Some s' \<and> io_ext (\<lambda>_. True) s s'
    \<and> trace s' = trace s @ protection_events (pci_ops s) (mmio_base_addr s) cap v"
proof -
  have r4: "sint (cap + 4) = uint cap + 4" "uint cap + 4 \<le> 4095"
    and r8: "sint (cap + 8) = uint cap + 8" "uint cap + 8 \<le> 4095"
    using cap_offset [OF cap(1), of 4] cap_offset [OF cap(1), of 8] by simp_all
  have op: "dev_op 4 0 = 0x400" by (simp add: dev_op_def)
  obtain s1 where 1: "pci_write hw 0 0 (PCI_DEVFN 0x18 3) (uint cap + 4) 4 0x400 s = Some (0, s1)"
    "trace s1 = trace s @ write_events (pci_ops s) (mmio_base_addr s) 0 (PCI_DEVFN 0x18 3) (uint cap + 4) 0x400"
    "io_ext (\<lambda>_. True) s s1"
    using pci_write4 [OF ops _ devfns(1) r4(2), of 0 hw "0x400"] by auto
  note e1 = io_ext_access [OF 1(3)]
  obtain v s2 where 2: "pci_read hw 0 0 (PCI_DEVFN 0x18 3) (uint cap + 8) 4 0 s1 = Some (0, v, s2)"
    "trace s2 = trace s1 @ read_events (pci_ops s) (mmio_base_addr s) 0 (PCI_DEVFN 0x18 3) (uint cap + 8) v"
    "io_ext (\<lambda>_. True) s1 s2"
    using pci_read4 [of s1 0, OF _ _ devfns(1) r8(2), of hw 0] ops unfolding e1 by auto
  note e2 = io_ext_access [OF 2(3), unfolded e1]
  obtain s3 where 3: "pci_write hw 0 0 (PCI_DEVFN 0x18 3) (uint cap + 4) 4 0x400 s2 = Some (0, s3)"
    "trace s3 = trace s2 @ write_events (pci_ops s) (mmio_base_addr s) 0 (PCI_DEVFN 0x18 3) (uint cap + 4) 0x400"
    "io_ext (\<lambda>_. True) s2 s3"
    using pci_write4 [of s2 0, OF _ _ devfns(1) r4(2), of hw "0x400"] ops unfolding e2 by auto
  note e3 = io_ext_access [OF 3(3), unfolded e2]
  obtain s4 where 4: "pci_write hw 0 0 (PCI_DEVFN 0x18 3) (uint cap + 8) 4 (v AND NOT 0x20) s3 = Some (0, s4)"
    "trace s4 = trace s3 @ write_events (pci_ops s) (mmio_base_addr s) 0 (PCI_DEVFN 0x18 3) (uint cap + 8) (v AND NOT 0x20)"
    "io_ext (\<lambda>_. True) s3 s4"
    using pci_write4 [of s3 0, OF _ _ devfns(1) r8(2), of hw "v AND NOT 0x20"] ops unfolding e3 by auto
  have "dev_disable_sl hw cap s = Some s4"
    using 1(1) 2(1) 3(1) 4(1) by (simp add: dev_disable_sl_def dev_read_def dev_write_def dev_consts r4 r8 op)
  moreover have "io_ext (\<lambda>_. True) s s4"
    using 1(3) 2(3) 3(3) 4(3) by (blast intro: io_ext_trans)
  ultimately show ?thesis
    using cap(2) 1(2) 2(2) 3(2) 4(2) by (auto simp: protection_events_def intro!: exI [of _ v])
qed

lemma disable_protection_events:
  assumes "pci_ops s \<noteq> Pci_Unset" and "pci_locate hw 0 (PCI_DEVFN 0x18 3) s = Some (cap, s1)"
  shows "\<exists>v s'. disable_memory_protection hw s = Some s' \<and> io_ext (\<lambda>_. True) s s'
    \<and> trace s' = trace s1 @ protection_events (pci_ops s) (mmio_base_addr s) cap v"
proof -
  from pci_locate_ext [OF assms] have e: "io_ext (\<lambda>_. True) s s1" and cap: "cap < 0xFF"
    by (auto intro: io_ext_mono)
  note a = io_ext_access [OF e]
  show ?thesis
  proof (cases "cap = 0")
    case False
    with dev_disable_sl_events [of s1 cap hw] cap assms(1) a obtain v s' where
      d: "dev_disable_sl hw cap s1 = Some s'" "io_ext (\<lambda>_. True) s1 s'"
      "trace s' = trace s1 @ protection_events (pci_ops s) (mmio_base_addr s) cap v" by auto
    with False assms(2) e show ?thesis
      by (auto simp: disable_memory_protection_def dev_locate_def dev_consts intro: io_ext_trans)
  next
    case True
    have r: "sint MEMPROT_CR = 0x384" by (simp add: MEMPROT_CR_def)
    obtain v s2 where 1: "pci_read hw 0 0 (PCI_DEVFN 0x18 0) 0x384 4 0 s1 = Some (0, v, s2)"
      "trace s2 = trace s1 @ read_events (pci_ops s) (mmio_base_addr s) 0 (PCI_DEVFN 0x18 0) 0x384 v"
      "io_ext (\<lambda>_. True) s1 s2"
      using pci_read4 [of s1 0, OF _ _ devfns(2), of "0x384" hw 0] assms(1) a by auto
    note a2 = io_ext_access [OF 1(3), unfolded a]
    obtain s3 where 2: "pci_write hw 0 0 (PCI_DEVFN 0x18 0) 0x384 4 (v AND NOT 1) s2 = Some (0, s3)"
      "trace s3 = trace s2 @ write_events (pci_ops s) (mmio_base_addr s) 0 (PCI_DEVFN 0x18 0) 0x384 (v AND NOT 1)"
      "io_ext (\<lambda>_. True) s2 s3"
      using pci_write4 [of s2 0, OF _ _ devfns(2), of "0x384" hw "v AND NOT 1"] assms(1) a2 by auto
    have "disable_memory_protection hw s = Some s3"
      using True assms(2) 1(1) 2(1) r
      by (simp add: disable_memory_protection_def dev_locate_def DEV_PCI_BUS_def DEV_PCI_DEVICE_def
          DEV_PCI_FUNCTION_def MCH_PCI_BUS_def MCH_PCI_DEVICE_def MCH_PCI_FUNCTION_def MEMPROT_EN_def)
    moreover have "io_ext (\<lambda>_. True) s s3" using e 1(3) 2(3) by (blast intro: io_ext_trans)
    ultimately show ?thesis
      using True 1(2) 2(2) by (auto simp: protection_events_def intro!: exI [of _ v])
  qed
qed

text \<open>
  C20. Lifting the protection. Once the search for the DEV capability has returned, the
  rest is a fixed exchange, for either access method and any hardware: with a capability,
  the DEV control register is selected, read and written back with the SL_DEV_EN bit
  cleared and every other bit as read; without one, the same happens to bit 0 of the
  family 17h register. Nothing else is accessed, and the function returns.
\<close>

theorem disable_memory_protection_events:
  assumes "pci_ops s \<noteq> Pci_Unset" and "pci_locate hw 0 (PCI_DEVFN 0x18 3) s = Some (cap, s1)"
  shows "\<exists>v s'. disable_memory_protection hw s = Some s' \<and> io_ext (\<lambda>_. True) s s'
    \<and> trace s' = trace s1 @ protection_events (pci_ops s) (mmio_base_addr s) cap v"
  by (rule disable_protection_events [OF assms])

text \<open>On the demonstration machine, with a DEV capability at 0x40 of function 0x18.3.\<close>

definition demo_dev :: "u32 \<Rightarrow> u32" where
  "demo_dev a = (if a = PCI_CONF1_ADDRESS 0 (PCI_DEVFN 0x18 3) 0x34 then 0x40
     else if a = PCI_CONF1_ADDRESS 0 (PCI_DEVFN 0x18 3) 0x40 then 0x0F else 0)"

lemma demo_dev_located:
  "\<exists>s1. pci_locate (demo_pci_hw demo_dev) 0 (PCI_DEVFN 0x18 3) demo_pci_state = Some (0x40, s1)"
proof -
  let ?c = "\<lambda>reg. demo_dev (PCI_CONF1_ADDRESS 0 (PCI_DEVFN 0x18 3) reg)"
  have s: "serves (demo_pci_hw demo_dev) (\<lambda>s :: u32 pci_machine. pci_ops s = Pci_Conf1) 0 (PCI_DEVFN 0x18 3) ?c"
    by (rule demo_serves) (simp_all add: devfns)
  have c: "?c 0x34 = 0x40" "?c 0x40 = 0x0F"
    by (simp_all add: demo_dev_def PCI_CONF1_ADDRESS_def PCI_DEVFN_def)
  have "cap_found ?c 0x40 0x40"
    by (rule cap_hit) (simp_all add: c PCI_CAP_ID_def PCI_CAPABILITIES_POINTER_ID_DEV_def)
  then have "\<exists>r. cap_found ?c (?c 0x34 AND 0xFF) r \<and> (0x40 :: u32) = (if INVALID_CAP r then 0 else r)"
    by (intro exI [of _ "0x40"]) (simp add: c INVALID_CAP_def)
  moreover have "\<not> INVALID_CAP (?c 0x34)" by (simp add: c INVALID_CAP_def)
  moreover have "pci_ops demo_pci_state = Pci_Conf1" by (simp add: demo_pci_state_def)
  ultimately show ?thesis using pci_locate_iff [OF s] by presburger
qed

theorem disable_memory_protection_events_witness:
  "\<exists>(s1 :: u32 pci_machine) v s'. disable_memory_protection (demo_pci_hw demo_dev) demo_pci_state = Some s'
    \<and> io_ext (\<lambda>_. True) demo_pci_state s'
    \<and> trace s' = trace s1 @ protection_events Pci_Conf1 0 0x40 v"
proof -
  from demo_dev_located obtain s1 where
    l: "pci_locate (demo_pci_hw demo_dev) 0 (PCI_DEVFN 0x18 3) demo_pci_state = Some (0x40, s1)" ..
  have o: "pci_ops demo_pci_state = Pci_Conf1" "mmio_base_addr demo_pci_state = 0"
    by (simp_all add: demo_pci_state_def)
  then have "pci_ops demo_pci_state \<noteq> Pci_Unset" by simp
  from disable_memory_protection_events [OF this l] show ?thesis unfolding o by (rule exI)
qed

end
