(* ===== verification/Iommu.thy ===== *)
theory Iommu
  imports Dev
begin

text \<open>
  \<^verbatim>\<open>iommu.c\<close> and \<^verbatim>\<open>include/iommu.h\<close>: the device table that blocks all DMA, the command
  buffer and the programming of the IOMMU. Addresses of the loader's own objects come
  from the linker and are a parameter, the record \<open>layout\<close>.
\<close>

section \<open>Layout and constants\<close>

record layout =
  l_start :: u64
  l_bootloader_data :: u64
  l_device_table :: u64
  l_command_buf :: u64
  l_event_log :: u64
  l_iommu_done :: u64
  l_tis_buff :: u64


definition IOMMU_PCI_BUS :: u32 where "IOMMU_PCI_BUS = 0"
definition IOMMU_PCI_DEVICE :: u32 where "IOMMU_PCI_DEVICE = 0"
definition IOMMU_PCI_FUNCTION :: u32 where "IOMMU_PCI_FUNCTION = 2"

definition IOMMU_DTE_Q0_V :: u64 where "IOMMU_DTE_Q0_V = push_bit 0 1"
definition IOMMU_DTE_Q0_TV :: u64 where "IOMMU_DTE_Q0_TV = push_bit 1 1"
definition IOMMU_DTE_Q0_IR :: u64 where "IOMMU_DTE_Q0_IR = push_bit 61 1"
definition IOMMU_DTE_Q0_IW :: u64 where "IOMMU_DTE_Q0_IW = push_bit 62 1"

definition IOMMU_CAP_BA_LOW :: "u32 \<Rightarrow> u32" where "IOMMU_CAP_BA_LOW c = c + 4"
definition IOMMU_CAP_BA_HIGH :: "u32 \<Rightarrow> u32" where "IOMMU_CAP_BA_HIGH c = c + 8"
definition IOMMU_CAP_BA_LOW_ENABLE :: u32 where "IOMMU_CAP_BA_LOW_ENABLE = 1"

text \<open>Indices into the table of 64-bit registers.\<close>

definition IOMMU_MMIO_DEVICE_TABLE_BA :: nat where "IOMMU_MMIO_DEVICE_TABLE_BA = 0x00 div 8"
definition IOMMU_MMIO_COMMAND_BUF_BA :: nat where "IOMMU_MMIO_COMMAND_BUF_BA = 0x08 div 8"
definition IOMMU_MMIO_EVENT_LOG_BA :: nat where "IOMMU_MMIO_EVENT_LOG_BA = 0x10 div 8"
definition IOMMU_MMIO_CONTROL_REGISTER :: nat where "IOMMU_MMIO_CONTROL_REGISTER = 0x18 div 8"
definition IOMMU_MMIO_EXTENDED_FEATURE :: nat where "IOMMU_MMIO_EXTENDED_FEATURE = 0x30 div 8"
definition IOMMU_MMIO_COMMAND_BUF_HEAD :: nat where "IOMMU_MMIO_COMMAND_BUF_HEAD = 0x2000 div 8"
definition IOMMU_MMIO_COMMAND_BUF_TAIL :: nat where "IOMMU_MMIO_COMMAND_BUF_TAIL = 0x2008 div 8"
definition IOMMU_MMIO_EVENT_LOG_HEAD :: nat where "IOMMU_MMIO_EVENT_LOG_HEAD = 0x2010 div 8"
definition IOMMU_MMIO_EVENT_LOG_TAIL :: nat where "IOMMU_MMIO_EVENT_LOG_TAIL = 0x2018 div 8"
definition IOMMU_MMIO_STATUS_REGISTER :: nat where "IOMMU_MMIO_STATUS_REGISTER = 0x2020 div 8"

definition IOMMU_CR_IommuEn :: u64 where "IOMMU_CR_IommuEn = push_bit 0 1"
definition IOMMU_CR_EventLogEn :: u64 where "IOMMU_CR_EventLogEn = push_bit 2 1"
definition IOMMU_CR_CmdBufEn :: u64 where "IOMMU_CR_CmdBufEn = push_bit 12 1"

text \<open>The fields of the control register, in their order, and the mask of all of them.\<close>

definition IOMMU_CR_fields :: "(string \<times> u64) list" where
  "IOMMU_CR_fields =
     [(''IommuEn'', push_bit 0 1), (''HtTunEn'', push_bit 1 1), (''EventLogEn'', push_bit 2 1), (''EventIntEn'', push_bit 3 1),
      (''ComWaitIntEn'', push_bit 4 1), (''CmdBufEn'', push_bit 12 1), (''PPRLogEn'', push_bit 13 1), (''PprIntEn'', push_bit 14 1),
      (''PPREn'', push_bit 15 1), (''GTEn'', push_bit 16 1), (''GAEn'', push_bit 17 1), (''SmiFEn'', push_bit 22 1),
      (''SmiFLogEn'', push_bit 24 1), (''GALogEn'', push_bit 28 1), (''GAIntEn'', push_bit 29 1), (''DualPprLogEn'', push_bit 30 3),
      (''DualEventLogEn'', push_bit 32 3), (''DevTblSegEn'', push_bit 34 7), (''PrivAbrtEn'', push_bit 37 3),
      (''PprAutoRspEn'', push_bit 39 1), (''MarcEn'', push_bit 40 1), (''BlkStopMrkEn'', push_bit 41 1), (''PprAutoRspAon'', push_bit 42 1)]"

definition IOMMU_CR_ENABLE_ALL_MASK :: u64 where
  "IOMMU_CR_ENABLE_ALL_MASK = foldr (OR) (map snd IOMMU_CR_fields) 0"

text \<open>No two fields overlap, and clearing the mask clears what the code sets afterwards.\<close>

lemma IOMMU_CR_disjoint: "sorted_wrt (\<lambda>a b. a AND b = 0) (map snd IOMMU_CR_fields)"
  by (simp add: IOMMU_CR_fields_def)

lemma IOMMU_CR_cleared:
  "IOMMU_CR_ENABLE_ALL_MASK AND (IOMMU_CR_CmdBufEn OR IOMMU_CR_EventLogEn OR IOMMU_CR_IommuEn)
     = IOMMU_CR_CmdBufEn OR IOMMU_CR_EventLogEn OR IOMMU_CR_IommuEn"
  by (simp add: IOMMU_CR_ENABLE_ALL_MASK_def IOMMU_CR_fields_def IOMMU_CR_CmdBufEn_def IOMMU_CR_EventLogEn_def IOMMU_CR_IommuEn_def)

definition IOMMU_EF_IASup :: u64 where "IOMMU_EF_IASup = push_bit 6 1"

definition COMPLETION_WAIT :: u32 where "COMPLETION_WAIT = 1"
definition INVALIDATE_IOMMU_ALL :: u32 where "INVALIDATE_IOMMU_ALL = 8"

record iommu_dte =
  dte_a :: u64
  dte_b :: u64
  dte_c :: u64
  dte_d :: u64

record iommu_command =
  u0 :: u32
  u1 :: u32
  u2 :: u32
  u3 :: u32

definition device_table :: "iommu_dte list" where
  "device_table = replicate (2 * PAGE_SIZE div 32)
     \<lparr>dte_a = IOMMU_DTE_Q0_V + IOMMU_DTE_Q0_TV, dte_b = 0, dte_c = 0, dte_d = 0\<rparr>"

text \<open>\<^verbatim>\<open>opcode\<close> is the upper four bits of \<^verbatim>\<open>u1\<close>.\<close>

definition set_opcode :: "u32 \<Rightarrow> iommu_command \<Rightarrow> iommu_command" where
  "set_opcode op c = c\<lparr>u1 := (u1 c AND 0x0FFFFFFF) OR push_bit 28 (op AND 0xF)\<rparr>"

definition command_bytes :: "iommu_command \<Rightarrow> u8 list" where
  "command_bytes c = le_bytes 4 (u0 c) @ le_bytes 4 (u1 c) @ le_bytes 4 (u2 c) @ le_bytes 4 (u3 c)"

section \<open>Operations\<close>

definition iommu_locate :: "'d hw \<Rightarrow> ('d, 'x) pci_machine_scheme \<Rightarrow> (u32 \<times> ('d, 'x) pci_machine_scheme) option" where
  "iommu_locate hw s = pci_locate hw IOMMU_PCI_BUS (PCI_DEVFN IOMMU_PCI_DEVICE IOMMU_PCI_FUNCTION) s"

definition reg_at :: "u64 \<Rightarrow> nat \<Rightarrow> addr" where
  "reg_at base i = unat base + 8 * i"

definition reg_read :: "'d hw \<Rightarrow> u64 \<Rightarrow> nat \<Rightarrow> ('d, 'x) pci_machine_scheme \<Rightarrow> u64 \<times> ('d, 'x) pci_machine_scheme" where
  "reg_read hw base i s = ioread64 hw (reg_at base i) s"

definition reg_write :: "'d hw \<Rightarrow> u64 \<Rightarrow> nat \<Rightarrow> u64 \<Rightarrow> ('d, 'x) pci_machine_scheme \<Rightarrow> ('d, 'x) pci_machine_scheme" where
  "reg_write hw base i v s = iowrite64 hw v (reg_at base i) s"

text \<open>\<^verbatim>\<open>mmio_base[i] &= m\<close> and \<^verbatim>\<open>mmio_base[i] |= m\<close>.\<close>

definition reg_and :: "'d hw \<Rightarrow> u64 \<Rightarrow> nat \<Rightarrow> u64 \<Rightarrow> ('d, 'x) pci_machine_scheme \<Rightarrow> ('d, 'x) pci_machine_scheme" where
  "reg_and hw base i m s = (let (v, s) = reg_read hw base i s in reg_write hw base i (v AND m) s)"

definition reg_or :: "'d hw \<Rightarrow> u64 \<Rightarrow> nat \<Rightarrow> u64 \<Rightarrow> ('d, 'x) pci_machine_scheme \<Rightarrow> ('d, 'x) pci_machine_scheme" where
  "reg_or hw base i m s = (let (v, s) = reg_read hw base i s in reg_write hw base i (v OR m) s)"

text \<open>
  \<^verbatim>\<open>command_buf[cmd_ptr++] = cmd\<close> stores wherever the index leads: the array has two
  entries, the index is not checked.
\<close>

definition send_command :: "'d hw \<Rightarrow> layout \<Rightarrow> u64 \<Rightarrow> iommu_command
    \<Rightarrow> ('d, 'x) pci_machine_scheme \<Rightarrow> ('d, 'x) pci_machine_scheme" where
  "send_command hw L base cmd s =
     (let (tail, s) = reg_read hw base IOMMU_MMIO_COMMAND_BUF_TAIL s;
          cmd_ptr = ucast (drop_bit 4 tail) :: u32;
          s = s\<lparr>ram := mem_write (ram s) (unat (l_command_buf L) + 16 * unat cmd_ptr) (command_bytes cmd)\<rparr>
      in reg_write hw base IOMMU_MMIO_COMMAND_BUF_TAIL (ucast (push_bit 4 (cmd_ptr + 1))) s)"

text \<open>
  The arguments of the debug prints are evaluated (they read registers); the printing
  itself is empty in the release build that is modelled.
\<close>

definition iommu_enable :: "'d hw \<Rightarrow> layout \<Rightarrow> u64 \<Rightarrow> ('d, 'x) pci_machine_scheme \<Rightarrow> ('d, 'x) pci_machine_scheme" where
  "iommu_enable hw L base s =
     (let (_, s) = reg_read hw base IOMMU_MMIO_STATUS_REGISTER s;
          s = reg_and hw base IOMMU_MMIO_CONTROL_REGISTER (NOT IOMMU_CR_ENABLE_ALL_MASK) s;
          s = reg_write hw base IOMMU_MMIO_DEVICE_TABLE_BA (l_device_table L OR 1) s;
          (_, s) = reg_read hw base IOMMU_MMIO_DEVICE_TABLE_BA s;
          s = reg_write hw base IOMMU_MMIO_COMMAND_BUF_BA
                ((l_command_buf L AND NOT 0xfff) OR push_bit 56 0x9) s;
          s = reg_write hw base IOMMU_MMIO_COMMAND_BUF_TAIL (l_command_buf L AND 0xff0) s;
          s = reg_write hw base IOMMU_MMIO_COMMAND_BUF_HEAD (l_command_buf L AND 0xff0) s;
          (_, s) = reg_read hw base IOMMU_MMIO_COMMAND_BUF_BA s;
          s = reg_write hw base IOMMU_MMIO_EVENT_LOG_BA (l_event_log L OR push_bit 56 0x8) s;
          s = reg_write hw base IOMMU_MMIO_EVENT_LOG_HEAD 0 s;
          s = reg_write hw base IOMMU_MMIO_EVENT_LOG_TAIL 0 s;
          (_, s) = reg_read hw base IOMMU_MMIO_EVENT_LOG_BA s;
          s = reg_and hw base IOMMU_MMIO_STATUS_REGISTER (NOT 2) s;
          s = reg_or hw base IOMMU_MMIO_CONTROL_REGISTER (IOMMU_CR_CmdBufEn OR IOMMU_CR_EventLogEn) s
      in reg_or hw base IOMMU_MMIO_CONTROL_REGISTER IOMMU_CR_IommuEn s)"

text \<open>The last part: the completion wait, which makes the IOMMU write to \<open>completed\<close>.\<close>

definition iommu_completion :: "'d hw \<Rightarrow> layout \<Rightarrow> u64 \<Rightarrow> u64 \<Rightarrow> iommu_command
    \<Rightarrow> ('d, 'x) pci_machine_scheme \<Rightarrow> ('d, 'x) pci_machine_scheme" where
  "iommu_completion hw L base completed cmd s =
     (let (_, s) = reg_read hw base IOMMU_MMIO_EXTENDED_FEATURE s;
          (_, s) = reg_read hw base IOMMU_MMIO_STATUS_REGISTER s;
          cmd = cmd\<lparr>u0 := ucast (completed OR 1), u1 := 0\<rparr>;
          cmd = (set_opcode COMPLETION_WAIT cmd)\<lparr>u2 := 0x656e6f64\<rparr>;
          s = send_command hw L base cmd s;
          (_, s) = reg_read hw base IOMMU_MMIO_STATUS_REGISTER s
      in s)"

definition iommu_commands :: "'d hw \<Rightarrow> layout \<Rightarrow> u64 \<Rightarrow> u64 \<Rightarrow> ('d, 'x) pci_machine_scheme \<Rightarrow> ('d, 'x) pci_machine_scheme" where
  "iommu_commands hw L base completed s =
     (let cmd = \<lparr>u0 = 0, u1 = 0, u2 = 0, u3 = 0\<rparr>;
          (_, s) = reg_read hw base IOMMU_MMIO_STATUS_REGISTER s;
          (ef, s) = reg_read hw base IOMMU_MMIO_EXTENDED_FEATURE s
      in if ef AND IOMMU_EF_IASup \<noteq> 0
         then (let cmd = set_opcode INVALIDATE_IOMMU_ALL cmd
               in iommu_completion hw L base completed cmd (send_command hw L base cmd s))
         else iommu_completion hw L base completed cmd s)"

definition iommu_load_device_table :: "'d hw \<Rightarrow> layout \<Rightarrow> u32 \<Rightarrow> u64 \<Rightarrow> ('d, 'x) pci_machine_scheme
    \<Rightarrow> (u32 \<times> ('d, 'x) pci_machine_scheme) option" where
  "iommu_load_device_table hw L cap completed s = do {
     (_, low, s) \<leftarrow> pci_read hw 0 IOMMU_PCI_BUS (PCI_DEVFN IOMMU_PCI_DEVICE IOMMU_PCI_FUNCTION)
                     (sint (IOMMU_CAP_BA_LOW cap)) 4 0 s;
     if low AND IOMMU_CAP_BA_LOW_ENABLE = 0 then Some (1, s)
     else do {
       (_, hi, s) \<leftarrow> pci_read hw 0 IOMMU_PCI_BUS (PCI_DEVFN IOMMU_PCI_DEVICE IOMMU_PCI_FUNCTION)
                      (sint (IOMMU_CAP_BA_HIGH cap)) 4 0 s;
       let mmio_base = push_bit 32 (ucast hi) OR ucast (low AND 0xffffc000);
       Some (0, iommu_commands hw L mmio_base completed (iommu_enable hw L mmio_base s))
     }
   }"

section \<open>The order of the register writes\<close>

definition is_store :: "io_event \<Rightarrow> bool" where
  "is_store e = (case e of Store _ _ _ \<Rightarrow> True | _ \<Rightarrow> False)"

definition stores :: "('d, 'x) machine_scheme \<Rightarrow> io_event list" where
  "stores s = filter is_store (trace s)"

lemma stores_reg [simp]:
  "stores (snd (reg_read hw base i s)) = stores s"
  "stores (reg_write hw base i v s) = stores s @ [Store (reg_at base i) 8 v]"
  "stores (reg_and hw base i m s) = stores s @ [Store (reg_at base i) 8 (fst (reg_read hw base i s) AND m)]"
  "stores (reg_or hw base i m s) = stores s @ [Store (reg_at base i) 8 (fst (reg_read hw base i s) OR m)]"
  "stores (s\<lparr>ram := x\<rparr>) = stores s"
  by (simp_all add: stores_def is_store_def reg_read_def reg_write_def reg_and_def reg_or_def io_defs
      Let_def split_beta)

lemma io_ext_regs [simp]:
  "io_ext (\<lambda>_. True) s (snd (reg_read hw base i s))"
  "io_ext (\<lambda>_. True) s (reg_write hw base i v s)"
  by (auto simp: reg_read_def reg_write_def)

lemma io_ext_rmw [simp]:
  "io_ext (\<lambda>_. True) s (reg_and hw base i m s)" "io_ext (\<lambda>_. True) s (reg_or hw base i m s)"
  by (simp_all add: reg_and_def reg_or_def split_beta Let_def io_ext_trans [OF io_ext_regs(1) io_ext_regs(2)])

text \<open>
  The writes that switch the IOMMU on; \<open>c\<close>, \<open>st\<close>, \<open>c2\<close>, \<open>c3\<close> are what the hardware
  returned when a register was read before it was modified.
\<close>

definition enable_stores :: "layout \<Rightarrow> u64 \<Rightarrow> u64 \<Rightarrow> u64 \<Rightarrow> u64 \<Rightarrow> u64 \<Rightarrow> io_event list" where
  "enable_stores L base c st c2 c3 =
     [Store (reg_at base IOMMU_MMIO_CONTROL_REGISTER) 8 (c AND NOT IOMMU_CR_ENABLE_ALL_MASK),
      Store (reg_at base IOMMU_MMIO_DEVICE_TABLE_BA) 8 (l_device_table L OR 1),
      Store (reg_at base IOMMU_MMIO_COMMAND_BUF_BA) 8 ((l_command_buf L AND NOT 0xfff) OR push_bit 56 9),
      Store (reg_at base IOMMU_MMIO_COMMAND_BUF_TAIL) 8 (l_command_buf L AND 0xff0),
      Store (reg_at base IOMMU_MMIO_COMMAND_BUF_HEAD) 8 (l_command_buf L AND 0xff0),
      Store (reg_at base IOMMU_MMIO_EVENT_LOG_BA) 8 (l_event_log L OR push_bit 56 8),
      Store (reg_at base IOMMU_MMIO_EVENT_LOG_HEAD) 8 0,
      Store (reg_at base IOMMU_MMIO_EVENT_LOG_TAIL) 8 0,
      Store (reg_at base IOMMU_MMIO_STATUS_REGISTER) 8 (st AND NOT 2),
      Store (reg_at base IOMMU_MMIO_CONTROL_REGISTER) 8 (c2 OR (IOMMU_CR_CmdBufEn OR IOMMU_CR_EventLogEn)),
      Store (reg_at base IOMMU_MMIO_CONTROL_REGISTER) 8 (c3 OR IOMMU_CR_IommuEn)]"

lemma iommu_enable_stores:
  "\<exists>c st c2 c3. stores (iommu_enable hw L base s) = stores s @ enable_stores L base c st c2 c3"
  by (auto simp: iommu_enable_def enable_stores_def Let_def split_beta)

lemma iommu_enable_ext: "io_ext (\<lambda>_. True) s (iommu_enable hw L base s)"
  unfolding iommu_enable_def Let_def split_beta
  by (rule io_ext_refl | rule io_ext_trans [OF _ io_ext_rmw(1)] | rule io_ext_trans [OF _ io_ext_rmw(2)]
    | rule io_ext_trans [OF _ io_ext_regs(1)] | rule io_ext_trans [OF _ io_ext_regs(2)])+

lemma send_command_stores:
  "\<exists>t. stores (send_command hw L base cmd s) = stores s @ [Store (reg_at base IOMMU_MMIO_COMMAND_BUF_TAIL) 8 t]"
  by (auto simp: send_command_def Let_def split_beta)

lemma iommu_completion_stores:
  "\<exists>t. stores (iommu_completion hw L base completed cmd s)
     = stores s @ [Store (reg_at base IOMMU_MMIO_COMMAND_BUF_TAIL) 8 t]"
proof -
  let ?u = "snd (reg_read hw base IOMMU_MMIO_STATUS_REGISTER (snd (reg_read hw base IOMMU_MMIO_EXTENDED_FEATURE s)))"
  have "stores ?u = stores s" by simp
  with send_command_stores [of hw L base
      "set_opcode COMPLETION_WAIT (cmd\<lparr>u0 := ucast (completed OR 1), u1 := 0\<rparr>)\<lparr>u2 := 0x656e6f64\<rparr>" ?u]
  show ?thesis by (simp add: iommu_completion_def Let_def split_beta)
qed

lemma iommu_commands_stores:
  "\<exists>ts. stores (iommu_commands hw L base completed s)
      = stores s @ map (Store (reg_at base IOMMU_MMIO_COMMAND_BUF_TAIL) 8) ts \<and> length ts \<in> {1, 2}"
proof -
  define s2 where "s2 = snd (reg_read hw base IOMMU_MMIO_EXTENDED_FEATURE (snd (reg_read hw base IOMMU_MMIO_STATUS_REGISTER s)))"
  define ef where "ef = fst (reg_read hw base IOMMU_MMIO_EXTENDED_FEATURE (snd (reg_read hw base IOMMU_MMIO_STATUS_REGISTER s)))"
  define c0 where "c0 = \<lparr>u0 = 0 :: u32, u1 = 0, u2 = 0, u3 = 0\<rparr>"
  define c1 where "c1 = set_opcode INVALIDATE_IOMMU_ALL c0"
  have st: "stores s2 = stores s" by (simp add: s2_def)
  have c: "iommu_commands hw L base completed s = (if ef AND IOMMU_EF_IASup \<noteq> 0
      then iommu_completion hw L base completed c1 (send_command hw L base c1 s2)
      else iommu_completion hw L base completed c0 s2)"
    by (simp add: iommu_commands_def ef_def s2_def c0_def c1_def Let_def split_beta)
  show ?thesis
  proof (cases "ef AND IOMMU_EF_IASup \<noteq> 0")
    case True
    obtain t1 where 1: "stores (send_command hw L base c1 s2)
        = stores s @ [Store (reg_at base IOMMU_MMIO_COMMAND_BUF_TAIL) 8 t1]"
      using send_command_stores [of hw L base c1 s2] st by auto
    obtain t2 where "stores (iommu_completion hw L base completed c1 (send_command hw L base c1 s2))
      = stores s @ map (Store (reg_at base IOMMU_MMIO_COMMAND_BUF_TAIL) 8) [t1, t2]"
      using iommu_completion_stores [of hw L base completed c1 "send_command hw L base c1 s2"] 1 by auto
    with c True show ?thesis by (intro exI [of _ "[t1, t2]"]) simp
  next
    case False
    obtain t2 where "stores (iommu_completion hw L base completed c0 s2)
        = stores s @ map (Store (reg_at base IOMMU_MMIO_COMMAND_BUF_TAIL) 8) [t2]"
      using iommu_completion_stores [of hw L base completed c0 s2] st by auto
    with c False show ?thesis by (intro exI [of _ "[t2]"]) simp
  qed
qed

lemma send_command_frame:
  "pci_ops (send_command hw L base cmd s) = pci_ops s \<and> mmio_base_addr (send_command hw L base cmd s) = mmio_base_addr s"
proof -
  have r: "pci_ops (snd (reg_read hw base i u)) = pci_ops u" "mmio_base_addr (snd (reg_read hw base i u)) = mmio_base_addr u"
    "pci_ops (reg_write hw base i v u) = pci_ops u" "mmio_base_addr (reg_write hw base i v u) = mmio_base_addr u"
    for i v and u :: "('a, 'b) pci_machine_scheme"
    using io_ext_pci [OF io_ext_regs(1)] io_ext_pci [OF io_ext_regs(2)] by blast+
  show ?thesis by (simp add: send_command_def Let_def split_beta r)
qed

lemma regs_frame [simp]:
  "pci_ops (snd (reg_read hw base i s)) = pci_ops s" "mmio_base_addr (snd (reg_read hw base i s)) = mmio_base_addr s"
  using io_ext_pci [OF io_ext_regs(1)] by blast+

lemma iommu_frame:
  "pci_ops (iommu_commands hw L base completed (iommu_enable hw L base s)) = pci_ops s
   \<and> mmio_base_addr (iommu_commands hw L base completed (iommu_enable hw L base s)) = mmio_base_addr s"
  using io_ext_pci [OF iommu_enable_ext [of s hw L base]]
  by (simp add: iommu_commands_def iommu_completion_def Let_def split_beta send_command_frame)

lemma read_events_no_store: "filter is_store (read_events k base bus devfn reg v) = []"
  by (cases k) (simp_all add: read_events_def is_store_def)

lemma iommu_load_events:
  assumes "pci_ops s \<noteq> Pci_Unset" "cap < 0xFF"
  shows "\<exists>r s'. iommu_load_device_table hw L cap completed s = Some (r, s')
    \<and> (r = 1 \<and> stores s' = stores s \<and> ram s' = ram s
       \<or> r = 0 \<and> (\<exists>base c st c2 c3 ts. length ts \<in> {1, 2} \<and>
           stores s' = stores s @ enable_stores L base c st c2 c3
             @ map (Store (reg_at base IOMMU_MMIO_COMMAND_BUF_TAIL) 8) ts))"
proof -
  have r: "sint (IOMMU_CAP_BA_LOW cap) \<le> 4095" "sint (IOMMU_CAP_BA_HIGH cap) \<le> 4095"
    using cap_offset [OF assms(2), of 4] cap_offset [OF assms(2), of 8]
    by (simp_all add: IOMMU_CAP_BA_LOW_def IOMMU_CAP_BA_HIGH_def)
  have d: "IOMMU_PCI_BUS = 0" "PCI_DEVFN IOMMU_PCI_DEVICE IOMMU_PCI_FUNCTION = PCI_DEVFN 0 2"
    by (simp_all add: IOMMU_PCI_BUS_def IOMMU_PCI_DEVICE_def IOMMU_PCI_FUNCTION_def)
  from pci_read4 [OF assms(1) _ devfns(3) r(1), of 0 hw 0] obtain low s1 where
    1: "pci_read hw 0 0 (PCI_DEVFN 0 2) (sint (IOMMU_CAP_BA_LOW cap)) 4 0 s = Some (0, low, s1)"
    "trace s1 = trace s @ read_events (pci_ops s) (mmio_base_addr s) 0 (PCI_DEVFN 0 2) (sint (IOMMU_CAP_BA_LOW cap)) low"
    "io_ext (\<lambda>_. True) s s1" by auto
  have st1: "stores s1 = stores s" by (simp add: stores_def 1(2) read_events_no_store)
  show ?thesis
  proof (cases "low AND IOMMU_CAP_BA_LOW_ENABLE = 0")
    case True
    then show ?thesis using 1(1) st1 io_ext_ram [OF 1(3)] by (simp add: iommu_load_device_table_def d)
  next
    case False
    have "pci_ops s1 \<noteq> Pci_Unset" using io_ext_access [OF 1(3)] assms(1) by simp
    from pci_read4 [OF this _ devfns(3) r(2), of 0 hw 0] obtain hi s2 where
      2: "pci_read hw 0 0 (PCI_DEVFN 0 2) (sint (IOMMU_CAP_BA_HIGH cap)) 4 0 s1 = Some (0, hi, s2)"
      "trace s2 = trace s1 @ read_events (pci_ops s1) (mmio_base_addr s1) 0 (PCI_DEVFN 0 2) (sint (IOMMU_CAP_BA_HIGH cap)) hi"
      by auto
    have st2: "stores s2 = stores s" using st1 by (simp add: stores_def 2(2) read_events_no_store)
    define base :: u64 where "base = push_bit 32 (ucast hi) OR ucast (low AND 0xffffc000)"
    define s3 where "s3 = iommu_enable hw L base s2"
    obtain c st c2 c3 where 3: "stores s3 = stores s2 @ enable_stores L base c st c2 c3"
      using iommu_enable_stores [of hw L base s2] by (auto simp: s3_def)
    obtain ts where 4: "length ts \<in> {1, 2}" "stores (iommu_commands hw L base completed s3)
        = stores s3 @ map (Store (reg_at base IOMMU_MMIO_COMMAND_BUF_TAIL) 8) ts"
      using iommu_commands_stores [of hw L base completed s3] by blast
    have "iommu_load_device_table hw L cap completed s = Some (0, iommu_commands hw L base completed s3)"
      using False 1(1) 2(1) by (simp add: iommu_load_device_table_def d base_def s3_def Let_def)
    moreover have "stores (iommu_commands hw L base completed s3) = stores s @ enable_stores L base c st c2 c3
        @ map (Store (reg_at base IOMMU_MMIO_COMMAND_BUF_TAIL) 8) ts"
      using 3 4(2) st2 by simp
    ultimately show ?thesis using 4(1) by blast
  qed
qed


section \<open>Where a command goes\<close>

lemma mask12: "(0xfff :: u64) = mask 12" "(0xf :: u64) = mask 4" "(0xff0 :: u64) = push_bit 4 (mask 8)"
  by (simp_all add: mask_eq_exp_minus_1 push_bit_eq_mult)

lemma page_split: "unat (x AND NOT 0xfff :: u64) + unat (x AND 0xfff) = unat x"
proof -
  have "x AND 0xfff = take_bit 12 x" by (simp only: mask12 take_bit_eq_mask)
  then have 1: "unat (x AND 0xfff) = unat x mod 4096"
    by (simp only: unsigned_take_bit_eq) (simp add: take_bit_eq_mod)
  have "x AND NOT 0xfff = push_bit 12 (drop_bit 12 x)"
    by (simp only: mask12) (rule bit_word_eqI, auto simp: bit_simps)
  moreover have "unat (push_bit 12 (drop_bit 12 x)) = take_bit 64 (push_bit 12 (unat (drop_bit 12 x)))"
    by (simp add: unsigned_push_bit_eq)
  moreover have "unat (drop_bit 12 x) = unat x div 4096" by (simp only: unat_drop_bit_eq) (simp add: drop_bit_eq_div)
  moreover have "4096 * (unat x div 4096) < 2 ^ 64" 
  proof -
    have "4096 * (unat x div 4096) \<le> unat x" by simp
    also have "\<dots> < 2 ^ 64" using unsigned_less [of x, where 'a = nat] by simp
    finally show ?thesis .
  qed
  ultimately have "unat (x AND NOT 0xfff) = 4096 * (unat x div 4096)"
    by (simp add: push_bit_eq_mult take_bit_nat_eq_self mult.commute)
  with 1 show ?thesis by simp
qed

lemma low_nibble: "x AND 0xf = 0 \<Longrightarrow> x AND 0xff0 = (x AND 0xfff :: u64)"
proof -
  assume "x AND 0xf = 0"
  then have x: "x AND mask 4 = 0" by (simp only: mask12)
  have low: "4 \<le> i" if "bit x i" for i
  proof (rule ccontr)
    assume "\<not> 4 \<le> i"
    with that have "bit (x AND mask 4) i" by (auto simp: bit_and_iff bit_mask_iff dest: bit_imp_le_length)
    with x show False by simp
  qed
  then show ?thesis
    by (simp only: mask12) (rule bit_word_eqI, auto simp: bit_simps dest: low)
qed
text \<open>
  C21. A command is stored where the IOMMU will fetch it (page base plus tail) exactly when
  the command buffer starts a page. The buffer is only aligned to its entries, and the
  tail that the code uses as an index into the buffer counts from the page, so on any
  other placement the command lands behind the place that is read.
\<close>

theorem command_reaches_iommu_iff_page_aligned:
  assumes "l_command_buf L AND 0xf = 0"
    and "fst (reg_read hw base IOMMU_MMIO_COMMAND_BUF_TAIL s) = l_command_buf L AND 0xff0"
  shows "\<exists>a. ram (send_command hw L base cmd s) = mem_write (ram s) a (command_bytes cmd)
    \<and> (a = unat (l_command_buf L AND NOT 0xfff) + unat (l_command_buf L AND 0xff0)
       \<longleftrightarrow> l_command_buf L AND 0xfff = 0)"
proof -
  let ?c = "l_command_buf L"
  let ?p = "ucast (drop_bit 4 (?c AND 0xfff)) :: u32"
  have t: "?c AND 0xff0 = ?c AND 0xfff" by (rule low_nibble [OF assms(1)])
  have "unat (?c AND 0xfff) = unat ?c mod 4096"
    by (simp only: mask12 take_bit_eq_mask [symmetric] unsigned_take_bit_eq) (simp add: take_bit_eq_mod)
  then have small: "unat (?c AND 0xfff) < 4096" by simp
  have "unat ?p = take_bit 32 (unat (drop_bit 4 (?c AND 0xfff)))" by (simp add: unsigned_ucast_eq)
  also have "unat (drop_bit 4 (?c AND 0xfff)) = unat (?c AND 0xfff) div 16"
    by (simp only: unat_drop_bit_eq) (simp add: drop_bit_eq_div)
  finally have p: "unat ?p = unat (?c AND 0xfff) div 16" using small by (simp add: take_bit_nat_eq_self)
  have "(?c AND 0xfff) AND 0xf = 0" using assms(1) by (simp add: and.assoc)
  then have "take_bit 4 (?c AND 0xfff) = 0" by (simp only: mask12 take_bit_eq_mask)
  then have "take_bit 4 (unat (?c AND 0xfff)) = 0" by (metis unsigned_0 unsigned_take_bit_eq)
  then have "unat (?c AND 0xfff) mod 16 = 0" by (simp add: take_bit_eq_mod)
  then have "16 * (unat (?c AND 0xfff) div 16) = unat (?c AND 0xfff)"
    using mult_div_mod_eq [of 16 "unat (?c AND 0xfff)"] by simp
  with p have idx: "16 * unat ?p = unat (?c AND 0xfff)" by simp
  have ram: "ram (snd (reg_read hw base i u)) = ram u" "ram (reg_write hw base i v u) = ram u"
    for i v and u :: "('a, 'b) pci_machine_scheme"
    using io_ext_ram [OF io_ext_regs(1)] io_ext_ram [OF io_ext_regs(2)] by blast+
  have "ram (send_command hw L base cmd s) = mem_write (ram s) (unat ?c + 16 * unat ?p) (command_bytes cmd)"
    using assms(2) by (simp add: send_command_def Let_def split_beta ram t)
  moreover have "unat ?c + 16 * unat ?p = unat (?c AND NOT 0xfff) + unat (?c AND 0xff0) \<longleftrightarrow> ?c AND 0xfff = 0"
    using page_split [of ?c] unfolding idx t by (simp add: unat_eq_0)
  ultimately show ?thesis by blast
qed

section \<open>The device table\<close>

text \<open>
  The device table that the IOMMU is given blocks every device: each entry is valid,
  with valid translation information, and allows neither reads nor writes; and the table
  has exactly the size that the value \<open>1\<close> in the size field of its base register announces.
\<close>

lemma device_table_blocks_dma:
  "list_all (\<lambda>e. bit (dte_a e) 0 \<and> bit (dte_a e) 1
     \<and> dte_a e AND (IOMMU_DTE_Q0_IR OR IOMMU_DTE_Q0_IW) = 0 \<and> dte_b e = 0 \<and> dte_c e = 0 \<and> dte_d e = 0) device_table
   \<and> 32 * length device_table = (1 + 1) * PAGE_SIZE"
proof -
  have a: "IOMMU_DTE_Q0_V + IOMMU_DTE_Q0_TV = 3" by (simp add: IOMMU_DTE_Q0_V_def IOMMU_DTE_Q0_TV_def)
  have "bit (3 :: u64) 0" "bit (3 :: u64) 1" by simp_all
  moreover have "(3 :: u64) AND (IOMMU_DTE_Q0_IR OR IOMMU_DTE_Q0_IW) = 0"
    by (simp add: IOMMU_DTE_Q0_IR_def IOMMU_DTE_Q0_IW_def)
  ultimately show ?thesis by (auto simp: device_table_def a PAGE_SIZE_def PAGE_SHIFT_def list_all_iff)
qed

text \<open>A loader at 0x9000 with its command buffer in the middle of a page.\<close>

definition demo_layout :: layout where
  "demo_layout = \<lparr>l_start = 0x9000, l_bootloader_data = 0xC000, l_device_table = 0xA000,
     l_command_buf = 0xC120, l_event_log = 0xB000, l_iommu_done = 0xD000, l_tis_buff = 0xD100\<rparr>"


theorem command_reaches_iommu_iff_page_aligned_witness:
  "\<exists>a. ram (send_command ((demo_pci_hw (\<lambda>_. 1))\<lparr>hw_load := \<lambda>a n d. (0x120, d)\<rparr>) demo_layout 0xF0000000 \<lparr>u0 = 0, u1 = 0x80000000, u2 = 0, u3 = 0\<rparr> demo_pci_state)
      = mem_write (ram demo_pci_state) a (command_bytes \<lparr>u0 = 0, u1 = 0x80000000, u2 = 0, u3 = 0\<rparr>)
    \<and> (a = unat (l_command_buf demo_layout AND NOT 0xfff) + unat (l_command_buf demo_layout AND 0xff0)
       \<longleftrightarrow> l_command_buf demo_layout AND 0xfff = 0)"
  by (rule command_reaches_iommu_iff_page_aligned)
     (simp_all add: demo_layout_def reg_read_def ioread64_def mmio_load_def demo_pci_state_def
       demo_pci_hw_def log_io_def take_bit_word_eq_self)

end
