(* ===== verification/Tpm_Buff.thy ===== *)
theory Tpm_Buff
  imports Iommu Tpm_Types
begin

text \<open>
  \<^verbatim>\<open>tpmlib/tpm_buff.c\<close>: the one buffer in which a TPM command is marshalled and its
  response received. Pointers are 64-bit words (NULL is 0), the bytes are in \<open>ram\<close>.
  For the TIS the buffer is a static array, for the CRB the data buffer of the device.
\<close>

record tpmbuff =
  b_truesize :: u64
  b_len :: u64
  b_locked :: u8
  b_head :: u64
  b_data :: u64
  b_tail :: u64
  b_end :: u64

definition sizeof_tpm_header :: u64 where "sizeof_tpm_header = 10"
definition STATIC_TIS_BUFFER_SIZE :: u64 where "STATIC_TIS_BUFFER_SIZE = 1024"
definition TPM_CRB_DATA_BUFFER_OFFSET :: u32 where "TPM_CRB_DATA_BUFFER_OFFSET = 0x80"
definition TPM_CRB_DATA_BUFFER_SIZE :: u64 where "TPM_CRB_DATA_BUFFER_SIZE = 3966"
definition TPM_MMIO_BASE :: u32 where "TPM_MMIO_BASE = 0xFED40000"

lemmas buff_consts = sizeof_tpm_header_def STATIC_TIS_BUFFER_SIZE_def TPM_CRB_DATA_BUFFER_OFFSET_def
  TPM_CRB_DATA_BUFFER_SIZE_def TPM_MMIO_BASE_def

definition tpmb_reserve :: "tpmbuff \<Rightarrow> u64 \<times> tpmbuff" where
  "tpmb_reserve b =
     (if b_locked b \<noteq> 0 then (0, b)
      else
        let b = b\<lparr>b_len := sizeof_tpm_header, b_locked := 1\<rparr>;
            b = b\<lparr>b_data := b_head b + b_len b\<rparr>;
            b = b\<lparr>b_tail := b_data b\<rparr>
        in (b_head b, b))"

definition tpmb_free :: "tpmbuff \<Rightarrow> mem \<Rightarrow> tpmbuff \<times> mem" where
  "tpmb_free b m = (b\<lparr>b_len := 0, b_locked := 0, b_data := 0, b_tail := 0\<rparr>,
     mem_write m (unat (b_head b)) (replicate (unat (b_len b)) 0))"

definition tpmb_put :: "tpmbuff \<Rightarrow> u64 \<Rightarrow> u64 \<times> tpmbuff" where
  "tpmb_put b sz =
     (let tail = b_tail b in
      if b_len b + sz > b_truesize b then (0, b)
      else (tail, b\<lparr>b_tail := b_tail b + sz, b_len := b_len b + sz\<rparr>))"

definition tpmb_trim :: "tpmbuff \<Rightarrow> u64 \<Rightarrow> u64 \<times> tpmbuff" where
  "tpmb_trim b sz =
     (let sz = (if b_len b < sz then b_len b else sz)
      in (sz, b\<lparr>b_tail := b_tail b - sz, b_len := b_len b - sz\<rparr>))"

definition tpmb_size :: "tpmbuff \<Rightarrow> u64" where
  "tpmb_size b = b_len b"

definition reset_tpmbuff :: "tpmbuff \<Rightarrow> tpmbuff" where
  "reset_tpmbuff b = b\<lparr>b_len := 0, b_locked := 0, b_data := 0, b_tail := 0,
     b_end := b_head b + (b_truesize b - 1)\<rparr>"

definition alloc_tpmbuff :: "layout \<Rightarrow> tpm_hw_intf \<Rightarrow> u8 \<Rightarrow> tpmbuff \<Rightarrow> tpmbuff" where
  "alloc_tpmbuff L intf locality b = (case intf of
     TPM_TIS \<Rightarrow>
       if b_head b \<noteq> 0 then reset_tpmbuff b
       else reset_tpmbuff (b\<lparr>b_head := l_tis_buff L, b_truesize := STATIC_TIS_BUFFER_SIZE\<rparr>)
   | TPM_CRB \<Rightarrow>
       reset_tpmbuff (b\<lparr>b_head := ucast (TPM_MMIO_BASE + push_bit 12 (ucast locality) + TPM_CRB_DATA_BUFFER_OFFSET),
         b_truesize := TPM_CRB_DATA_BUFFER_SIZE\<rparr>))"

definition free_tpmbuff :: "tpmbuff \<Rightarrow> tpm_hw_intf \<Rightarrow> tpmbuff" where
  "free_tpmbuff b intf = (case intf of TPM_TIS \<Rightarrow> b\<lparr>b_head := 0\<rparr> | TPM_CRB \<Rightarrow> b\<lparr>b_head := 0\<rparr>)"

section \<open>The invariant\<close>

text \<open>
  An allocated buffer: room for a header, the length within the size, the whole buffer
  inside the address space; while it is locked the tail is the end of the used part, while
  it is not there is none.
\<close>

definition buff_inv :: "tpmbuff \<Rightarrow> bool" where
  "buff_inv b \<longleftrightarrow> b_head b \<noteq> 0 \<and> sizeof_tpm_header \<le> b_truesize b \<and> b_truesize b < 2 ^ 32
     \<and> unat (b_head b) + unat (b_truesize b) < 2 ^ 64 \<and> b_len b \<le> b_truesize b
     \<and> (b_locked b \<noteq> 0 \<longrightarrow> b_tail b = b_head b + b_len b)
     \<and> (b_locked b = 0 \<longrightarrow> b_len b = 0 \<and> b_tail b = 0)"

datatype buff_op = Reserve | Put u64 | Trim u64 | Free

text \<open>\<^verbatim>\<open>tpmb_put\<close> and \<^verbatim>\<open>tpmb_trim\<close> are called on a reserved buffer only, with 32-bit sizes.\<close>

fun buff_step :: "buff_op \<Rightarrow> tpmbuff \<times> mem \<Rightarrow> tpmbuff \<times> mem" where
  "buff_step Reserve (b, m) = (snd (tpmb_reserve b), m)"
| "buff_step (Put sz) (b, m) = (if b_locked b \<noteq> 0 \<and> sz < 2 ^ 32 then (snd (tpmb_put b sz), m) else (b, m))"
| "buff_step (Trim sz) (b, m) = (if b_locked b \<noteq> 0 then (snd (tpmb_trim b sz), m) else (b, m))"
| "buff_step Free (b, m) = tpmb_free b m"

lemma put_sum:
  assumes "(l :: u64) \<le> t" "t < 2 ^ 32" "sz < 2 ^ 32"
  shows "unat (l + sz) = unat l + unat sz"
proof -
  have "unat l < 2 ^ 32" "unat sz < 2 ^ 32"
    using assms by (simp_all add: word_le_nat_alt word_less_nat_alt)
  then show ?thesis by (subst unat_plus_if') simp
qed

lemma buff_step_inv:
  assumes "buff_inv b" "buff_step op (b, m) = (b', m')"
  shows "buff_inv b' \<and> b_head b' = b_head b \<and> b_truesize b' = b_truesize b"
proof (cases op)
  case Reserve
  with assms show ?thesis
    by (auto simp: buff_inv_def tpmb_reserve_def Let_def)
next
  case (Put sz)
  with assms show ?thesis
    by (auto simp: buff_inv_def tpmb_put_def Let_def not_less add.assoc split: if_splits)
next
  case (Trim sz)
  have "b_len b - x \<le> b_truesize b" if "x \<le> b_len b" for x
    using that assms(1) word_sub_le order_trans by (fastforce simp: buff_inv_def)
  with Trim assms show ?thesis
    by (auto simp: buff_inv_def tpmb_trim_def Let_def split: if_splits)
next
  case Free
  with assms show ?thesis by (auto simp: buff_inv_def tpmb_free_def)
qed

lemma buff_step_frame:
  assumes "buff_inv b" "buff_step op (b, m) = (b', m')"
    and "x < unat (b_head b) \<or> unat (b_head b) + unat (b_truesize b) \<le> x"
  shows "m' x = m x"
proof (cases op)
  case Free
  have "unat (b_len b) \<le> unat (b_truesize b)" using assms(1) by (simp add: buff_inv_def word_le_nat_alt)
  with Free assms(2,3) show ?thesis by (auto simp: tpmb_free_def mem_write_out)
qed (use assms(2) in \<open>auto split: if_splits\<close>)


text \<open>What a reserved buffer hands out: the next \<open>sz\<close> bytes if they fit, otherwise NULL.\<close>

lemma tpmb_put_spec:
  assumes i: "buff_inv b" and l: "b_locked b \<noteq> 0" and sz: "sz < 2 ^ 32"
  shows "if unat (b_len b) + unat sz \<le> unat (b_truesize b)
    then tpmb_put b sz = (b_head b + b_len b, b\<lparr>b_tail := b_head b + (b_len b + sz), b_len := b_len b + sz\<rparr>)
       \<and> unat (b_head b + b_len b) = unat (b_head b) + unat (b_len b) \<and> b_head b + b_len b \<noteq> 0
    else tpmb_put b sz = (0, b)"
proof -
  from i have b: "b_len b \<le> b_truesize b" "b_truesize b < 2 ^ 32" "b_head b \<noteq> 0"
    "unat (b_head b) + unat (b_truesize b) < 2 ^ 64" by (simp_all add: buff_inv_def)
  note s = put_sum [OF b(1,2) sz]
  have le: "unat (b_len b) \<le> unat (b_truesize b)" using b(1) by (simp add: word_le_nat_alt)
  with b(4) have h: "unat (b_head b + b_len b) = unat (b_head b) + unat (b_len b)"
    by (subst unat_plus_if') simp
  moreover have "unat (b_head b) \<noteq> 0" using b(3) by (simp add: unat_eq_0)
  ultimately have "b_head b + b_len b \<noteq> 0" by (metis add_is_0 unsigned_0)
  with h s i l show ?thesis
    by (auto simp: tpmb_put_def buff_inv_def word_less_nat_alt add.assoc)
qed

definition demo_buff :: tpmbuff where
  "demo_buff = \<lparr>b_truesize = 1024, b_len = 0, b_locked = 0, b_head = 0xD100, b_data = 0, b_tail = 0, b_end = 0xD4FF\<rparr>"


end
