(* ===== verification/Tpm_Io.thy ===== *)
theory Tpm_Io
  imports Tpm_Buff
begin

text \<open>
  The state of the TPM library and the register accessors of \<^verbatim>\<open>tpmlib/tpmio.c\<close>, with the
  timeouts of \<^verbatim>\<open>tpmlib/tpm_common.h\<close>. The operations table of \<^verbatim>\<open>struct tpm\<close> holds the
  functions of one driver or none; \<^verbatim>\<open>tpm->buff\<close> is NULL or the one buffer.
\<close>

datatype tpm_ops = No_Ops | Tis_Ops | Crb_Ops

record tpm_struct =
  t_vendor :: u32
  t_family :: tpm_family
  t_intf :: tpm_hw_intf
  t_ops :: tpm_ops
  t_buff :: bool

record 'd tpm_machine = "'d pci_machine" +
  tis_locality :: u8
  crb_locality :: u8
  tpm_buff :: tpmbuff
  tpm_st :: tpm_struct

definition TPM_NO_LOCALITY :: u8 where "TPM_NO_LOCALITY = 0xFF"
definition TPM_MAX_LOCALITY :: u8 where "TPM_MAX_LOCALITY = 4"
definition TPM_INTERFACE_ID_0 :: u32 where "TPM_INTERFACE_ID_0 = 0x30"
definition TPM_CRB_INTF_ACTIVE :: u32 where "TPM_CRB_INTF_ACTIVE = 1"
definition TPM_INTF_CAPABILITY_0 :: u32 where "TPM_INTF_CAPABILITY_0 = 0x14"
definition TPM12_TIS_INTF_12 :: u32 where "TPM12_TIS_INTF_12 = 0"
definition TPM12_TIS_INTF_13 :: u32 where "TPM12_TIS_INTF_13 = 2"

lemmas locality_consts = TPM_NO_LOCALITY_def TPM_MAX_LOCALITY_def

definition tpm_addr :: "u32 \<Rightarrow> addr" where
  "tpm_addr field = unat (TPM_MMIO_BASE OR field)"

definition tpm_read8 :: "'d hw \<Rightarrow> u32 \<Rightarrow> ('d, 'x) machine_scheme \<Rightarrow> u8 \<times> ('d, 'x) machine_scheme" where
  "tpm_read8 hw field s = ioread8 hw (tpm_addr field) s"

definition tpm_write8 :: "'d hw \<Rightarrow> u8 \<Rightarrow> u32 \<Rightarrow> ('d, 'x) machine_scheme \<Rightarrow> ('d, 'x) machine_scheme" where
  "tpm_write8 hw val field s = iowrite8 hw val (tpm_addr field) s"

definition tpm_read32 :: "'d hw \<Rightarrow> u32 \<Rightarrow> ('d, 'x) machine_scheme \<Rightarrow> u32 \<times> ('d, 'x) machine_scheme" where
  "tpm_read32 hw field s = ioread32 hw (tpm_addr field) s"

definition tpm_write32 :: "'d hw \<Rightarrow> u32 \<Rightarrow> u32 \<Rightarrow> ('d, 'x) machine_scheme \<Rightarrow> ('d, 'x) machine_scheme" where
  "tpm_write32 hw val field s = iowrite32 hw val (tpm_addr field) s"

definition timeout_a :: "'d hw \<Rightarrow> ('d, 'x) machine_scheme \<Rightarrow> ('d, 'x) machine_scheme" where
  "timeout_a hw s = tpm_mdelay hw 750 s"

definition timeout_b :: "'d hw \<Rightarrow> ('d, 'x) machine_scheme \<Rightarrow> ('d, 'x) machine_scheme" where
  "timeout_b hw s = tpm_mdelay hw 2000 s"

definition tpm1_timeout_c :: "'d hw \<Rightarrow> ('d, 'x) machine_scheme \<Rightarrow> ('d, 'x) machine_scheme" where
  "tpm1_timeout_c hw s = tpm_mdelay hw 750 s"

definition tpm1_timeout_d :: "'d hw \<Rightarrow> ('d, 'x) machine_scheme \<Rightarrow> ('d, 'x) machine_scheme" where
  "tpm1_timeout_d hw s = tpm_mdelay hw 750 s"

definition tpm2_timeout_c :: "'d hw \<Rightarrow> ('d, 'x) machine_scheme \<Rightarrow> ('d, 'x) machine_scheme" where
  "tpm2_timeout_c hw s = tpm_mdelay hw 200 s"

definition tpm2_timeout_d :: "'d hw \<Rightarrow> ('d, 'x) machine_scheme \<Rightarrow> ('d, 'x) machine_scheme" where
  "tpm2_timeout_d hw s = tpm_mdelay hw 30 s"

lemma tpm_io_ext [simp]:
  "(\<And>v. P (Load (tpm_addr f) 1 v)) \<Longrightarrow> io_ext P s (snd (tpm_read8 hw f s))"
  "(\<And>v. P (Load (tpm_addr f) 4 v)) \<Longrightarrow> io_ext P s (snd (tpm_read32 hw f s))"
  "P (Store (tpm_addr f) 1 (ucast x)) \<Longrightarrow> io_ext P s (tpm_write8 hw x f s)"
  "P (Store (tpm_addr f) 4 (ucast y)) \<Longrightarrow> io_ext P s (tpm_write32 hw y f s)"
  "io_ext P s (timeout_a hw s)" "io_ext P s (timeout_b hw s)" "io_ext P s (tpm1_timeout_d hw s)"
  "io_ext P s (tpm2_timeout_c hw s)" "io_ext P s (tpm2_timeout_d hw s)" "io_ext P s (tpm_udelay hw n s)"
  by (auto simp: tpm_read8_def tpm_read32_def tpm_write8_def tpm_write32_def timeout_a_def timeout_b_def
      tpm1_timeout_d_def tpm2_timeout_c_def tpm2_timeout_d_def io_ext_udelay intro: io_ext_reads io_ext_writes)

text \<open>What a register access leaves unchanged in the state of the library.\<close>

lemma more_tpm:
  assumes "machine.more s' = machine.more s"
  shows "tis_locality s' = tis_locality s" "crb_locality s' = crb_locality s"
    "tpm_buff s' = tpm_buff s" "tpm_st s' = tpm_st s"
  using assms by (cases s, cases s', simp)+

lemma io_ext_tpm [frame]:
  assumes "io_ext P s s'"
  shows "tis_locality s' = tis_locality s" "crb_locality s' = crb_locality s"
    "tpm_buff s' = tpm_buff s" "tpm_st s' = tpm_st s"
  using io_ext_more [OF assms] by (rule more_tpm)+


section \<open>The register page\<close>

text \<open>Every register of the TPM lies in the megabyte at 0xFED00000; an access to one of them.\<close>

definition tpm_page :: "addr \<Rightarrow> bool" where
  "tpm_page a \<longleftrightarrow> a div 2 ^ 20 = 0xFED"

definition tpm_event :: "io_event \<Rightarrow> bool" where
  "tpm_event e = (case e of Load a _ _ \<Rightarrow> tpm_page a | Store a _ _ \<Rightarrow> tpm_page a | _ \<Rightarrow> False)"

lemma tpm_page_addr:
  assumes "f < 0x100000"
  shows "tpm_page (tpm_addr f)"
proof -
  have "drop_bit 20 f = 0"
    using assms by (simp add: drop_bit_eq_div word_less_nat_alt unat_div flip: unat_eq_0)
  then have "drop_bit 20 (TPM_MMIO_BASE OR f) = 0xFED"
    by (simp add: TPM_MMIO_BASE_def drop_bit_or)
  then have "unat (drop_bit 20 (TPM_MMIO_BASE OR f)) = 0xFED" by simp
  then show ?thesis by (simp add: tpm_page_def tpm_addr_def drop_bit_eq_div unat_div)
qed

text \<open>A register of a locality: the locality from bit 12 on, the offset below.\<close>

lemma register_small:
  assumes "r < 0x1000"
  shows "push_bit 12 (ucast (l :: u8)) OR r < (0x100000 :: u32)"
    and "r + k < 0x1000 \<Longrightarrow> r \<le> r + k \<Longrightarrow> (push_bit 12 (ucast l) OR r) + k < (0x100000 :: u32)"
proof -
  have "\<not> bit r n \<or> \<not> bit (push_bit 12 (ucast l) :: u32) n" for n
  proof (cases "n < 12")
    case False
    have "take_bit 12 r = r"
      using assms by (intro unsigned_word_eqI [where 'a = nat]) (simp add: word_less_nat_alt unsigned_take_bit_eq take_bit_nat_eq_self)
    with False show ?thesis by (metis bit_take_bit_iff)
  qed (simp add: bit_push_bit_iff)
  then have eq: "push_bit 12 (ucast l) OR r = r + (ucast l * 4096 :: u32)"
    by (simp add: disjunctive_add push_bit_eq_mult or.commute)
  have l: "unat l < 256" using unsigned_less [of l] by simp
  have u: "unat (ucast l * 4096 :: u32) = unat l * 4096"
    using l by (simp add: unat_word_ariths unsigned_ucast_eq take_bit_nat_eq_self)
  have sum: "unat (x + ucast l * 4096 :: u32) = unat x + unat l * 4096" if "x < 0x1000" for x
    using that l u by (subst unat_plus_if') (simp add: word_less_nat_alt)
  show "push_bit 12 (ucast l) OR r < (0x100000 :: u32)"
    unfolding eq using sum [OF assms] l assms by (simp add: word_less_nat_alt)
  show "(push_bit 12 (ucast l) OR r) + k < (0x100000 :: u32)" if "r + k < 0x1000"
  proof -
    have e: "r + ucast l * 4096 + k = (r + k) + ucast l * 4096" by simp
    have "unat ((r + k) + ucast l * 4096) < 0x100000" using sum [OF that] l that by (simp add: word_less_nat_alt)
    then show ?thesis unfolding eq e by (simp only: word_less_nat_alt) simp
  qed
qed

end
