(* ===== verification/Tis.thy ===== *)
theory Tis
  imports Tpm_Io
begin

text \<open>
  \<^verbatim>\<open>tpmlib/tis.c\<close> and \<^verbatim>\<open>tpmlib/tis.h\<close>: the FIFO interface. The polling loops have no bound
  in the source, so the functions return an option. The buffer is always the one of
  \<^verbatim>\<open>tpm_buff.c\<close>.
\<close>

section \<open>Registers\<close>

definition ACCESS :: "u8 \<Rightarrow> u32" where "ACCESS l = 0x0000 OR push_bit 12 (ucast l)"
definition STS :: "u8 \<Rightarrow> u32" where "STS l = 0x0018 OR push_bit 12 (ucast l)"
definition DATA_FIFO :: "u8 \<Rightarrow> u32" where "DATA_FIFO l = 0x0024 OR push_bit 12 (ucast l)"
definition DID_VID :: "u8 \<Rightarrow> u32" where "DID_VID l = 0x0F00 OR push_bit 12 (ucast l)"

definition ACCESS_ACTIVE_LOCALITY :: u8 where "ACCESS_ACTIVE_LOCALITY = 0x20"
definition ACCESS_RELINQUISH_LOCALITY :: u8 where "ACCESS_RELINQUISH_LOCALITY = 0x20"
definition ACCESS_REQUEST_USE :: u8 where "ACCESS_REQUEST_USE = 0x02"
definition STS_VALID :: u8 where "STS_VALID = 0x80"
definition STS_COMMAND_READY :: u8 where "STS_COMMAND_READY = 0x40"
definition STS_DATA_AVAIL :: u8 where "STS_DATA_AVAIL = 0x10"
definition STS_DATA_EXPECT :: u8 where "STS_DATA_EXPECT = 0x08"
definition STS_GO :: u8 where "STS_GO = 0x20"

lemmas sts_consts = STS_VALID_def STS_COMMAND_READY_def STS_DATA_AVAIL_def STS_DATA_EXPECT_def STS_GO_def

definition TPM_BURST_MIN_DELAY :: nat where "TPM_BURST_MIN_DELAY = 100"

definition tis_data_available :: "'d hw \<Rightarrow> u8 \<Rightarrow> ('d, 'x) machine_scheme \<Rightarrow> bool \<times> ('d, 'x) machine_scheme" where
  "tis_data_available hw locality s =
     (let (status, s) = tpm_read8 hw (STS locality) s
      in (status AND (STS_DATA_AVAIL OR STS_VALID) = STS_DATA_AVAIL OR STS_VALID, s))"

section \<open>Localities\<close>

definition tis_relinquish_locality :: "'d hw \<Rightarrow> ('d, 'x) tpm_machine_scheme \<Rightarrow> ('d, 'x) tpm_machine_scheme" where
  "tis_relinquish_locality hw s =
     (let s = (if tis_locality s < TPM_MAX_LOCALITY
               then tpm_write8 hw ACCESS_RELINQUISH_LOCALITY (ACCESS (tis_locality s)) s else s)
      in s\<lparr>tis_locality := TPM_NO_LOCALITY\<rparr>)"

definition tis_request_locality :: "'d hw \<Rightarrow> u8 \<Rightarrow> ('d, 'x) tpm_machine_scheme \<Rightarrow> u8 \<times> ('d, 'x) tpm_machine_scheme" where
  "tis_request_locality hw l s =
     (if l > TPM_MAX_LOCALITY then (TPM_NO_LOCALITY, s)
      else if l = tis_locality s then (tis_locality s, s)
      else
        let s = tis_relinquish_locality hw s;
            s = tpm_write8 hw ACCESS_REQUEST_USE (ACCESS l) s;
            (a, s) = tpm_read8 hw (ACCESS l) s;
            s = (if a AND ACCESS_ACTIVE_LOCALITY \<noteq> 0 then s\<lparr>tis_locality := l\<rparr> else s)
        in (tis_locality s, s))"

section \<open>Sending\<close>

partial_function (option) burst_wait :: "'d hw \<Rightarrow> ('d, 'x) tpm_machine_scheme \<Rightarrow> (u32 \<times> ('d, 'x) tpm_machine_scheme) option" where
  "burst_wait hw s =
     (let (lo, s) = tpm_read8 hw (STS (tis_locality s) + 1) s;
          (hi, s) = tpm_read8 hw (STS (tis_locality s) + 2) s;
          count = ucast lo + push_bit 8 (ucast hi)
      in if count = 0 then burst_wait hw (tpm_udelay hw TPM_BURST_MIN_DELAY s) else Some (count, s))"

partial_function (option) tis_wait_ready :: "'d hw \<Rightarrow> ('d, 'x) tpm_machine_scheme \<Rightarrow> ('d, 'x) tpm_machine_scheme option" where
  "tis_wait_ready hw s =
     (let s = tpm_write8 hw STS_COMMAND_READY (STS (tis_locality s)) s;
          (status, s) = tpm_read8 hw (STS (tis_locality s)) s
      in if status AND STS_COMMAND_READY = 0 then tis_wait_ready hw s else Some s)"

partial_function (option) tis_wait_valid :: "'d hw \<Rightarrow> ('d, 'x) tpm_machine_scheme \<Rightarrow> (u8 \<times> ('d, 'x) tpm_machine_scheme) option" where
  "tis_wait_valid hw s =
     (let (status, s) = tpm_read8 hw (STS (tis_locality s)) s
      in if status AND STS_VALID = 0 then tis_wait_valid hw s else Some (status, s))"

text \<open>\<open>buf_ptr[count]\<close>, and the inner loop for one burst.\<close>

definition buff_byte :: "('d, 'x) tpm_machine_scheme \<Rightarrow> u64 \<Rightarrow> u8" where
  "buff_byte s i = ram s (unat (b_head (tpm_buff s) + i))"

fun tis_push :: "'d hw \<Rightarrow> nat \<Rightarrow> u32 \<Rightarrow> ('d, 'x) tpm_machine_scheme \<Rightarrow> u32 \<times> ('d, 'x) tpm_machine_scheme" where
  "tis_push hw 0 count s = (count, s)"
| "tis_push hw (Suc burstcnt) count s =
     (if ucast count < b_len (tpm_buff s) - 1
      then tis_push hw burstcnt (count + 1)
             (tpm_write8 hw (buff_byte s (ucast count)) (DATA_FIFO (tis_locality s)) s)
      else (count, s))"

text \<open>All bytes but the last; \<open>None\<close> inside when the TPM stops expecting data.\<close>

partial_function (option) tis_send_loop :: "'d hw \<Rightarrow> u32 \<Rightarrow> ('d, 'x) tpm_machine_scheme
    \<Rightarrow> (u32 option \<times> ('d, 'x) tpm_machine_scheme) option" where
  "tis_send_loop hw count s =
     (if \<not> ucast count < b_len (tpm_buff s) - 1 then Some (Some count, s)
      else do {
        (burstcnt, s) \<leftarrow> burst_wait hw s;
        let (count, s) = tis_push hw (unat burstcnt) count s;
        (status, s) \<leftarrow> tis_wait_valid hw s;
        if status AND STS_DATA_EXPECT = 0 then Some (None, s)
        else tis_send_loop hw count s
      })"

text \<open>The last byte, the check that it was taken, and the start of the command.\<close>

definition tis_send_last :: "'d hw \<Rightarrow> u32 \<Rightarrow> ('d, 'x) tpm_machine_scheme \<Rightarrow> (u64 \<times> ('d, 'x) tpm_machine_scheme) option" where
  "tis_send_last hw count s = do {
     let s = tpm_write8 hw (buff_byte s (b_len (tpm_buff s) - 1)) (DATA_FIFO (tis_locality s)) s;
     let count = count + 1;
     (status, s) \<leftarrow> tis_wait_valid hw s;
     if status AND STS_DATA_EXPECT \<noteq> 0 then Some (0, s)
     else Some (ucast count, tpm_write8 hw STS_GO (STS (tis_locality s)) s)
   }"

definition tis_send :: "'d hw \<Rightarrow> ('d, 'x) tpm_machine_scheme \<Rightarrow> (u64 \<times> ('d, 'x) tpm_machine_scheme) option" where
  "tis_send hw s =
     (if tis_locality s > TPM_MAX_LOCALITY then Some (0, s)
      else do {
        s \<leftarrow> tis_wait_ready hw s;
        (r, s) \<leftarrow> tis_send_loop hw 0 s;
        case r of None \<Rightarrow> Some (0, s) | Some count \<Rightarrow> tis_send_last hw count s
      })"

section \<open>Receiving\<close>

fun tis_pull :: "'d hw \<Rightarrow> nat \<Rightarrow> u64 \<Rightarrow> u64 \<Rightarrow> u64 \<Rightarrow> ('d, 'x) tpm_machine_scheme \<Rightarrow> u64 \<times> ('d, 'x) tpm_machine_scheme" where
  "tis_pull hw 0 p sz n s = (sz, s)"
| "tis_pull hw (Suc burstcnt) p sz n s =
     (if sz < n
      then (let (v, s) = tpm_read8 hw (DATA_FIFO (tis_locality s)) s
            in tis_pull hw burstcnt p (sz + 1) n (s\<lparr>ram := mem_write (ram s) (unat (p + sz)) [v]\<rparr>))
      else (sz, s))"

partial_function (option) recv_data_loop :: "'d hw \<Rightarrow> u64 \<Rightarrow> u64 \<Rightarrow> u64 \<Rightarrow> ('d, 'x) tpm_machine_scheme
    \<Rightarrow> (u64 \<times> ('d, 'x) tpm_machine_scheme) option" where
  "recv_data_loop hw p sz n s =
     (let (available, s) = tis_data_available hw (tis_locality s) s
      in if available \<and> sz < n
         then do {
           (burstcnt, s) \<leftarrow> burst_wait hw s;
           let (sz, s) = tis_pull hw (unat burstcnt) p sz n s;
           recv_data_loop hw p sz n s
         }
         else Some (sz, s))"

definition recv_data :: "'d hw \<Rightarrow> u64 \<Rightarrow> u64 \<Rightarrow> ('d, 'x) tpm_machine_scheme
    \<Rightarrow> (u64 \<times> ('d, 'x) tpm_machine_scheme) option" where
  "recv_data hw p n s = recv_data_loop hw p 0 n s"

text \<open>The header fields in the buffer, converted in place from big endian.\<close>

definition convert_header :: "addr \<Rightarrow> mem \<Rightarrow> mem" where
  "convert_header h m =
     (let m = mem_write m h (le_bytes 2 (bswap16 (load16 m h)));
          m = mem_write m (h + 2) (le_bytes 4 (bswap32 (load32 m (h + 2))))
      in mem_write m (h + 6) (le_bytes 4 (bswap32 (load32 m (h + 6)))))"

text \<open>From the converted header on: the rest of the response.\<close>

definition tis_recv_body :: "'d hw \<Rightarrow> u32 \<Rightarrow> ('d, 'x) tpm_machine_scheme
    \<Rightarrow> (u64 \<times> ('d, 'x) tpm_machine_scheme) option" where
  "tis_recv_body hw hdr_size s =
     (let expected = hdr_size - 10;
          (buf_ptr, b) = tpmb_put (tpm_buff s) (ucast expected);
          s = s\<lparr>tpm_buff := b\<rparr>
      in if buf_ptr = 0 then Some (0, s)
         else do {
           (n, s) \<leftarrow> recv_data hw buf_ptr (ucast (expected - 1)) s;
           if n < ucast (expected - 1) then Some (0, s)
           else do {
             let (available, s) = tis_data_available hw (tis_locality s) s;
             if \<not> available then Some (0, s)
             else do {
               (n, s) \<leftarrow> recv_data hw buf_ptr 1 s;
               if n \<noteq> 1 then Some (0, s)
               else do {
                 let (available, s) = tis_data_available hw (tis_locality s) s;
                 if available then Some (0, s)
                 else Some (ucast (load32 (ram s) (unat (b_head (tpm_buff s)) + 2)),
                            tpm_write8 hw STS_COMMAND_READY (STS (tis_locality s)) s)
               }
             }
           }
         })"

definition tis_recv :: "'d hw \<Rightarrow> tpm_family \<Rightarrow> ('d, 'x) tpm_machine_scheme
    \<Rightarrow> (u64 \<times> ('d, 'x) tpm_machine_scheme) option" where
  "tis_recv hw f s =
     (if tis_locality s > TPM_MAX_LOCALITY then Some (0, s)
      else
        let (available, s) = tis_data_available hw (tis_locality s) s;
            (available, s) = (if available then (True, s)
              else tis_data_available hw (tis_locality s)
                     (case f of TPM12 \<Rightarrow> tpm1_timeout_d hw s | TPM20 \<Rightarrow> tpm2_timeout_d hw s))
        in if \<not> available then Some (0, s)
           else do {
             (n, s) \<leftarrow> recv_data hw (b_head (tpm_buff s)) 10 s;
             if n < 10 then Some (0, s)
             else do {
               let s = s\<lparr>ram := convert_header (unat (b_head (tpm_buff s))) (ram s)\<rparr>;
               let hdr_size = load32 (ram s) (unat (b_head (tpm_buff s)) + 2);
               if hdr_size \<le> 10 then Some (0, s)
               else tis_recv_body hw hdr_size s
             }
           })"

section \<open>Initialisation\<close>

definition tis_init :: "'d hw \<Rightarrow> ('d, 'x) tpm_machine_scheme \<Rightarrow> u8 \<times> ('d, 'x) tpm_machine_scheme" where
  "tis_init hw s =
     (let s = s\<lparr>tis_locality := TPM_NO_LOCALITY\<rparr>;
          (l, s) = tis_request_locality hw 0 s
      in if l \<noteq> 0 then (0, s)
         else
           let (v, s) = tpm_read32 hw (DID_VID 0) s;
               s = s\<lparr>tpm_st := (tpm_st s)\<lparr>t_vendor := v\<rparr>\<rparr>
           in if v AND 0xFFFF = 0xFFFF then (0, s)
              else (1, s\<lparr>tpm_st := (tpm_st s)\<lparr>t_ops := Tis_Ops\<rparr>\<rparr>))"

end
