(* ===== verification/Crb.thy ===== *)
theory Crb
  imports Tpm_Io
begin

text \<open>
  \<^verbatim>\<open>tpmlib/crb.c\<close>: the command response buffer interface. No loop polls here, so every
  function is total. The registers are unions of a word with bit fields; where the code
  sets one field of an uninitialised union and writes the word, the other bits are
  whatever the stack held (\<open>junk32\<close>).
\<close>

section \<open>Registers\<close>

definition TPM_LOC_STATE :: u32 where "TPM_LOC_STATE = 0x0000"
definition TPM_LOC_CTRL :: u32 where "TPM_LOC_CTRL = 0x0008"
definition TPM_LOC_STS :: u32 where "TPM_LOC_STS = 0x000C"
definition TPM_CRB_INTF_ID :: u32 where "TPM_CRB_INTF_ID = 0x0030"
definition TPM_CRB_CTRL_REQ :: u32 where "TPM_CRB_CTRL_REQ = 0x0040"
definition TPM_CRB_CTRL_STS :: u32 where "TPM_CRB_CTRL_STS = 0x0044"
definition TPM_CRB_CTRL_CANCEL :: u32 where "TPM_CRB_CTRL_CANCEL = 0x0048"
definition TPM_CRB_CTRL_START :: u32 where "TPM_CRB_CTRL_START = 0x004C"

lemmas crb_regs = TPM_LOC_STATE_def TPM_LOC_CTRL_def TPM_LOC_STS_def TPM_CRB_INTF_ID_def
  TPM_CRB_CTRL_REQ_def TPM_CRB_CTRL_STS_def TPM_CRB_CTRL_CANCEL_def TPM_CRB_CTRL_START_def

definition REGISTER :: "u16 \<Rightarrow> u32 \<Rightarrow> u32" where
  "REGISTER l r = push_bit 12 (ucast l) OR r"

text \<open>The fields of the unions: \<open>struct tpm_loc_state\<close>, \<open>tpm_loc_sts\<close>, \<open>tpm_crb_ctrl_sts\<close>, \<open>tpm_crb_intf_id_ext\<close>.\<close>

definition loc_assigned :: "u8 \<Rightarrow> bool" where "loc_assigned val = bit val 1"
definition active_locality :: "u8 \<Rightarrow> u8" where "active_locality val = take_bit 3 (drop_bit 2 val)"
definition granted :: "u32 \<Rightarrow> bool" where "granted val = bit val 0"
definition tpm_idle :: "u32 \<Rightarrow> bool" where "tpm_idle val = bit val 1"
definition intf_vid :: "u32 \<Rightarrow> u32" where "intf_vid val = take_bit 16 val"

text \<open>Setting one field of \<open>struct tpm_loc_ctrl\<close> and \<open>tpm_crb_ctrl_req\<close>.\<close>

definition set_request_access :: "u32 \<Rightarrow> u32" where "set_request_access val = set_bit 0 val"
definition set_relinquish :: "u32 \<Rightarrow> u32" where "set_relinquish val = set_bit 1 val"
definition set_cmd_ready :: "u32 \<Rightarrow> u32" where "set_cmd_ready val = set_bit 0 val"
definition set_go_idle :: "u32 \<Rightarrow> u32" where "set_go_idle val = set_bit 1 val"

section \<open>Control\<close>

definition duration_a :: "'d hw \<Rightarrow> ('d, 'x) machine_scheme \<Rightarrow> ('d, 'x) machine_scheme" where
  "duration_a hw s = tpm_mdelay hw 20 s"

definition crb_register :: "('d, 'x) tpm_machine_scheme \<Rightarrow> u32 \<Rightarrow> u32" where
  "crb_register s r = REGISTER (ucast (crb_locality s)) r"

definition is_idle :: "'d hw \<Rightarrow> ('d, 'x) tpm_machine_scheme \<Rightarrow> bool \<times> ('d, 'x) tpm_machine_scheme" where
  "is_idle hw s =
     (let (val, s) = tpm_read32 hw (crb_register s TPM_CRB_CTRL_STS) s in (tpm_idle val, s))"

text \<open>Without a caller: the check for a ready TPM, and the longer durations.\<close>

definition is_ready :: "'d hw \<Rightarrow> ('d, 'x) tpm_machine_scheme \<Rightarrow> bool \<times> ('d, 'x) tpm_machine_scheme" where
  "is_ready hw s =
     (let (val, s) = tpm_read32 hw (crb_register s TPM_CRB_CTRL_STS) s in (val = 0, s))"

definition duration_b :: "'d hw \<Rightarrow> ('d, 'x) machine_scheme \<Rightarrow> ('d, 'x) machine_scheme" where
  "duration_b hw s = tpm_mdelay hw 750 s"

definition duration_c :: "'d hw \<Rightarrow> ('d, 'x) machine_scheme \<Rightarrow> ('d, 'x) machine_scheme" where
  "duration_c hw s = tpm_mdelay hw 1000 s"

definition is_cmd_exec :: "'d hw \<Rightarrow> ('d, 'x) tpm_machine_scheme \<Rightarrow> bool \<times> ('d, 'x) tpm_machine_scheme" where
  "is_cmd_exec hw s =
     (let (ctrl_start, s) = tpm_read32 hw (crb_register s TPM_CRB_CTRL_START) s in (ctrl_start = 1, s))"

definition cmd_ready :: "'d hw \<Rightarrow> ('d, 'x) tpm_machine_scheme \<Rightarrow> int \<times> ('d, 'x) tpm_machine_scheme" where
  "cmd_ready hw s =
     (let (idle, s) = is_idle hw s
      in if idle
         then
           (let s = tpm_write32 hw (set_cmd_ready (junk32 hw s)) (crb_register s TPM_CRB_CTRL_REQ) s;
                s = tpm2_timeout_c hw s;
                (idle, s) = is_idle hw s
            in (if idle then -1 else 0, s))
         else (0, s))"

definition go_idle :: "'d hw \<Rightarrow> ('d, 'x) tpm_machine_scheme \<Rightarrow> ('d, 'x) tpm_machine_scheme" where
  "go_idle hw s =
     (let (idle, s) = is_idle hw s
      in if idle then s
         else
           tpm2_timeout_c hw
             (tpm_write32 hw (set_go_idle (junk32 hw s)) (crb_register s TPM_CRB_CTRL_REQ) s))"

section \<open>Localities\<close>

definition crb_relinquish_locality_internal ::
    "'d hw \<Rightarrow> u16 \<Rightarrow> ('d, 'x) tpm_machine_scheme \<Rightarrow> ('d, 'x) tpm_machine_scheme" where
  "crb_relinquish_locality_internal hw l s =
     tpm_write32 hw (set_relinquish (junk32 hw s)) (REGISTER l TPM_LOC_CTRL) s"

text \<open>The locality passed to be relinquished is the one-bit field \<open>loc_assigned\<close>, 1 here.\<close>

definition crb_request_locality ::
    "'d hw \<Rightarrow> u8 \<Rightarrow> ('d, 'x) tpm_machine_scheme \<Rightarrow> u8 \<times> ('d, 'x) tpm_machine_scheme" where
  "crb_request_locality hw l s =
     (let (loc_state, s) = tpm_read8 hw (REGISTER 0 TPM_LOC_STATE) s
      in if loc_assigned loc_state \<and> active_locality loc_state = l
         then (l, s\<lparr>crb_locality := l\<rparr>)
         else
           (let s = (if loc_assigned loc_state then crb_relinquish_locality_internal hw 1 s else s);
                s = tpm_write32 hw (set_request_access (junk32 hw s)) (REGISTER (ucast l) TPM_LOC_CTRL) s;
                (loc_sts, s) = tpm_read32 hw (REGISTER (ucast l) TPM_LOC_STS) s
            in if \<not> granted loc_sts then (TPM_NO_LOCALITY, s\<lparr>crb_locality := TPM_NO_LOCALITY\<rparr>)
               else (l, s\<lparr>crb_locality := l\<rparr>)))"

definition crb_relinquish_locality :: "'d hw \<Rightarrow> ('d, 'x) tpm_machine_scheme \<Rightarrow> ('d, 'x) tpm_machine_scheme" where
  "crb_relinquish_locality hw s = crb_relinquish_locality_internal hw (ucast (crb_locality s)) s"

section \<open>Commands\<close>

definition cancel_send :: "'d hw \<Rightarrow> ('d, 'x) tpm_machine_scheme \<Rightarrow> ('d, 'x) tpm_machine_scheme" where
  "cancel_send hw s =
     (let (exec, s) = is_cmd_exec hw s
      in if exec
         then
           (let s = tpm_write32 hw 1 (crb_register s TPM_CRB_CTRL_CANCEL) s;
                s = timeout_b hw s
            in tpm_write32 hw 0 (crb_register s TPM_CRB_CTRL_CANCEL) s)
         else s)"

definition crb_send :: "'d hw \<Rightarrow> ('d, 'x) tpm_machine_scheme \<Rightarrow> u64 \<times> ('d, 'x) tpm_machine_scheme" where
  "crb_send hw s =
     (let (idle, s) = is_idle hw s
      in if idle then (0, s)
         else
           (let s = tpm_write32 hw 1 (crb_register s TPM_CRB_CTRL_START) s;
                s = duration_a hw s;
                (ctrl_start, s) = tpm_read32 hw (crb_register s TPM_CRB_CTRL_START) s
            in if ctrl_start \<noteq> 0
               then
                 (let s = timeout_a hw s;
                      (ctrl_start, s) = tpm_read32 hw (crb_register s TPM_CRB_CTRL_START) s
                  in if ctrl_start \<noteq> 0 then (sizeof_tpm_header, cancel_send hw s)
                     else (b_len (tpm_buff s), s))
               else (b_len (tpm_buff s), s)))"

definition crb_recv :: "tpm_family \<Rightarrow> ('d, 'x) tpm_machine_scheme \<Rightarrow> u64 \<times> ('d, 'x) tpm_machine_scheme" where
  "crb_recv f s = (0, s)"

definition crb_init :: "'d hw \<Rightarrow> ('d, 'x) tpm_machine_scheme \<Rightarrow> u8 \<times> ('d, 'x) tpm_machine_scheme" where
  "crb_init hw s =
     (let (l, s) = crb_request_locality hw 0 s
      in if l = TPM_NO_LOCALITY then (0, s)
         else
           (let (val, s) = tpm_read32 hw (REGISTER 0 (TPM_CRB_INTF_ID + 4)) s;
                v = push_bit 8 (intf_vid val AND 0x00FF) OR drop_bit 8 (intf_vid val AND 0xFF00);
                s = s\<lparr>tpm_st := (tpm_st s)\<lparr>t_vendor := v\<rparr>\<rparr>
            in if v AND 0xFFFF = 0xFFFF then (0, s)
               else
                 (let s = go_idle hw s;
                      (_, s) = cmd_ready hw s
                  in (1, s\<lparr>tpm_st := (tpm_st s)\<lparr>t_ops := Crb_Ops\<rparr>\<rparr>))))"

end
