(* ===== verification/Tpm_Cmds.thy ===== *)
theory Tpm_Cmds
  imports Tis Crb
begin

text \<open>
  The commands: \<^verbatim>\<open>tpmlib/tpm1_cmds.c\<close>, \<^verbatim>\<open>tpm2_cmds.c\<close> and \<^verbatim>\<open>tpm2_auth.c\<close>. A command is
  marshalled in the buffer, field by field through pointers into it, then handed to the
  driver whose functions \<^verbatim>\<open>tpm->ops\<close> holds. Calling through an empty table never returns.
  The digests a caller passes are byte lists, the caller's arrays on the stack.
\<close>

section \<open>The buffer as part of the state\<close>

definition poke :: "addr \<Rightarrow> u8 list \<Rightarrow> ('d, 'x) machine_scheme \<Rightarrow> ('d, 'x) machine_scheme" where
  "poke a bs s = s\<lparr>ram := mem_write (ram s) a bs\<rparr>"

definition buff_free :: "('d, 'x) tpm_machine_scheme \<Rightarrow> ('d, 'x) tpm_machine_scheme" where
  "buff_free s = (let (b, m) = tpmb_free (tpm_buff s) (ram s) in s\<lparr>tpm_buff := b, ram := m\<rparr>)"

definition buff_reserve :: "('d, 'x) tpm_machine_scheme \<Rightarrow> u64 \<times> ('d, 'x) tpm_machine_scheme" where
  "buff_reserve s = (let (p, b) = tpmb_reserve (tpm_buff s) in (p, s\<lparr>tpm_buff := b\<rparr>))"

definition buff_put :: "u64 \<Rightarrow> ('d, 'x) tpm_machine_scheme \<Rightarrow> u64 \<times> ('d, 'x) tpm_machine_scheme" where
  "buff_put n s = (let (p, b) = tpmb_put (tpm_buff s) n in (p, s\<lparr>tpm_buff := b\<rparr>))"

definition buff_trim :: "u64 \<Rightarrow> ('d, 'x) tpm_machine_scheme \<Rightarrow> ('d, 'x) tpm_machine_scheme" where
  "buff_trim n s = s\<lparr>tpm_buff := snd (tpmb_trim (tpm_buff s) n)\<rparr>"

section \<open>The driver's operations\<close>

definition ops_send :: "'d hw \<Rightarrow> ('d, 'x) tpm_machine_scheme \<Rightarrow> (u64 \<times> ('d, 'x) tpm_machine_scheme) option" where
  "ops_send hw s = (case t_ops (tpm_st s) of
     No_Ops \<Rightarrow> None | Tis_Ops \<Rightarrow> tis_send hw s | Crb_Ops \<Rightarrow> Some (crb_send hw s))"

definition ops_recv :: "'d hw \<Rightarrow> ('d, 'x) tpm_machine_scheme \<Rightarrow> (u64 \<times> ('d, 'x) tpm_machine_scheme) option" where
  "ops_recv hw s = (case t_ops (tpm_st s) of
     No_Ops \<Rightarrow> None
   | Tis_Ops \<Rightarrow> tis_recv hw (t_family (tpm_st s)) s
   | Crb_Ops \<Rightarrow> Some (crb_recv (t_family (tpm_st s)) s))"

definition ops_request_locality :: "'d hw \<Rightarrow> u8 \<Rightarrow> ('d, 'x) tpm_machine_scheme
    \<Rightarrow> (u8 \<times> ('d, 'x) tpm_machine_scheme) option" where
  "ops_request_locality hw l s = (case t_ops (tpm_st s) of
     No_Ops \<Rightarrow> None
   | Tis_Ops \<Rightarrow> Some (tis_request_locality hw l s)
   | Crb_Ops \<Rightarrow> Some (crb_request_locality hw l s))"

definition ops_relinquish_locality :: "'d hw \<Rightarrow> ('d, 'x) tpm_machine_scheme
    \<Rightarrow> ('d, 'x) tpm_machine_scheme option" where
  "ops_relinquish_locality hw s = (case t_ops (tpm_st s) of
     No_Ops \<Rightarrow> None
   | Tis_Ops \<Rightarrow> Some (tis_relinquish_locality hw s)
   | Crb_Ops \<Rightarrow> Some (crb_relinquish_locality hw s))"

section \<open>TPM 1.2: extending a PCR\<close>

text \<open>
  From the reservation of the buffer to the size in the header. The result is 0, or the
  error with which \<^verbatim>\<open>tpm1_pcr_extend\<close> then returns.
\<close>

definition tpm1_build :: "u32 \<Rightarrow> u8 list \<Rightarrow> ('d, 'x) tpm_machine_scheme \<Rightarrow> int \<times> ('d, 'x) tpm_machine_scheme" where
  "tpm1_build pcr digest s =
     (let s = buff_free s;
          (hdr, s) = buff_reserve s
      in if hdr = 0 then (- ENOMEM, s)
         else
           (let s = poke (unat hdr) (le_bytes 2 (bswap16 TPM_TAG_RQU_COMMAND)) s;
                s = poke (unat hdr + 6) (le_bytes 4 (bswap32 TPM_ORD_EXTEND)) s;
                (cmd, s) = buff_put 24 s
            in if cmd = 0 then (- ENOMEM, buff_free s)
               else
                 (let s = poke (unat cmd) (le_bytes 4 (bswap32 pcr)) s;
                      s = poke (unat cmd + 4) (take 20 digest) s
                  in (0, poke (unat hdr + 2)
                           (le_bytes 4 (bswap32 (ucast (tpmb_size (tpm_buff s))))) s))))"

text \<open>
  From the call of \<^verbatim>\<open>t->ops.send\<close> on, with the two functions of the driver that
  \<^verbatim>\<open>t->ops\<close> points to.
\<close>

definition tpm1_submit ::
    "(('d, 'x) tpm_machine_scheme \<Rightarrow> (u64 \<times> ('d, 'x) tpm_machine_scheme) option) \<Rightarrow>
     (('d, 'x) tpm_machine_scheme \<Rightarrow> (u64 \<times> ('d, 'x) tpm_machine_scheme) option) \<Rightarrow>
     ('d, 'x) tpm_machine_scheme \<Rightarrow> (int \<times> ('d, 'x) tpm_machine_scheme) option" where
  "tpm1_submit send recv s =
     (let hdr = unat (b_head (tpm_buff s));
          hdr_size = bswap32 (load32 (ram s) (hdr + 2))
      in do {
        (n, s) \<leftarrow> send s;
        if ucast hdr_size \<noteq> n then Some (- EAGAIN, buff_free s)
        else do {
          let s = buff_trim (tpmb_size (tpm_buff s)) s;
          let hdr = unat (b_head (tpm_buff s));
          let (_, s) = buff_put sizeof_tpm_header s;
          (n, s) \<leftarrow> recv s;
          if tpmb_size (tpm_buff s) \<noteq> n then Some (- EAGAIN, buff_free s)
          else Some (if load32 (ram s) (hdr + 6) \<noteq> TPM_SUCCESS then - EAGAIN else 0, buff_free s)
        }
      })"

definition tpm1_pcr_extend :: "'d hw \<Rightarrow> u32 \<Rightarrow> u8 list \<Rightarrow> ('d, 'x) tpm_machine_scheme
    \<Rightarrow> (int \<times> ('d, 'x) tpm_machine_scheme) option" where
  "tpm1_pcr_extend hw pcr digest s =
     (if \<not> t_buff (tpm_st s) then Some (- EINVAL, s)
      else
        let (ret, s) = tpm1_build pcr digest s
        in if ret \<noteq> 0 then Some (ret, s) else tpm1_submit (ops_send hw) (ops_recv hw) s)"

section \<open>TPM 2.0: authorisation\<close>

definition NULL_AUTH_SIZE :: u64 where "NULL_AUTH_SIZE = 9"

definition tpm2_null_auth_size :: u32 where "tpm2_null_auth_size = ucast NULL_AUTH_SIZE"

definition tpm2_null_auth :: "('d, 'x) tpm_machine_scheme \<Rightarrow> u64 \<times> ('d, 'x) tpm_machine_scheme" where
  "tpm2_null_auth s =
     (let (auth, s) = buff_put NULL_AUTH_SIZE s
      in if auth = 0 then (0, s)
         else
           (let s = poke (unat auth) (replicate (unat NULL_AUTH_SIZE) 0) s
            in (auth, poke (unat auth) (le_bytes 4 (bswap32 TPM_RS_PW)) s)))"

section \<open>TPM 2.0: the list of digests\<close>

text \<open>
  \<^verbatim>\<open>struct tpml_digest_values\<close> as the bytes of the caller's array: the count, then for
  every digest the identifier of the algorithm and the digest. The walk of
  \<^verbatim>\<open>convert_digest_list\<close> goes from the identifier at \<open>h\<close> to the one at \<open>h\<close> plus the size
  of the digest, and counts \<open>counted\<close> bytes for it.
\<close>

fun digest_step :: "u16 \<Rightarrow> (nat \<times> nat) option" where
  "digest_step alg =
     (if alg = TPM_ALG_SHA1 then Some (SHA1_SIZE, SHA1_SIZE)
      else if alg = TPM_ALG_SHA256 then Some (SHA256_SIZE, SHA256_SIZE)
      else if alg = TPM_ALG_SHA384 then Some (SHA384_SIZE, SHA384_SIZE)
      else if alg = TPM_ALG_SHA512 then Some (SHA512_SIZE, SHA512_SIZE)
      else if alg = TPM_ALG_SM3_256 then Some (SM3256_SIZE, SHA1_SIZE)
      else None)"

fun convert_digests :: "nat \<Rightarrow> nat \<Rightarrow> u16 \<Rightarrow> u8 list \<Rightarrow> fault + u16 option \<times> u8 list" where
  "convert_digests 0 h sz digests = Inr (Some sz, digests)"
| "convert_digests (Suc i) h sz digests =
     (if length digests < h + 2 then Inl Out_Of_Bounds
      else
        let alg = of_le (take 2 (drop h digests)) :: u16
        in case digest_step alg of
             None \<Rightarrow> Inr (None, digests)
           | Some (step, counted) \<Rightarrow>
               convert_digests i (h + step) (sz + (2 + of_nat counted))
                 (overwrite h (le_bytes 2 (bswap16 alg)) digests))"

definition convert_digest_list :: "u8 list \<Rightarrow> fault + u16 \<times> u8 list" where
  "convert_digest_list digests =
     (let count = of_le (take 4 digests) :: u32
      in case convert_digests (unat count) 4 4 digests of
           Inl e \<Rightarrow> Inl e
         | Inr (None, digests) \<Rightarrow> Inr (0, digests)
         | Inr (Some sz, digests) \<Rightarrow> Inr (sz, overwrite 0 (le_bytes 4 (bswap32 count)) digests))"

section \<open>TPM 2.0: extending a PCR\<close>

definition tpm2_alloc_cmd :: "u16 \<Rightarrow> u32 \<Rightarrow> ('d, 'x) tpm_machine_scheme \<Rightarrow> (u64 \<times> int) \<times> ('d, 'x) tpm_machine_scheme" where
  "tpm2_alloc_cmd tag code s =
     (let s = buff_free s;
          (hdr, s) = buff_reserve s
      in if hdr = 0 then ((0, - ENOMEM), s)
         else ((hdr, 0), poke (unat hdr + 6) (le_bytes 4 (bswap32 code))
                           (poke (unat hdr) (le_bytes 2 (bswap16 tag)) s)))"

text \<open>The handle and the authorisation area; 0 when all of it fitted.\<close>

definition tpm2_handles :: "u32 \<Rightarrow> ('d, 'x) tpm_machine_scheme \<Rightarrow> int \<times> ('d, 'x) tpm_machine_scheme" where
  "tpm2_handles pcr s =
     (let (handles, s) = buff_put 4 s
      in if handles = 0 then (- ENOMEM, s)
         else
           (let s = poke (unat handles) (le_bytes 4 (bswap32 pcr)) s;
                (auth_size, s) = buff_put 4 s
            in if auth_size = 0 then (- ENOMEM, s)
               else
                 (let (auth, s) = tpm2_null_auth s
                  in if auth = 0 then (- ENOMEM, s)
                     else (0, poke (unat auth_size) (le_bytes 4 (bswap32 tpm2_null_auth_size)) s))))"

text \<open>The list of digests, and the size of the command in its header.\<close>

definition tpm2_params :: "u64 \<Rightarrow> u8 list \<Rightarrow> ('d, 'x) tpm_machine_scheme
    \<Rightarrow> fault + int \<times> ('d, 'x) tpm_machine_scheme" where
  "tpm2_params hdr digests s =
     (case convert_digest_list digests of
        Inl e \<Rightarrow> Inl e
      | Inr (sz, digests) \<Rightarrow>
          if sz = 0 then Inr (- ENOMEM, s)
          else
            (let (params, s) = buff_put (ucast sz) s
             in if params = 0 then Inr (- ENOMEM, s)
                else if length digests < unat sz then Inl Out_Of_Bounds
                else
                  (let s = poke (unat params) (take (unat sz) digests) s
                   in Inr (0, poke (unat hdr + 2)
                        (le_bytes 4 (bswap32 (ucast (tpmb_size (tpm_buff s))))) s))))"

definition tpm2_submit ::
    "(('d, 'x) tpm_machine_scheme \<Rightarrow> (u64 \<times> ('d, 'x) tpm_machine_scheme) option) \<Rightarrow>
     ('d, 'x) tpm_machine_scheme \<Rightarrow> (int \<times> ('d, 'x) tpm_machine_scheme) option" where
  "tpm2_submit send s = do {
     (n, s) \<leftarrow> send s;
     let sz = (ucast n :: u16);
     Some (if tpmb_size (tpm_buff s) \<noteq> ucast sz then - EAGAIN else 0, buff_free s)
   }"

text \<open>Everything before the command is sent.\<close>

definition tpm2_build :: "u32 \<Rightarrow> u8 list \<Rightarrow> ('d, 'x) tpm_machine_scheme
    \<Rightarrow> fault + int \<times> ('d, 'x) tpm_machine_scheme" where
  "tpm2_build pcr digests s =
     (let ((hdr, ret), s) = tpm2_alloc_cmd TPM_ST_SESSIONS TPM_CC_PCR_EXTEND s
      in if ret < 0 then Inr (ret, s)
         else
           let (ret, s) = tpm2_handles pcr s
           in if ret \<noteq> 0 then Inr (ret, buff_free s)
              else case tpm2_params hdr digests s of
                Inl e \<Rightarrow> Inl e
              | Inr (ret, s) \<Rightarrow> Inr (ret, if ret \<noteq> 0 then buff_free s else s))"

definition tpm2_extend_pcr :: "'d hw \<Rightarrow> u32 \<Rightarrow> u8 list \<Rightarrow> ('d, 'x) tpm_machine_scheme
    \<Rightarrow> (fault + int \<times> ('d, 'x) tpm_machine_scheme) option" where
  "tpm2_extend_pcr hw pcr digests s =
     (if \<not> t_buff (tpm_st s) then Some (Inr (- EINVAL, s))
      else case tpm2_build pcr digests s of
        Inl e \<Rightarrow> Some (Inl e)
      | Inr (ret, s) \<Rightarrow>
          if ret \<noteq> 0 then Some (Inr (ret, s))
          else map_option Inr (tpm2_submit (ops_send hw) s))"

end
