(* ===== verification/Tpm.thy ===== *)
theory Tpm
  imports Tpm_Cmds
begin

text \<open>
  \<^verbatim>\<open>tpmlib/tpm.c\<close>: finding the TPM, its localities and the extension of a PCR by either
  family of commands. \<^verbatim>\<open>struct tpm\<close> is the static object, so a pointer to it is either
  NULL or this object; \<^verbatim>\<open>enable_tpm\<close> returns whether it is not NULL.
\<close>

text \<open>The fields of \<^verbatim>\<open>struct tpm_intf_capability\<close> and \<^verbatim>\<open>struct tpm_interface_id\<close>.\<close>

definition cap_interface_version :: "u32 \<Rightarrow> u32" where
  "cap_interface_version val = take_bit 3 (drop_bit 28 val)"

definition id_interface_type :: "u32 \<Rightarrow> u32" where
  "id_interface_type val = take_bit 4 val"

definition find_interface_and_family :: "'d hw \<Rightarrow> ('d, 'x) tpm_machine_scheme \<Rightarrow> ('d, 'x) tpm_machine_scheme" where
  "find_interface_and_family hw s =
     (let (intf_cap, s) = tpm_read32 hw TPM_INTF_CAPABILITY_0 s
      in if cap_interface_version intf_cap = TPM12_TIS_INTF_12
            \<or> cap_interface_version intf_cap = TPM12_TIS_INTF_13
         then s\<lparr>tpm_st := (tpm_st s)\<lparr>t_family := TPM12, t_intf := TPM_TIS\<rparr>\<rparr>
         else
           (let s = s\<lparr>tpm_st := (tpm_st s)\<lparr>t_family := TPM20, t_intf := TPM_TIS\<rparr>\<rparr>;
                (intf_id, s) = tpm_read32 hw TPM_INTERFACE_ID_0 s
            in if id_interface_type intf_id = TPM_CRB_INTF_ACTIVE
               then s\<lparr>tpm_st := (tpm_st s)\<lparr>t_intf := TPM_CRB\<rparr>\<rparr>
               else s))"

definition enable_tpm :: "'d hw \<Rightarrow> ('d, 'x) tpm_machine_scheme \<Rightarrow> bool \<times> ('d, 'x) tpm_machine_scheme" where
  "enable_tpm hw s =
     (let s = find_interface_and_family hw s
      in case t_intf (tpm_st s) of
           TPM_TIS \<Rightarrow> (let (r, s) = tis_init hw s in (r \<noteq> 0, s))
         | TPM_CRB \<Rightarrow> (let (r, s) = crb_init hw s in (r \<noteq> 0, s)))"

definition tpm_request_locality :: "'d hw \<Rightarrow> layout \<Rightarrow> u8 \<Rightarrow> ('d, 'x) tpm_machine_scheme
    \<Rightarrow> (u8 \<times> ('d, 'x) tpm_machine_scheme) option" where
  "tpm_request_locality hw L l s = do {
     (ret, s) \<leftarrow> ops_request_locality hw l s;
     Some (ret,
       if ret < TPM_MAX_LOCALITY
       then s\<lparr>tpm_buff := alloc_tpmbuff L (t_intf (tpm_st s)) ret (tpm_buff s),
              tpm_st := (tpm_st s)\<lparr>t_buff := True\<rparr>\<rparr>
       else s)
   }"

definition tpm_relinquish_locality :: "'d hw \<Rightarrow> ('d, 'x) tpm_machine_scheme
    \<Rightarrow> (fault + ('d, 'x) tpm_machine_scheme) option" where
  "tpm_relinquish_locality hw s = do {
     s \<leftarrow> ops_relinquish_locality hw s;
     Some (if \<not> t_buff (tpm_st s) then Inl Null_Deref
           else Inr (s\<lparr>tpm_buff := free_tpmbuff (tpm_buff s) (t_intf (tpm_st s))\<rparr>))
   }"

definition MAX_TPM_EXTEND_SIZE :: nat where "MAX_TPM_EXTEND_SIZE = 70"

text \<open>The size with which \<^verbatim>\<open>tpm_extend_pcr\<close> copies a digest.\<close>

definition extend_size :: "u16 \<Rightarrow> nat option" where
  "extend_size algo =
     (if algo = TPM_ALG_SHA1 then Some SHA1_SIZE
      else if algo = TPM_ALG_SHA256 then Some SHA256_SIZE
      else if algo = TPM_ALG_SHA384 then Some SHA384_SIZE
      else if algo = TPM_ALG_SHA512 then Some SHA512_SIZE
      else if algo = TPM_ALG_SM3_256 then Some SM3256_SIZE
      else None)"

text \<open>The array on the stack: one digest; what is not set stays as it was found.\<close>

definition one_digest :: "u8 list \<Rightarrow> u16 \<Rightarrow> u8 list \<Rightarrow> u8 list" where
  "one_digest buf algo digest =
     overwrite 6 digest (overwrite 4 (le_bytes 2 algo) (overwrite 0 (le_bytes 4 (1 :: u32)) buf))"

definition tpm_extend_pcr :: "'d hw \<Rightarrow> u32 \<Rightarrow> u16 \<Rightarrow> u8 list \<Rightarrow> ('d, 'x) tpm_machine_scheme
    \<Rightarrow> (fault + int \<times> ('d, 'x) tpm_machine_scheme) option" where
  "tpm_extend_pcr hw pcr algo digest s =
     (if \<not> t_buff (tpm_st s) then Some (Inr (- EINVAL, s))
      else case t_family (tpm_st s) of
        TPM12 \<Rightarrow>
          if algo \<noteq> TPM_ALG_SHA1 then Some (Inr (- EINVAL, s))
          else if length digest < SHA1_SIZE then Some (Inl Out_Of_Bounds)
          else map_option Inr (tpm1_pcr_extend hw pcr (take SHA1_SIZE digest) s)
      | TPM20 \<Rightarrow>
          (case extend_size algo of
             None \<Rightarrow> Some (Inr (- EINVAL, s))
           | Some n \<Rightarrow>
               if length digest < n then Some (Inl Out_Of_Bounds)
               else
                 let buf = map (hw_junk hw (dev s)) [0..<MAX_TPM_EXTEND_SIZE]
                 in tpm2_extend_pcr hw pcr (one_digest buf algo (take n digest)) s))"

definition free_tpm :: "'d hw \<Rightarrow> ('d, 'x) tpm_machine_scheme \<Rightarrow> (fault + ('d, 'x) tpm_machine_scheme) option" where
  "free_tpm hw s = tpm_relinquish_locality hw s"

end
