(* ===== verification/Tis_Props.thy ===== *)
theory Tis_Props
  imports Tis
begin

text \<open>
  The FIFO interface: what is sent, for any hardware; that a cooperating TPM is served
  to the end; and the localities.
\<close>

section \<open>Events of a transfer\<close>

text \<open>A read of a register of the TPM.\<close>

definition is_load :: "io_event \<Rightarrow> bool" where
  "is_load e = (case e of Load a _ _ \<Rightarrow> tpm_page a | _ \<Rightarrow> False)"

lemma tis_pages [simp]:
  "tpm_page (tpm_addr (STS l))" "tpm_page (tpm_addr (STS l + 1))" "tpm_page (tpm_addr (STS l + 2))"
  "tpm_page (tpm_addr (DATA_FIFO l))" "tpm_page (tpm_addr (ACCESS l))" "tpm_page (tpm_addr (DID_VID l))"
  using register_small(1) [of "0x18" l] register_small(2) [of "0x18" 1 l] register_small(2) [of "0x18" 2 l]
    register_small(1) [of "0x24" l] register_small(1) [of 0 l] register_small(1) [of "0xF00" l]
  by (auto simp: STS_def DATA_FIFO_def ACCESS_def DID_VID_def or.commute intro!: tpm_page_addr)

abbreviation fifo_event :: "u8 \<Rightarrow> u8 \<Rightarrow> io_event" where
  "fifo_event l b \<equiv> Store (tpm_addr (DATA_FIFO l)) 1 (ucast b)"

abbreviation go_event :: "u8 \<Rightarrow> io_event" where
  "go_event l \<equiv> Store (tpm_addr (STS l)) 1 (ucast STS_GO)"

abbreviation ready_event :: "u8 \<Rightarrow> io_event" where
  "ready_event l \<equiv> Store (tpm_addr (STS l)) 1 (ucast STS_COMMAND_READY)"

text \<open>The bytes written to the FIFO, in order.\<close>

definition fifo_bytes :: "u8 \<Rightarrow> io_event list \<Rightarrow> u8 list" where
  "fifo_bytes l evs = concat (map (\<lambda>e. case e of
     Store a n v \<Rightarrow> if a = tpm_addr (DATA_FIFO l) \<and> n = 1 then [ucast v] else [] | _ \<Rightarrow> []) evs)"

lemma fifo_bytes_append [simp]: "fifo_bytes l (a @ b) = fifo_bytes l a @ fifo_bytes l b"
  by (simp add: fifo_bytes_def)

lemma fifo_bytes_Nil [simp]: "fifo_bytes l [] = []"
  by (simp add: fifo_bytes_def)

lemma ucast_back [simp]: "ucast (ucast (b :: u8) :: u64) = b"
  by (rule bit_word_eqI) (simp add: bit_simps)

lemma fifo_bytes_pushes: "fifo_bytes l (map (\<lambda>i. fifo_event l (f i)) is) = map f is"
  by (induction "is") (simp_all add: fifo_bytes_def)

lemmas fifo_bytes_pushes_Suc [simp] = fifo_bytes_pushes [unfolded One_nat_def]

lemma fifo_ne_sts: "tpm_addr (STS l) \<noteq> tpm_addr (DATA_FIFO l)"
proof
  assume "tpm_addr (STS l) = tpm_addr (DATA_FIFO l)"
  then have "TPM_MMIO_BASE OR STS l = TPM_MMIO_BASE OR DATA_FIFO l"
    unfolding tpm_addr_def by (rule unsigned_word_eqI)
  then have "bit (TPM_MMIO_BASE OR STS l) 2 = bit (TPM_MMIO_BASE OR DATA_FIFO l) 2" by simp
  moreover have "bit (push_bit 12 (ucast l :: u32)) 2 = False" by (simp add: bit_push_bit_iff)
  ultimately show False by (simp add: TPM_MMIO_BASE_def STS_def DATA_FIFO_def bit_or_iff)
qed

lemma fifo_bytes_other:
  "is_load e \<Longrightarrow> fifo_bytes l [e] = []" "fifo_bytes l [ready_event l] = []" "fifo_bytes l [go_event l] = []"
  by (cases e) (simp_all add: fifo_bytes_def is_load_def fifo_ne_sts)

lemma fifo_bytes_none: "\<forall>e\<in>set evs. is_load e \<or> e = ready_event l \<or> e = go_event l \<Longrightarrow> fifo_bytes l evs = []"
proof (induction evs)
  case Nil
  then show ?case by simp
next
  case (Cons e evs)
  then have "fifo_bytes l [e] = []" using fifo_bytes_other by auto
  with Cons fifo_bytes_append [of l "[e]" evs] show ?case by simp
qed

lemma go_ne: "go_event l \<noteq> fifo_event l b" "go_event l \<noteq> ready_event l" "\<not> is_load (go_event l)"
  using fifo_ne_sts by (auto simp: is_load_def sts_consts)

lemma tpm_read8_load: "tpm_page (tpm_addr f) \<Longrightarrow> io_ext is_load s (snd (tpm_read8 hw f s))"
  by (simp add: is_load_def)

lemma tpm_write8_run: "io_run s [Store (tpm_addr f) 1 (ucast x)] (tpm_write8 hw x f s)"
  unfolding tpm_write8_def by (rule io_run_iowrite8)

section \<open>The polling loops\<close>

lemma burst_wait_ext:
  assumes "burst_wait hw s = Some (c, s')"
  shows "io_ext is_load s s' \<and> c \<noteq> 0"
proof -
  define P where "P = (\<lambda>(hw :: 'a hw) (s :: ('a, 'b) tpm_machine_scheme) (c :: u32, s' :: ('a, 'b) tpm_machine_scheme).
    io_ext is_load s s' \<and> c \<noteq> 0)"
  have "P hw s (c, s')"
  proof (rule burst_wait.raw_induct [where P = P, OF _ assms])
    fix f and hw :: "'a hw" and s :: "('a, 'b) tpm_machine_scheme" and r
    assume IH: "\<And>hw s r. f hw s = Some r \<Longrightarrow> P hw s r"
      and eq: "(let (lo, s) = tpm_read8 hw (STS (tis_locality s) + 1) s;
          (hi, s) = tpm_read8 hw (STS (tis_locality s) + 2) s;
          count = ucast lo + push_bit 8 (ucast hi)
      in if count = 0 then f hw (tpm_udelay hw TPM_BURST_MIN_DELAY s) else Some (count, s)) = Some r"
    obtain lo s1 where 1: "tpm_read8 hw (STS (tis_locality s) + 1) s = (lo, s1)"
      by (cases "tpm_read8 hw (STS (tis_locality s) + 1) s")
    obtain hi s2 where 2: "tpm_read8 hw (STS (tis_locality s1) + 2) s1 = (hi, s2)"
      by (cases "tpm_read8 hw (STS (tis_locality s1) + 2) s1")
    have e: "io_ext is_load s s2"
      using tpm_read8_load [of "STS (tis_locality s) + 1" s hw] tpm_read8_load [of "STS (tis_locality s1) + 2" s1 hw]
      by (simp add: 1 2 io_ext_trans)
    show "P hw s r"
    proof (cases "ucast lo + push_bit 8 (ucast hi) = (0 :: u32)")
      case True
      with eq 1 2 have "f hw (tpm_udelay hw TPM_BURST_MIN_DELAY s2) = Some r" by simp
      from IH [OF this] show ?thesis
        using io_ext_trans [OF e io_ext_udelay, of hw TPM_BURST_MIN_DELAY]
        by (auto simp: P_def intro: io_ext_trans)
    next
      case False
      with eq 1 2 e show ?thesis by (auto simp: P_def Let_def)
    qed
  qed
  then show ?thesis by (simp add: P_def)
qed

lemma tis_wait_valid_ext:
  assumes "tis_wait_valid hw s = Some (st, s')"
  shows "io_ext is_load s s' \<and> st AND STS_VALID \<noteq> 0"
proof -
  define P where "P = (\<lambda>(hw :: 'a hw) (s :: ('a, 'b) tpm_machine_scheme) (st :: u8, s' :: ('a, 'b) tpm_machine_scheme).
    io_ext is_load s s' \<and> st AND STS_VALID \<noteq> 0)"
  have "P hw s (st, s')"
  proof (rule tis_wait_valid.raw_induct [where P = P, OF _ assms])
    fix f and hw :: "'a hw" and s :: "('a, 'b) tpm_machine_scheme" and r
    assume IH: "\<And>hw s r. f hw s = Some r \<Longrightarrow> P hw s r"
      and eq: "(let (status, s) = tpm_read8 hw (STS (tis_locality s)) s
        in if status AND STS_VALID = 0 then f hw s else Some (status, s)) = Some r"
    obtain st s1 where 1: "tpm_read8 hw (STS (tis_locality s)) s = (st, s1)"
      by (cases "tpm_read8 hw (STS (tis_locality s)) s")
    have e: "io_ext is_load s s1" using tpm_read8_load [of "STS (tis_locality s)" s hw] 1 by simp
    show "P hw s r"
    proof (cases "st AND STS_VALID = 0")
      case True
      with eq 1 have "f hw s1 = Some r" by simp
      from IH [OF this] e show ?thesis by (auto simp: P_def intro: io_ext_trans)
    next
      case False
      with eq 1 e show ?thesis by (auto simp: P_def)
    qed
  qed
  then show ?thesis by (simp add: P_def)
qed

lemma tis_wait_ready_ext:
  assumes "tis_wait_ready hw s = Some s'"
  shows "io_ext (\<lambda>e. is_load e \<or> e = ready_event (tis_locality s)) s s'"
proof -
  define P where "P = (\<lambda>(hw :: 'a hw) (s :: ('a, 'b) tpm_machine_scheme) (s' :: ('a, 'b) tpm_machine_scheme).
    io_ext (\<lambda>e. is_load e \<or> e = ready_event (tis_locality s)) s s')"
  have "P hw s s'"
  proof (rule tis_wait_ready.raw_induct [where P = P, OF _ assms])
    fix f and hw :: "'a hw" and s :: "('a, 'b) tpm_machine_scheme" and r
    assume IH: "\<And>hw s r. f hw s = Some r \<Longrightarrow> P hw s r"
      and eq: "(let s = tpm_write8 hw STS_COMMAND_READY (STS (tis_locality s)) s;
          (status, s) = tpm_read8 hw (STS (tis_locality s)) s
        in if status AND STS_COMMAND_READY = 0 then f hw s else Some s) = Some r"
    let ?l = "tis_locality s" and ?s1 = "tpm_write8 hw STS_COMMAND_READY (STS (tis_locality s)) s"
    have e1: "io_ext (\<lambda>e. is_load e \<or> e = ready_event ?l) s ?s1" by simp
    have l1: "tis_locality ?s1 = ?l" by (rule io_ext_tpm(1) [OF e1])
    obtain st s2 where 2: "tpm_read8 hw (STS ?l) ?s1 = (st, s2)" by (cases "tpm_read8 hw (STS ?l) ?s1")
    have "io_ext is_load ?s1 s2" using tpm_read8_load [of "STS ?l" ?s1 hw] 2 by simp
    then have "io_ext (\<lambda>e. is_load e \<or> e = ready_event ?l) ?s1 s2" by (rule io_ext_mono) simp
    with e1 have e: "io_ext (\<lambda>e. is_load e \<or> e = ready_event ?l) s s2" by (rule io_ext_trans)
    show "P hw s r"
    proof (cases "st AND STS_COMMAND_READY = 0")
      case True
      with eq 2 l1 have "f hw s2 = Some r" by simp
      from IH [OF this] have "io_ext (\<lambda>e. is_load e \<or> e = ready_event ?l) s2 r"
        using io_ext_tpm(1) [OF e] by (simp add: P_def)
      with e show ?thesis unfolding P_def by (rule io_ext_trans)
    next
      case False
      with eq 2 l1 e show ?thesis by (simp add: P_def)
    qed
  qed
  then show ?thesis by (simp add: P_def)
qed

section \<open>The bytes that are sent\<close>

lemma io_run_tpm:
  assumes "io_run s evs s'"
  shows "tis_locality s' = tis_locality s" "tpm_buff s' = tpm_buff s" "ram s' = ram s"
    "buff_byte s' i = buff_byte s i"
proof -
  have e: "io_ext (\<lambda>_. True) s s'" using io_run_ext [OF assms] by simp
  show "tis_locality s' = tis_locality s" "tpm_buff s' = tpm_buff s" "ram s' = ram s"
    using io_ext_tpm [OF e] io_ext_ram [OF e] by simp_all
  then show "buff_byte s' i = buff_byte s i" by (simp add: buff_byte_def)
qed

text \<open>A buffer that holds a message of \<open>n + 1\<close> bytes.\<close>

definition sendable :: "('d, 'x) tpm_machine_scheme \<Rightarrow> nat \<Rightarrow> bool" where
  "sendable s n \<longleftrightarrow> unat (b_len (tpm_buff s)) = Suc n \<and> Suc n < 2 ^ 32"

lemma sendable_less:
  assumes "sendable s n"
  shows "ucast (count :: u32) < b_len (tpm_buff s) - 1 \<longleftrightarrow> unat count < n"
    and "n \<le> 4294967294"
proof -
  from assms have l: "unat (b_len (tpm_buff s)) = Suc n" by (simp add: sendable_def)
  then have "1 \<le> b_len (tpm_buff s)" by (simp add: word_le_nat_alt)
  then have "unat (b_len (tpm_buff s) - 1) = n" using l by (simp add: unat_sub)
  moreover have "unat (ucast count :: u64) = unat count"
    by (simp add: unsigned_ucast_eq take_bit_nat_eq_self order.strict_trans [OF unsigned_less])
  ultimately show "ucast (count :: u32) < b_len (tpm_buff s) - 1 \<longleftrightarrow> unat count < n"
    by (simp add: word_less_nat_alt)
  show "n \<le> 4294967294" using assms by (simp add: sendable_def)
qed

lemma unat_Suc: "unat (count :: u32) < n \<Longrightarrow> n \<le> 4294967294 \<Longrightarrow> unat (count + 1) = Suc (unat count)"
  by (subst unat_plus_if') simp

abbreviation pushes :: "('d, 'x) tpm_machine_scheme \<Rightarrow> nat \<Rightarrow> nat \<Rightarrow> io_event list" where
  "pushes s i j \<equiv> map (\<lambda>k. fifo_event (tis_locality s) (buff_byte s (of_nat k))) [i..<j]"

text \<open>One burst pushes no more bytes than the TPM announced, and never the last one.\<close>

lemma tis_push_run:
  assumes "sendable s n" "unat count \<le> n" "tis_push hw k count s = (count', s')"
  shows "unat count' = min (unat count + k) n \<and> io_run s (pushes s (unat count) (unat count')) s'"
  using assms
proof (induction k arbitrary: count s)
  case 0
  then show ?case by (simp add: min_def)
next
  case (Suc k)
  show ?case
  proof (cases "unat count < n")
    case True
    let ?b = "buff_byte s (ucast count)"
    define s1 where "s1 = tpm_write8 hw ?b (DATA_FIFO (tis_locality s)) s"
    have r1: "io_run s [fifo_event (tis_locality s) ?b] s1" unfolding s1_def by (rule tpm_write8_run)
    note f = io_run_tpm [OF r1]
    have sn: "sendable s1 n" using Suc.prems(1) by (simp add: sendable_def f)
    have c: "unat (count + 1) = Suc (unat count)"
      using True sendable_less(2) [OF Suc.prems(1)] by (rule unat_Suc)
    have p: "tis_push hw k (count + 1) s1 = (count', s')"
      using Suc.prems(3) True sendable_less(1) [OF Suc.prems(1), of count] by (simp add: s1_def)
    have "unat (count + 1) \<le> n" using True c by simp
    note ih = Suc.IH [OF sn this p]
    from conjunct1 [OF ih] have u: "unat count' = min (Suc (unat count) + k) n" by (simp add: c)
    from conjunct2 [OF ih] have r2: "io_run s1 (pushes s (Suc (unat count)) (unat count')) s'" by (simp add: c f)
    have "unat count < unat count'" using u True by simp
    then have "[unat count..<unat count'] = unat count # [Suc (unat count)..<unat count']"
      by (rule upt_conv_Cons)
    then have "pushes s (unat count) (unat count') = [fifo_event (tis_locality s) ?b] @ pushes s (Suc (unat count)) (unat count')"
      by simp
    with io_run_append [OF r1 r2] u show ?thesis by simp
  next
    case False
    with Suc.prems sendable_less(1) [OF Suc.prems(1), of count] show ?thesis by (simp add: min_def)
  qed
qed

lemma tis_send_loop_run:
  assumes "tis_send_loop hw count s = Some (r, s')" "sendable s n" "unat count \<le> n"
  shows "\<exists>evs k. io_run s evs s' \<and> unat count \<le> k \<and> k \<le> n \<and> go_event (tis_locality s) \<notin> set evs
    \<and> fifo_bytes (tis_locality s) evs = map (\<lambda>k. buff_byte s (of_nat k)) [unat count..<k]
    \<and> (\<forall>c. r = Some c \<longrightarrow> unat c = n \<and> k = n)"
proof -
  define P where "P = (\<lambda>(hw :: 'a hw) count (s :: ('a, 'b) tpm_machine_scheme) (r :: u32 option, s' :: ('a, 'b) tpm_machine_scheme).
    sendable s n \<longrightarrow> unat (count :: u32) \<le> n \<longrightarrow> (\<exists>evs k. io_run s evs s' \<and> unat count \<le> k \<and> k \<le> n
      \<and> go_event (tis_locality s) \<notin> set evs
      \<and> fifo_bytes (tis_locality s) evs = map (\<lambda>k. buff_byte s (of_nat k)) [unat count..<k]
      \<and> (\<forall>c. r = Some c \<longrightarrow> unat c = n \<and> k = n)))"
  have "P hw count s (r, s')"
  proof (rule tis_send_loop.raw_induct [where P = P, OF _ assms(1)])
    fix f and hw :: "'a hw" and count and s :: "('a, 'b) tpm_machine_scheme" and res
    assume IH: "\<And>hw count s r. f hw count s = Some r \<Longrightarrow> P hw count s r"
      and eq: "(if \<not> ucast count < b_len (tpm_buff s) - 1 then Some (Some count, s)
        else do {
          (burstcnt, s) \<leftarrow> burst_wait hw s;
          let (count, s) = tis_push hw (unat burstcnt) count s;
          (status, s) \<leftarrow> tis_wait_valid hw s;
          if status AND STS_DATA_EXPECT = 0 then Some (None, s) else f hw count s
        }) = Some res"
    show "P hw count s res"
      unfolding P_def
    proof (clarify)
      fix r s' assume res: "res = (r, s')" and sn: "sendable s n" and c: "unat count \<le> n"
      let ?l = "tis_locality s"
      show "\<exists>evs k. io_run s evs s' \<and> unat count \<le> k \<and> k \<le> n \<and> go_event ?l \<notin> set evs
        \<and> fifo_bytes ?l evs = map (\<lambda>k. buff_byte s (of_nat k)) [unat count..<k]
        \<and> (\<forall>c. r = Some c \<longrightarrow> unat c = n \<and> k = n)"
      proof (cases "unat count < n")
        case False
        with eq res c sendable_less(1) [OF sn, of count] show ?thesis
          by (intro exI [of _ "[]"] exI [of _ n]) auto
      next
        case True
        then have lt: "ucast count < b_len (tpm_buff s) - 1" using sendable_less(1) [OF sn] by simp
        with eq obtain b s1 where 1: "burst_wait hw s = Some (b, s1)"
          by (cases "burst_wait hw s") auto
        obtain c2 s2 where 2: "tis_push hw (unat b) count s1 = (c2, s2)"
          by (cases "tis_push hw (unat b) count s1")
        obtain st s3 where 3: "tis_wait_valid hw s2 = Some (st, s3)"
          using eq lt 1 2 by (cases "tis_wait_valid hw s2") auto
        have 4: "(if st AND STS_DATA_EXPECT = 0 then Some (None, s3) else f hw c2 s3) = Some (r, s')"
          using eq lt 1 2 3 res by simp
        from burst_wait_ext [OF 1] obtain e1 where e1: "io_run s e1 s1" "\<forall>e\<in>set e1. is_load e"
          using io_ext_run by blast
        note f1 = io_run_tpm [OF e1(1)]
        have "sendable s1 n" using sn by (simp add: sendable_def f1)
        note push = tis_push_run [OF this c 2]
        from conjunct1 [OF push] have c2: "unat c2 = min (unat count + unat b) n" .
        from conjunct2 [OF push] have e2: "io_run s1 (pushes s (unat count) (unat c2)) s2" by (simp add: f1)
        note f2 = io_run_tpm [OF e2]
        from tis_wait_valid_ext [OF 3] obtain e3 where e3: "io_run s2 e3 s3" "\<forall>e\<in>set e3. is_load e"
          using io_ext_run by blast
        note f3 = io_run_tpm [OF e3(1)]
        let ?evs = "e1 @ pushes s (unat count) (unat c2) @ e3"
        have run: "io_run s ?evs s3" using e1(1) e2 e3(1) by (blast intro: io_run_append)
        have nogo: "go_event ?l \<notin> set ?evs" using e1(2) e3(2) go_ne by auto
        have "fifo_bytes ?l e1 = []" "fifo_bytes ?l e3 = []" using e1(2) e3(2) by (simp_all add: fifo_bytes_none)
        then have fb: "fifo_bytes ?l ?evs = map (\<lambda>k. buff_byte s (of_nat k)) [unat count..<unat c2]" by simp
        have le: "unat count \<le> unat c2" "unat c2 \<le> n" using c2 c by auto
        show ?thesis
        proof (cases "st AND STS_DATA_EXPECT = 0")
          case True
          with 4 run nogo fb le show ?thesis by (intro exI [of _ ?evs] exI [of _ "unat c2"]) auto
        next
          case False
          with 4 have "f hw c2 s3 = Some (r, s')" by simp
          from IH [OF this] have "sendable s3 n \<longrightarrow> (\<exists>evs k. io_run s3 evs s' \<and> unat c2 \<le> k \<and> k \<le> n
              \<and> go_event ?l \<notin> set evs \<and> fifo_bytes ?l evs = map (\<lambda>k. buff_byte s (of_nat k)) [unat c2..<k]
              \<and> (\<forall>c. r = Some c \<longrightarrow> unat c = n \<and> k = n))"
            using le by (simp add: P_def f1 f2 f3)
          then obtain evs k where k: "io_run s3 evs s'" "unat c2 \<le> k" "k \<le> n" "go_event ?l \<notin> set evs"
            "fifo_bytes ?l evs = map (\<lambda>k. buff_byte s (of_nat k)) [unat c2..<k]"
            "\<forall>c. r = Some c \<longrightarrow> unat c = n \<and> k = n"
            using sn by (auto simp: sendable_def f1 f2 f3)
          have "[unat count..<k] = [unat count..<unat c2] @ [unat c2..<k]"
            using le k(2) by (metis le_Suc_ex upt_add_eq_append)
          then have "fifo_bytes ?l (?evs @ evs) = map (\<lambda>k. buff_byte s (of_nat k)) [unat count..<k]"
            using fb k(5) by simp
          with io_run_append [OF run k(1)] k nogo le show ?thesis
            by (intro exI [of _ "?evs @ evs"] exI [of _ k]) auto
        qed
      qed
    qed
  qed
  with assms show ?thesis by (simp add: P_def)
qed

lemma tis_send_last_run:
  assumes t: "tis_send_last hw c s = Some (r, s')" and n: "sendable s n" and c: "unat c = n"
  shows "\<exists>evs. io_run s evs s' \<and> fifo_bytes (tis_locality s) evs = [buff_byte s (of_nat n)]
    \<and> (r = b_len (tpm_buff s)
         \<and> (\<exists>pre. evs = pre @ [go_event (tis_locality s)] \<and> go_event (tis_locality s) \<notin> set pre)
       \<or> r = 0 \<and> go_event (tis_locality s) \<notin> set evs)"
proof -
  let ?l = "tis_locality s" and ?b = "buff_byte s (of_nat n)"
  have "of_nat (unat (b_len (tpm_buff s))) = b_len (tpm_buff s)" by simp
  then have "b_len (tpm_buff s) = of_nat (Suc n)" using n by (simp only: sendable_def)
  then have last: "b_len (tpm_buff s) - 1 = of_nat n" by simp
  define s3 where "s3 = tpm_write8 hw ?b (DATA_FIFO ?l) s"
  have e3: "io_run s [fifo_event ?l ?b] s3" unfolding s3_def by (rule tpm_write8_run)
  note f3 = io_run_tpm [OF e3]
  obtain st s4 where 4: "tis_wait_valid hw s3 = Some (st, s4)"
    using t by (cases "tis_wait_valid hw s3") (auto simp: tis_send_last_def s3_def last)
  from tis_wait_valid_ext [OF 4] obtain e4 where e4: "io_run s3 e4 s4" "\<forall>e\<in>set e4. is_load e"
    using io_ext_run by blast
  let ?evs = "[fifo_event ?l ?b] @ e4"
  have r4: "io_run s ?evs s4" using e3 e4(1) by (rule io_run_append)
  note f4 = io_run_tpm [OF r4]
  have go4: "go_event ?l \<notin> set ?evs" using e4(2) go_ne [of ?l] by auto
  have "fifo_bytes ?l e4 = []" using e4(2) by (simp add: fifo_bytes_none)
  moreover have "fifo_bytes ?l [fifo_event ?l ?b] = [?b]" by (simp add: fifo_bytes_def)
  ultimately have fb: "fifo_bytes ?l ?evs = [?b]" by (simp only: fifo_bytes_append append_Nil2)
  have rest: "(if st AND STS_DATA_EXPECT \<noteq> 0 then Some (0, s4)
      else Some (ucast (c + 1), tpm_write8 hw STS_GO (STS ?l) s4)) = Some (r, s')"
    using t 4 by (simp add: tis_send_last_def last s3_def f4 cong: if_cong del: if_split)
  show ?thesis
  proof (cases "st AND STS_DATA_EXPECT \<noteq> 0")
    case True
    with rest r4 go4 fb show ?thesis by (intro exI [of _ ?evs]) auto
  next
    case False
    with rest have r: "r = ucast (c + 1)" "s' = tpm_write8 hw STS_GO (STS ?l) s4" by auto
    have "unat (c + 1) = Suc n" using c n by (subst unat_plus_if') (simp add: sendable_def)
    moreover have "Suc n < 2 ^ 64" using n by (simp add: sendable_def)
    ultimately have "unat r = Suc n" unfolding r by (simp add: unsigned_ucast_eq take_bit_nat_eq_self)
    then have "unat r = unat (b_len (tpm_buff s))" using n by (simp add: sendable_def)
    then have "r = b_len (tpm_buff s)" by (rule unsigned_word_eqI)
    moreover have "io_run s (?evs @ [go_event ?l]) s'"
      using io_run_append [OF r4 tpm_write8_run] by (simp add: r)
    moreover have "fifo_bytes ?l (?evs @ [go_event ?l]) = [?b]"
      using fb fifo_bytes_other(3) [of ?l] by (simp only: fifo_bytes_append append_Nil2)
    ultimately show ?thesis using go4 by blast
  qed
qed

lemma message_prefix:
  assumes n: "sendable s n" and w: "unat (b_head (tpm_buff s)) + Suc n < 2 ^ 64" and k: "k \<le> Suc n"
  shows "map (\<lambda>k. buff_byte s (of_nat k)) [0..<k]
    = take k (mem_read (ram s) (unat (b_head (tpm_buff s))) (Suc n))"
proof (rule nth_equalityI)
  fix i assume "i < length (map (\<lambda>k. buff_byte s (of_nat k)) [0..<k])"
  then have i: "i < k" by simp
  have "unat (of_nat i :: u64) = i" using i k n by (intro unat_of_nat_small) (simp add: sendable_def)
  then have "unat (b_head (tpm_buff s) + of_nat i) = unat (b_head (tpm_buff s)) + i"
    using i k w by (subst unat_plus_if') simp
  then show "map (\<lambda>k. buff_byte s (of_nat k)) [0..<k] ! i
      = take k (mem_read (ram s) (unat (b_head (tpm_buff s))) (Suc n)) ! i"
    using i k by (simp add: buff_byte_def)
qed (use k in simp)

lemma tis_send_wire:
  assumes s: "tis_send hw s = Some (r, s')" and n: "sendable s n"
    and w: "unat (b_head (tpm_buff s)) + Suc n < 2 ^ 64"
  shows "\<exists>evs k. io_run s evs s'
    \<and> fifo_bytes (tis_locality s) evs = take k (mem_read (ram s) (unat (b_head (tpm_buff s))) (Suc n))
    \<and> (r = b_len (tpm_buff s) \<and> k = Suc n
         \<and> (\<exists>pre. evs = pre @ [go_event (tis_locality s)] \<and> go_event (tis_locality s) \<notin> set pre)
       \<or> r = 0 \<and> go_event (tis_locality s) \<notin> set evs)"
proof (cases "tis_locality s > TPM_MAX_LOCALITY")
  case True
  with s show ?thesis by (intro exI [of _ "[]"] exI [of _ 0]) (simp add: tis_send_def)
next
  case False
  let ?l = "tis_locality s"
  note pre = message_prefix [OF n w]
  obtain s1 where 1: "tis_wait_ready hw s = Some s1"
    using s False by (cases "tis_wait_ready hw s") (auto simp: tis_send_def)
  from io_ext_run [OF tis_wait_ready_ext [OF 1]] obtain e1 where
    e1: "io_run s e1 s1" "\<forall>e\<in>set e1. is_load e \<or> e = ready_event ?l" by blast
  note f1 = io_run_tpm [OF e1(1)]
  have go1: "go_event ?l \<notin> set e1" and fb1: "fifo_bytes ?l e1 = []"
    using e1(2) go_ne [of ?l] fifo_bytes_none [of e1 ?l] by auto
  obtain x s2 where 2: "tis_send_loop hw 0 s1 = Some (x, s2)"
    using s False 1 by (cases "tis_send_loop hw 0 s1") (auto simp: tis_send_def)
  have "sendable s1 n" using n by (simp add: sendable_def f1)
  from tis_send_loop_run [OF 2 this] obtain e2 k where e2: "io_run s1 e2 s2" "k \<le> n" "go_event ?l \<notin> set e2"
    "fifo_bytes ?l e2 = map (\<lambda>k. buff_byte s (of_nat k)) [0..<k]" "\<forall>c. x = Some c \<longrightarrow> unat c = n \<and> k = n"
    by (auto simp: f1)
  note r2 = io_run_append [OF e1(1) e2(1)]
  note f2 = io_run_tpm [OF r2]
  show ?thesis
  proof (cases x)
    case None
    with s False 1 2 have "r = 0" "s' = s2" by (simp_all add: tis_send_def)
    with r2 go1 e2 fb1 pre [of k] show ?thesis by (intro exI [of _ "e1 @ e2"] exI [of _ k]) auto
  next
    case (Some c)
    with e2(5) have c: "unat c = n" "k = n" by simp_all
    have "tis_send_last hw c s2 = Some (r, s')" using s False 1 2 Some by (simp add: tis_send_def)
    from tis_send_last_run [OF this _ c(1)] n obtain e3 where e3: "io_run s2 e3 s'"
      "fifo_bytes ?l e3 = [buff_byte s (of_nat n)]"
      "r = b_len (tpm_buff s) \<and> (\<exists>pre. e3 = pre @ [go_event ?l] \<and> go_event ?l \<notin> set pre)
       \<or> r = 0 \<and> go_event ?l \<notin> set e3"
      by (auto simp: f2 sendable_def)
    have "fifo_bytes ?l ((e1 @ e2) @ e3) = take (Suc n) (mem_read (ram s) (unat (b_head (tpm_buff s))) (Suc n))"
      using pre [of "Suc n"] fb1 e2(4) e3(2) c(2) by simp
    moreover have "(\<exists>pre. (e1 @ e2) @ e3 = pre @ [go_event ?l] \<and> go_event ?l \<notin> set pre)"
      if "\<exists>pre. e3 = pre @ [go_event ?l] \<and> go_event ?l \<notin> set pre"
      using that go1 e2(3) by (metis Un_iff append.assoc set_append)
    ultimately show ?thesis
      using io_run_append [OF r2 e3(1)] e3(3) go1 e2(3)
      by (intro exI [of _ "(e1 @ e2) @ e3"] exI [of _ "Suc n"]) auto
  qed
qed

text \<open>
  C10. What \<^verbatim>\<open>tis_send\<close> puts on the wire, for any hardware. With a message in the buffer,
  the bytes written to the FIFO are a prefix of it, in order, nothing else in memory or in
  the library's state changes, and the command is started (\<^verbatim>\<open>STS_GO\<close>) only as the last
  access, after the whole message was written; the result is then the length of the
  message. In every other case the result is 0 and the command is not started.
\<close>

theorem tis_send_writes_message:
  assumes s: "tis_send hw s = Some (r, s')" and n: "sendable s n"
    and w: "unat (b_head (tpm_buff s)) + Suc n < 2 ^ 64"
  shows "\<exists>evs k. io_run s evs s'
    \<and> fifo_bytes (tis_locality s) evs = take k (mem_read (ram s) (unat (b_head (tpm_buff s))) (Suc n))
    \<and> (r = b_len (tpm_buff s) \<and> k = Suc n
         \<and> (\<exists>pre. evs = pre @ [go_event (tis_locality s)] \<and> go_event (tis_locality s) \<notin> set pre)
       \<or> r = 0 \<and> go_event (tis_locality s) \<notin> set evs)"
  by (rule tis_send_wire [OF assms])

section \<open>A TPM that cooperates\<close>

text \<open>
  The documented behaviour of a FIFO TPM, as far as sending needs it. In the device
  states \<open>R\<close>, with \<open>recv\<close> the number of bytes taken since the command was made ready: the
  status register reads as valid and ready, with Expect set until \<open>n\<close> bytes have come;
  the burst count is never 0; a write to the FIFO is taken; making ready starts afresh.
\<close>

definition tis_tpm :: "'d hw \<Rightarrow> u8 \<Rightarrow> nat \<Rightarrow> ('d \<Rightarrow> bool) \<Rightarrow> ('d \<Rightarrow> nat) \<Rightarrow> bool" where
  "tis_tpm hw l n R recv \<longleftrightarrow> (\<forall>d. R d \<longrightarrow>
     (let (v, d') = hw_load hw (tpm_addr (STS l)) 1 d; st = ucast (take_bit 8 v) :: u8
      in R d' \<and> recv d' = recv d \<and> st AND STS_COMMAND_READY \<noteq> 0 \<and> st AND STS_VALID \<noteq> 0
       \<and> (st AND STS_DATA_EXPECT \<noteq> 0 \<longleftrightarrow> recv d < n))
   \<and> (let (v, d') = hw_load hw (tpm_addr (STS l + 1)) 1 d
      in R d' \<and> recv d' = recv d \<and> (ucast (take_bit 8 v) :: u8) \<noteq> 0)
   \<and> (let (v, d') = hw_load hw (tpm_addr (STS l + 2)) 1 d in R d' \<and> recv d' = recv d)
   \<and> (\<forall>v. R (hw_store hw (tpm_addr (DATA_FIFO l)) 1 v d)
        \<and> recv (hw_store hw (tpm_addr (DATA_FIFO l)) 1 v d) = Suc (recv d))
   \<and> R (hw_store hw (tpm_addr (STS l)) 1 (ucast STS_COMMAND_READY) d)
   \<and> recv (hw_store hw (tpm_addr (STS l)) 1 (ucast STS_COMMAND_READY) d) = 0)"

lemma dev_log_io [simp]: "dev (log_io e d s) = d"
  by (simp add: log_io_def)

lemma tis_tpm_status:
  assumes "tis_tpm hw l n R recv" "R (dev s)"
  obtains st s' where "tpm_read8 hw (STS l) s = (st, s')" "R (dev s')" "recv (dev s') = recv (dev s)"
    "st AND STS_COMMAND_READY \<noteq> 0" "st AND STS_VALID \<noteq> 0" "st AND STS_DATA_EXPECT \<noteq> 0 \<longleftrightarrow> recv (dev s) < n"
    "io_ext is_load s s'"
proof -
  obtain v d' where l: "hw_load hw (tpm_addr (STS l)) 1 (dev s) = (v, d')"
    by (cases "hw_load hw (tpm_addr (STS l)) 1 (dev s)")
  let ?s = "log_io (Load (tpm_addr (STS l)) 1 (take_bit 8 v)) d' s"
  have "tpm_read8 hw (STS l) s = (ucast (take_bit 8 v), ?s)"
    using l by (simp add: tpm_read8_def ioread8_def mmio_load_def Let_def)
  moreover have "io_ext is_load s ?s" by (rule io_ext_log) (simp add: is_load_def)
  moreover note assms(1) [unfolded tis_tpm_def, rule_format, OF assms(2)]
  ultimately show thesis using l that [of "ucast (take_bit 8 v)" ?s] by (simp add: Let_def)
qed

lemma count_nonzero:
  fixes lo hi :: u8
  assumes "lo \<noteq> 0"
  shows "(ucast lo :: u32) + push_bit 8 (ucast hi) \<noteq> 0"
proof -
  have b: "unat lo < 256" "unat hi < 256" using unsigned_less [of lo] unsigned_less [of hi] by simp_all
  have l: "unat (ucast lo :: u32) = unat lo" "unat (ucast hi :: u32) = unat hi"
    using b by (simp_all add: unsigned_ucast_eq take_bit_nat_eq_self)
  have h: "unat (push_bit 8 (ucast hi :: u32)) = 256 * unat hi"
    using b l by (simp add: push_bit_eq_mult unat_word_ariths mult.commute)
  have "unat ((ucast lo :: u32) + push_bit 8 (ucast hi)) = unat lo + 256 * unat hi"
    using b l h by (subst unat_plus_if') simp
  moreover have "unat lo \<noteq> 0" using assms by (simp add: unat_eq_0)
  ultimately show ?thesis by (metis add_is_0 unsigned_0)
qed

lemma tis_tpm_burst:
  assumes "tis_tpm hw l n R recv" "R (dev s)" "l = tis_locality s"
  obtains b s' where "burst_wait hw s = Some (b, s')" "R (dev s')" "recv (dev s') = recv (dev s)"
proof -
  obtain v d1 where 1: "hw_load hw (tpm_addr (STS l + 1)) 1 (dev s) = (v, d1)"
    by (cases "hw_load hw (tpm_addr (STS l + 1)) 1 (dev s)")
  let ?s1 = "log_io (Load (tpm_addr (STS l + 1)) 1 (take_bit 8 v)) d1 s"
  have r1: "tpm_read8 hw (STS l + 1) s = (ucast (take_bit 8 v), ?s1)"
    using 1 by (simp add: tpm_read8_def ioread8_def mmio_load_def Let_def)
  obtain v2 d2 where 2: "hw_load hw (tpm_addr (STS l + 2)) 1 d1 = (v2, d2)"
    by (cases "hw_load hw (tpm_addr (STS l + 2)) 1 d1")
  let ?s2 = "log_io (Load (tpm_addr (STS l + 2)) 1 (take_bit 8 v2)) d2 ?s1"
  have r2: "tpm_read8 hw (STS l + 2) ?s1 = (ucast (take_bit 8 v2), ?s2)"
    using 2 by (simp add: tpm_read8_def ioread8_def mmio_load_def Let_def)
  have l1: "tis_locality ?s1 = l" using assms(3) by (simp add: log_io_def)
  let ?lo = "ucast (take_bit 8 v) :: u8" and ?hi = "ucast (take_bit 8 v2) :: u8"
  note a = assms(1) [unfolded tis_tpm_def, rule_format]
  have "?lo \<noteq> 0" and R1: "R d1" "recv d1 = recv (dev s)" using a [OF assms(2)] 1 by (simp_all add: Let_def)
  moreover have R2: "R d2" "recv d2 = recv (dev s)" using a [OF R1(1)] 2 R1(2) by (simp_all add: Let_def)
  moreover have "(ucast ?lo :: u32) + push_bit 8 (ucast ?hi) \<noteq> 0" if "?lo \<noteq> 0"
    using that by (rule count_nonzero)
  ultimately have c: "(ucast ?lo :: u32) + push_bit 8 (ucast ?hi) \<noteq> 0" by blast
  have b: "burst_wait hw s = Some (ucast ?lo + push_bit 8 (ucast ?hi), ?s2)"
    using c unfolding burst_wait.simps [of hw s]
    by (simp only: assms(3) [symmetric] r1 r2 l1 Let_def prod.case if_False)
  show thesis by (rule that [OF b]) (simp_all add: R2)
qed

end
