(* ===== verification/Tis_Live.thy ===== *)
theory Tis_Live
  imports Tis_Props
begin

text \<open>
  The liveness of \<^verbatim>\<open>tis_send\<close> against a TPM that cooperates, the protocol of the
  localities, and the memory safety of \<^verbatim>\<open>tis_recv\<close>.
\<close>

section \<open>Sending terminates\<close>

lemma tis_tpm_ready:
  assumes t: "tis_tpm hw l n R recv" and R: "R (dev s)" and l: "l = tis_locality s"
  obtains s' where "tis_wait_ready hw s = Some s'" "R (dev s')" "recv (dev s') = 0"
    "io_ext (\<lambda>_. True) s s'"
proof -
  let ?s1 = "tpm_write8 hw STS_COMMAND_READY (STS l) s"
  have d1: "dev ?s1 = hw_store hw (tpm_addr (STS l)) 1 (ucast STS_COMMAND_READY) (dev s)"
    by (simp add: tpm_write8_def iowrite8_def mmio_store_def)
  have l1: "tis_locality ?s1 = l" using l by (simp add: tpm_write8_def io_defs)
  note a = t [unfolded tis_tpm_def, rule_format, OF R]
  then have r1: "R (dev ?s1)" "recv (dev ?s1) = 0" unfolding d1 by blast+
  obtain st s' where 2: "tpm_read8 hw (STS l) ?s1 = (st, s')" "R (dev s')" "recv (dev s') = recv (dev ?s1)"
    "st AND STS_COMMAND_READY \<noteq> 0" "io_ext is_load ?s1 s'"
    by (rule tis_tpm_status [OF t r1(1)]) 
  have "tis_wait_ready hw s = Some s'"
    using 2(4) unfolding tis_wait_ready.simps [of hw s] by (simp only: l [symmetric] l1 2(1) Let_def prod.case if_False)
  moreover have "io_ext (\<lambda>_. True) s ?s1" by simp
  moreover have "io_ext (\<lambda>_. True) ?s1 s'" using 2(5) by (rule io_ext_mono) simp
  ultimately show thesis using that [of s'] 2 r1 io_ext_trans [of _ s ?s1 s'] by simp
qed

lemma tis_tpm_valid:
  assumes t: "tis_tpm hw l n R recv" and R: "R (dev s)" and l: "l = tis_locality s"
  obtains st s' where "tis_wait_valid hw s = Some (st, s')" "R (dev s')" "recv (dev s') = recv (dev s)"
    "st AND STS_DATA_EXPECT \<noteq> 0 \<longleftrightarrow> recv (dev s) < n"
proof -
  obtain st s' where 2: "tpm_read8 hw (STS l) s = (st, s')" "R (dev s')" "recv (dev s') = recv (dev s)"
    "st AND STS_VALID \<noteq> 0" "st AND STS_DATA_EXPECT \<noteq> 0 \<longleftrightarrow> recv (dev s) < n"
    by (rule tis_tpm_status [OF t R]) 
  have "tis_wait_valid hw s = Some (st, s')"
    using 2(4) unfolding tis_wait_valid.simps [of hw s] by (simp only: l [symmetric] 2(1) Let_def prod.case if_False)
  with 2 that show thesis by blast
qed

lemma tis_tpm_write:
  assumes t: "tis_tpm hw l n R recv" and R: "R (dev s)"
  shows "R (dev (tpm_write8 hw x (DATA_FIFO l) s))
    \<and> recv (dev (tpm_write8 hw x (DATA_FIFO l) s)) = Suc (recv (dev s))"
  using t [unfolded tis_tpm_def, rule_format, OF R]
  by (simp add: tpm_write8_def iowrite8_def mmio_store_def Let_def)

lemma tis_tpm_push:
  assumes t: "tis_tpm hw l m R recv"
  shows "sendable s n \<Longrightarrow> R (dev s) \<Longrightarrow> l = tis_locality s \<Longrightarrow> recv (dev s) = unat count \<Longrightarrow> unat count \<le> n
    \<Longrightarrow> tis_push hw k count s = (count', s') \<Longrightarrow> R (dev s') \<and> recv (dev s') = unat count'"
proof (induction k arbitrary: count s)
  case 0
  then show ?case by auto
next
  case (Suc k)
  show ?case
  proof (cases "unat count < n")
    case True
    let ?s1 = "tpm_write8 hw (buff_byte s (ucast count)) (DATA_FIFO (tis_locality s)) s"
    note f = io_run_tpm [OF tpm_write8_run]
    have c: "unat (count + 1) = Suc (unat count)"
      using True sendable_less(2) [OF Suc.prems(1)] by (rule unat_Suc)
    have p: "tis_push hw k (count + 1) ?s1 = (count', s')"
      using Suc.prems(6) True sendable_less(1) [OF Suc.prems(1), of count] by simp
    show ?thesis
      by (rule Suc.IH [OF _ _ _ _ _ p])
        (use Suc.prems tis_tpm_write [OF t Suc.prems(2)] c True in \<open>simp_all add: sendable_def f\<close>)
  next
    case False
    with Suc.prems sendable_less(1) [OF Suc.prems(1), of count] show ?thesis by auto
  qed
qed

lemma tis_tpm_loop:
  assumes t: "tis_tpm hw l (Suc n) R recv"
  shows "sendable s n \<Longrightarrow> R (dev s) \<Longrightarrow> l = tis_locality s \<Longrightarrow> recv (dev s) = unat count \<Longrightarrow> unat count \<le> n
    \<Longrightarrow> \<exists>c s'. tis_send_loop hw count s = Some (Some c, s') \<and> R (dev s') \<and> recv (dev s') = n"
proof (induction "n - unat count" arbitrary: count s rule: less_induct)
  case less
  show ?case
  proof (cases "unat count < n")
    case False
    with less.prems sendable_less(1) [OF less.prems(1), of count] show ?thesis
      by (intro exI [of _ count] exI [of _ s]) (simp add: tis_send_loop.simps [of hw count s])
  next
    case True
    have lt: "ucast count < b_len (tpm_buff s) - 1" using True sendable_less(1) [OF less.prems(1)] by simp
    obtain b s1 where 1: "burst_wait hw s = Some (b, s1)" "R (dev s1)" "recv (dev s1) = recv (dev s)"
      using less.prems by (auto intro: tis_tpm_burst [OF t])
    obtain e1 where "io_run s e1 s1" using burst_wait_ext [OF 1(1)] io_ext_run by blast
    note f1 = io_run_tpm [OF this]
    have n1: "sendable s1 n" using less.prems(1) by (simp add: sendable_def f1)
    obtain c2 s2 where 2: "tis_push hw (unat b) count s1 = (c2, s2)" by (cases "tis_push hw (unat b) count s1")
    from tis_tpm_push [OF t n1 1(2) _ _ _ 2] less.prems 1(3)
    have r2: "R (dev s2)" "recv (dev s2) = unat c2" by (simp_all add: f1)
    note push = tis_push_run [OF n1 less.prems(5) 2]
    note f2 = io_run_tpm [OF conjunct2 [OF push]]
    have "unat b \<noteq> 0" using burst_wait_ext [OF 1(1)] by (simp add: unat_eq_0)
    with True conjunct1 [OF push] have c2: "unat count < unat c2" "unat c2 \<le> n" by auto
    have l2: "l = tis_locality s2" using less.prems(3) by (simp add: f1 f2)
    obtain st s3 where 3: "tis_wait_valid hw s2 = Some (st, s3)" "R (dev s3)" "recv (dev s3) = recv (dev s2)"
      "st AND STS_DATA_EXPECT \<noteq> 0 \<longleftrightarrow> recv (dev s2) < Suc n"
      by (rule tis_tpm_valid [OF t r2(1) l2])
    obtain e3 where "io_run s2 e3 s3" using tis_wait_valid_ext [OF 3(1)] io_ext_run by blast
    note f3 = io_run_tpm [OF this]
    have "n - unat c2 < n - unat count" using c2 by simp
    then have "\<exists>c s'. tis_send_loop hw c2 s3 = Some (Some c, s') \<and> R (dev s') \<and> recv (dev s') = n"
      by (rule less.hyps) (use less.prems 3 r2 c2 in \<open>simp_all add: sendable_def f1 f2 f3\<close>)
    moreover have "tis_send_loop hw count s = tis_send_loop hw c2 s3"
      unfolding tis_send_loop.simps [of hw count s]
      using lt 1(1) 2 3(1,4) r2(2) c2 by simp
    ultimately show ?thesis by simp
  qed
qed

lemma tis_send_completes_ext:
  assumes t: "tis_tpm hw (tis_locality s) (Suc n) R recv" and R: "R (dev s)"
    and n: "sendable s n" and l: "tis_locality s \<le> TPM_MAX_LOCALITY"
  shows "\<exists>s'. tis_send hw s = Some (b_len (tpm_buff s), s')"
proof -
  let ?l = "tis_locality s"
  obtain s1 where 1: "tis_wait_ready hw s = Some s1" "R (dev s1)" "recv (dev s1) = 0" "io_ext (\<lambda>_. True) s s1"
    by (rule tis_tpm_ready [OF t R refl])
  obtain e1 where "io_run s e1 s1" using io_ext_run [OF 1(4)] by blast
  note f1 = io_run_tpm [OF this]
  have n1: "sendable s1 n" using n by (simp add: sendable_def f1)
  have "\<exists>c s'. tis_send_loop hw 0 s1 = Some (Some c, s') \<and> R (dev s') \<and> recv (dev s') = n"
    by (rule tis_tpm_loop [OF t n1 1(2)]) (simp_all add: f1 1(3))
  then obtain c s2 where 2: "tis_send_loop hw 0 s1 = Some (Some c, s2)" "R (dev s2)" "recv (dev s2) = n" by blast
  from tis_send_loop_run [OF 2(1) n1] obtain e2 where e2: "io_run s1 e2 s2" and c: "unat c = n" by auto
  note f2 = io_run_tpm [OF e2]
  have n2: "sendable s2 n" using n1 by (simp add: sendable_def f2)
  define s3 where "s3 = tpm_write8 hw (buff_byte s2 (b_len (tpm_buff s2) - 1)) (DATA_FIFO ?l) s2"
  have r3: "R (dev s3)" "recv (dev s3) = Suc n"
    using tis_tpm_write [OF t 2(2)] 2(3) by (simp_all add: s3_def)
  have "io_run s2 [fifo_event ?l (buff_byte s2 (b_len (tpm_buff s2) - 1))] s3"
    unfolding s3_def by (rule tpm_write8_run)
  note f3 = io_run_tpm [OF this]
  obtain st s4 where 4: "tis_wait_valid hw s3 = Some (st, s4)"
    "st AND STS_DATA_EXPECT \<noteq> 0 \<longleftrightarrow> recv (dev s3) < Suc n"
    by (rule tis_tpm_valid [OF t r3(1)]) (simp_all add: f1 f2 f3)
  have l2: "?l = tis_locality s2" by (simp add: f1 f2)
  have "\<exists>r s'. tis_send_last hw c s2 = Some (r, s') \<and> r = ucast (c + 1)"
    using 4 r3(2) unfolding tis_send_last_def Let_def s3_def l2 by simp
  then obtain r s' where 5: "tis_send_last hw c s2 = Some (r, s')" "r = ucast (c + 1)" by blast
  have "unat (c + 1) = Suc n" using c n by (subst unat_plus_if') (simp add: sendable_def)
  moreover have "Suc n < 2 ^ 64" using n by (simp add: sendable_def)
  ultimately have "unat r = unat (b_len (tpm_buff s))"
    unfolding 5(2) using n by (simp add: unsigned_ucast_eq take_bit_nat_eq_self sendable_def)
  then have "r = b_len (tpm_buff s)" by (rule unsigned_word_eqI)
  moreover have "\<not> TPM_MAX_LOCALITY < ?l" using l by simp
  ultimately show ?thesis using 1(1) 2(1) 5 by (simp add: tis_send_def)
qed



text \<open>A TPM that takes messages of \<open>n\<close> bytes at locality 0, three bytes at a time.\<close>

definition demo_tpm :: "nat \<Rightarrow> nat hw" where
  "demo_tpm n = \<lparr>hw_load = (\<lambda>a k d. if a = 0xFED40018 then (if d < n then 0xC8 else 0xC0, d)
       else if a = 0xFED40019 then (3, d) else (0, d)),
     hw_store = (\<lambda>a k v d. if a = 0xFED40024 then Suc d else if a = 0xFED40018 \<and> v = 0x40 then 0 else d),
     hw_in = \<lambda>p n d. (0, d), hw_out = \<lambda>p n v d. d,
     hw_rdmsr = \<lambda>i d. (0, d), hw_tick = \<lambda>d. d, hw_junk = \<lambda>d i. 0\<rparr>"

definition demo_tpm_state :: "nat tpm_machine" where
  "demo_tpm_state = \<lparr>dev = 5, trace = [], ram = (\<lambda>a. of_nat (a mod 256)), pci_ops = Pci_Conf1, mmio_base_addr = 0,
     tis_locality = 0, crb_locality = 0xFF,
     tpm_buff = demo_buff\<lparr>b_len := 12, b_locked := 1, b_data := 0xD10A, b_tail := 0xD10C\<rparr>,
     tpm_st = \<lparr>t_vendor = 0, t_family = TPM12, t_intf = TPM_TIS, t_ops = Tis_Ops, t_buff = True\<rparr>\<rparr>"

lemma demo_tpm_addrs:
  "tpm_addr (STS 0) = 0xFED40018" "tpm_addr (STS 0 + 1) = 0xFED40019" "tpm_addr (STS 0 + 2) = 0xFED4001A"
  "tpm_addr (DATA_FIFO 0) = 0xFED40024" "tpm_addr (ACCESS 0) = 0xFED40000"
  by (simp_all add: tpm_addr_def STS_def DATA_FIFO_def ACCESS_def TPM_MMIO_BASE_def)

lemma demo_tpm_ok: "tis_tpm (demo_tpm n) 0 n (\<lambda>_. True) id"
  by (simp add: tis_tpm_def demo_tpm_addrs [unfolded One_nat_def] demo_tpm_def Let_def sts_consts)

lemma demo_sendable: "sendable demo_tpm_state 11"
  by (simp add: sendable_def demo_tpm_state_def demo_buff_def)


theorem tis_send_writes_message_witness:
  "\<exists>r s' evs k. tis_send (demo_tpm 12) demo_tpm_state = Some (r, s') \<and> io_run demo_tpm_state evs s'
    \<and> fifo_bytes 0 evs = take k (map of_nat [0..<12])
    \<and> (r = 12 \<and> k = 12 \<and> (\<exists>pre. evs = pre @ [go_event 0] \<and> go_event 0 \<notin> set pre) \<or> r = 0 \<and> go_event 0 \<notin> set evs)"
proof -
  have l: "tis_locality demo_tpm_state = 0" "b_len (tpm_buff demo_tpm_state) = 12"
    "b_head (tpm_buff demo_tpm_state) = 0xD100" "ram demo_tpm_state = (\<lambda>a. of_nat (a mod 256))"
    by (simp_all add: demo_tpm_state_def demo_buff_def)
  have "tis_tpm (demo_tpm 12) (tis_locality demo_tpm_state) (Suc 11) (\<lambda>_. True) id"
    using demo_tpm_ok [of 12] by (simp add: l)
  from tis_send_completes_ext [OF this _ demo_sendable]
  obtain s' where s: "tis_send (demo_tpm 12) demo_tpm_state = Some (12, s')"
    by (auto simp: l locality_consts)
  have m: "mem_read (\<lambda>a. of_nat (a mod 256)) 0xD100 12 = (map of_nat [0..<12] :: u8 list)"
    by (simp add: mem_read_def upt_rec)
  show ?thesis using tis_send_writes_message [OF s demo_sendable] s by (simp add: l m)
qed

end
