(* ===== verification/Tis_Recv.thy ===== *)
theory Tis_Recv
  imports Tis_Live
begin

text \<open>Memory safety of \<^verbatim>\<open>tis_recv\<close>, and the protocol of the localities.\<close>

section \<open>Receiving\<close>

text \<open>Only bytes of \<open>[a, a + n)\<close> differ, and of the library's state nothing does.\<close>

definition inside :: "addr \<Rightarrow> nat \<Rightarrow> ('d, 'x) tpm_machine_scheme \<Rightarrow> ('d, 'x) tpm_machine_scheme \<Rightarrow> bool" where
  "inside a n s s' \<longleftrightarrow> (\<forall>x. x < a \<or> a + n \<le> x \<longrightarrow> ram s' x = ram s x)
     \<and> machine.more s' = machine.more s \<and> grows tpm_event s s'"

lemma inside_refl [simp]: "inside a n s s"
  by (simp add: inside_def)

lemma inside_trans: "inside a n s t \<Longrightarrow> inside a n t u \<Longrightarrow> inside a n s u"
  by (auto simp: inside_def intro: grows_trans)

lemma inside_tpm:
  assumes "inside a n s s'"
  shows "tpm_buff s' = tpm_buff s" "tis_locality s' = tis_locality s" "tpm_st s' = tpm_st s"
  using more_tpm [of s' s] assms by (simp_all add: inside_def)

lemma load_event: "is_load e \<Longrightarrow> tpm_event e"
  by (simp add: is_load_def tpm_event_def split: io_event.splits)

lemma inside_io: "io_ext is_load s s' \<Longrightarrow> inside a n s s'"
  by (auto simp: inside_def io_ext_ram io_ext_more intro: grows_io grows_mono load_event)

lemma inside_write8:
  assumes "tpm_page (tpm_addr f)"
  shows "inside a n s (tpm_write8 hw x f s)"
proof -
  have "io_ext tpm_event s (tpm_write8 hw x f s)" using assms by (simp add: tpm_event_def)
  then show ?thesis by (simp add: inside_def io_ext_ram io_ext_more grows_io)
qed

lemma inside_write: "a \<le> b \<Longrightarrow> b + length xs \<le> a + n \<Longrightarrow> inside a n s (s\<lparr>ram := mem_write (ram s) b xs\<rparr>)"
  by (auto simp: inside_def mem_write_out intro: grows_same)

lemma inside_sub: "inside b m s s' \<Longrightarrow> a \<le> b \<Longrightarrow> b + m \<le> a + n \<Longrightarrow> inside a n s s'"
  by (auto simp: inside_def)

lemma tis_pull_inside:
  assumes "unat p + unat n < 2 ^ 64" "sz \<le> n" "tis_pull hw k p sz n s = (sz', s')"
  shows "sz' \<le> n \<and> inside (unat p) (unat n) s s'"
  using assms
proof (induction k arbitrary: sz s)
  case 0
  then show ?case by simp
next
  case (Suc k)
  show ?case
  proof (cases "sz < n")
    case False
    with Suc.prems show ?thesis by simp
  next
    case True
    obtain v s1 where 1: "tpm_read8 hw (DATA_FIFO (tis_locality s)) s = (v, s1)"
      by (cases "tpm_read8 hw (DATA_FIFO (tis_locality s)) s")
    let ?s2 = "s1\<lparr>ram := mem_write (ram s1) (unat (p + sz)) [v]\<rparr>"
    have lt: "unat sz < unat n" using True by (simp add: word_less_nat_alt)
    then have u: "unat (p + sz) = unat p + unat sz" using Suc.prems(1) by (subst unat_plus_if') simp
    have "unat (sz + 1) = Suc (unat sz)" using lt Suc.prems(1) by (subst unat_plus_if') simp
    then have le: "sz + 1 \<le> n" using lt by (simp add: word_le_nat_alt)
    have "tis_pull hw k p (sz + 1) n ?s2 = (sz', s')" using Suc.prems(3) True 1 by simp
    from Suc.IH [OF Suc.prems(1) le this] have "sz' \<le> n" "inside (unat p) (unat n) ?s2 s'" by simp_all
    moreover have "inside (unat p) (unat n) s1 ?s2" by (rule inside_write) (use u lt in simp_all)
    moreover have "inside (unat p) (unat n) s s1"
      using inside_io [OF tpm_read8_load [of "DATA_FIFO (tis_locality s)" s hw]] 1 by simp
    ultimately show ?thesis using inside_trans by blast
  qed
qed

lemma tis_data_available_io:
  "tis_data_available hw l s = (r, s') \<Longrightarrow> io_ext is_load s s'"
  using tpm_read8_load [of "STS l" s hw] by (auto simp: tis_data_available_def Let_def split: prod.splits)

lemma recv_data_loop_inside:
  assumes "recv_data_loop hw p sz n s = Some (sz', s')" "unat p + unat n < 2 ^ 64" "sz \<le> n"
  shows "sz' \<le> n \<and> inside (unat p) (unat n) s s'"
proof -
  define P where "P = (\<lambda>(hw :: 'a hw) (p :: u64) (sz :: u64) (n :: u64) (s :: ('a, 'b) tpm_machine_scheme)
      (sz' :: u64, s' :: ('a, 'b) tpm_machine_scheme).
    unat p + unat n < 2 ^ 64 \<longrightarrow> sz \<le> n \<longrightarrow> sz' \<le> n \<and> inside (unat p) (unat n) s s')"
  have "P hw p sz n s (sz', s')"
  proof (rule recv_data_loop.raw_induct [where P = P, OF _ assms(1)])
    fix f and hw :: "'a hw" and p sz n and s :: "('a, 'b) tpm_machine_scheme" and r
    assume IH: "\<And>hw p sz n s r. f hw p sz n s = Some r \<Longrightarrow> P hw p sz n s r"
      and eq: "(let (available, s) = tis_data_available hw (tis_locality s) s
        in if available \<and> sz < n then do {
             (burstcnt, s) \<leftarrow> burst_wait hw s;
             let (sz, s) = tis_pull hw (unat burstcnt) p sz n s;
             f hw p sz n s
           } else Some (sz, s)) = Some r"
    obtain a s1 where 1: "tis_data_available hw (tis_locality s) s = (a, s1)"
      by (cases "tis_data_available hw (tis_locality s) s")
    note i1 = inside_io [OF tis_data_available_io [OF 1], of "unat p" "unat n"]
    show "P hw p sz n s r"
    proof (cases "a \<and> sz < n")
      case False
      with eq 1 i1 show ?thesis by (auto simp: P_def)
    next
      case True
      with eq 1 obtain b s2 where 2: "burst_wait hw s1 = Some (b, s2)"
        by (cases "burst_wait hw s1") auto
      obtain sz3 s3 where 3: "tis_pull hw (unat b) p sz n s2 = (sz3, s3)"
        by (cases "tis_pull hw (unat b) p sz n s2")
      have 4: "f hw p sz3 n s3 = Some r" using eq True 1 2 3 by simp
      note i2 = inside_io [OF conjunct1 [OF burst_wait_ext [OF 2]], of "unat p" "unat n"]
      show ?thesis
        using IH [OF 4] tis_pull_inside [OF _ _ 3] i1 i2 by (auto simp: P_def intro: inside_trans)
    qed
  qed
  with assms show ?thesis by (simp add: P_def)
qed

lemma recv_data_inside:
  assumes "recv_data hw p n s = Some (r, s')" "unat p + unat n < 2 ^ 64"
  shows "r \<le> n \<and> inside (unat p) (unat n) s s'"
  using recv_data_loop_inside [of hw p 0 n s r s'] assms by (simp add: recv_data_def)

text \<open>A buffer reserved for the response header, as \<^verbatim>\<open>tpm1_pcr_extend\<close> prepares it.\<close>

definition receivable :: "tpmbuff \<Rightarrow> bool" where
  "receivable b \<longleftrightarrow> buff_inv b \<and> b_locked b \<noteq> 0 \<and> sizeof_tpm_header \<le> b_len b"

abbreviation in_buffer :: "('d, 'x) tpm_machine_scheme \<Rightarrow> ('d, 'x) tpm_machine_scheme \<Rightarrow> bool" where
  "in_buffer s s' \<equiv> inside (unat (b_head (tpm_buff s))) (unat (b_truesize (tpm_buff s))) s s'"

lemma ucast_u64 [simp]: "unat (ucast (x :: u32) :: u64) = unat x"
  by (simp add: unsigned_ucast_eq take_bit_nat_eq_self order.strict_trans [OF unsigned_less])

definition outside_same :: "tpmbuff \<Rightarrow> ('d, 'x) tpm_machine_scheme \<Rightarrow> ('d, 'x) tpm_machine_scheme \<Rightarrow> bool" where
  "outside_same b s s' \<longleftrightarrow> (\<forall>x. x < unat (b_head b) \<or> unat (b_head b) + unat (b_truesize b) \<le> x \<longrightarrow> ram s' x = ram s x)"

text \<open>
  What a driver may do when it receives: access registers of the TPM, write inside the
  buffer and extend it within its bounds. Nothing else of the state changes.
\<close>

definition recv_frame :: "('d, 'x) tpm_machine_scheme \<Rightarrow> ('d, 'x) tpm_machine_scheme \<Rightarrow> bool" where
  "recv_frame s s' \<longleftrightarrow> outside_same (tpm_buff s) s s'
     \<and> machine.more s' = machine.more (s\<lparr>tpm_buff := tpm_buff s'\<rparr>) \<and> grows tpm_event s s'
     \<and> buff_inv (tpm_buff s') \<and> b_locked (tpm_buff s') \<noteq> 0
     \<and> b_head (tpm_buff s') = b_head (tpm_buff s) \<and> b_truesize (tpm_buff s') = b_truesize (tpm_buff s)"

lemma inside_recv_frame:
  assumes "inside (unat (b_head b)) (unat (b_truesize b)) (s\<lparr>tpm_buff := b2\<rparr>) s'" "tpm_buff s = b"
    and "buff_inv b2" "b_locked b2 \<noteq> 0" "b_head b2 = b_head b" "b_truesize b2 = b_truesize b"
  shows "recv_frame s s'"
proof -
  have "tpm_buff s' = b2" using inside_tpm(1) [OF assms(1)] by simp
  moreover have "grows tpm_event s s'" using assms(1) by (auto simp: inside_def grows_def)
  ultimately show ?thesis using assms by (simp add: recv_frame_def inside_def outside_same_def)
qed

lemma more_buff:
  assumes "machine.more (t :: ('d, 'x) tpm_machine_scheme) = machine.more s"
  shows "machine.more (t\<lparr>tpm_buff := b\<rparr>) = machine.more (s\<lparr>tpm_buff := b\<rparr>)"
  using assms by (cases s, cases t) simp

lemma inside_then_frame:
  assumes i: "inside (unat (b_head (tpm_buff s))) (unat (b_truesize (tpm_buff s))) s t" and f: "recv_frame t s'"
  shows "recv_frame s s'"
proof -
  note b = inside_tpm(1) [OF i]
  have "machine.more s' = machine.more (s\<lparr>tpm_buff := tpm_buff s'\<rparr>)"
    using f more_buff [of t s "tpm_buff s'"] i by (simp add: recv_frame_def inside_def)
  moreover have "grows tpm_event s s'"
    using i f grows_trans [of tpm_event s t s'] by (simp add: recv_frame_def inside_def)
  moreover have "outside_same (tpm_buff s) s s'"
    using i f unfolding recv_frame_def outside_same_def inside_def b by metis
  ultimately show ?thesis using f unfolding recv_frame_def b by simp
qed

lemma tis_recv_body_inside:
  assumes t: "tis_recv_body hw h s = Some (r, s')" and b: "receivable (tpm_buff s)" and h: "10 < h"
  shows "recv_frame s s'"
proof -
  let ?b = "tpm_buff s" and ?n = "ucast (h - 10) :: u64"
  have i: "buff_inv ?b" "b_locked ?b \<noteq> 0" using b by (simp_all add: receivable_def)
  have nlt: "?n < 2 ^ 32" using unsigned_less [of "h - 10"] by (simp add: word_less_nat_alt)
  note put = tpmb_put_spec [OF i nlt]
  obtain p b2 where 1: "tpmb_put ?b ?n = (p, b2)" by (cases "tpmb_put ?b ?n")
  let ?s1 = "s\<lparr>tpm_buff := b2\<rparr>"
  have b2: "buff_inv b2 \<and> b_head b2 = b_head ?b \<and> b_truesize b2 = b_truesize ?b"
    using buff_step_inv [OF i(1), of "Put ?n" "ram s" b2 "ram s"] i(2) nlt 1 by simp
  have lk: "b_locked b2 \<noteq> 0" using 1 i(2) by (auto simp: tpmb_put_def Let_def split: if_splits)
  show ?thesis
  proof (cases "p = 0")
    case True
    with t 1 have "s' = ?s1" by (simp add: tis_recv_body_def)
    then show ?thesis using b2 lk by (intro inside_recv_frame [of ?b b2]) simp_all
  next
    case False
    with put 1 have fit: "unat (b_len ?b) + unat ?n \<le> unat (b_truesize ?b)"
      and p: "unat p = unat (b_head ?b) + unat (b_len ?b)" by (auto split: if_splits)
    have top: "unat (b_head ?b) + unat (b_truesize ?b) < 2 ^ 64" using i(1) by (simp add: buff_inv_def)
    have "unat (h - 10) = unat h - 10" using h by (simp add: unat_sub word_le_nat_alt word_less_nat_alt)
    moreover have "unat (h - 10 - 1) = unat (h - 10) - 1"
      using h calculation by (simp add: unat_sub word_le_nat_alt word_less_nat_alt)
    ultimately have m: "unat (ucast (h - 10 - 1) :: u64) + 1 = unat ?n"
      using h by (simp add: word_less_nat_alt)
    have sub: "inside (unat (b_head ?b)) (unat (b_truesize ?b)) x y" if "inside (unat p) k x y" "k \<le> unat ?n"
      for k and x y :: "('a, 'b) tpm_machine_scheme"
      using inside_sub [OF that(1)] that(2) p fit by simp
    have go: "inside (unat (b_head ?b)) (unat (b_truesize ?b)) ?s1 s'"
    proof -
      let ?m = "ucast (h - 10 - 1) :: u64"
      note I = inside_trans [of "unat (b_head ?b)" "unat (b_truesize ?b)"]
      obtain k s2 where 2: "recv_data hw p ?m ?s1 = Some (k, s2)"
        using t 1 False by (cases "recv_data hw p ?m ?s1") (auto simp: tis_recv_body_def)
      have "unat p + unat ?m < 2 ^ 64" using p fit m top by simp
      then have i2: "inside (unat (b_head ?b)) (unat (b_truesize ?b)) ?s1 s2"
        using recv_data_inside [OF 2] m by (intro sub) auto
      obtain a s3 where 3: "tis_data_available hw (tis_locality s2) s2 = (a, s3)"
        by (cases "tis_data_available hw (tis_locality s2) s2")
      note i3 = I [OF i2 inside_io [OF tis_data_available_io [OF 3]]]
      show ?thesis
      proof (cases "k < ?m \<or> \<not> a")
        case True
        with t 1 2 3 False i2 i3 show ?thesis by (auto simp: tis_recv_body_def split: if_splits)
      next
        case ok: False
        then obtain k4 s4 where 4: "recv_data hw p 1 s3 = Some (k4, s4)"
          using t 1 2 3 False by (cases "recv_data hw p 1 s3") (auto simp: tis_recv_body_def)
        have "unat p + unat (1 :: u64) < 2 ^ 64" using p fit m top by simp
        then have "inside (unat (b_head ?b)) (unat (b_truesize ?b)) s3 s4"
          using recv_data_inside [OF 4] m by (intro sub) auto
        with i3 have i4: "inside (unat (b_head ?b)) (unat (b_truesize ?b)) ?s1 s4" by (rule I)
        obtain a5 s5 where 5: "tis_data_available hw (tis_locality s4) s4 = (a5, s5)"
          by (cases "tis_data_available hw (tis_locality s4) s4")
        note i5 = I [OF i4 inside_io [OF tis_data_available_io [OF 5]]]
        have "s' = s4 \<or> s' = s5 \<or> s' = tpm_write8 hw STS_COMMAND_READY (STS (tis_locality s5)) s5"
          using t 1 2 3 4 5 False ok by (auto simp: tis_recv_body_def split: if_splits)
        moreover have "inside (unat (b_head ?b)) (unat (b_truesize ?b)) s5 (tpm_write8 hw STS_COMMAND_READY (STS (tis_locality s5)) s5)"
          by (rule inside_write8) simp
        ultimately show ?thesis using i4 i5 I [OF i5] by blast
      qed
    qed
    then show ?thesis using b2 lk by (intro inside_recv_frame [of ?b b2]) simp_all
  qed
qed


lemma convert_header_out: "x < h \<or> h + 10 \<le> x \<Longrightarrow> convert_header h m x = m x"
  by (auto simp: convert_header_def Let_def mem_write_out)

lemma tis_recv_inside:
  assumes t: "tis_recv hw f s = Some (r, s')" and b: "receivable (tpm_buff s)"
  shows "recv_frame s s'"
proof -
  let ?b = "tpm_buff s" and ?l = "tis_locality s"
  have i: "buff_inv ?b" "b_locked ?b \<noteq> 0" using b by (simp_all add: receivable_def)
  have Q: "recv_frame s x" if "in_buffer s x" for x
    using that i by (intro inside_recv_frame [of ?b ?b]) simp_all
  note I = inside_trans [of "unat (b_head ?b)" "unat (b_truesize ?b)"]
  show ?thesis
  proof (cases "?l > TPM_MAX_LOCALITY")
    case True
    with t Q [of s] show ?thesis by (simp add: tis_recv_def)
  next
    case l: False
    obtain a1 s1 where 1: "tis_data_available hw ?l s = (a1, s1)" by (cases "tis_data_available hw ?l s")
    note i1 = inside_io [OF tis_data_available_io [OF 1], of "unat (b_head ?b)" "unat (b_truesize ?b)"]
    define w where "w = (case f of TPM12 \<Rightarrow> tpm1_timeout_d hw s1 | TPM20 \<Rightarrow> tpm2_timeout_d hw s1)"
    have "io_ext is_load s1 w" by (simp add: w_def split: tpm_family.split)
    note iw = I [OF i1 inside_io [OF this]]
    have lw: "tis_locality s1 = ?l" using inside_tpm [OF i1] by simp
    obtain a2 s2 where 2: "(if a1 then (True, s1) else tis_data_available hw ?l w) = (a2, s2)"
      by (cases "if a1 then (True, s1) else tis_data_available hw ?l w")
    have i2: "in_buffer s s2"
      using 2 i1 I [OF iw inside_io [OF tis_data_available_io]] by (auto split: if_splits)
    have t2: "(if \<not> a2 then Some (0, s2)
           else do {
             (n, s) \<leftarrow> recv_data hw (b_head (tpm_buff s2)) 10 s2;
             if n < 10 then Some (0, s)
             else do {
               let s = s\<lparr>ram := convert_header (unat (b_head (tpm_buff s))) (ram s)\<rparr>;
               let hdr_size = load32 (ram s) (unat (b_head (tpm_buff s)) + 2);
               if hdr_size \<le> 10 then Some (0, s)
               else tis_recv_body hw hdr_size s
             }
           }) = Some (r, s')"
      using t l 2 by (simp add: tis_recv_def 1 lw w_def cong: if_cong)
    have b2: "tpm_buff s2 = ?b" using inside_tpm [OF i2] by simp
    show ?thesis
    proof (cases a2)
      case False
      with t2 Q [OF i2] show ?thesis by simp
    next
      case True
      with t2 obtain k s3 where 3: "recv_data hw (b_head ?b) 10 s2 = Some (k, s3)"
        by (cases "recv_data hw (b_head ?b) 10 s2") (auto simp: b2)
      have sz: "10 \<le> unat (b_truesize ?b)" "unat (b_head ?b) + unat (b_truesize ?b) < 2 ^ 64"
        using i(1) by (simp_all add: buff_inv_def sizeof_tpm_header_def word_le_nat_alt)
      then have "inside (unat (b_head ?b)) (unat (10 :: u64)) s2 s3" using recv_data_inside [OF 3] by simp
      then have "in_buffer s2 s3 \<or> b2 \<noteq> b2" for b2 :: nat using inside_sub b2 sz by fastforce
      then have i3: "in_buffer s s3" using I [OF i2] b2 by simp
      have b3: "tpm_buff s3 = ?b" "tis_locality s3 = ?l" using inside_tpm [OF i3] by simp_all
      let ?s4 = "s3\<lparr>ram := convert_header (unat (b_head ?b)) (ram s3)\<rparr>"
      have i4: "in_buffer s ?s4"
        using i3 sz by (auto simp: inside_def convert_header_out grows_def)
      let ?h = "load32 (ram ?s4) (unat (b_head ?b) + 2)"
      have t4: "(if k < 10 then Some (0, s3) else if ?h \<le> 10 then Some (0, ?s4) else tis_recv_body hw ?h ?s4) = Some (r, s')"
        using t2 True 3 by (simp add: b2 b3 Let_def cong: if_cong)
      show ?thesis
      proof (cases "k < 10 \<or> ?h \<le> 10")
        case True
        with t4 Q [OF i3] Q [OF i4] show ?thesis by (auto split: if_splits)
      next
        case False
        with t4 have 5: "tis_recv_body hw ?h ?s4 = Some (r, s')" by simp
        have "receivable (tpm_buff ?s4)" "10 < ?h" using b b3 False by (simp_all add: not_le)
        from inside_then_frame [OF i4 tis_recv_body_inside [OF 5 this]] show ?thesis .
      qed
    qed
  qed
qed

text \<open>
  C11. \<^verbatim>\<open>tis_recv\<close> is memory safe whatever the TPM answers: with a buffer reserved for the
  header, and for every size the response header claims, no byte outside the buffer is
  written, and the buffer keeps its invariant, its place and its size.
\<close>

theorem tis_recv_stays_in_buffer:
  assumes "tis_recv hw f s = Some (r, s')" and "receivable (tpm_buff s)"
  shows "(\<forall>x. x < unat (b_head (tpm_buff s)) \<or> unat (b_head (tpm_buff s)) + unat (b_truesize (tpm_buff s)) \<le> x
      \<longrightarrow> ram s' x = ram s x)
    \<and> buff_inv (tpm_buff s') \<and> b_head (tpm_buff s') = b_head (tpm_buff s)
    \<and> b_truesize (tpm_buff s') = b_truesize (tpm_buff s)"
  using tis_recv_inside [OF assms] by (simp add: recv_frame_def outside_same_def)


text \<open>A TPM that answers with ones only, so that its response header claims a gigantic size.\<close>

definition babbling_tpm :: "unit hw" where
  "babbling_tpm = \<lparr>hw_load = (\<lambda>a k d. (0xFF, d)), hw_store = (\<lambda>a k v d. d),
     hw_in = \<lambda>p n d. (0, d), hw_out = \<lambda>p n v d. d,
     hw_rdmsr = \<lambda>i d. (0, d), hw_tick = \<lambda>d. d, hw_junk = \<lambda>d i. 0\<rparr>"

definition babbling_state :: "unit tpm_machine" where
  "babbling_state = \<lparr>dev = (), trace = [], ram = (\<lambda>a. 0), pci_ops = Pci_Conf1, mmio_base_addr = 0,
     tis_locality = 0, crb_locality = 0xFF,
     tpm_buff = demo_buff\<lparr>b_len := 10, b_locked := 1, b_data := 0xD10A, b_tail := 0xD10A\<rparr>,
     tpm_st = \<lparr>t_vendor = 0, t_family = TPM12, t_intf = TPM_TIS, t_ops = Tis_Ops, t_buff = True\<rparr>\<rparr>"

lemma babbling_read8: "tpm_read8 babbling_tpm f s = (0xFF, log_io (Load (tpm_addr f) 1 0xFF) () s)"
  by (simp add: tpm_read8_def ioread8_def mmio_load_def babbling_tpm_def Let_def)

lemma babbling_burst: "\<exists>s'. burst_wait babbling_tpm s = Some (0xFFFF, s')"
  by (simp add: burst_wait.simps [of babbling_tpm s] babbling_read8 Let_def push_bit_eq_mult)

lemma babbling_pull: "unat n - unat sz \<le> k \<Longrightarrow> sz \<le> n \<Longrightarrow> \<exists>s'. tis_pull babbling_tpm k p sz n s = (n, s')"
proof (induction k arbitrary: sz s)
  case 0
  then have "unat sz = unat n" by (simp add: word_le_nat_alt)
  then show ?case by (simp add: unsigned_word_eqI)
next
  case (Suc k)
  show ?case
  proof (cases "sz < n")
    case True
    have n64: "unat n < 2 ^ 64" using unsigned_less [of n] by simp
    from True have lt: "unat sz < unat n" by (simp add: word_less_nat_alt)
    then have "unat (sz + 1) = Suc (unat sz)"
      using lt n64 by (subst unat_plus_if') simp
    with True lt Suc show ?thesis by (simp add: babbling_read8 word_le_nat_alt)
  next
    case False
    with Suc.prems show ?thesis by (auto simp: antisym)
  qed
qed

lemma babbling_recv:
  assumes "unat n \<le> 65535"
  shows "\<exists>s'. recv_data babbling_tpm p n s = Some (n, s')"
proof (cases "n = 0")
  case True
  then show ?thesis
    by (simp add: recv_data_def recv_data_loop.simps [of babbling_tpm p 0] tis_data_available_def babbling_read8 Let_def)
next
  case False
  let ?s1 = "log_io (Load (tpm_addr (STS (tis_locality s))) 1 0xFF) () s"
  obtain s2 where 2: "burst_wait babbling_tpm ?s1 = Some (0xFFFF, s2)" using babbling_burst by blast
  obtain s3 where 3: "tis_pull babbling_tpm 65535 p 0 n s2 = (n, s3)"
    using babbling_pull [of n 0 65535 p s2] assms by auto
  have "recv_data babbling_tpm p n s = recv_data_loop babbling_tpm p n n s3"
    using False 2 3 unfolding recv_data_def recv_data_loop.simps [of babbling_tpm p 0 n s]
    by (simp add: tis_data_available_def babbling_read8 sts_consts word_gt_0)
  then show ?thesis
    by (simp add: recv_data_loop.simps [of babbling_tpm p n n] tis_data_available_def babbling_read8 Let_def)
qed

lemma babbling_recv_body:
  assumes b: "receivable (tpm_buff s)" "b_truesize (tpm_buff s) = 1024" and h: "10 < h"
  shows "\<exists>r s'. tis_recv_body babbling_tpm h s = Some (r, s')"
proof -
  let ?n = "ucast (h - 10) :: u64" and ?m = "ucast (h - 10 - 1) :: u64"
  obtain p b where 1: "tpmb_put (tpm_buff s) ?n = (p, b)" by (cases "tpmb_put (tpm_buff s) ?n")
  have nlt: "?n < 2 ^ 32" using unsigned_less [of "h - 10"] by (simp add: word_less_nat_alt)
  show ?thesis
  proof (cases "p = 0")
    case True
    with 1 show ?thesis by (simp add: tis_recv_body_def)
  next
    case False
    have "unat ?n \<le> 1024"
      using tpmb_put_spec [OF _ _ nlt, of "tpm_buff s"] b 1 False
      by (auto simp: receivable_def split: if_splits)
    moreover have "1 \<le> h - 10" using h by (simp add: unat_sub word_le_nat_alt word_less_nat_alt)
    then have "unat (h - 10 - 1) = unat (h - 10) - 1" by (simp only: unsigned_1 unat_sub)
    ultimately have m: "unat ?m \<le> 65535" by simp
    obtain s2 where 2: "recv_data babbling_tpm p ?m (s\<lparr>tpm_buff := b\<rparr>) = Some (?m, s2)"
      using babbling_recv [OF m] by auto
    have "unat (1 :: u64) \<le> 65535" by simp
    from babbling_recv [OF this]
    obtain s3 where 3: "recv_data babbling_tpm p 1 (snd (tis_data_available babbling_tpm (tis_locality s2) s2)) = Some (1, s3)"
      by blast
    show ?thesis using 1 2 3 False by (simp add: tis_recv_body_def split_beta)
  qed
qed

lemma babbling_response: "\<exists>r s'. tis_recv babbling_tpm TPM12 babbling_state = Some (r, s')"
proof -
  have b: "receivable (tpm_buff babbling_state)"
    by (simp add: receivable_def buff_inv_def babbling_state_def demo_buff_def buff_consts)
  have l: "tis_locality babbling_state = 0" "b_head (tpm_buff babbling_state) = 0xD100"
    "b_truesize (tpm_buff babbling_state) = 1024" by (simp_all add: babbling_state_def demo_buff_def)
  let ?s1 = "log_io (Load (tpm_addr (STS 0)) 1 0xFF) () babbling_state"
  have 1: "tis_data_available babbling_tpm 0 babbling_state = (True, ?s1)"
    by (simp add: tis_data_available_def babbling_read8 sts_consts)
  have "unat (10 :: u64) \<le> 65535" by simp
  from babbling_recv [OF this] obtain s2 where 2: "recv_data babbling_tpm 0xD100 10 ?s1 = Some (10, s2)" by blast
  have s2: "tpm_buff s2 = tpm_buff babbling_state"
    using recv_data_inside [OF 2] inside_tpm(1) [of _ _ ?s1 s2] by (simp add: log_io_def)
  let ?s3 = "s2\<lparr>ram := convert_header 0xD100 (ram s2)\<rparr>"
  let ?h = "load32 (ram ?s3) (0xD100 + 2)"
  have "tis_recv babbling_tpm TPM12 babbling_state
      = (if ?h \<le> 10 then Some (0, ?s3) else tis_recv_body babbling_tpm ?h ?s3)"
    using 1 2 s2 by (simp add: tis_recv_def l locality_consts log_io_def Let_def)
  moreover have "\<exists>r s'. tis_recv_body babbling_tpm ?h ?s3 = Some (r, s')" if "\<not> ?h \<le> 10"
    by (rule babbling_recv_body) (use b l s2 that in \<open>simp_all add: not_le\<close>)
  ultimately show ?thesis by metis
qed

theorem tis_recv_stays_in_buffer_witness:
  "\<exists>r s'. tis_recv babbling_tpm TPM12 babbling_state = Some (r, s')
    \<and> (\<forall>x. x < 0xD100 \<or> 0xD500 \<le> x \<longrightarrow> ram s' x = 0) \<and> buff_inv (tpm_buff s')"
proof -
  obtain r s' where s: "tis_recv babbling_tpm TPM12 babbling_state = Some (r, s')" using babbling_response by blast
  have "receivable (tpm_buff babbling_state)"
    by (simp add: receivable_def buff_inv_def babbling_state_def demo_buff_def buff_consts)
  from tis_recv_stays_in_buffer [OF s this] s show ?thesis
    by (simp add: babbling_state_def demo_buff_def)
qed


section \<open>Localities\<close>

text \<open>The write with which a locality is given up: none for locality 4 and above.\<close>

definition release_events :: "u8 \<Rightarrow> io_event list" where
  "release_events l = (if l < TPM_MAX_LOCALITY then [Store (tpm_addr (ACCESS l)) 1 (ucast ACCESS_RELINQUISH_LOCALITY)] else [])"

lemma tis_relinquish_spec:
  "trace (tis_relinquish_locality hw s) = trace s @ release_events (tis_locality s)
   \<and> tis_locality (tis_relinquish_locality hw s) = TPM_NO_LOCALITY
   \<and> ram (tis_relinquish_locality hw s) = ram s \<and> tpm_buff (tis_relinquish_locality hw s) = tpm_buff s"
  by (simp add: tis_relinquish_locality_def release_events_def tpm_write8_def io_defs Let_def)

lemma tis_request_spec:
  assumes r: "tis_request_locality hw l s = (r, s1)" and l: "l \<le> TPM_MAX_LOCALITY" "l \<noteq> tis_locality s"
  shows "\<exists>v. trace s1 = trace s @ release_events (tis_locality s)
      @ [Store (tpm_addr (ACCESS l)) 1 (ucast ACCESS_REQUEST_USE), Load (tpm_addr (ACCESS l)) 1 v]
    \<and> r = (if ucast v AND ACCESS_ACTIVE_LOCALITY \<noteq> 0 then l else TPM_NO_LOCALITY)
    \<and> tis_locality s1 = r"
proof -
  let ?s0 = "tis_relinquish_locality hw s"
  let ?sw = "tpm_write8 hw ACCESS_REQUEST_USE (ACCESS l) ?s0"
  obtain v d where v: "hw_load hw (tpm_addr (ACCESS l)) 1 (dev ?sw) = (v, d)"
    by (cases "hw_load hw (tpm_addr (ACCESS l)) 1 (dev ?sw)")
  let ?v = "take_bit 8 v"
  let ?sr = "log_io (Load (tpm_addr (ACCESS l)) 1 ?v) d ?sw"
  have rd: "tpm_read8 hw (ACCESS l) ?sw = (ucast ?v, ?sr)"
    using v by (simp add: tpm_read8_def ioread8_def mmio_load_def Let_def)
  have tr: "trace ?sr = trace s @ release_events (tis_locality s)
      @ [Store (tpm_addr (ACCESS l)) 1 (ucast ACCESS_REQUEST_USE), Load (tpm_addr (ACCESS l)) 1 ?v]"
    and no: "tis_locality ?sr = TPM_NO_LOCALITY"
    using tis_relinquish_spec [of hw s] by (simp_all add: log_io_def tpm_write8_def iowrite8_def mmio_store_def)
  have "(r, s1) = (let s = (if (ucast ?v :: u8) AND ACCESS_ACTIVE_LOCALITY \<noteq> 0 then ?sr\<lparr>tis_locality := l\<rparr> else ?sr)
      in (tis_locality s, s))"
    using r leD [OF l(1)] l(2) rd by (auto simp: tis_request_locality_def Let_def cong: if_cong)
  with tr no show ?thesis by (intro exI [of _ ?v]) (auto simp: Let_def)
qed

text \<open>
  C23. The locality protocol of the FIFO driver. A request for another locality first
  gives up the one held, then asks for the new one, and reports and records exactly what
  the access register grants. Giving up writes the register for localities 0 to 3 and
  always forgets the locality; locality 4 can be requested and granted, but the guard
  \<^verbatim>\<open>locality < TPM_MAX_LOCALITY\<close> never relinquishes it.
\<close>

theorem tis_locality_protocol:
  assumes "tis_request_locality hw l s = (r, s1)" and "l \<le> TPM_MAX_LOCALITY" "l \<noteq> tis_locality s"
  shows "\<exists>v. trace s1 = trace s @ release_events (tis_locality s)
      @ [Store (tpm_addr (ACCESS l)) 1 (ucast ACCESS_REQUEST_USE), Load (tpm_addr (ACCESS l)) 1 v]
    \<and> r = (if ucast v AND ACCESS_ACTIVE_LOCALITY \<noteq> 0 then l else TPM_NO_LOCALITY) \<and> tis_locality s1 = r
    \<and> tis_locality (tis_relinquish_locality hw s1) = TPM_NO_LOCALITY
    \<and> trace (tis_relinquish_locality hw s1) = trace s1
        @ (if r \<le> 3 then [Store (tpm_addr (ACCESS r)) 1 (ucast ACCESS_RELINQUISH_LOCALITY)] else [])"
proof -
  have "r < TPM_MAX_LOCALITY \<longleftrightarrow> r \<le> 3"
    by (simp add: locality_consts word_less_nat_alt word_le_nat_alt) linarith
  then have "release_events r = (if r \<le> 3 then [Store (tpm_addr (ACCESS r)) 1 (ucast ACCESS_RELINQUISH_LOCALITY)] else [])"
    by (simp add: release_events_def)
  moreover obtain v where "trace s1 = trace s @ release_events (tis_locality s)
      @ [Store (tpm_addr (ACCESS l)) 1 (ucast ACCESS_REQUEST_USE), Load (tpm_addr (ACCESS l)) 1 v]"
    "r = (if ucast v AND ACCESS_ACTIVE_LOCALITY \<noteq> 0 then l else TPM_NO_LOCALITY)" "tis_locality s1 = r"
    using tis_request_spec [OF assms] by blast
  ultimately show ?thesis using tis_relinquish_spec [of hw s1] by (intro exI [of _ v]) simp
qed

text \<open>Locality 4, granted by a TPM whose access register says so, is never given back.\<close>

theorem tis_locality_protocol_witness:
  "\<exists>s1. tis_request_locality babbling_tpm 4 babbling_state = (4, s1) \<and> length (trace s1) = 3
    \<and> trace (tis_relinquish_locality babbling_tpm s1) = trace s1"
proof -
  obtain r s1 where r: "tis_request_locality babbling_tpm 4 babbling_state = (r, s1)"
    by (cases "tis_request_locality babbling_tpm 4 babbling_state")
  have l: "4 \<le> TPM_MAX_LOCALITY" "4 \<noteq> tis_locality babbling_state"
    by (simp_all add: locality_consts babbling_state_def)
  have "r = 4"
    using r by (simp add: tis_request_locality_def locality_consts babbling_state_def babbling_read8
        ACCESS_ACTIVE_LOCALITY_def Let_def split: if_splits)
  moreover have "length (trace s1) = 3"
    using tis_locality_protocol [OF r l] by (auto simp: babbling_state_def release_events_def locality_consts)
  ultimately show ?thesis using tis_locality_protocol [OF r l] r by auto
qed

end
