(* ===== verification/Tpm_Driver.thy ===== *)
theory Tpm_Driver
  imports Tpm Tis_Recv
begin

text \<open>
  The interface of the two drivers as the commands use it: a locale with the contract of
  \<^verbatim>\<open>struct tpm_hw_ops\<close>, the facts about the commands that follow from it, and its
  interpretations by the FIFO driver, by the CRB driver and by the table that
  \<^verbatim>\<open>enable_tpm\<close> fills.
\<close>

section \<open>What a command may change\<close>

text \<open>The buffer keeps its place, size and invariant; nothing outside it is written.\<close>

definition buff_frame :: "('d, 'x) tpm_machine_scheme \<Rightarrow> ('d, 'x) tpm_machine_scheme \<Rightarrow> bool" where
  "buff_frame s s' \<longleftrightarrow> outside_same (tpm_buff s) s s'
     \<and> machine.more s' = machine.more (s\<lparr>tpm_buff := tpm_buff s'\<rparr>) \<and> grows tpm_event s s'
     \<and> buff_inv (tpm_buff s')
     \<and> b_head (tpm_buff s') = b_head (tpm_buff s) \<and> b_truesize (tpm_buff s') = b_truesize (tpm_buff s)"

lemma buff_frame_refl: "buff_inv (tpm_buff s) \<Longrightarrow> buff_frame s s"
  by (cases s) (simp add: buff_frame_def outside_same_def)

lemma buff_frame_trans [trans]:
  assumes st: "buff_frame s t" and tu: "buff_frame t u"
  shows "buff_frame s u"
proof -
  have "machine.more u = machine.more (s\<lparr>tpm_buff := tpm_buff u\<rparr>)"
    using st tu by (cases s, cases t, cases u) (simp add: buff_frame_def)
  moreover have "grows tpm_event s u"
    using st tu grows_trans [of tpm_event s t u] by (simp add: buff_frame_def)
  moreover have "outside_same (tpm_buff s) s u"
    using st tu by (simp add: buff_frame_def outside_same_def)
  ultimately show ?thesis using st tu by (simp add: buff_frame_def)
qed

lemma recv_buff_frame: "recv_frame s s' \<Longrightarrow> buff_frame s s'"
  by (simp add: recv_frame_def buff_frame_def)

lemma io_buff_frame:
  assumes "io_ext tpm_event s s'" "buff_inv (tpm_buff s)"
  shows "buff_frame s s'"
proof -
  have "machine.more s' = machine.more (s\<lparr>tpm_buff := tpm_buff s\<rparr>)"
    using io_ext_more [OF assms(1)] by (cases s) simp
  with assms io_ext_tpm [OF assms(1)] io_ext_ram [OF assms(1)] grows_io [OF assms(1)] show ?thesis
    by (simp add: buff_frame_def outside_same_def)
qed

text \<open>The operations on the buffer, and writes inside it.\<close>

lemma buff_op_frame:
  assumes "buff_inv (tpm_buff s)" "buff_step op (tpm_buff s, ram s) = (b, m)"
  shows "buff_frame s (s\<lparr>tpm_buff := b, ram := m\<rparr>)"
  using buff_step_inv [OF assms] buff_step_frame [OF assms]
  by (cases s) (auto simp: buff_frame_def outside_same_def intro: grows_same)

lemma buff_free_frame: "buff_inv (tpm_buff s) \<Longrightarrow> buff_frame s (buff_free s)"
  using buff_op_frame [of s Free] by (simp add: buff_free_def split_beta)

lemma buff_reserve_frame: "buff_inv (tpm_buff s) \<Longrightarrow> buff_frame s (snd (buff_reserve s))"
  using buff_op_frame [of s Reserve] by (simp add: buff_reserve_def split_beta)

lemma buff_put_frame:
  "buff_inv (tpm_buff s) \<Longrightarrow> b_locked (tpm_buff s) \<noteq> 0 \<Longrightarrow> n < 2 ^ 32 \<Longrightarrow> buff_frame s (snd (buff_put n s))"
  using buff_op_frame [of s "Put n"] by (simp add: buff_put_def split_beta)

lemma buff_trim_frame:
  "buff_inv (tpm_buff s) \<Longrightarrow> b_locked (tpm_buff s) \<noteq> 0 \<Longrightarrow> buff_frame s (buff_trim n s)"
  using buff_op_frame [of s "Trim n"] by (simp add: buff_trim_def split_beta)

lemma poke_frame:
  assumes "buff_inv (tpm_buff s)" "unat (b_head (tpm_buff s)) \<le> a"
    and "a + length bs \<le> unat (b_head (tpm_buff s)) + unat (b_truesize (tpm_buff s))"
  shows "buff_frame s (poke a bs s)"
  using assms by (cases s) (auto simp: buff_frame_def outside_same_def poke_def mem_write_out intro: grows_same)


section \<open>The contract\<close>

text \<open>What a change of locality may do: nothing but the driver's own record of it.\<close>

definition locality_frame :: "('d, 'x) tpm_machine_scheme \<Rightarrow> ('d, 'x) tpm_machine_scheme \<Rightarrow> bool" where
  "locality_frame s s' \<longleftrightarrow> ram s' = ram s \<and> tpm_buff s' = tpm_buff s \<and> tpm_st s' = tpm_st s
     \<and> tpm_machine.more s' = tpm_machine.more s \<and> pci_ops s' = pci_ops s
     \<and> mmio_base_addr s' = mmio_base_addr s \<and> grows tpm_event s s'"

locale tpm_driver =
  fixes send :: "('d, 'x) tpm_machine_scheme \<Rightarrow> (u64 \<times> ('d, 'x) tpm_machine_scheme) option"
    and recv :: "('d, 'x) tpm_machine_scheme \<Rightarrow> (u64 \<times> ('d, 'x) tpm_machine_scheme) option"
    and request :: "u8 \<Rightarrow> ('d, 'x) tpm_machine_scheme \<Rightarrow> (u8 \<times> ('d, 'x) tpm_machine_scheme) option"
    and relinquish :: "('d, 'x) tpm_machine_scheme \<Rightarrow> ('d, 'x) tpm_machine_scheme option"
  assumes send_io: "send s = Some (r, s') \<Longrightarrow> io_ext tpm_event s s'"
    and recv_in: "recv s = Some (r, s') \<Longrightarrow> receivable (tpm_buff s) \<Longrightarrow> recv_frame s s'"
    and request_in: "request l s = Some (g, s') \<Longrightarrow> locality_frame s s' \<and> (g = l \<or> g = TPM_NO_LOCALITY)"
    and relinquish_in: "relinquish s = Some s' \<Longrightarrow> locality_frame s s'"
begin

text \<open>Neither family of commands reaches beyond the buffer and the registers of the TPM.\<close>

lemma send_frame: "send s = Some (r, s') \<Longrightarrow> buff_inv (tpm_buff s) \<Longrightarrow> buff_frame s s'"
  by (rule io_buff_frame [OF send_io])

lemma send_buff: "send s = Some (r, s') \<Longrightarrow> tpm_buff s' = tpm_buff s"
  by (rule io_ext_tpm(3) [OF send_io])

lemma tpm2_submit_frame:
  assumes "tpm2_submit send s = Some (r, s')" "buff_inv (tpm_buff s)"
  shows "buff_frame s s'"
proof -
  from assms(1) obtain n s1 where 1: "send s = Some (n, s1)" and s': "s' = buff_free s1"
    by (cases "send s") (auto simp: tpm2_submit_def)
  have "buff_inv (tpm_buff s1)" using assms(2) send_buff [OF 1] by simp
  with send_frame [OF 1 assms(2)] buff_free_frame [of s1] show ?thesis
    unfolding s' by (blast intro: buff_frame_trans)
qed

lemma tpm1_submit_rest:
  assumes t: "tpm1_submit send recv s = Some (r, s')" and b: "buff_inv (tpm_buff s)" "b_locked (tpm_buff s) \<noteq> 0"
    and 1: "send s = Some (n, s1)"
  shows "buff_frame s1 s'"
proof -
  have b1: "buff_inv (tpm_buff s1)" "b_locked (tpm_buff s1) \<noteq> 0" using b send_buff [OF 1] by simp_all
  show ?thesis
  proof (cases "ucast (bswap32 (load32 (ram s) (unat (b_head (tpm_buff s)) + 2))) \<noteq> n")
    case True
    with t 1 have "s' = buff_free s1" by (simp add: tpm1_submit_def Let_def)
    with buff_free_frame [OF b1(1)] show ?thesis by simp
  next
    case False
    define s2 where "s2 = buff_trim (tpmb_size (tpm_buff s1)) s1"
    define s3 where "s3 = snd (buff_put sizeof_tpm_header s2)"
    have b2: "tpm_buff s2 = (tpm_buff s1)\<lparr>b_tail := b_tail (tpm_buff s1) - b_len (tpm_buff s1), b_len := 0\<rparr>"
      by (simp add: s2_def buff_trim_def tpmb_trim_def tpmb_size_def Let_def)
    have f2: "buff_frame s1 s2" unfolding s2_def by (rule buff_trim_frame [OF b1])
    have i2: "buff_inv (tpm_buff s2)" using f2 by (simp add: buff_frame_def)
    have l2: "b_locked (tpm_buff s2) \<noteq> 0" using b1 by (simp add: b2)
    have f3: "buff_frame s2 s3" unfolding s3_def by (rule buff_put_frame [OF i2 l2]) (simp add: sizeof_tpm_header_def)
    have "\<not> b_truesize (tpm_buff s2) < sizeof_tpm_header" using i2 leD by (auto simp: buff_inv_def)
    then have r3: "receivable (tpm_buff s3)"
      using f3 l2 by (simp add: receivable_def buff_frame_def s3_def buff_put_def tpmb_put_def b2 Let_def)
    have "(do {
        (n, s) \<leftarrow> recv s3;
        if tpmb_size (tpm_buff s) \<noteq> n then Some (- EAGAIN, buff_free s)
        else Some (if load32 (ram s) (unat (b_head (tpm_buff s2)) + 6) \<noteq> TPM_SUCCESS then - EAGAIN else 0, buff_free s)
      }) = Some (r, s')"
      using t False 1 unfolding s3_def s2_def by (simp add: tpm1_submit_def Let_def split_beta)
    then obtain k s4 where 4: "recv s3 = Some (k, s4)" and s': "s' = buff_free s4"
      by (cases "recv s3") (auto split: if_splits)
    note f4 = recv_buff_frame [OF recv_in [OF 4 r3]]
    have "buff_frame s4 s'" unfolding s' using f4 by (intro buff_free_frame) (simp add: buff_frame_def)
    with f2 f3 f4 show ?thesis by (blast intro: buff_frame_trans)
  qed
qed

lemma tpm1_submit_frame:
  assumes t: "tpm1_submit send recv s = Some (r, s')" and b: "buff_inv (tpm_buff s)" "b_locked (tpm_buff s) \<noteq> 0"
  shows "buff_frame s s'"
proof -
  from t obtain n s1 where 1: "send s = Some (n, s1)"
    by (cases "send s") (auto simp: tpm1_submit_def Let_def)
  from buff_frame_trans [OF send_frame [OF 1 b(1)] tpm1_submit_rest [OF t b 1]] show ?thesis .
qed

text \<open>A command that succeeds was accepted by the driver in its full length.\<close>

lemma tpm1_submit_sent:
  assumes "tpm1_submit send recv s = Some (0, s')"
  shows "\<exists>s1. send s = Some (ucast (bswap32 (load32 (ram s) (unat (b_head (tpm_buff s)) + 2))), s1)"
  using assms by (cases "send s") (auto simp: tpm1_submit_def Let_def EAGAIN_def split: if_splits)

lemma tpm2_submit_sent:
  assumes "tpm2_submit send s = Some (0, s')"
  shows "\<exists>n s1. send s = Some (n, s1) \<and> ucast (ucast n :: u16) = b_len (tpm_buff s) \<and> s' = buff_free s1"
  using assms send_buff [of s]
  by (cases "send s") (auto simp: tpm2_submit_def Let_def EAGAIN_def tpmb_size_def split: if_splits)

end


section \<open>The FIFO driver\<close>

lemma tpm_read_event: "tpm_page (tpm_addr f) \<Longrightarrow> io_ext tpm_event s (snd (tpm_read8 hw f s))"
  "tpm_page (tpm_addr f) \<Longrightarrow> io_ext tpm_event s (snd (tpm_read32 hw f s))"
  by (simp_all add: tpm_event_def)

lemma tpm_write_event: "tpm_page (tpm_addr f) \<Longrightarrow> io_ext tpm_event s (tpm_write8 hw x f s)"
  "tpm_page (tpm_addr f) \<Longrightarrow> io_ext tpm_event s (tpm_write32 hw y f s)"
  by (simp_all add: tpm_event_def)

lemma load_ext: "io_ext is_load s s' \<Longrightarrow> io_ext tpm_event s s'"
  by (rule io_ext_mono [OF _ load_event])

lemma tis_push_event: "tis_push hw k count s = (count', s') \<Longrightarrow> io_ext tpm_event s s'"
proof (induction k arbitrary: count s)
  case (Suc k)
  let ?s1 = "tpm_write8 hw (buff_byte s (ucast count)) (DATA_FIFO (tis_locality s)) s"
  show ?case
  proof (cases "ucast count < b_len (tpm_buff s) - 1")
    case True
    with Suc.prems have "tis_push hw k (count + 1) ?s1 = (count', s')" by simp
    from io_ext_trans [OF tpm_write_event(1) Suc.IH [OF this]] show ?thesis by simp
  qed (use Suc.prems in simp)
qed simp

lemma tis_send_loop_event:
  assumes "tis_send_loop hw count s = Some (r, s')"
  shows "io_ext tpm_event s s'"
proof -
  define P where "P = (\<lambda>(hw :: 'a hw) (count :: u32) (s :: ('a, 'b) tpm_machine_scheme)
      (r :: u32 option, s' :: ('a, 'b) tpm_machine_scheme). io_ext tpm_event s s')"
  have "P hw count s (r, s')"
  proof (rule tis_send_loop.raw_induct [where P = P, OF _ assms])
    fix f and hw :: "'a hw" and count and s :: "('a, 'b) tpm_machine_scheme" and res
    assume IH: "\<And>hw count s r. f hw count s = Some r \<Longrightarrow> P hw count s r"
      and eq: "(if \<not> ucast count < b_len (tpm_buff s) - 1 then Some (Some count, s)
        else do {
          (burstcnt, s) \<leftarrow> burst_wait hw s;
          let (count, s) = tis_push hw (unat burstcnt) count s;
          (status, s) \<leftarrow> tis_wait_valid hw s;
          if status AND STS_DATA_EXPECT = 0 then Some (None, s) else f hw count s
        }) = Some res"
    show "P hw count s res"
    proof (cases "ucast count < b_len (tpm_buff s) - 1")
      case False
      with eq show ?thesis by (auto simp: P_def)
    next
      case True
      with eq obtain b s1 where 1: "burst_wait hw s = Some (b, s1)" by (cases "burst_wait hw s") auto
      obtain c s2 where 2: "tis_push hw (unat b) count s1 = (c, s2)" by (cases "tis_push hw (unat b) count s1")
      obtain st s3 where 3: "tis_wait_valid hw s2 = Some (st, s3)"
        using eq True 1 2 by (cases "tis_wait_valid hw s2") auto
      have "io_ext tpm_event s s3"
        using load_ext [OF conjunct1 [OF burst_wait_ext [OF 1]]] tis_push_event [OF 2]
          load_ext [OF conjunct1 [OF tis_wait_valid_ext [OF 3]]] io_ext_trans by blast
      moreover have "(if st AND STS_DATA_EXPECT = 0 then Some (None, s3) else f hw c s3) = Some res"
        using eq True 1 2 3 by simp
      ultimately show ?thesis using IH [of hw c s3] by (auto simp: P_def split: if_splits intro: io_ext_trans)
    qed
  qed
  then show ?thesis by (simp add: P_def)
qed

lemma tis_send_event:
  assumes "tis_send hw s = Some (r, s')"
  shows "io_ext tpm_event s s'"
proof (cases "tis_locality s > TPM_MAX_LOCALITY")
  case True
  with assms show ?thesis by (simp add: tis_send_def)
next
  case False
  with assms obtain s1 where 1: "tis_wait_ready hw s = Some s1"
    by (cases "tis_wait_ready hw s") (auto simp: tis_send_def)
  obtain x s2 where 2: "tis_send_loop hw 0 s1 = Some (x, s2)"
    using assms False 1 by (cases "tis_send_loop hw 0 s1") (auto simp: tis_send_def)
  have "io_ext tpm_event s s1"
    by (rule io_ext_mono [OF tis_wait_ready_ext [OF 1]]) (auto simp: load_event, simp add: tpm_event_def)
  from io_ext_trans [OF this tis_send_loop_event [OF 2]] have e2: "io_ext tpm_event s s2" .
  show ?thesis
  proof (cases x)
    case None
    with assms False 1 2 e2 show ?thesis by (simp add: tis_send_def)
  next
    case (Some c)
    let ?s3 = "tpm_write8 hw (buff_byte s2 (b_len (tpm_buff s2) - 1)) (DATA_FIFO (tis_locality s2)) s2"
    have l: "tis_send_last hw c s2 = Some (r, s')" using assms False 1 2 Some by (simp add: tis_send_def)
    then obtain st s4 where 4: "tis_wait_valid hw ?s3 = Some (st, s4)"
      by (cases "tis_wait_valid hw ?s3") (auto simp: tis_send_last_def)
    have "io_ext tpm_event s2 s4"
      by (rule io_ext_trans [OF tpm_write_event(1) load_ext [OF conjunct1 [OF tis_wait_valid_ext [OF 4]]]]) simp
    then have e4: "io_ext tpm_event s s4" by (rule io_ext_trans [OF e2])
    have "s' = s4 \<or> s' = tpm_write8 hw STS_GO (STS (tis_locality s4)) s4"
      using l 4 by (auto simp: tis_send_last_def split: if_splits)
    moreover have "io_ext tpm_event s (tpm_write8 hw STS_GO (STS (tis_locality s4)) s4)"
      by (rule io_ext_trans [OF e4 tpm_write_event(1)]) simp
    ultimately show ?thesis using e4 by blast
  qed
qed

lemma tis_relinquish_frame: "locality_frame s (tis_relinquish_locality hw s)"
  using grows_io [OF tpm_write_event(1), of "ACCESS (tis_locality s)" s hw ACCESS_RELINQUISH_LOCALITY]
  by (simp add: locality_frame_def tis_relinquish_locality_def tpm_write8_def io_defs grows_def Let_def)

lemma locality_frame_trans [trans]: "locality_frame s t \<Longrightarrow> locality_frame t u \<Longrightarrow> locality_frame s u"
  by (auto simp: locality_frame_def intro: grows_trans)

lemma locality_frame_io:
  assumes "io_ext tpm_event s s'"
  shows "locality_frame s s'"
proof -
  have "machine.more s' = machine.more s" by (rule io_ext_more [OF assms])
  then have "pci_ops s' = pci_ops s" "mmio_base_addr s' = mmio_base_addr s" "tpm_machine.more s' = tpm_machine.more s"
    by (cases s, cases s', simp)+
  then show ?thesis using io_ext_tpm [OF assms] io_ext_ram [OF assms] grows_io [OF assms]
    by (simp add: locality_frame_def)
qed

lemma locality_frame_set [simp]:
  "locality_frame s (s\<lparr>tis_locality := l\<rparr>)" "locality_frame s (s\<lparr>crb_locality := l\<rparr>)"
  by (simp_all add: locality_frame_def grows_same)


lemma tis_request_frame:
  assumes "tis_request_locality hw l s = (g, s')"
  shows "locality_frame s s' \<and> (g = l \<or> g = TPM_NO_LOCALITY)"
proof (cases "l > TPM_MAX_LOCALITY \<or> l = tis_locality s")
  case True
  then have "s' = s \<and> (g = l \<or> g = TPM_NO_LOCALITY)"
    using assms by (cases "TPM_MAX_LOCALITY < l") (auto simp: tis_request_locality_def)
  then show ?thesis by (auto simp: locality_frame_def)
next
  case False
  let ?s1 = "tpm_write8 hw ACCESS_REQUEST_USE (ACCESS l) (tis_relinquish_locality hw s)"
  obtain a s2 where 2: "tpm_read8 hw (ACCESS l) ?s1 = (a, s2)" by (cases "tpm_read8 hw (ACCESS l) ?s1")
  have "locality_frame s ?s1"
    by (rule locality_frame_trans [OF tis_relinquish_frame locality_frame_io [OF tpm_write_event(1)]]) simp
  moreover have "io_ext tpm_event ?s1 s2" using tpm_read_event(1) [of "ACCESS l" ?s1 hw] 2 by simp
  ultimately have f: "locality_frame s s2" using locality_frame_io locality_frame_trans by blast
  have "tis_locality s2 = TPM_NO_LOCALITY"
    using tis_relinquish_spec [of hw s] 2 by (auto simp: tpm_read8_def tpm_write8_def io_defs Let_def split: prod.splits)
  then have "(g = l \<and> s' = s2\<lparr>tis_locality := l\<rparr>) \<or> (g = TPM_NO_LOCALITY \<and> s' = s2)"
    using assms False 2 by (auto simp: tis_request_locality_def Let_def split: if_splits)
  then show ?thesis using f locality_frame_trans [OF f locality_frame_set(1)] by auto
qed

interpretation tis: tpm_driver "tis_send hw" "tis_recv hw f"
  "\<lambda>l s. Some (tis_request_locality hw l s)" "\<lambda>s. Some (tis_relinquish_locality hw s)"
  for hw :: "'d hw" and f
  by unfold_locales
    (simp_all add: tis_send_event tis_recv_inside tis_request_frame,
      use tis_relinquish_frame in blast)

section \<open>The CRB driver\<close>

lemma crb_pages [simp]:
  "tpm_page (tpm_addr (REGISTER (ucast (l :: u8)) TPM_LOC_STATE))" "tpm_page (tpm_addr (REGISTER (ucast l) TPM_LOC_CTRL))"
  "tpm_page (tpm_addr (REGISTER (ucast l) TPM_LOC_STS))" "tpm_page (tpm_addr (crb_register s TPM_CRB_CTRL_REQ))"
  "tpm_page (tpm_addr (crb_register s TPM_CRB_CTRL_STS))" "tpm_page (tpm_addr (crb_register s TPM_CRB_CTRL_CANCEL))"
  "tpm_page (tpm_addr (crb_register s TPM_CRB_CTRL_START))"
proof -
  have "tpm_page (tpm_addr (REGISTER (ucast (l :: u8)) r))" if "r < 0x1000" for l r
  proof -
    have "(ucast (ucast l :: u16) :: u32) = ucast l" by (rule bit_word_eqI) (auto simp: bit_simps dest: bit_imp_le_length)
    with tpm_page_addr [OF register_small(1) [OF that, of l]] show ?thesis by (simp add: REGISTER_def)
  qed
  then show "tpm_page (tpm_addr (REGISTER (ucast l) TPM_LOC_STATE))" "tpm_page (tpm_addr (REGISTER (ucast l) TPM_LOC_CTRL))"
    "tpm_page (tpm_addr (REGISTER (ucast l) TPM_LOC_STS))" "tpm_page (tpm_addr (crb_register s TPM_CRB_CTRL_REQ))"
    "tpm_page (tpm_addr (crb_register s TPM_CRB_CTRL_STS))" "tpm_page (tpm_addr (crb_register s TPM_CRB_CTRL_CANCEL))"
    "tpm_page (tpm_addr (crb_register s TPM_CRB_CTRL_START))"
    by (simp_all add: crb_register_def crb_regs)
qed

lemma crb_pages_0 [simp]:
  "tpm_page (tpm_addr (REGISTER 0 TPM_LOC_STATE))" "tpm_page (tpm_addr (REGISTER 1 TPM_LOC_CTRL))"
  "tpm_page (tpm_addr (REGISTER 0 (TPM_CRB_INTF_ID + 4)))"
  using crb_pages(1) [of 0] crb_pages(2) [of 1]
  by (simp_all add: tpm_page_def tpm_addr_def REGISTER_def crb_regs TPM_MMIO_BASE_def)


text \<open>What an access leaves as it is, for the simplifier.\<close>

lemma io_same [simp]:
  "crb_register (tpm_write32 hw v f s) r = crb_register s r" "tpm_buff (tpm_write32 hw v f s) = tpm_buff s"
  "crb_register (snd (tpm_read32 hw f s)) r = crb_register s r" "tpm_buff (snd (tpm_read32 hw f s)) = tpm_buff s"
  "crb_register (timeout_a hw s) r = crb_register s r" "tpm_buff (timeout_a hw s) = tpm_buff s"
  "crb_register (timeout_b hw s) r = crb_register s r" "crb_register (tpm2_timeout_c hw s) r = crb_register s r"
  "crb_register (duration_a hw s) r = crb_register s r" "tpm_buff (duration_a hw s) = tpm_buff s"
proof -
  have x: "crb_register s' r = crb_register s r" "tpm_buff s' = tpm_buff s"
    if "io_ext (\<lambda>_. True) s s'" for s s' :: "('a, 'b) tpm_machine_scheme" and r
    using io_ext_tpm [OF that] by (simp_all add: crb_register_def)
  have d: "io_ext (\<lambda>_. True) s (duration_a hw s)" by (auto simp: duration_a_def)
  show "crb_register (tpm_write32 hw v f s) r = crb_register s r" "tpm_buff (tpm_write32 hw v f s) = tpm_buff s"
    "crb_register (snd (tpm_read32 hw f s)) r = crb_register s r" "tpm_buff (snd (tpm_read32 hw f s)) = tpm_buff s"
    "crb_register (timeout_a hw s) r = crb_register s r" "tpm_buff (timeout_a hw s) = tpm_buff s"
    "crb_register (timeout_b hw s) r = crb_register s r" "crb_register (tpm2_timeout_c hw s) r = crb_register s r"
    "crb_register (duration_a hw s) r = crb_register s r" "tpm_buff (duration_a hw s) = tpm_buff s"
    using x [OF d] by (auto intro!: x)
qed

lemma is_idle_event: "is_idle hw s = (i, s') \<Longrightarrow> io_ext tpm_event s s'"
  using tpm_read_event(2) [of "crb_register s TPM_CRB_CTRL_STS" s hw]
  by (auto simp: is_idle_def Let_def split: prod.splits)

lemma tpm_write_delay_event:
  assumes "tpm_page (tpm_addr f)"
  shows "io_ext tpm_event s (timeout_b hw (tpm_write32 hw y f s))"
    "io_ext tpm_event s (tpm2_timeout_c hw (tpm_write32 hw y f s))"
    "io_ext tpm_event s (duration_a hw (tpm_write32 hw y f s))"
proof -
  note w = io_ext_trans [OF tpm_write_event(2) [OF assms, of s hw y]]
  show "io_ext tpm_event s (timeout_b hw (tpm_write32 hw y f s))" by (rule w) simp
  show "io_ext tpm_event s (tpm2_timeout_c hw (tpm_write32 hw y f s))" by (rule w) simp
  show "io_ext tpm_event s (duration_a hw (tpm_write32 hw y f s))" unfolding duration_a_def by (rule w) blast
qed

lemma cancel_send_event: "io_ext tpm_event s (cancel_send hw s)"
proof -
  let ?s1 = "snd (tpm_read32 hw (crb_register s TPM_CRB_CTRL_START) s)"
  let ?s2 = "timeout_b hw (tpm_write32 hw 1 (crb_register s TPM_CRB_CTRL_CANCEL) ?s1)"
  have "io_ext tpm_event s ?s1" by (rule tpm_read_event(2)) simp
  moreover have "io_ext tpm_event ?s1 ?s2" by (rule tpm_write_delay_event(1)) simp
  moreover have "io_ext tpm_event ?s2 (tpm_write32 hw 0 (crb_register s TPM_CRB_CTRL_CANCEL) ?s2)"
    by (rule tpm_write_event(2)) simp
  ultimately show ?thesis
    using io_ext_trans by (simp add: cancel_send_def is_cmd_exec_def Let_def split_beta) blast
qed

text \<open>The course of \<^verbatim>\<open>crb_send\<close>, with its states made explicit.\<close>

lemma crb_send_unfold:
  "crb_send hw s =
     (let s1 = snd (is_idle hw s);
          r2 = tpm_read32 hw (crb_register s TPM_CRB_CTRL_START)
                 (duration_a hw (tpm_write32 hw 1 (crb_register s TPM_CRB_CTRL_START) s1));
          r3 = tpm_read32 hw (crb_register s TPM_CRB_CTRL_START) (timeout_a hw (snd r2))
      in if fst (is_idle hw s) then (0, s1)
         else if fst r2 = 0 then (b_len (tpm_buff s), snd r2)
         else if fst r3 = 0 then (b_len (tpm_buff s), snd r3)
         else (sizeof_tpm_header, cancel_send hw (snd r3)))"
proof -
  have "io_ext tpm_event s (snd (is_idle hw s))"
    using is_idle_event [of hw s] by (metis prod.collapse)
  from io_ext_tpm [OF this]
  have "crb_register (snd (is_idle hw s)) r = crb_register s r" "tpm_buff (snd (is_idle hw s)) = tpm_buff s" for r
    by (simp_all add: crb_register_def)
  then show ?thesis by (simp add: crb_send_def Let_def split_beta cong: if_cong)
qed

lemma crb_send_event:
  assumes "crb_send hw s = (r, s')"
  shows "io_ext tpm_event s s'"
proof -
  define s1 where "s1 = snd (is_idle hw s)"
  define s2 where "s2 = duration_a hw (tpm_write32 hw 1 (crb_register s TPM_CRB_CTRL_START) s1)"
  define r2 where "r2 = tpm_read32 hw (crb_register s TPM_CRB_CTRL_START) s2"
  define r3 where "r3 = tpm_read32 hw (crb_register s TPM_CRB_CTRL_START) (timeout_a hw (snd r2))"
  have 1: "io_ext tpm_event s s1" using is_idle_event [of hw s] unfolding s1_def by (metis prod.collapse)
  have "io_ext tpm_event s1 s2" unfolding s2_def by (rule tpm_write_delay_event(3)) simp
  with 1 have "io_ext tpm_event s s2" by (rule io_ext_trans)
  moreover have "io_ext tpm_event s2 (snd r2)" unfolding r2_def by (rule tpm_read_event(2)) simp
  ultimately have 2: "io_ext tpm_event s (snd r2)" by (rule io_ext_trans)
  have "io_ext tpm_event (snd r2) (timeout_a hw (snd r2))" by simp
  from io_ext_trans [OF 2 this] have "io_ext tpm_event s (timeout_a hw (snd r2))" .
  moreover have "io_ext tpm_event (timeout_a hw (snd r2)) (snd r3)" unfolding r3_def by (rule tpm_read_event(2)) simp
  ultimately have 3: "io_ext tpm_event s (snd r3)" by (rule io_ext_trans)
  have "(if fst (is_idle hw s) then (0, s1) else if fst r2 = 0 then (b_len (tpm_buff s), snd r2)
      else if fst r3 = 0 then (b_len (tpm_buff s), snd r3) else (sizeof_tpm_header, cancel_send hw (snd r3))) = (r, s')"
    using assms unfolding crb_send_unfold Let_def s1_def r2_def r3_def s2_def .
  then have "s' \<in> {s1, snd r2, snd r3, cancel_send hw (snd r3)}" by (auto split: if_splits)
  then show ?thesis using 1 2 3 io_ext_trans [OF 3 cancel_send_event] by auto
qed

lemma crb_recv_frame: "receivable (tpm_buff s) \<Longrightarrow> recv_frame s (snd (crb_recv f s))"
  using inside_recv_frame [of "tpm_buff s" "tpm_buff s" s s] by (simp add: crb_recv_def receivable_def)

lemma crb_relinquish_frame: "locality_frame s (crb_relinquish_locality hw s)"
  unfolding crb_relinquish_locality_def crb_relinquish_locality_internal_def
  by (rule locality_frame_io, rule tpm_write_event(2)) simp

lemma crb_request_frame:
  assumes "crb_request_locality hw l s = (g, s')"
  shows "locality_frame s s' \<and> (g = l \<or> g = TPM_NO_LOCALITY)"
proof -
  obtain v s1 where 1: "tpm_read8 hw (REGISTER 0 TPM_LOC_STATE) s = (v, s1)"
    by (cases "tpm_read8 hw (REGISTER 0 TPM_LOC_STATE) s")
  have f1: "locality_frame s s1"
    using locality_frame_io [OF tpm_read_event(1) [of "REGISTER 0 TPM_LOC_STATE" s hw]] 1 by simp
  define s2 where "s2 = (if loc_assigned v then crb_relinquish_locality_internal hw 1 s1 else s1)"
  have "locality_frame s1 s2"
    by (simp add: s2_def crb_relinquish_locality_internal_def locality_frame_io tpm_write_event(2))
  define s3 where "s3 = tpm_write32 hw (set_request_access (junk32 hw s2)) (REGISTER (ucast l) TPM_LOC_CTRL) s2"
  have "locality_frame s2 s3" unfolding s3_def by (rule locality_frame_io, rule tpm_write_event(2)) simp
  obtain w s4 where 4: "tpm_read32 hw (REGISTER (ucast l) TPM_LOC_STS) s3 = (w, s4)"
    by (cases "tpm_read32 hw (REGISTER (ucast l) TPM_LOC_STS) s3")
  have "locality_frame s3 s4"
    using locality_frame_io [OF tpm_read_event(2) [of "REGISTER (ucast l) TPM_LOC_STS" s3 hw]] 4 by simp
  with \<open>locality_frame s2 s3\<close> \<open>locality_frame s1 s2\<close> f1 have f4: "locality_frame s s4"
    using locality_frame_trans by blast
  have "(g = l \<and> s' = s1\<lparr>crb_locality := l\<rparr>) \<or> (g = l \<and> s' = s4\<lparr>crb_locality := l\<rparr>)
      \<or> (g = TPM_NO_LOCALITY \<and> s' = s4\<lparr>crb_locality := TPM_NO_LOCALITY\<rparr>)"
    using assms 1 4 by (auto simp: crb_request_locality_def Let_def s3_def s2_def split: if_splits)
  then show ?thesis
    using locality_frame_trans [OF f1 locality_frame_set(2)] locality_frame_trans [OF f4 locality_frame_set(2)] by blast
qed

interpretation crb: tpm_driver "\<lambda>s. Some (crb_send hw s)" "\<lambda>s. Some (crb_recv f s)"
  "\<lambda>l s. Some (crb_request_locality hw l s)" "\<lambda>s. Some (crb_relinquish_locality hw s)"
  for hw :: "'d hw" and f
proof unfold_locales
  show "Some (crb_recv f s) = Some (r, s') \<Longrightarrow> receivable (tpm_buff s) \<Longrightarrow> recv_frame s s'"
    for s s' :: "('d, 'x) tpm_machine_scheme" and r
    using crb_recv_frame [of s f] by simp
  show "Some (crb_relinquish_locality hw s) = Some s' \<Longrightarrow> locality_frame s s'"
    for s s' :: "('d, 'x) tpm_machine_scheme"
    using crb_relinquish_frame [of s hw] by simp
qed (simp_all add: crb_send_event crb_request_frame)

text \<open>The table of operations dispatches to one of the two.\<close>

interpretation ops: tpm_driver "ops_send hw" "ops_recv hw" "ops_request_locality hw" "ops_relinquish_locality hw"
  for hw :: "'d hw"
proof unfold_locales
  fix s s' :: "('d, 'x) tpm_machine_scheme" and r
  show "ops_send hw s = Some (r, s') \<Longrightarrow> io_ext tpm_event s s'"
    by (auto simp: ops_send_def split: tpm_ops.splits intro: tis.send_io crb.send_io)
  show "ops_recv hw s = Some (r, s') \<Longrightarrow> receivable (tpm_buff s) \<Longrightarrow> recv_frame s s'"
    by (auto simp: ops_recv_def split: tpm_ops.splits intro: tis.recv_in crb.recv_in)
next
  fix s s' :: "('d, 'x) tpm_machine_scheme" and l g
  show "ops_request_locality hw l s = Some (g, s') \<Longrightarrow> locality_frame s s' \<and> (g = l \<or> g = TPM_NO_LOCALITY)"
    using tis.request_in [of hw l s g s'] crb.request_in [of hw l s g s']
    by (simp add: ops_request_locality_def split: tpm_ops.splits)
  show "ops_relinquish_locality hw s = Some s' \<Longrightarrow> locality_frame s s'"
    using tis.relinquish_in [of hw s s'] crb.relinquish_in [of hw s s']
    by (simp add: ops_relinquish_locality_def split: tpm_ops.splits)
qed

end
