(* ===== verification/Tpm_Marshal.thy ===== *)
theory Tpm_Marshal
  imports Tpm_Driver
begin

text \<open>
  What the commands look like in the buffer: \<^verbatim>\<open>tpm1_pcr_extend\<close> and \<^verbatim>\<open>tpm2_extend_pcr\<close>
  marshal exactly the messages of the TPM specifications.
\<close>

section \<open>Reference: the commands on the wire\<close>

text \<open>TPM_Extend of the TPM 1.2 main specification.\<close>

definition tpm1_message :: "u32 \<Rightarrow> u8 list \<Rightarrow> u8 list" where
  "tpm1_message pcr digest =
     be_bytes 2 (0x00C1 :: u16) @ be_bytes 4 (34 :: u32) @ be_bytes 4 (0x14 :: u32) @ be_bytes 4 pcr @ digest"

text \<open>TPM2_PCR_Extend with one digest, authorised by the empty password.\<close>

definition tpm2_message :: "u32 \<Rightarrow> u16 \<Rightarrow> u8 list \<Rightarrow> u8 list" where
  "tpm2_message pcr alg digest =
     be_bytes 2 (0x8002 :: u16) @ be_bytes 4 (of_nat (33 + length digest) :: u32) @ be_bytes 4 (0x182 :: u32)
     @ be_bytes 4 pcr
     @ be_bytes 4 (9 :: u32) @ be_bytes 4 (0x40000009 :: u32) @ replicate 5 0
     @ be_bytes 4 (1 :: u32) @ be_bytes 2 alg @ digest"

lemma length_tpm1_message: "length digest = 20 \<Longrightarrow> length (tpm1_message pcr digest) = 34"
  by (simp add: tpm1_message_def)

lemma length_tpm2_message: "length (tpm2_message pcr alg digest) = 33 + length digest"
  by (simp add: tpm2_message_def)

section \<open>Filling the buffer\<close>

text \<open>The reserved buffer with \<open>k\<close> bytes in use.\<close>

definition at_len :: "('d, 'x) tpm_machine_scheme \<Rightarrow> nat \<Rightarrow> bool" where
  "at_len s k \<longleftrightarrow> buff_inv (tpm_buff s) \<and> b_locked (tpm_buff s) \<noteq> 0 \<and> unat (b_len (tpm_buff s)) = k"

abbreviation head_at :: "('d, 'x) tpm_machine_scheme \<Rightarrow> addr" where
  "head_at s \<equiv> unat (b_head (tpm_buff s))"

abbreviation size_at :: "('d, 'x) tpm_machine_scheme \<Rightarrow> nat" where
  "size_at s \<equiv> unat (b_truesize (tpm_buff s))"

text \<open>\<open>s'\<close> differs from \<open>s\<close> in the buffer only, which keeps its place and size.\<close>

definition buffer_only :: "('d, 'x) tpm_machine_scheme \<Rightarrow> ('d, 'x) tpm_machine_scheme \<Rightarrow> bool" where
  "buffer_only s s' \<longleftrightarrow> dev s' = dev s \<and> trace s' = trace s \<and> pci_ops s' = pci_ops s
     \<and> mmio_base_addr s' = mmio_base_addr s \<and> tis_locality s' = tis_locality s
     \<and> crb_locality s' = crb_locality s \<and> tpm_st s' = tpm_st s
     \<and> tpm_machine.more s' = tpm_machine.more s
     \<and> b_head (tpm_buff s') = b_head (tpm_buff s) \<and> b_truesize (tpm_buff s') = b_truesize (tpm_buff s)"

lemma buffer_only_refl [simp]: "buffer_only s s"
  by (simp add: buffer_only_def)

lemma buffer_only_trans [trans]: "buffer_only s t \<Longrightarrow> buffer_only t u \<Longrightarrow> buffer_only s u"
  by (simp add: buffer_only_def)

lemma poke_simps [simp]:
  "tpm_buff (poke a bs s) = tpm_buff s" "ram (poke a bs s) = mem_write (ram s) a bs"
  "at_len (poke a bs s) k = at_len s k" "buffer_only s (poke a bs t) = buffer_only s t"
  by (simp_all add: poke_def at_len_def buffer_only_def)

lemma buffer_only_head: "buffer_only s s' \<Longrightarrow> head_at s' = head_at s \<and> size_at s' = size_at s"
  by (simp add: buffer_only_def)

lemma reserve_step:
  assumes "buff_inv (tpm_buff s)"
  obtains s' where "buff_reserve (buff_free s) = (b_head (tpm_buff s), s')" "b_head (tpm_buff s) \<noteq> 0"
    "at_len s' 10" "buffer_only s s'"
    "ram s' = mem_write (ram s) (head_at s) (replicate (unat (b_len (tpm_buff s))) 0)"
proof -
  let ?s = "snd (buff_reserve (buff_free s))"
  have "buff_inv (tpm_buff (buff_free s))" using buff_free_frame [OF assms] by (simp add: buff_frame_def)
  then have i: "buff_inv (tpm_buff ?s)" using buff_reserve_frame by (auto simp: buff_frame_def)
  have e: "buff_reserve (buff_free s) = (b_head (tpm_buff s), ?s)"
    by (simp add: buff_reserve_def buff_free_def tpmb_reserve_def tpmb_free_def Let_def)
  have "at_len ?s 10"
    using i by (simp add: at_len_def) (simp add: buff_reserve_def buff_free_def tpmb_reserve_def tpmb_free_def
      sizeof_tpm_header_def Let_def)
  moreover have "buffer_only s ?s"
    by (simp add: buffer_only_def buff_reserve_def buff_free_def tpmb_reserve_def tpmb_free_def Let_def)
  moreover have "ram ?s = mem_write (ram s) (head_at s) (replicate (unat (b_len (tpm_buff s))) 0)"
    by (simp add: buff_reserve_def buff_free_def tpmb_reserve_def tpmb_free_def Let_def)
  ultimately show thesis using that [OF e] assms by (simp add: buff_inv_def)
qed

lemma put_step:
  assumes a: "at_len s k" and n: "n < 2 ^ 32" and fit: "k + unat n \<le> size_at s"
  obtains p s' where "buff_put n s = (p, s')" "p \<noteq> 0" "unat p = head_at s + k"
    "at_len s' (k + unat n)" "buffer_only s s'" "ram s' = ram s"
proof -
  let ?b = "tpm_buff s" and ?s = "snd (buff_put n s)" and ?p = "fst (buff_put n s)"
  have i: "buff_inv ?b" "b_locked ?b \<noteq> 0" "unat (b_len ?b) = k" using a by (simp_all add: at_len_def)
  note spec = tpmb_put_spec [OF i(1,2) n] and frame = buff_put_frame [OF i(1,2) n]
  have put: "tpmb_put ?b n = (b_head ?b + b_len ?b,
      ?b\<lparr>b_tail := b_head ?b + (b_len ?b + n), b_len := b_len ?b + n\<rparr>)"
    and p: "unat (b_head ?b + b_len ?b) = head_at s + k" "b_head ?b + b_len ?b \<noteq> 0"
    using spec fit by (simp_all add: i(3))
  have "unat (b_len ?b + n) = k + unat n"
    using put_sum [of "b_len ?b" "b_truesize ?b" n] i n by (simp add: buff_inv_def)
  then have "at_len ?s (k + unat n)"
    using frame i put by (simp add: at_len_def buff_frame_def) (simp add: buff_put_def)
  moreover have "buffer_only s ?s" "ram ?s = ram s" using put by (simp_all add: buffer_only_def buff_put_def)
  moreover have "?p = b_head ?b + b_len ?b" using put by (simp add: buff_put_def)
  moreover have "buff_put n s = (?p, ?s)" by simp
  ultimately show thesis using that [of ?p ?s] p by metis
qed

lemma at_len_word: "at_len s k \<Longrightarrow> b_len (tpm_buff s) = of_nat k"
  by (metis at_len_def of_nat_unat ucast_id)

section \<open>TPM 1.2\<close>

lemma tpm1_build_message:
  assumes i: "buff_inv (tpm_buff s)" and sz: "34 \<le> size_at s" and d: "20 \<le> length digest"
  shows "\<exists>s'. tpm1_build pcr digest s = (0, s') \<and> buffer_only s s' \<and> at_len s' 34
    \<and> mem_read (ram s') (head_at s) 34 = tpm1_message pcr (take 20 digest)"
proof -
  let ?h = "head_at s"
  obtain s1 where 1: "buff_reserve (buff_free s) = (b_head (tpm_buff s), s1)" "b_head (tpm_buff s) \<noteq> 0"
    "at_len s1 10" "buffer_only s s1" by (rule reserve_step [OF i])
  define s2 where "s2 = poke (?h + 6) (le_bytes 4 (bswap32 TPM_ORD_EXTEND)) (poke ?h (le_bytes 2 (bswap16 TPM_TAG_RQU_COMMAND)) s1)"
  have b2: "at_len s2 10" "buffer_only s s2" "size_at s2 = size_at s" "head_at s2 = ?h"
    using 1 buffer_only_head [OF 1(4)] by (simp_all add: s2_def)
  obtain p s3 where 3: "buff_put 24 s2 = (p, s3)" "p \<noteq> 0" "unat p = ?h + 10" "at_len s3 34" "buffer_only s2 s3" "ram s3 = ram s2"
    by (rule put_step [OF b2(1), of 24]) (use sz b2 in simp_all)
  have l3: "tpmb_size (tpm_buff s3) = 34"
    using at_len_word [OF 3(4)] by (simp add: tpmb_size_def)
  let ?s4 = "poke (?h + 2) (le_bytes 4 (bswap32 34)) (poke (?h + 14) (take 20 digest) (poke (?h + 10) (le_bytes 4 (bswap32 pcr)) s3))"
  have e: "tpm1_build pcr digest s = (0, ?s4)"
    using 1(1,2) 3(1,2,3) l3 by (simp add: tpm1_build_def s2_def Let_def) (simp add: add.commute)
  have bo: "buffer_only s ?s4" using b2(2) 3(5) buffer_only_trans by simp
  have split: "mem_read m ?h 34 = mem_read m ?h 2 @ mem_read m (?h + 2) 4 @ mem_read m (?h + 6) 4
      @ mem_read m (?h + 10) 4 @ mem_read m (?h + 14) 20" for m
    by (simp add: mem_read_cut [of 2 34] mem_read_cut [of 4 32] mem_read_cut [of 4 28] mem_read_cut [of 4 24])
      (simp add: add.commute)
  have "mem_read (ram ?s4) ?h 34 = tpm1_message pcr (take 20 digest)"
    unfolding split using d
    by (simp add: mem_simps 3(6) s2_def tpm1_message_def TPM_TAG_RQU_COMMAND_def TPM_ORD_EXTEND_def)
  with e bo 3(4) show ?thesis by (intro exI [of _ ?s4]) simp
qed


section \<open>TPM 2.0: the list of digests\<close>

lemma one_digest_bytes:
  assumes "length buf = 70" "length digest \<le> 64"
  shows "one_digest buf alg digest = le_bytes 4 (1 :: u32) @ le_bytes 2 alg @ digest @ drop (6 + length digest) buf"
  using assms by (simp add: one_digest_def overwrite_def add.commute)

text \<open>The size of a digest that \<^verbatim>\<open>convert_digest_list\<close> counts: that of SHA-1 for SM3_256.\<close>

definition counted_size :: "u16 \<Rightarrow> nat" where
  "counted_size alg = (if alg = TPM_ALG_SM3_256 then 20 else the (extend_size alg))"

lemma digest_step_size:
  "extend_size alg = Some n \<Longrightarrow> digest_step alg = Some (n, counted_size alg) \<and> counted_size alg \<le> n \<and> n \<le> 64"
  by (auto simp: extend_size_def counted_size_def tpm_sizes tpm_algs split: if_splits)

lemma convert_one_digest:
  assumes b: "length buf = 70" and n: "extend_size alg = Some n" and d: "length digest = n"
  shows "convert_digest_list (one_digest buf alg digest)
    = Inr (of_nat (6 + counted_size alg), be_bytes 4 (1 :: u32) @ be_bytes 2 alg @ digest @ drop (6 + n) buf)"
proof -
  note ds = digest_step_size [OF n]
  let ?rest = "drop (6 + n) buf"
  have o: "one_digest buf alg digest = le_bytes 4 (1 :: u32) @ le_bytes 2 alg @ digest @ ?rest"
    using one_digest_bytes [OF b, of digest alg] d ds by simp
  have c: "of_le (take 4 (one_digest buf alg digest)) = (1 :: u32)" by (simp add: o of_le_le_bytes)
  have a: "of_le (take 2 (drop 4 (one_digest buf alg digest))) = alg" by (simp add: o of_le_le_bytes)
  have "convert_digests 1 4 4 (one_digest buf alg digest)
      = Inr (Some (4 + (2 + of_nat (counted_size alg))), le_bytes 4 (1 :: u32) @ be_bytes 2 alg @ digest @ ?rest)"
    using ds a by (simp add: One_nat_def del: digest_step.simps) (simp add: o overwrite_def)
  then show ?thesis
    by (simp add: convert_digest_list_def c Let_def overwrite_def)
qed

section \<open>TPM 2.0: the command\<close>

lemma tpm2_build_message:
  assumes i: "buff_inv (tpm_buff s)" and n: "extend_size alg = Some n" and d: "length digest = n"
    and b: "length buf = 70" and sz: "33 + counted_size alg \<le> size_at s"
  shows "\<exists>s'. tpm2_build pcr (one_digest buf alg digest) s = Inr (0, s') \<and> buffer_only s s'
    \<and> at_len s' (33 + counted_size alg)
    \<and> mem_read (ram s') (head_at s) (33 + counted_size alg) = tpm2_message pcr alg (take (counted_size alg) digest)"
proof -
  let ?h = "head_at s" and ?n = "counted_size alg"
  note ds = digest_step_size [OF n]
  obtain s1 where 1: "buff_reserve (buff_free s) = (b_head (tpm_buff s), s1)" "b_head (tpm_buff s) \<noteq> 0"
    "at_len s1 10" "buffer_only s s1" by (rule reserve_step [OF i])
  define s2 where "s2 = poke (?h + 6) (le_bytes 4 (bswap32 TPM_CC_PCR_EXTEND)) (poke ?h (le_bytes 2 (bswap16 TPM_ST_SESSIONS)) s1)"
  have b2: "at_len s2 10" "buffer_only s s2" using 1 by (simp_all add: s2_def)
  have alloc: "tpm2_alloc_cmd TPM_ST_SESSIONS TPM_CC_PCR_EXTEND s = ((b_head (tpm_buff s), 0), s2)"
    using 1(1,2) by (simp add: tpm2_alloc_cmd_def s2_def Let_def)
  obtain p3 s3 where 3: "buff_put 4 s2 = (p3, s3)" "p3 \<noteq> 0" "unat p3 = ?h + 10" "at_len s3 14" "buffer_only s2 s3" "ram s3 = ram s2"
    by (rule put_step [OF b2(1), of 4]) (use sz buffer_only_head [OF b2(2)] in simp_all)
  define s4 where "s4 = poke (?h + 10) (le_bytes 4 (bswap32 pcr)) s3"
  have b4: "at_len s4 14" "buffer_only s s4" using 3 buffer_only_trans [OF b2(2)] by (simp_all add: s4_def)
  obtain p5 s5 where 5: "buff_put 4 s4 = (p5, s5)" "p5 \<noteq> 0" "unat p5 = ?h + 14" "at_len s5 18" "buffer_only s4 s5" "ram s5 = ram s4"
    by (rule put_step [OF b4(1), of 4]) (use sz buffer_only_head [OF b4(2)] in simp_all)
  have b5: "buffer_only s s5" using b4(2) 5(5) by (rule buffer_only_trans)
  obtain p6 s6 where 6: "buff_put NULL_AUTH_SIZE s5 = (p6, s6)" "p6 \<noteq> 0" "unat p6 = ?h + 18" "at_len s6 27" "buffer_only s5 s6" "ram s6 = ram s5"
    by (rule put_step [OF 5(4), of NULL_AUTH_SIZE])
      (use sz buffer_only_head [OF b5] in \<open>simp_all add: NULL_AUTH_SIZE_def\<close>)
  define s7 where "s7 = poke (?h + 14) (le_bytes 4 (bswap32 9))
    (poke (?h + 18) (le_bytes 4 (bswap32 TPM_RS_PW)) (poke (?h + 18) (replicate 9 0) s6))"
  have b7: "at_len s7 27" "buffer_only s s7" using 6 buffer_only_trans [OF b5] by (simp_all add: s7_def)
  have h: "tpm2_handles pcr s2 = (0, s7)"
    using 3(1,2,3) 5(1,2,3) 6(1,2,3)
    by (simp add: tpm2_handles_def tpm2_null_auth_def tpm2_null_auth_size_def s4_def s7_def Let_def NULL_AUTH_SIZE_def)
  let ?sz = "of_nat (6 + ?n) :: u16"
  have usz: "unat ?sz = 6 + ?n" using ds by (intro unat_of_nat_small) simp
  have uu: "unat (ucast ?sz :: u64) = 6 + ?n"
    using usz ds by (simp add: unsigned_ucast_eq take_bit_nat_eq_self)
  have nz: "?sz \<noteq> 0" using usz by (metis add_is_0 unsigned_0 zero_neq_numeral)
  obtain p8 s8 where 8: "buff_put (ucast ?sz) s7 = (p8, s8)" "p8 \<noteq> 0" "unat p8 = ?h + 27" "at_len s8 (27 + (6 + ?n))"
      "buffer_only s7 s8" "ram s8 = ram s7"
    by (rule put_step [OF b7(1), of "ucast ?sz"])
      (use sz ds buffer_only_head [OF b7(2)] uu in \<open>simp_all add: word_less_nat_alt\<close>)
  let ?params = "be_bytes 4 (1 :: u32) @ be_bytes 2 alg @ take ?n digest"
  define s9 where "s9 = poke (?h + 2) (le_bytes 4 (bswap32 (of_nat (33 + ?n)))) (poke (?h + 27) ?params s8)"
  have lb: "(ucast (tpmb_size (tpm_buff s8)) :: u32) = of_nat (33 + ?n)"
    using ds unfolding tpmb_size_def at_len_word [OF 8(4)]
    by (simp only: unsigned_of_nat) (simp add: take_bit_nat_eq_self)
  have par: "tpm2_params (b_head (tpm_buff s)) (one_digest buf alg digest) s7 = Inr (0, s9)"
    using 8(1,2,3) nz usz ds d b lb
    by (simp add: tpm2_params_def convert_one_digest [OF b n d] s9_def Let_def min_def)
  have e: "tpm2_build pcr (one_digest buf alg digest) s = Inr (0, s9)"
    by (simp add: tpm2_build_def alloc h par)
  have bo: "buffer_only s s9" using buffer_only_trans [OF b7(2) 8(5)] by (simp add: s9_def)
  have len: "length ?params = 6 + ?n" using d ds by simp
  have split: "mem_read m ?h (33 + ?n) = mem_read m ?h 2 @ mem_read m (?h + 2) 4 @ mem_read m (?h + 6) 4
      @ mem_read m (?h + 10) 4 @ mem_read m (?h + 14) 4 @ mem_read m (?h + 18) 4
      @ mem_read m (?h + 22) 5 @ mem_read m (?h + 27) (6 + ?n)" for m
    by (simp add: mem_read_cut [of 2 "33 + ?n"] mem_read_cut [of 4 "31 + ?n"] mem_read_cut [of 4 "27 + ?n"]
        mem_read_cut [of 4 "23 + ?n"] mem_read_cut [of 4 "19 + ?n"] mem_read_cut [of 4 "15 + ?n"] mem_read_cut [of 5 "11 + ?n"])
      (simp add: add.commute)
  have zeros: "mem_read (mem_write m (?h + 18) (replicate 9 0)) (?h + 22) 5 = replicate 5 0" for m
    using mem_read_write_part [of 4 5 "replicate 9 0" m "?h + 18"] by (simp add: add.assoc)
  have "mem_read (ram s9) ?h (33 + ?n) = tpm2_message pcr alg (take ?n digest)"
    unfolding split using d ds len
    by (simp add: mem_simps zeros 3(6) 5(6) 6(6) 8(6) s9_def s7_def s4_def s2_def tpm2_message_def
        TPM_ST_SESSIONS_def TPM_CC_PCR_EXTEND_def TPM_RS_PW_def)
  with e bo 8(4) show ?thesis by (intro exI [of _ s9]) (simp add: s9_def)
qed

end
