(* ===== verification/Crb_Props.thy ===== *)
theory Crb_Props
  imports Crb
begin

text \<open>
  The accesses of the CRB driver, in their order: how a command is started, awaited and
  cancelled, and what a request for a locality asks of the TPM.
\<close>

section \<open>Runs of single accesses\<close>

definition store_events :: "io_event list \<Rightarrow> io_event list" where
  "store_events evs = filter (\<lambda>e. case e of Store _ _ _ \<Rightarrow> True | _ \<Rightarrow> False) evs"

lemma store_events_simps [simp]:
  "store_events [] = []" "store_events (Store a n v # evs) = Store a n v # store_events evs" "store_events (Load a n v # evs) = store_events evs"
  "store_events (e1 @ e2) = store_events e1 @ store_events e2"
  by (simp_all add: store_events_def)

lemma run_write32: "io_run s [Store (tpm_addr f) 4 (ucast v)] (tpm_write32 hw v f s)"
  by (simp add: io_run_def tpm_write32_def io_defs)

lemma run_read32:
  assumes "tpm_read32 hw f s = (v, s')"
  shows "io_run s [Load (tpm_addr f) 4 (ucast v)] s'"
proof -
  have "(ucast (ucast (take_bit 32 (x :: u64)) :: u32) :: u64) = take_bit 32 x" for x
    by (rule bit_word_eqI) (auto simp: bit_simps dest: bit_imp_le_length)
  then show ?thesis
    using assms by (auto simp: io_run_def tpm_read32_def ioread32_def mmio_load_def log_io_def Let_def split: prod.splits)
qed

lemma run_read8:
  assumes "tpm_read8 hw f s = (v, s')"
  shows "io_run s [Load (tpm_addr f) 1 (ucast v)] s'"
proof -
  have "(ucast (ucast (take_bit 8 (x :: u64)) :: u8) :: u64) = take_bit 8 x" for x
    by (rule bit_word_eqI) (auto simp: bit_simps dest: bit_imp_le_length)
  then show ?thesis
    using assms by (auto simp: io_run_def tpm_read8_def ioread8_def mmio_load_def log_io_def Let_def split: prod.splits)
qed

lemma run_mdelay: "io_run s [] (tpm_mdelay hw n s)"
proof -
  have "io_ext (\<lambda>_. True) s (tpm_mdelay hw n s)" by (rule io_ext_mdelay)
  from io_ext_run [OF this] obtain evs where e: "io_run s evs (tpm_mdelay hw n s)" by blast
  with io_run_trace [OF e] show ?thesis by simp
qed

lemma run_delays:
  "io_run s [] (timeout_a hw s)" "io_run s [] (timeout_b hw s)" "io_run s [] (tpm2_timeout_c hw s)"
  "io_run s [] (duration_a hw s)"
  by (simp_all add: timeout_a_def timeout_b_def tpm2_timeout_c_def duration_a_def run_mdelay)

lemma run_same:
  assumes "io_run (s :: ('d, 'x) tpm_machine_scheme) evs s'"
  shows "crb_register s' r = crb_register s r" "tpm_buff s' = tpm_buff s" "crb_locality s' = crb_locality s"
  using io_ext_tpm [OF io_run_ext [OF assms, of "\<lambda>_. True"]] by (simp_all add: crb_register_def)

section \<open>Sending\<close>

abbreviation crb_store :: "('d, 'x) tpm_machine_scheme \<Rightarrow> u32 \<Rightarrow> u64 \<Rightarrow> io_event" where
  "crb_store s r v \<equiv> Store (tpm_addr (crb_register s r)) 4 v"

abbreviation crb_load :: "('d, 'x) tpm_machine_scheme \<Rightarrow> u32 \<Rightarrow> u64 \<Rightarrow> io_event" where
  "crb_load s r v \<equiv> Load (tpm_addr (crb_register s r)) 4 v"

lemma is_idle_run:
  assumes "is_idle hw s = (i, s')"
  shows "\<exists>v. i = tpm_idle v \<and> io_run s [crb_load s TPM_CRB_CTRL_STS (ucast v)] s'"
  using assms run_read32 [of hw "crb_register s TPM_CRB_CTRL_STS" s] by (auto simp: is_idle_def split: prod.splits)

lemma cancel_send_run:
  "\<exists>v :: u32. io_run s (if v = 1
      then [crb_load s TPM_CRB_CTRL_START (ucast v), crb_store s TPM_CRB_CTRL_CANCEL 1, crb_store s TPM_CRB_CTRL_CANCEL 0]
      else [crb_load s TPM_CRB_CTRL_START (ucast v)]) (cancel_send hw s)"
proof -
  obtain v s1 where 1: "tpm_read32 hw (crb_register s TPM_CRB_CTRL_START) s = (v, s1)"
    by (cases "tpm_read32 hw (crb_register s TPM_CRB_CTRL_START) s")
  note r1 = run_read32 [OF 1]
  show ?thesis
  proof (cases "v = 1")
    case False
    with 1 r1 show ?thesis by (intro exI [of _ v]) (simp add: cancel_send_def is_cmd_exec_def)
  next
    case True
    let ?c = "crb_register s TPM_CRB_CTRL_CANCEL"
    let ?s2 = "tpm_write32 hw 1 ?c s1" and ?s3 = "timeout_b hw (tpm_write32 hw 1 ?c s1)"
    have r2: "io_run s1 [crb_store s TPM_CRB_CTRL_CANCEL 1] ?s2" using run_write32 [of s1 ?c 1 hw] by simp
    have r3: "io_run ?s2 [] ?s3" by (rule run_delays)
    have r4: "io_run ?s3 [crb_store s TPM_CRB_CTRL_CANCEL 0] (tpm_write32 hw 0 ?c ?s3)"
      using run_write32 [of ?s3 ?c 0 hw] by simp
    from io_run_append [OF io_run_append [OF io_run_append [OF r1 r2] r3] r4] True
    show ?thesis
      using 1 run_same(1) [OF r1] run_same(1) [OF r2] run_same(1) [OF r3]
      by (intro exI [of _ v]) (simp add: cancel_send_def is_cmd_exec_def Let_def)
  qed
qed

text \<open>
  \<^verbatim>\<open>crb_send\<close> always returns, and for any hardware its stores are these: none when the
  interface is idle (result 0); Start, once, and a read of Start that gives 0 as the last
  access when the command completes (result: its length); Start, then possibly Cancel set
  and cleared, when it does not complete in time (result: the size of a header).
\<close>

lemma crb_send_run:
  assumes "crb_send hw s = (r, s')"
  shows "\<exists>evs. io_run s evs s'
    \<and> (r = 0 \<and> store_events evs = []
       \<or> r = b_len (tpm_buff s) \<and> store_events evs = [crb_store s TPM_CRB_CTRL_START 1] \<and> last evs = crb_load s TPM_CRB_CTRL_START 0
       \<or> r = sizeof_tpm_header \<and> (store_events evs = [crb_store s TPM_CRB_CTRL_START 1]
           \<or> store_events evs = [crb_store s TPM_CRB_CTRL_START 1, crb_store s TPM_CRB_CTRL_CANCEL 1, crb_store s TPM_CRB_CTRL_CANCEL 0]))"
proof -
  let ?start = "crb_register s TPM_CRB_CTRL_START"
  obtain i s1 where 1: "is_idle hw s = (i, s1)" by (cases "is_idle hw s")
  obtain w where r1: "io_run s [crb_load s TPM_CRB_CTRL_STS (ucast (w :: u32))] s1" using is_idle_run [OF 1] by blast
  note e1 = run_same [OF r1]
  let ?s2 = "duration_a hw (tpm_write32 hw 1 ?start s1)"
  obtain v s3 where 3: "tpm_read32 hw ?start ?s2 = (v, s3)" by (cases "tpm_read32 hw ?start ?s2")
  obtain x s4 where 4: "tpm_read32 hw ?start (timeout_a hw s3) = (x, s4)" by (cases "tpm_read32 hw ?start (timeout_a hw s3)")
  have w2: "io_run s1 [crb_store s TPM_CRB_CTRL_START 1] (tpm_write32 hw 1 ?start s1)"
    using run_write32 [of s1 ?start 1 hw] by simp
  have r2: "io_run s [crb_load s TPM_CRB_CTRL_STS (ucast w), crb_store s TPM_CRB_CTRL_START 1] ?s2"
    using io_run_append [OF io_run_append [OF r1 w2] run_delays(4), of hw] by simp
  note r3 = io_run_append [OF r2 run_read32 [OF 3]]
  have r4: "io_run (timeout_a hw s3) [crb_load s TPM_CRB_CTRL_START (ucast x)] s4" by (rule run_read32 [OF 4])
  note r5 = io_run_append [OF io_run_append [OF r3 run_delays(1), of hw] r4]
  have regs: "crb_register ?s2 = crb_register s" "crb_register s3 = crb_register s" "crb_register s4 = crb_register s"
    "crb_register (timeout_a hw s3) = crb_register s"
    "tpm_buff s3 = tpm_buff s" "tpm_buff s4 = tpm_buff s" "tpm_buff s1 = tpm_buff s" "crb_register s1 = crb_register s"
    using run_same [OF r2] run_same [OF r3] run_same [OF r5] e1 run_same(1) [OF run_delays(1), of hw s3] by (auto intro!: ext)
  have e: "(if i then (0, s1) else if v = 0 then (b_len (tpm_buff s), s3)
      else if x = 0 then (b_len (tpm_buff s), s4) else (sizeof_tpm_header, cancel_send hw s4)) = (r, s')"
    using assms 1 3 4 regs by (auto simp: crb_send_def Let_def split: if_splits)
  obtain y where rc: "io_run s4 (if y = (1 :: u32)
      then [crb_load s TPM_CRB_CTRL_START (ucast y), crb_store s TPM_CRB_CTRL_CANCEL 1, crb_store s TPM_CRB_CTRL_CANCEL 0]
      else [crb_load s TPM_CRB_CTRL_START (ucast y)]) (cancel_send hw s4)"
    using cancel_send_run [of s4 hw] unfolding regs by blast
  note r6 = io_run_append [OF r5 rc]
  have "r = 0 \<and> s' = s1 \<or> r = b_len (tpm_buff s) \<and> v = 0 \<and> s' = s3
      \<or> r = b_len (tpm_buff s) \<and> x = 0 \<and> s' = s4 \<or> r = sizeof_tpm_header \<and> s' = cancel_send hw s4"
    using e by (auto split: if_splits)
  then show ?thesis
  proof (elim disjE conjE)
    assume "r = 0" "s' = s1"
    with r1 show ?thesis by (metis store_events_simps(1,3))
  next
    assume "r = b_len (tpm_buff s)" "v = 0" "s' = s3"
    then show ?thesis using r3 by (intro exI, intro conjI, simp) simp
  next
    assume "r = b_len (tpm_buff s)" "x = 0" "s' = s4"
    then show ?thesis using r5 by (intro exI, intro conjI, simp) simp
  next
    assume "r = sizeof_tpm_header" "s' = cancel_send hw s4"
    then show ?thesis using r6 by (cases "y = 1") (intro exI, intro conjI, simp, simp)+
  qed
qed


section \<open>Localities\<close>

lemma run_locality [simp]: "io_run s evs (s\<lparr>crb_locality := l\<rparr>) \<longleftrightarrow> evs = [] \<and> crb_locality s = l"
  by (cases s) (auto simp: io_run_def)

text \<open>
  C31. A request for a locality reads which one is active. When it is the wanted one,
  nothing is written. Otherwise, if any is active, the relinquish bit of locality 1 is set,
  whichever locality is active, the wanted one is requested and becomes the driver's
  locality if it is granted; if it is not, the driver has none.
\<close>

theorem crb_request_locality_protocol:
  assumes "crb_request_locality hw l s = (g, s')"
  shows "\<exists>v evs. io_run s evs (s'\<lparr>crb_locality := crb_locality s\<rparr>) \<and> crb_locality s' = g
    \<and> hd evs = Load (tpm_addr TPM_LOC_STATE) 1 (ucast (v :: u8))
    \<and> (if loc_assigned v \<and> active_locality v = l then g = l \<and> tl evs = []
       else \<exists>rel req w. bit rel 1 \<and> bit req 0
         \<and> tl evs = (if loc_assigned v then [Store (tpm_addr (REGISTER 1 TPM_LOC_CTRL)) 4 (ucast (rel :: u32))] else [])
             @ [Store (tpm_addr (REGISTER (ucast l) TPM_LOC_CTRL)) 4 (ucast (req :: u32)),
                Load (tpm_addr (REGISTER (ucast l) TPM_LOC_STS)) 4 (ucast w)]
         \<and> g = (if granted w then l else TPM_NO_LOCALITY))"
proof -
  have r0: "REGISTER 0 TPM_LOC_STATE = TPM_LOC_STATE" by (simp add: REGISTER_def)
  have restore: "t\<lparr>crb_locality := k, crb_locality := crb_locality s\<rparr> = t"
    if "io_run s evs t" for t :: "('a, 'b) tpm_machine_scheme" and evs k
    using run_same(3) [OF that] by (cases t) simp
  obtain v s1 where 1: "tpm_read8 hw TPM_LOC_STATE s = (v, s1)" by (cases "tpm_read8 hw TPM_LOC_STATE s")
  note r1 = run_read8 [OF 1]
  show ?thesis
  proof (cases "loc_assigned v \<and> active_locality v = l")
    case True
    then have "g = l" "s' = s1\<lparr>crb_locality := l\<rparr>" using assms 1 r0 by (auto simp: crb_request_locality_def)
    with True r1 restore [OF r1] show ?thesis
      by (intro exI [of _ v] exI [of _ "[Load (tpm_addr TPM_LOC_STATE) 1 (ucast v)]"]) simp
  next
    case False
    define rel where "rel = set_relinquish (junk32 hw s1)"
    define s2 where "s2 = (if loc_assigned v then crb_relinquish_locality_internal hw 1 s1 else s1)"
    define e2 where "e2 = (if loc_assigned v then [Store (tpm_addr (REGISTER 1 TPM_LOC_CTRL)) 4 (ucast rel)] else [])"
    define req where "req = set_request_access (junk32 hw s2)"
    let ?s3 = "tpm_write32 hw req (REGISTER (ucast l) TPM_LOC_CTRL) s2"
    obtain w s4 where 4: "tpm_read32 hw (REGISTER (ucast l) TPM_LOC_STS) ?s3 = (w, s4)"
      by (cases "tpm_read32 hw (REGISTER (ucast l) TPM_LOC_STS) ?s3")
    have r2: "io_run s1 e2 s2"
      using run_write32 [of s1 "REGISTER 1 TPM_LOC_CTRL" rel hw]
      by (simp add: s2_def e2_def rel_def crb_relinquish_locality_internal_def)
    note r4 = io_run_append [OF io_run_append [OF io_run_append [OF r1 r2] run_write32] run_read32 [OF 4]]
    have "g = (if granted w then l else TPM_NO_LOCALITY)" "s' = s4\<lparr>crb_locality := g\<rparr>"
      using assms 1 4 False r0 by (auto simp: crb_request_locality_def Let_def s2_def req_def split: if_splits)
    moreover have "bit rel 1" "bit req 0"
      by (simp_all add: rel_def req_def set_relinquish_def set_request_access_def bit_simps)
    ultimately show ?thesis
      using False r4 restore [OF r4]
      by (intro exI [of _ v] exI [of _ "Load (tpm_addr TPM_LOC_STATE) 1 (ucast v) # e2
        @ [Store (tpm_addr (REGISTER (ucast l) TPM_LOC_CTRL)) 4 (ucast req), Load (tpm_addr (REGISTER (ucast l) TPM_LOC_STS)) 4 (ucast w)]"])
        (auto simp: e2_def)
  qed
qed

section \<open>Witnesses\<close>

text \<open>A CRB TPM that is never idle, completes at once and grants what is asked of it.\<close>

definition demo_crb :: "nat hw" where
  "demo_crb = \<lparr>hw_load = (\<lambda>a n d. (if a = 0xFED4000C then 1 else if a = 0xFED40000 then 0x86 else 0, d)),
     hw_store = (\<lambda>a n v d. Suc d), hw_in = \<lambda>p n d. (0, d), hw_out = \<lambda>p n v d. d,
     hw_rdmsr = \<lambda>i d. (0, d), hw_tick = \<lambda>d. d, hw_junk = \<lambda>d i. 0xA5\<rparr>"

definition demo_crb_state :: "nat tpm_machine" where
  "demo_crb_state = \<lparr>dev = 0, trace = [], ram = (\<lambda>a. of_nat (a mod 256)), pci_ops = Pci_Conf1, mmio_base_addr = 0,
     tis_locality = 0xFF, crb_locality = 0, tpm_buff = demo_buff,
     tpm_st = \<lparr>t_vendor = 0, t_family = TPM20, t_intf = TPM_CRB, t_ops = Crb_Ops, t_buff = True\<rparr>\<rparr>"


text \<open>Locality 1 is active (0x86) and locality 0 is requested.\<close>

lemma demo_crb_grant: "\<exists>s'. crb_request_locality demo_crb 0 demo_crb_state = (0, s')"
proof -
  obtain g s' where c: "crb_request_locality demo_crb 0 demo_crb_state = (g, s')"
    by (cases "crb_request_locality demo_crb 0 demo_crb_state")
  then have "g = 0"
    by (simp add: crb_request_locality_def Let_def tpm_read8_def tpm_read32_def tpm_write32_def io_defs
        demo_crb_def demo_crb_state_def REGISTER_def crb_regs tpm_addr_def TPM_MMIO_BASE_def loc_assigned_def
        active_locality_def granted_def crb_relinquish_locality_internal_def bit_simps split: if_splits)
  with c show ?thesis by simp
qed

theorem crb_request_locality_protocol_witness:
  "\<exists>s' v evs. crb_request_locality demo_crb 0 demo_crb_state = (0, s') \<and> crb_locality s' = 0
    \<and> io_run demo_crb_state evs (s'\<lparr>crb_locality := 0\<rparr>) \<and> hd evs = Load 0xFED40000 1 (ucast (v :: u8))"
proof -
  have "tpm_addr TPM_LOC_STATE = 0xFED40000" "crb_locality demo_crb_state = 0"
    by (simp_all add: tpm_addr_def crb_regs TPM_MMIO_BASE_def demo_crb_state_def)
  with demo_crb_grant crb_request_locality_protocol [of demo_crb 0 demo_crb_state 0] show ?thesis by metis
qed

end
