(* ===== verification/Tpm_Props.thy ===== *)
theory Tpm_Props
  imports Tpm_Marshal Tis_Live Crb_Props
begin

text \<open>
  What the extension of a PCR does from end to end: the bytes of the command, the memory
  and the registers it may touch, and what a result of 0 means on either interface.
\<close>

section \<open>The commands as bytes\<close>



section \<open>Marshalling stays in the buffer\<close>

text \<open>The reserved buffer of \<open>s\<close>, at some point of the marshalling.\<close>

definition filling :: "('d, 'x) tpm_machine_scheme \<Rightarrow> ('d, 'x) tpm_machine_scheme \<Rightarrow> bool" where
  "filling s t \<longleftrightarrow> buff_inv (tpm_buff s) \<and> buff_frame s t \<and> b_locked (tpm_buff t) \<noteq> 0"

lemma filling_reserve:
  assumes "buff_inv (tpm_buff s)" "buff_reserve (buff_free s) = (p, s')"
  shows "filling s s'" "p = b_head (tpm_buff s)" "p \<noteq> 0"
proof -
  have f: "buff_frame s (buff_free s)" by (rule buff_free_frame [OF assms(1)])
  have "buff_frame (buff_free s) s'"
    using buff_reserve_frame [of "buff_free s"] f assms(2) by (simp add: buff_frame_def)
  from buff_frame_trans [OF f this] show "filling s s'" "p = b_head (tpm_buff s)" "p \<noteq> 0"
    using assms
    by (auto simp: filling_def buff_reserve_def buff_free_def tpmb_reserve_def tpmb_free_def Let_def buff_inv_def)
qed

lemma filling_poke:
  assumes "filling s t" "head_at s \<le> a" "a + length bs \<le> head_at s + size_at s"
  shows "filling s (poke a bs t)"
proof -
  have "buff_frame t (poke a bs t)"
    by (rule poke_frame) (use assms in \<open>simp_all add: filling_def buff_frame_def\<close>)
  with assms(1) show ?thesis using buff_frame_trans by (auto simp: filling_def)
qed

lemma filling_put:
  assumes f: "filling s t" and n: "n < 2 ^ 32" and p: "buff_put n t = (p, t')"
  shows "filling s t'"
    and "p = 0 \<or> head_at s \<le> unat p \<and> unat p + unat n \<le> head_at s + size_at s"
proof -
  have i: "buff_inv (tpm_buff t)" "b_locked (tpm_buff t) \<noteq> 0" "buff_frame s t"
    and h: "b_head (tpm_buff t) = b_head (tpm_buff s)" "b_truesize (tpm_buff t) = b_truesize (tpm_buff s)"
    using f by (simp_all add: filling_def buff_frame_def)
  note spec = tpmb_put_spec [OF i(1,2) n]
  have "buff_frame t t'" using buff_put_frame [OF i(1,2) n] p by simp
  moreover have "b_locked (tpm_buff t') \<noteq> 0"
    using spec p i(2) by (auto simp: buff_put_def split_beta split: if_splits)
  ultimately show "filling s t'" using f buff_frame_trans [OF i(3)] by (simp add: filling_def)
  show "p = 0 \<or> head_at s \<le> unat p \<and> unat p + unat n \<le> head_at s + size_at s"
    using spec p h by (auto simp: buff_put_def split_beta split: if_splits)
qed

lemma filling_free: "filling s t \<Longrightarrow> buff_frame s (buff_free t)"
  using buff_frame_trans [OF _ buff_free_frame, of s t] by (simp add: filling_def) (simp add: buff_frame_def)

lemma filling_room: "filling s t \<Longrightarrow> 10 \<le> size_at s"
  by (simp add: filling_def buff_inv_def sizeof_tpm_header_def word_le_nat_alt)

lemma tpm1_build_frame:
  assumes i: "buff_inv (tpm_buff s)" and b: "tpm1_build pcr digest s = (r, s')"
  shows "buff_frame s s' \<and> (r = 0 \<longrightarrow> b_locked (tpm_buff s') \<noteq> 0)"
proof -
  let ?h = "head_at s"
  obtain p s1 where 1: "buff_reserve (buff_free s) = (p, s1)" by (cases "buff_reserve (buff_free s)")
  note r = filling_reserve [OF i 1]
  note room = filling_room [OF r(1)]
  define s2 where "s2 = poke (?h + 6) (le_bytes 4 (bswap32 TPM_ORD_EXTEND)) (poke ?h (le_bytes 2 (bswap16 TPM_TAG_RQU_COMMAND)) s1)"
  have f2: "filling s s2" unfolding s2_def using r(1) room by (intro filling_poke) simp_all
  obtain q s3 where 3: "buff_put 24 s2 = (q, s3)" by (cases "buff_put 24 s2")
  note f3 = filling_put [OF f2 _ 3]
  define s4 where "s4 = poke (?h + 2) (le_bytes 4 (bswap32 (ucast (tpmb_size (tpm_buff s3)))))
    (poke (unat q + 4) (take 20 digest) (poke (unat q) (le_bytes 4 (bswap32 pcr)) s3))"
  have "(if q = 0 then (- ENOMEM, buff_free s3) else (0, s4)) = (r, s')"
    using b 1 r(2,3) 3 unfolding s2_def s4_def
    by (simp add: tpm1_build_def Let_def del: add_2_eq_Suc' cong: if_cong)
  moreover have "filling s s4" if "q \<noteq> 0"
    unfolding s4_def using f3 that room by (intro filling_poke) auto
  ultimately show ?thesis
    using filling_free [of s s3] f3 by (auto simp: filling_def ENOMEM_def split: if_splits)
qed

lemma tpm2_handles_frame:
  assumes f: "filling s t" and b: "tpm2_handles pcr t = (r, t')"
  shows "filling s t'"
proof -
  obtain p1 t1 where 1: "buff_put 4 t = (p1, t1)" by (cases "buff_put 4 t")
  note f1 = filling_put [OF f _ 1]
  define t2 where "t2 = poke (unat p1) (le_bytes 4 (bswap32 pcr)) t1"
  have f2: "filling s t2" if "p1 \<noteq> 0" unfolding t2_def using f1 that by (intro filling_poke) auto
  obtain p3 t3 where 3: "buff_put 4 t2 = (p3, t3)" by (cases "buff_put 4 t2")
  obtain p4 t4 where 4: "buff_put NULL_AUTH_SIZE t3 = (p4, t4)" by (cases "buff_put NULL_AUTH_SIZE t3")
  define t5 where "t5 = poke (unat p4) (le_bytes 4 (bswap32 TPM_RS_PW)) (poke (unat p4) (replicate 9 0) t4)"
  define t6 where "t6 = poke (unat p3) (le_bytes 4 (bswap32 tpm2_null_auth_size)) t5"
  have e: "(if p1 = 0 then (- ENOMEM, t1) else if p3 = 0 then (- ENOMEM, t3)
      else if p4 = 0 then (- ENOMEM, t4) else (0, t6)) = (r, t')"
    using b 1 3 4 unfolding t2_def t5_def t6_def
    by (auto simp: tpm2_handles_def tpm2_null_auth_def Let_def NULL_AUTH_SIZE_def split: if_splits)
  show ?thesis
  proof (cases "p1 = 0")
    case False
    note f3 = filling_put [OF f2 [OF False] _ 3]
    note f4 = filling_put [OF f3(1) _ 4]
    have "filling s t6" if "p3 \<noteq> 0" "p4 \<noteq> 0"
      unfolding t6_def t5_def using f3 f4 that by (intro filling_poke) (auto simp: NULL_AUTH_SIZE_def)
    with e f3 f4 False show ?thesis by (auto simp: NULL_AUTH_SIZE_def split: if_splits)
  qed (use e f1 in auto)
qed

lemma tpm2_params_frame:
  assumes f: "filling s t" and b: "tpm2_params (b_head (tpm_buff s)) digests t = Inr (r, t')"
  shows "filling s t'"
proof -
  obtain sz ds where c: "convert_digest_list digests = Inr (sz, ds)"
    using b by (auto simp: tpm2_params_def)
  obtain p t1 where 1: "buff_put (ucast sz) t = (p, t1)" by (cases "buff_put (ucast sz) t")
  have "unat sz < 2 ^ LENGTH(16)" by (rule unsigned_less)
  then have sz: "unat sz < 2 ^ 32" by simp
  then have u: "unat (ucast sz :: u64) = unat sz" by (simp add: unsigned_ucast_eq take_bit_nat_eq_self)
  with sz have "(ucast sz :: u64) < 2 ^ 32" by (simp add: word_less_nat_alt)
  note f1 = filling_put [OF f this 1]
  define t2 where "t2 = poke (head_at s + 2) (le_bytes 4 (bswap32 (ucast (tpmb_size (tpm_buff t1)))))
    (poke (unat p) (take (unat sz) ds) t1)"
  have "filling s t2" if "p \<noteq> 0" "\<not> length ds < unat sz"
    unfolding t2_def using f1 that u filling_room [OF f] by (intro filling_poke) auto
  moreover have "t' = t \<or> t' = t1 \<or> p \<noteq> 0 \<and> \<not> length ds < unat sz \<and> t' = t2"
    using b c 1 by (auto simp: tpm2_params_def t2_def Let_def split: if_splits)
  ultimately show ?thesis using f f1 by auto
qed

lemma tpm2_build_frame:
  assumes i: "buff_inv (tpm_buff s)" and b: "tpm2_build pcr digests s = Inr (r, s')"
  shows "buff_frame s s'"
proof -
  obtain p s1 where 1: "buff_reserve (buff_free s) = (p, s1)" by (cases "buff_reserve (buff_free s)")
  note r = filling_reserve [OF i 1]
  define s2 where "s2 = poke (head_at s + 6) (le_bytes 4 (bswap32 TPM_CC_PCR_EXTEND)) (poke (head_at s) (le_bytes 2 (bswap16 TPM_ST_SESSIONS)) s1)"
  have f2: "filling s s2" unfolding s2_def using r(1) filling_room [OF r(1)] by (intro filling_poke) simp_all
  have alloc: "tpm2_alloc_cmd TPM_ST_SESSIONS TPM_CC_PCR_EXTEND s = ((b_head (tpm_buff s), 0), s2)"
    using 1 r(2,3) by (simp add: tpm2_alloc_cmd_def s2_def Let_def)
  obtain h s3 where 3: "tpm2_handles pcr s2 = (h, s3)" by (cases "tpm2_handles pcr s2")
  note f3 = tpm2_handles_frame [OF f2 3]
  show ?thesis
  proof (cases "h = 0")
    case False
    with b alloc 3 filling_free [OF f3] show ?thesis by (simp add: tpm2_build_def)
  next
    case True
    then obtain k s4 where 4: "tpm2_params (b_head (tpm_buff s)) digests s3 = Inr (k, s4)"
      and s': "s' = (if k \<noteq> 0 then buff_free s4 else s4)"
      using b alloc 3 by (auto simp: tpm2_build_def)
    note f4 = tpm2_params_frame [OF f3 4]
    show ?thesis using filling_free [OF f4] f4 unfolding s' by (simp add: filling_def)
  qed
qed

section \<open>Extending a PCR stays in the buffer\<close>

lemma tpm_extend_pcr_frame:
  assumes e: "tpm_extend_pcr hw pcr algo digest s = Some (Inr (r, s'))" and i: "buff_inv (tpm_buff s)"
  shows "buff_frame s s'"
proof (cases "t_buff (tpm_st s)")
  case False
  with e i show ?thesis by (simp add: tpm_extend_pcr_def buff_frame_refl)
next
  case buff: True
  show ?thesis
  proof (cases "t_family (tpm_st s)")
    case TPM12
    obtain k s1 where 1: "tpm1_build pcr (take 20 digest) s = (k, s1)" by (cases "tpm1_build pcr (take 20 digest) s")
    note f1 = tpm1_build_frame [OF i 1]
    have "s' = s \<or> s' = s1 \<or> k = 0 \<and> tpm1_submit (ops_send hw) (ops_recv hw) s1 = Some (r, s')"
      using e buff TPM12 1
      by (auto simp: tpm_extend_pcr_def tpm1_pcr_extend_def SHA1_SIZE_def split: if_splits)
    moreover have "buff_frame s1 s'" if "k = 0" "tpm1_submit (ops_send hw) (ops_recv hw) s1 = Some (r, s')"
      using f1 that by (intro ops.tpm1_submit_frame) (auto simp: buff_frame_def)
    ultimately show ?thesis using f1 buff_frame_refl [OF i] buff_frame_trans by blast
  next
    case TPM20
    have "s' = s \<or> (\<exists>digests k s1. tpm2_build pcr digests s = Inr (k, s1)
        \<and> (s' = s1 \<or> tpm2_submit (ops_send hw) s1 = Some (r, s')))"
      using e buff TPM20
      by (auto simp: tpm_extend_pcr_def tpm2_extend_pcr_def Let_def split: if_splits option.splits sum.splits)
    moreover have "buff_frame s s'" if b: "tpm2_build pcr digests s = Inr (k, s1)"
      and s': "s' = s1 \<or> tpm2_submit (ops_send hw) s1 = Some (r, s')" for digests k s1
    proof -
      have f1: "buff_frame s s1" by (rule tpm2_build_frame [OF i b])
      have "buff_frame s1 s'" if "tpm2_submit (ops_send hw) s1 = Some (r, s')"
        using f1 that by (intro ops.tpm2_submit_frame) (auto simp: buff_frame_def)
      with s' f1 show ?thesis using buff_frame_trans by blast
    qed
    ultimately show ?thesis using buff_frame_refl [OF i] by blast
  qed
qed


section \<open>What success means\<close>

text \<open>The command that is to be sent, by family.\<close>

definition extend_message :: "tpm_family \<Rightarrow> u32 \<Rightarrow> u16 \<Rightarrow> u8 list \<Rightarrow> u8 list" where
  "extend_message f pcr algo digest = (case f of
     TPM12 \<Rightarrow> tpm1_message pcr (take SHA1_SIZE digest)
   | TPM20 \<Rightarrow> tpm2_message pcr algo (take (counted_size algo) digest))"

lemma extend_message_length:
  "extend_size algo = Some n \<Longrightarrow> n \<le> length digest
     \<Longrightarrow> 34 \<le> length (extend_message f pcr algo digest) \<and> length (extend_message f pcr algo digest) \<le> 97"
  by (cases f) (auto simp: extend_message_def tpm1_message_def tpm2_message_def counted_size_def extend_size_def
      tpm_sizes split: if_splits)

text \<open>
  A result of 0 went through the driver: the state \<open>t\<close> just before has the message in the
  buffer, the driver took all of it, and what follows is the driver's and the buffer's.
\<close>

lemma extend_pcr_success:
  assumes e: "tpm_extend_pcr hw pcr algo digest s = Some (Inr (0, s'))"
    and i: "buff_inv (tpm_buff s)" and sz: "97 \<le> size_at s"
  obtains t u where "buffer_only s t" "at_len t (length (extend_message (t_family (tpm_st s)) pcr algo digest))"
    "mem_read (ram t) (head_at s) (length (extend_message (t_family (tpm_st s)) pcr algo digest))
       = extend_message (t_family (tpm_st s)) pcr algo digest"
    "\<exists>n. ops_send hw t = Some (n, u) \<and> n \<noteq> 0 \<and> ucast (ucast n :: u16) = b_len (tpm_buff t)" "buff_frame u s'"
    "t_family (tpm_st s) = TPM20 \<Longrightarrow> s' = buff_free u"
    "t_family (tpm_st s) = TPM12 \<Longrightarrow> tpm1_submit (ops_send hw) (ops_recv hw) t = Some (0, s')"
    "\<exists>k. extend_size algo = Some k \<and> k \<le> length digest"
proof (cases "t_family (tpm_st s)")
  case TPM12
  let ?msg = "tpm1_message pcr (take SHA1_SIZE digest)"
  have e1: "tpm1_pcr_extend hw pcr (take 20 digest) s = Some (0, s')" and d: "20 \<le> length digest"
    and a: "algo = TPM_ALG_SHA1" and b: "t_buff (tpm_st s)"
    using e TPM12 by (auto simp: tpm_extend_pcr_def EINVAL_def SHA1_SIZE_def split: if_splits)
  obtain t where t: "tpm1_build pcr (take 20 digest) s = (0, t)" "buffer_only s t" "at_len t 34"
    "mem_read (ram t) (head_at s) 34 = tpm1_message pcr (take 20 digest)"
    using tpm1_build_message [OF i, of "take 20 digest" pcr] sz d by auto
  have sub: "tpm1_submit (ops_send hw) (ops_recv hw) t = Some (0, s')"
    using e1 t(1) b by (simp add: tpm1_pcr_extend_def)
  have ht: "head_at t = head_at s" using buffer_only_head [OF t(2)] by simp
  have "mem_read (ram t) (head_at t + 2) 4 = take 4 (drop 2 (mem_read (ram t) (head_at s) 34))"
    unfolding ht by (rule mem_read_sub) simp
  then have "mem_read (ram t) (head_at t + 2) 4 = be_bytes 4 (34 :: u32)"
    unfolding t(4) by (simp add: tpm1_message_def del: add_2_eq_Suc')
  then have "bswap32 (load32 (ram t) (head_at t + 2)) = 34"
    by (simp add: load32_def bswap32_of_le of_be_be_bytes del: add_2_eq_Suc')
  with ops.tpm1_submit_sent [OF sub] obtain u where u: "ops_send hw t = Some (34, u)" by auto
  have bt: "buff_inv (tpm_buff t)" "b_locked (tpm_buff t) \<noteq> 0" using t(3) by (simp_all add: at_len_def)
  have len: "length (extend_message (t_family (tpm_st s)) pcr algo digest) = 34"
    using d TPM12 by (simp add: extend_message_def tpm1_message_def SHA1_SIZE_def)
  show thesis
  proof (rule that [of t u])
    show "buff_frame u s'" by (rule ops.tpm1_submit_rest [OF sub bt u])
    show "\<exists>n. ops_send hw t = Some (n, u) \<and> n \<noteq> 0 \<and> ucast (ucast n :: u16) = b_len (tpm_buff t)"
      using u at_len_word [OF t(3)] by simp
    show "\<exists>k. extend_size algo = Some k \<and> k \<le> length digest"
      using d by (simp add: a extend_size_def SHA1_SIZE_def)
  qed (use t TPM12 sub len in \<open>simp_all add: extend_message_def SHA1_SIZE_def\<close>)
next
  case TPM20
  let ?buf = "map (hw_junk hw (dev s)) [0..<MAX_TPM_EXTEND_SIZE]"
  obtain k where k: "extend_size algo = Some k" "k \<le> length digest" and b: "t_buff (tpm_st s)"
    and e2: "tpm2_extend_pcr hw pcr (one_digest ?buf algo (take k digest)) s = Some (Inr (0, s'))"
    using e TPM20 by (auto simp: tpm_extend_pcr_def EINVAL_def Let_def split: if_splits option.splits)
  let ?n = "counted_size algo"
  note ds = digest_step_size [OF k(1)]
  obtain t where t: "tpm2_build pcr (one_digest ?buf algo (take k digest)) s = Inr (0, t)" "buffer_only s t"
    "at_len t (33 + ?n)" "mem_read (ram t) (head_at s) (33 + ?n) = tpm2_message pcr algo (take ?n (take k digest))"
    using tpm2_build_message [OF i k(1), of "take k digest" ?buf pcr] sz k(2) ds by (auto simp: MAX_TPM_EXTEND_SIZE_def)
  have m: "extend_message (t_family (tpm_st s)) pcr algo digest = tpm2_message pcr algo (take ?n digest)"
    "length (tpm2_message pcr algo (take ?n digest)) = 33 + ?n"
    using TPM20 k ds by (simp_all add: extend_message_def length_tpm2_message)
  have "tpm2_submit (ops_send hw) t = Some (0, s')" using e2 t(1) b by (simp add: tpm2_extend_pcr_def)
  from ops.tpm2_submit_sent [OF this] obtain n u where u: "ops_send hw t = Some (n, u)"
    "ucast (ucast n :: u16) = b_len (tpm_buff t)" "s' = buff_free u" by blast
  have bt: "buff_inv (tpm_buff t)" using t(3) by (simp add: at_len_def)
  have "unat (b_len (tpm_buff t)) \<noteq> 0" using t(3) by (simp add: at_len_def)
  then have "n \<noteq> 0" using u(2) by auto
  show thesis
  proof (rule that [of t u])
    have "buff_inv (tpm_buff u)" using bt ops.send_buff [OF u(1)] by simp
    then show "buff_frame u s'" unfolding u(3) by (rule buff_free_frame)
    show "\<exists>n. ops_send hw t = Some (n, u) \<and> n \<noteq> 0 \<and> ucast (ucast n :: u16) = b_len (tpm_buff t)"
      using u \<open>n \<noteq> 0\<close> by blast
  qed (use t m TPM20 u k ds in \<open>simp_all add: min_def\<close>)
qed

lemma tis_extend_sends:
  assumes e: "tpm_extend_pcr hw pcr algo digest s = Some (Inr (0, s'))"
    and i: "buff_inv (tpm_buff s)" and sz: "97 \<le> size_at s" and ops: "t_ops (tpm_st s) = Tis_Ops"
  shows "\<exists>pre rest. trace s' = trace s @ pre @ [go_event (tis_locality s)] @ rest
    \<and> go_event (tis_locality s) \<notin> set pre
    \<and> fifo_bytes (tis_locality s) pre = extend_message (t_family (tpm_st s)) pcr algo digest
    \<and> (t_family (tpm_st s) = TPM20 \<longrightarrow> rest = [])"
proof -
  let ?m = "extend_message (t_family (tpm_st s)) pcr algo digest" and ?l = "tis_locality s"
  obtain t u where t: "buffer_only s t" "at_len t (length ?m)" "mem_read (ram t) (head_at s) (length ?m) = ?m"
    "\<exists>n. ops_send hw t = Some (n, u) \<and> n \<noteq> 0 \<and> ucast (ucast n :: u16) = b_len (tpm_buff t)" "buff_frame u s'"
    "t_family (tpm_st s) = TPM20 \<Longrightarrow> s' = buff_free u" "\<exists>k. extend_size algo = Some k \<and> k \<le> length digest"
    by (rule extend_pcr_success [OF e i sz]) blast
  from t(7) extend_message_length have len: "34 \<le> length ?m" "length ?m \<le> 97" by blast+
  have same: "tis_locality t = ?l" "trace t = trace s" "head_at t = head_at s" "ops_send hw t = tis_send hw t"
    using t(1) ops by (simp_all add: buffer_only_def ops_send_def)
  from t(4) obtain n where n: "tis_send hw t = Some (n, u)" "n \<noteq> 0" by (auto simp: same)
  obtain k where k: "length ?m = Suc k" using len by (cases "length ?m") auto
  have s: "sendable t k" using t(2) len k by (simp add: sendable_def at_len_def)
  have "head_at t + Suc k < 2 ^ 64" using t(2) k by (simp add: at_len_def buff_inv_def word_le_nat_alt)
  from tis_send_wire [OF n(1) s this] n(2) obtain evs pre where
    r: "io_run t evs u" "fifo_bytes ?l evs = ?m" "evs = pre @ [go_event ?l]" "go_event ?l \<notin> set pre"
    using t(3) k by (auto simp: same)
  have "fifo_bytes ?l [go_event ?l] = []"
    by (rule fifo_bytes_none) simp
  then have fb: "fifo_bytes ?l pre = ?m" using r(2,3) by simp
  have tr: "trace u = trace s @ pre @ [go_event ?l]" using io_run_trace [OF r(1)] by (simp add: same r(3))
  show ?thesis
  proof (cases "t_family (tpm_st s) = TPM20")
    case True
    then have "trace s' = trace u" using t(6) by (simp add: buff_free_def split_beta)
    with tr fb r(4) show ?thesis by (intro exI [of _ pre] exI [of _ "[]"]) simp
  next
    case False
    from t(5) obtain rest where "trace s' = trace u @ rest" by (auto simp: buff_frame_def grows_def)
    with tr fb r(4) False show ?thesis by (intro exI [of _ pre] exI [of _ rest]) simp
  qed
qed

lemma crb_tpm1_fails:
  assumes ops: "t_ops (tpm_st t) = Crb_Ops" and t: "at_len t k"
  shows "tpm1_submit (ops_send hw) (ops_recv hw) t \<noteq> Some (0, s')"
proof
  assume a: "tpm1_submit (ops_send hw) (ops_recv hw) t = Some (0, s')"
  obtain n u where u: "crb_send hw t = (n, u)" by (cases "crb_send hw t")
  note io = crb_send_event [OF u]
  have b: "tpm_buff u = tpm_buff t" "tpm_st u = tpm_st t" using io_ext_tpm [OF io] by simp_all
  have "10 \<le> b_truesize (tpm_buff t)" using t by (simp add: at_len_def buff_inv_def sizeof_tpm_header_def)
  with a u b ops show False
    by (auto simp: tpm1_submit_def ops_send_def ops_recv_def crb_recv_def buff_trim_def buff_put_def
        tpmb_trim_def tpmb_put_def tpmb_size_def EAGAIN_def sizeof_tpm_header_def Let_def split: if_splits)
qed

lemma crb_extend_runs:
  assumes e: "tpm_extend_pcr hw pcr algo digest s = Some (Inr (0, s'))"
    and i: "buff_inv (tpm_buff s)" and sz: "97 \<le> size_at s" and ops: "t_ops (tpm_st s) = Crb_Ops"
  shows "t_family (tpm_st s) = TPM20 \<and> (\<exists>t evs. buffer_only s t
    \<and> mem_read (ram t) (head_at s) (33 + counted_size algo) = tpm2_message pcr algo (take (counted_size algo) digest)
    \<and> trace s' = trace s @ evs \<and> buff_frame t s'
    \<and> store_events evs = [crb_store s TPM_CRB_CTRL_START 1] \<and> last evs = crb_load s TPM_CRB_CTRL_START 0)"
proof -
  let ?m = "extend_message (t_family (tpm_st s)) pcr algo digest"
  obtain t u where t: "buffer_only s t" "at_len t (length ?m)" "mem_read (ram t) (head_at s) (length ?m) = ?m"
    "\<exists>n. ops_send hw t = Some (n, u) \<and> n \<noteq> 0 \<and> ucast (ucast n :: u16) = b_len (tpm_buff t)" "buff_frame u s'"
    "t_family (tpm_st s) = TPM20 \<Longrightarrow> s' = buff_free u"
    "t_family (tpm_st s) = TPM12 \<Longrightarrow> tpm1_submit (ops_send hw) (ops_recv hw) t = Some (0, s')"
    "\<exists>k. extend_size algo = Some k \<and> k \<le> length digest"
    by (rule extend_pcr_success [OF e i sz]) blast
  from t(8) extend_message_length have len: "34 \<le> length ?m" "length ?m \<le> 97" by blast+
  have same: "t_ops (tpm_st t) = Crb_Ops" "trace t = trace s" "crb_register t = crb_register s"
    using t(1) ops by (auto simp: buffer_only_def crb_register_def)
  have fam: "t_family (tpm_st s) = TPM20"
    using t(7) crb_tpm1_fails [OF same(1) t(2)] by (cases "t_family (tpm_st s)") auto
  from t(4) obtain n where n: "crb_send hw t = (n, u)" "n \<noteq> 0" "ucast (ucast n :: u16) = b_len (tpm_buff t)"
    by (auto simp: ops_send_def same)
  have bl: "b_len (tpm_buff t) = of_nat (length ?m)" by (rule at_len_word [OF t(2)])
  have "n \<noteq> sizeof_tpm_header"
  proof
    assume "n = sizeof_tpm_header"
    with n(3) have "unat (b_len (tpm_buff t)) = 10" by (auto simp: sizeof_tpm_header_def)
    with t(2) len show False by (simp add: at_len_def)
  qed
  with crb_send_run [OF n(1)] n(2) obtain evs where ev: "io_run t evs u"
    "store_events evs = [crb_store s TPM_CRB_CTRL_START 1]" "last evs = crb_load s TPM_CRB_CTRL_START 0"
    by (auto simp: same)
  have "trace s' = trace s @ evs"
    using io_run_trace [OF ev(1)] t(6) [OF fam] by (simp add: same buff_free_def split_beta)
  moreover have "buff_frame t s'"
    by (rule buff_frame_trans [OF io_buff_frame [OF crb_send_event [OF n(1)]] t(5)]) (use t(2) in \<open>simp add: at_len_def\<close>)
  moreover have "length ?m = 33 + counted_size algo" "?m = tpm2_message pcr algo (take (counted_size algo) digest)"
    using t(8) digest_step_size [of algo] fam by (auto simp: extend_message_def length_tpm2_message)
  ultimately show ?thesis using fam t(1,3) ev(2,3) by metis
qed

text \<open>
  C32. On the FIFO interface a result of 0 means that the TPM took exactly the bytes of the
  command, in order, and was then told to run it. With TPM 2.0 the start is the last access:
  the response, and with it the TPM's verdict, is never read.
\<close>

theorem tis_extend_sends_command:
  assumes "tpm_extend_pcr hw pcr algo digest s = Some (Inr (0, s'))"
    and "buff_inv (tpm_buff s)" and "97 \<le> size_at s" and "t_ops (tpm_st s) = Tis_Ops"
  shows "\<exists>pre rest. trace s' = trace s @ pre @ [go_event (tis_locality s)] @ rest
    \<and> go_event (tis_locality s) \<notin> set pre
    \<and> fifo_bytes (tis_locality s) pre = extend_message (t_family (tpm_st s)) pcr algo digest
    \<and> (t_family (tpm_st s) = TPM20 \<longrightarrow> rest = [])"
  by (rule tis_extend_sends [OF assms])


section \<open>Getting ready\<close>

text \<open>Between localities the static buffer is unallocated, or still the one of the last time.\<close>

definition buff_idle :: "layout \<Rightarrow> tpmbuff \<Rightarrow> bool" where
  "buff_idle L b \<longleftrightarrow> l_tis_buff L \<noteq> 0 \<and> l_tis_buff L < 2 ^ 32
     \<and> (b_head b = 0 \<or> b_head b = l_tis_buff L \<and> b_truesize b = STATIC_TIS_BUFFER_SIZE)"

lemma crb_head_bounds:
  assumes "(l :: u8) < 4"
  shows "0xFED40080 \<le> unat (TPM_MMIO_BASE + push_bit 12 (ucast l) + TPM_CRB_DATA_BUFFER_OFFSET)"
    "unat (TPM_MMIO_BASE + push_bit 12 (ucast l) + TPM_CRB_DATA_BUFFER_OFFSET) \<le> 0xFED43080"
proof -
  have l: "unat l \<le> 3" using assms by (simp add: word_less_nat_alt)
  have p: "unat (push_bit 12 (ucast l) :: u32) = unat l * 4096"
    using l by (simp add: push_bit_eq_mult unat_word_ariths unsigned_ucast_eq take_bit_nat_eq_self)
  have "unat (TPM_MMIO_BASE + push_bit 12 (ucast l) + TPM_CRB_DATA_BUFFER_OFFSET) = 0xFED40080 + unat l * 4096"
    using l p by (simp add: unat_word_ariths TPM_MMIO_BASE_def TPM_CRB_DATA_BUFFER_OFFSET_def)
  with l show "0xFED40080 \<le> unat (TPM_MMIO_BASE + push_bit 12 (ucast l) + TPM_CRB_DATA_BUFFER_OFFSET)"
    "unat (TPM_MMIO_BASE + push_bit 12 (ucast l) + TPM_CRB_DATA_BUFFER_OFFSET) \<le> 0xFED43080" by simp_all
qed

lemma alloc_ready:
  assumes "buff_idle L b" and "l < 4"
  shows "buff_inv (alloc_tpmbuff L intf l b) \<and> 97 \<le> unat (b_truesize (alloc_tpmbuff L intf l b))
    \<and> b_locked (alloc_tpmbuff L intf l b) = 0"
proof (cases intf)
  case TPM_TIS
  have "unat (l_tis_buff L) < 2 ^ 32" using assms(1) by (simp add: buff_idle_def word_less_nat_alt)
  with TPM_TIS assms(1) show ?thesis
    by (auto simp: buff_idle_def alloc_tpmbuff_def reset_tpmbuff_def buff_inv_def buff_consts)
next
  case TPM_CRB
  let ?h = "TPM_MMIO_BASE + push_bit 12 (ucast l) + TPM_CRB_DATA_BUFFER_OFFSET"
  have u: "unat (ucast ?h :: u64) = unat ?h" by (rule ucast_u64)
  have "unat (ucast ?h :: u64) \<noteq> 0" using crb_head_bounds [OF assms(2)] unfolding u by linarith
  then have "(ucast ?h :: u64) \<noteq> 0" by (metis unsigned_0)
  moreover have "unat (ucast ?h :: u64) + 3966 < 2 ^ 64" using crb_head_bounds [OF assms(2)] unfolding u by simp
  ultimately show ?thesis using TPM_CRB
    by (simp add: alloc_tpmbuff_def reset_tpmbuff_def buff_inv_def sizeof_tpm_header_def TPM_CRB_DATA_BUFFER_SIZE_def)
qed

text \<open>
  When a locality is granted the command buffer is allocated: it satisfies its
  invariant, is not reserved and holds the longest command this loader sends (97 bytes, a
  SHA-512 digest). Only the driver's locality and the buffer change.
\<close>

lemma granted_locality_has_buffer:
  assumes "tpm_request_locality hw L l s = Some (g, s')" and "g < TPM_MAX_LOCALITY" and "buff_idle L (tpm_buff s)"
  shows "g = l \<and> buff_inv (tpm_buff s') \<and> 97 \<le> size_at s' \<and> b_locked (tpm_buff s') = 0
    \<and> t_buff (tpm_st s') \<and> ram s' = ram s \<and> t_ops (tpm_st s') = t_ops (tpm_st s) \<and> grows tpm_event s s'"
proof -
  from assms(1) obtain s1 where 1: "ops_request_locality hw l s = Some (g, s1)"
    by (cases "ops_request_locality hw l s") (auto simp: tpm_request_locality_def)
  note f = ops.request_in [OF 1]
  have s': "s' = s1\<lparr>tpm_buff := alloc_tpmbuff L (t_intf (tpm_st s1)) g (tpm_buff s1), tpm_st := (tpm_st s1)\<lparr>t_buff := True\<rparr>\<rparr>"
    using assms(1,2) 1 by (simp add: tpm_request_locality_def)
  have "buff_idle L (tpm_buff s1)" using assms(3) f by (simp add: locality_frame_def)
  from alloc_ready [OF this, of g] assms(2) f show ?thesis
    unfolding s' by (auto simp: locality_frame_def locality_consts grows_def)
qed

section \<open>Witnesses\<close>

definition demo_fifo_state :: "nat tpm_machine" where
  "demo_fifo_state = demo_tpm_state\<lparr>tpm_buff := demo_buff,
     tpm_st := \<lparr>t_vendor = 0, t_family = TPM20, t_intf = TPM_TIS, t_ops = Tis_Ops, t_buff = True\<rparr>\<rparr>"

lemma demo_fifo_simps [simp]:
  "tpm_buff demo_fifo_state = demo_buff" "t_ops (tpm_st demo_fifo_state) = Tis_Ops"
  "t_family (tpm_st demo_fifo_state) = TPM20" "t_buff (tpm_st demo_fifo_state)" "tis_locality demo_fifo_state = 0"
  "tpm_buff demo_crb_state = demo_buff" "t_ops (tpm_st demo_crb_state) = Crb_Ops"
  "t_family (tpm_st demo_crb_state) = TPM20" "t_buff (tpm_st demo_crb_state)" "crb_locality demo_crb_state = 0"
  "trace demo_fifo_state = []" "trace demo_crb_state = []"
  by (simp_all add: demo_fifo_state_def demo_tpm_state_def demo_crb_state_def)

lemma demo_buff_ready [simp]: "buff_inv demo_buff" "unat (b_truesize demo_buff) = 1024" "unat (b_head demo_buff) = 0xD100"
  by (simp_all add: buff_inv_def demo_buff_def buff_consts)

text \<open>A driver that takes the whole message makes the extension succeed.\<close>

lemma demo_extend:
  assumes s: "tpm_buff s = demo_buff" "t_family (tpm_st s) = TPM20" "t_buff (tpm_st s)"
    and send: "\<And>t. buffer_only s t \<Longrightarrow> at_len t 53 \<Longrightarrow> \<exists>u. ops_send hw t = Some (53, u)"
  shows "\<exists>s'. tpm_extend_pcr hw 17 TPM_ALG_SHA1 (replicate 20 7) s = Some (Inr (0, s'))"
proof -
  let ?buf = "map (hw_junk hw (dev s)) [0..<MAX_TPM_EXTEND_SIZE]"
  have k: "extend_size TPM_ALG_SHA1 = Some 20" "counted_size TPM_ALG_SHA1 = 20"
    by (simp_all add: extend_size_def counted_size_def tpm_sizes tpm_algs)
  obtain t where t: "tpm2_build 17 (one_digest ?buf TPM_ALG_SHA1 (replicate 20 7)) s = Inr (0, t)" "buffer_only s t" "at_len t 53"
    using tpm2_build_message [of s TPM_ALG_SHA1 20 "replicate 20 7" ?buf 17] s k by (auto simp: MAX_TPM_EXTEND_SIZE_def)
  obtain u where u: "ops_send hw t = Some (53, u)" using send [OF t(2,3)] by blast
  have "b_len (tpm_buff u) = 53" using ops.send_buff [OF u] at_len_word [OF t(3)] by simp
  with s k t(1) u show ?thesis
    by (simp add: tpm_extend_pcr_def tpm2_extend_pcr_def tpm2_submit_def tpmb_size_def Let_def)
qed

lemma demo_fifo_extend: "\<exists>s'. tpm_extend_pcr (demo_tpm 53) 17 TPM_ALG_SHA1 (replicate 20 7) demo_fifo_state = Some (Inr (0, s'))"
proof (rule demo_extend)
  fix t assume b: "buffer_only demo_fifo_state t" and l: "at_len t 53"
  have "tis_tpm (demo_tpm 53) (tis_locality t) (Suc 52) (\<lambda>_. True) id" "tis_locality t = 0" "t_ops (tpm_st t) = Tis_Ops"
    using demo_tpm_ok [of 53] b by (simp_all add: buffer_only_def)
  moreover have "sendable t 52" "b_len (tpm_buff t) = 53" using l at_len_word [OF l] by (simp_all add: sendable_def at_len_def)
  ultimately show "\<exists>u. ops_send (demo_tpm 53) t = Some (53, u)"
    using tis_send_completes_ext [of "demo_tpm 53" t 52 "\<lambda>_. True" id] by (simp add: ops_send_def locality_consts)
qed simp_all

lemma demo_crb_extend: "\<exists>s'. tpm_extend_pcr demo_crb 17 TPM_ALG_SHA1 (replicate 20 7) demo_crb_state = Some (Inr (0, s'))"
proof (rule demo_extend)
  fix t assume b: "buffer_only demo_crb_state t" and l: "at_len t 53"
  have "crb_locality t = 0" "t_ops (tpm_st t) = Crb_Ops" using b by (simp_all add: buffer_only_def)
  moreover have "b_len (tpm_buff t) = 53" using at_len_word [OF l] by simp
  moreover have "fst (tpm_read32 demo_crb (REGISTER 0 0x44) s) = 0" "fst (tpm_read32 demo_crb (REGISTER 0 0x4C) s) = 0"
    for s :: "nat tpm_machine"
    by (simp_all add: tpm_read32_def io_defs demo_crb_def REGISTER_def tpm_addr_def TPM_MMIO_BASE_def)
  ultimately show "\<exists>u. ops_send demo_crb t = Some (53, u)"
    by (simp add: ops_send_def crb_send_unfold is_idle_def crb_register_def crb_regs tpm_idle_def Let_def split_beta)
qed simp_all




theorem tis_extend_sends_command_witness:
  "\<exists>s' pre. tpm_extend_pcr (demo_tpm 53) 17 TPM_ALG_SHA1 (replicate 20 7) demo_fifo_state = Some (Inr (0, s'))
    \<and> trace s' = pre @ [go_event 0] \<and> fifo_bytes 0 pre = extend_message TPM20 17 TPM_ALG_SHA1 (replicate 20 7)"
  using demo_fifo_extend tis_extend_sends_command [of "demo_tpm 53" 17 TPM_ALG_SHA1 "replicate 20 7" demo_fifo_state]
  by fastforce


lemma granted_locality_has_buffer_demo:
  "\<exists>s'. tpm_request_locality demo_crb demo_layout 0 demo_crb_state = Some (0, s') \<and> buff_inv (tpm_buff s') \<and> 97 \<le> size_at s'"
proof -
  have "buff_idle demo_layout demo_buff"
    by (simp add: buff_idle_def demo_layout_def demo_buff_def STATIC_TIS_BUFFER_SIZE_def)
  moreover obtain s2 where "tpm_request_locality demo_crb demo_layout 0 demo_crb_state = Some (0, s2)"
    using demo_crb_grant by (auto simp: tpm_request_locality_def ops_request_locality_def)
  ultimately show ?thesis
    using granted_locality_has_buffer [of demo_crb demo_layout 0 demo_crb_state 0] by (auto simp: locality_consts)
qed

end
