(* ===== verification/Cstring.thy ===== *)
theory Cstring
  imports Prelude
begin

text \<open>
  \<^verbatim>\<open>string.c\<close>: the byte loops behind the compiler's builtins. The other theories use block
  reads and writes of memory for them; here the loops are related to those.
\<close>

section \<open>The loops\<close>

fun memcpy_loop :: "nat \<Rightarrow> addr \<Rightarrow> addr \<Rightarrow> mem \<Rightarrow> mem" where
  "memcpy_loop 0 d s m = m"
| "memcpy_loop (Suc count) d s m = memcpy_loop count (d + 1) (s + 1) (m(d := m s))"

definition memcpy :: "addr \<Rightarrow> addr \<Rightarrow> u64 \<Rightarrow> mem \<Rightarrow> addr \<times> mem" where
  "memcpy dst src count m = (dst, memcpy_loop (unat count) dst src m)"

fun memset_loop :: "nat \<Rightarrow> addr \<Rightarrow> u8 \<Rightarrow> mem \<Rightarrow> mem" where
  "memset_loop 0 d c m = m"
| "memset_loop (Suc n) d c m = memset_loop n (d + 1) c (m(d := c))"

text \<open>The second argument is a C int, converted to \<^verbatim>\<open>char\<close> by the store.\<close>

definition memset :: "addr \<Rightarrow> int \<Rightarrow> u64 \<Rightarrow> mem \<Rightarrow> addr \<times> mem" where
  "memset dst c n m = (dst, memset_loop (unat n) dst (word_of_int c) m)"

text \<open>The loop of \<^verbatim>\<open>strlen\<close> ends at the first NUL; without one it does not end (\<open>None\<close>).\<close>

partial_function (option) strlen_loop :: "mem \<Rightarrow> addr \<Rightarrow> nat \<Rightarrow> nat option" where
  "strlen_loop m s c = (if m s = 0 then Some c else strlen_loop m (s + 1) (c + 1))"

definition strlen :: "mem \<Rightarrow> addr \<Rightarrow> nat option" where
  "strlen m s = strlen_loop m s 0"

section \<open>Copying and filling\<close>

lemma memcpy_loop_at:
  "d \<le> s \<or> s + n \<le> d \<Longrightarrow> memcpy_loop n d s m x = (if d \<le> x \<and> x < d + n then m (s + (x - d)) else m x)"
proof (induction n arbitrary: d s m)
  case (Suc n)
  have "d + 1 \<le> s + 1 \<or> (s + 1) + n \<le> d + 1" using Suc.prems by auto
  define m' where "m' = m(d := m s)"
  note ih = Suc.IH [OF \<open>d + 1 \<le> s + 1 \<or> (s + 1) + n \<le> d + 1\<close>, of m']
  have e: "memcpy_loop (Suc n) d s m = memcpy_loop n (d + 1) (s + 1) m'" by (simp add: m'_def)
  consider "x = d" | "d < x" "x < d + Suc n" | "x < d \<or> d + Suc n \<le> x" by linarith
  then show ?case
  proof cases
    case 2
    then have "s + 1 + (x - (d + 1)) = s + (x - d)" "s + (x - d) \<noteq> d" using Suc.prems by auto
    with 2 show ?thesis unfolding e ih by (simp add: m'_def)
  qed (unfold e ih, auto simp: m'_def)
qed auto

lemma memcpy_block:
  assumes "dst \<le> src \<or> src + unat n \<le> dst"
  shows "memcpy dst src n m = (dst, mem_write m dst (mem_read m src (unat n)))"
proof -
  have "memcpy_loop (unat n) dst src m x = mem_write m dst (mem_read m src (unat n)) x" for x
    unfolding memcpy_loop_at [OF assms] by (auto simp: mem_write_def)
  then show ?thesis by (auto simp: memcpy_def)
qed

lemma memset_loop_at: "memset_loop n d c m x = (if d \<le> x \<and> x < d + n then c else m x)"
  by (induction n arbitrary: d m) auto

lemma memset_block: "memset dst c n m = (dst, mem_write m dst (replicate (unat n) (word_of_int c)))"
  by (simp add: memset_def mem_write_def) (rule ext, auto simp: memset_loop_at)

text \<open>
  C39. \<^verbatim>\<open>memcpy\<close> copies a block of memory whenever the regions are disjoint or the
  destination starts below the source, and \<^verbatim>\<open>memset\<close> of the copied bytes' place then leaves
  nothing of them: the blocks are exactly the ones the callers are modelled with.
\<close>

theorem memcpy_memset_blocks:
  assumes "dst \<le> src \<or> src + unat n \<le> dst"
  shows "memcpy dst src n m = (dst, mem_write m dst (mem_read m src (unat n)))
    \<and> memset dst c n (snd (memcpy dst src n m)) = (dst, mem_write m dst (replicate (unat n) (word_of_int c)))"
  using memcpy_block [OF assms] memset_block [of dst c n] by (auto simp: mem_write_def)

theorem memcpy_memset_blocks_witness:
  "memcpy 100 101 3 (\<lambda>a. of_nat a) = (100, mem_write (\<lambda>a. of_nat a) 100 [101, 102, 103])"
  using memcpy_memset_blocks [of 100 101 3 "\<lambda>a. of_nat a"] by (simp add: mem_read_def upt_rec)

section \<open>Strings\<close>

lemma strlen_loop_iff:
  "strlen_loop m s c = Some k \<longleftrightarrow> (\<exists>n. k = c + n \<and> m (s + n) = 0 \<and> (\<forall>i<n. m (s + i) \<noteq> 0))"
proof
  assume e: "strlen_loop m s c = Some k"
  define P where "P = (\<lambda>(m :: mem) s c k. \<exists>n. k = c + n \<and> m (s + n) = (0 :: u8) \<and> (\<forall>i<n. m (s + i) \<noteq> 0))"
  have "P m s c k"
  proof (rule strlen_loop.raw_induct [where P = P, OF _ e])
    fix f m s c k
    assume IH: "\<And>m s c k. f m s c = Some k \<Longrightarrow> P m s c k"
      and eq: "(if m s = 0 then Some c else f m (s + 1) (c + 1)) = Some k"
    show "P m s c k"
    proof (cases "m s = 0")
      case True
      with eq show ?thesis by (auto simp: P_def)
    next
      case False
      with eq IH [of m "s + 1" "c + 1" k] obtain n where
        n: "k = c + Suc n" "m (s + Suc n) = 0" "\<forall>i<n. m (Suc s + i) \<noteq> 0" by (auto simp: P_def)
      have "m (s + i) \<noteq> 0" if "i < Suc n" for i using that False n(3) by (cases i) auto
      with n show ?thesis unfolding P_def by (intro exI [of _ "Suc n"]) auto
    qed
  qed
  then show "\<exists>n. k = c + n \<and> m (s + n) = 0 \<and> (\<forall>i<n. m (s + i) \<noteq> 0)" by (simp add: P_def)
next
  assume "\<exists>n. k = c + n \<and> m (s + n) = 0 \<and> (\<forall>i<n. m (s + i) \<noteq> 0)"
  then obtain n where "k = c + n" "m (s + n) = 0" "\<forall>i<n. m (s + i) \<noteq> 0" by blast
  then show "strlen_loop m s c = Some k"
  proof (induction n arbitrary: s c)
    case 0
    then show ?case by (simp add: strlen_loop.simps)
  next
    case (Suc n)
    have "m s \<noteq> 0" using Suc.prems(3) by (metis add.right_neutral zero_less_Suc)
    moreover have "strlen_loop m (s + 1) (c + 1) = Some k"
      using Suc.prems by (intro Suc.IH) auto
    ultimately show ?case by (simp add: strlen_loop.simps [of m s c])
  qed
qed

lemma strlen_iff: "strlen m s = Some n \<longleftrightarrow> m (s + n) = 0 \<and> list_all (\<lambda>b. b \<noteq> 0) (mem_read m s n)"
  by (auto simp: strlen_def strlen_loop_iff list_all_length)

text \<open>The bytes of the C string at an address, without its NUL.\<close>

definition cstring :: "mem \<Rightarrow> addr \<Rightarrow> u8 list option" where
  "cstring m a = map_option (mem_read m a) (strlen m a)"

text \<open>
  \<^verbatim>\<open>strlen\<close> returns the number of bytes before the first NUL, and does not return when
  there is none.
\<close>

lemma strlen_first_nul:
  "(strlen m s = Some n \<longleftrightarrow> m (s + n) = 0 \<and> list_all (\<lambda>b. b \<noteq> 0) (mem_read m s n))
    \<and> (strlen m s = None \<longleftrightarrow> 0 \<notin> m ` {s..})"
proof -
  have "\<exists>n. strlen m s = Some n" if "m a = 0" "s \<le> a" for a
  proof -
    define n where "n = (LEAST i. m (s + i) = 0)"
    have "m (s + (a - s)) = 0" using that by simp
    then have "m (s + n) = 0" unfolding n_def by (rule LeastI)
    moreover have "m (s + i) \<noteq> 0" if "i < n" for i using that not_less_Least unfolding n_def by blast
    ultimately show ?thesis by (auto simp: strlen_def strlen_loop_iff)
  qed
  moreover have "0 \<in> m ` {s..}" if "strlen m s = Some k" for k
    using that by (force simp: strlen_iff image_iff)
  ultimately show ?thesis using strlen_iff by (cases "strlen m s") force+
qed

end
