(* ===== verification/Printk.thy ===== *)
theory Printk
  imports Machine Cstring
begin

text \<open>
  \<^verbatim>\<open>printk.c\<close>: the console on the serial port of the DEBUG build. Texts are bytes in memory
  (\<^verbatim>\<open>print\<close>) or the local array \<^verbatim>\<open>tmp\<close>, which is a list here. Waiting for the port may
  never end (\<open>None\<close>), and a text without a NUL is printed for ever.
\<close>

section \<open>Characters and texts\<close>

partial_function (option) serial_wait :: "'d hw \<Rightarrow> ('d, 'x) machine_scheme \<Rightarrow> ('d, 'x) machine_scheme option" where
  "serial_wait hw s =
     (let (lsr, s) = inb hw (0x3f8 + 5) s in if lsr AND 0x20 = 0 then serial_wait hw s else Some s)"

definition print_char :: "'d hw \<Rightarrow> u8 \<Rightarrow> ('d, 'x) machine_scheme \<Rightarrow> ('d, 'x) machine_scheme option" where
  "print_char hw c s = map_option (outb hw c 0x3f8) (serial_wait hw s)"

text \<open>The loop body of \<^verbatim>\<open>print\<close>: a line feed is preceded by a carriage return.\<close>

definition print_one :: "'d hw \<Rightarrow> u8 \<Rightarrow> ('d, 'x) machine_scheme \<Rightarrow> ('d, 'x) machine_scheme option" where
  "print_one hw c s = do {
     s \<leftarrow> (if c = 10 then print_char hw 13 s else Some s);
     print_char hw c s
   }"

partial_function (option) print_at :: "'d hw \<Rightarrow> addr \<Rightarrow> ('d, 'x) machine_scheme \<Rightarrow> ('d, 'x) machine_scheme option" where
  "print_at hw txt s =
     (if ram s txt = 0 then Some s else do { s \<leftarrow> print_one hw (ram s txt) s; print_at hw (txt + 1) s })"

text \<open>The same on an array of the caller, up to its NUL.\<close>

fun print_text :: "'d hw \<Rightarrow> u8 list \<Rightarrow> ('d, 'x) machine_scheme \<Rightarrow> ('d, 'x) machine_scheme option" where
  "print_text hw [] s = Some s"
| "print_text hw (c # cs) s = (if c = 0 then Some s else do { s \<leftarrow> print_one hw c s; print_text hw cs s })"

section \<open>Numbers\<close>

definition hex_digit :: "u64 \<Rightarrow> u8" where
  "hex_digit p = (if p AND 0xf \<ge> 10 then ucast (p AND 0xf) + 97 - 10 else ucast (p AND 0xf) + 48)"

text \<open>The loop of \<^verbatim>\<open>print_p\<close> and \<^verbatim>\<open>print_u64\<close>: two digits at a time, from the right end.\<close>

function put_digits :: "nat \<Rightarrow> u64 \<Rightarrow> u8 list \<Rightarrow> u8 list" where
  "put_digits i p tmp =
     (if i < 8
      then put_digits (Suc i) (drop_bit 4 (drop_bit 4 p))
             (tmp[17 - 2 * i := hex_digit p, 16 - 2 * i := hex_digit (drop_bit 4 p)])
      else tmp)"
  by pat_completeness auto
termination by (relation "measure (\<lambda>(i, _). 8 - i)") auto

declare put_digits.simps [simp del]

definition u64_text :: "u64 \<Rightarrow> u8 list" where
  "u64_text p = (put_digits 0 p (ascii ''0x'' @ replicate 19 0))[18 := 58, 19 := 32, 20 := 0]"

definition print_u64 :: "'d hw \<Rightarrow> u64 \<Rightarrow> ('d, 'x) machine_scheme \<Rightarrow> ('d, 'x) machine_scheme option" where
  "print_u64 hw p s = print_text hw (u64_text p) s"

definition print_p :: "'d hw \<Rightarrow> u64 \<Rightarrow> ('d, 'x) machine_scheme \<Rightarrow> ('d, 'x) machine_scheme option" where
  "print_p hw p s = print_text hw (u64_text p) s"

text \<open>\<^verbatim>\<open>char\<close> is signed: the shift keeps the sign, but only the low four bits are used.\<close>

definition print_b :: "'d hw \<Rightarrow> u8 \<Rightarrow> ('d, 'x) machine_scheme \<Rightarrow> ('d, 'x) machine_scheme option" where
  "print_b hw p s = print_text hw [hex_digit (ucast (signed_drop_bit 4 p)), hex_digit (ucast p), 32, 0] s"

definition isprint :: "u8 \<Rightarrow> bool" where
  "isprint c \<longleftrightarrow> 32 \<le> c \<and> c \<le> 126"

section \<open>Dumps\<close>

fun print_each :: "('a \<Rightarrow> 's \<Rightarrow> 's option) \<Rightarrow> 'a list \<Rightarrow> 's \<Rightarrow> 's option" where
  "print_each f [] s = Some s"
| "print_each f (c # cs) s = do { s \<leftarrow> f c s; print_each f cs s }"

text \<open>
  One line: the counters of equal lines, then the address, the bytes and the characters, or
  the dots of the second of several equal lines. A line is always 16 bytes.
\<close>

definition hexdump_line :: "'d hw \<Rightarrow> addr \<Rightarrow> nat \<times> nat \<Rightarrow> ('d, 'x) machine_scheme
    \<Rightarrow> ((nat \<times> nat) \<times> ('d, 'x) machine_scheme) option" where
  "hexdump_line hw a k s =
     (let line = mem_read (ram s) a 16;
          all_zero = (if list_all (\<lambda>b. b = 0) line then fst k + 1 else 0);
          all_one = (if list_all (\<lambda>b. b = 0xff) line then snd k + 1 else 0)
      in map_option (Pair (all_zero, all_one))
           (if all_zero < 2 \<and> all_one < 2
            then do {
              s \<leftarrow> print_p hw (of_nat a) s;
              s \<leftarrow> print_each (print_b hw) line s;
              s \<leftarrow> print_text hw (ascii ''  '') s;
              s \<leftarrow> print_each (\<lambda>c. print_char hw (if isprint c then c else 46)) line s;
              print_text hw [10] s
            }
            else if all_zero = 2 \<or> all_one = 2 then print_text hw (ascii ''...'' @ [10]) s
            else Some s))"

fun hexdump_lines :: "'d hw \<Rightarrow> nat \<Rightarrow> addr \<Rightarrow> nat \<times> nat \<Rightarrow> ('d, 'x) machine_scheme
    \<Rightarrow> ('d, 'x) machine_scheme option" where
  "hexdump_lines hw 0 a k s = Some s"
| "hexdump_lines hw (Suc n) a k s = do { (k, s) \<leftarrow> hexdump_line hw a k s; hexdump_lines hw n (a + 16) k s }"

text \<open>The lines of \<open>for ( i = 0; i < length; i += 16 )\<close>, for lengths that an int can count.\<close>

definition hexdump :: "'d hw \<Rightarrow> addr \<Rightarrow> nat \<Rightarrow> ('d, 'x) machine_scheme \<Rightarrow> ('d, 'x) machine_scheme option" where
  "hexdump hw memory n s = hexdump_lines hw ((n + 15) div 16) memory (0, 0) s"

section \<open>What is printed\<close>

text \<open>The digits of a number from the left, and the number that digits stand for.\<close>

definition hex_value :: "u8 \<Rightarrow> u64" where
  "hex_value d = (if d \<ge> 97 then ucast d - 97 + 10 else ucast d - 48)"

definition parse_hex :: "u8 list \<Rightarrow> u64" where
  "parse_hex ds = foldl (\<lambda>v d. push_bit 4 v OR hex_value d) 0 ds"

lemma put_digits_all: "put_digits 0 p tmp = tmp[17 := hex_digit (drop_bit 0 p), 16 := hex_digit (drop_bit 4 p), 15 := hex_digit (drop_bit 8 p), 14 := hex_digit (drop_bit 12 p),
    13 := hex_digit (drop_bit 16 p), 12 := hex_digit (drop_bit 20 p), 11 := hex_digit (drop_bit 24 p), 10 := hex_digit (drop_bit 28 p),
    9 := hex_digit (drop_bit 32 p), 8 := hex_digit (drop_bit 36 p), 7 := hex_digit (drop_bit 40 p), 6 := hex_digit (drop_bit 44 p),
    5 := hex_digit (drop_bit 48 p), 4 := hex_digit (drop_bit 52 p), 3 := hex_digit (drop_bit 56 p), 2 := hex_digit (drop_bit 60 p)]"
  by (simp add: put_digits.simps)

lemma tmp_bytes: "ascii ''0x'' @ replicate 19 0 = [48, 120, 0, 0, 0, 0, 0, 0, 0, 0, 0, 0, 0, 0, 0, 0, 0, 0, 0, 0, 0]"
  by (simp add: ascii_def numeral_eq_Suc)

lemma digit_places: "[0..<16] = [0, 1, 2, 3, 4, 5, 6, 7, 8, 9, 10, 11, 12, 13, 14, 15 :: nat]"
  by (simp add: upt_rec)

lemma u64_text_digits:
  "u64_text p = [48, 120] @ map (\<lambda>k. hex_digit (drop_bit (60 - 4 * k) p)) [0..<16] @ [58, 32, 0]"
  unfolding u64_text_def put_digits_all tmp_bytes digit_places by simp

lemma nibble_cases: "\<exists>n\<in>set [0, 1, 2, 3, 4, 5, 6, 7, 8, 9, 10, 11, 12, 13, 14, 15]. (p :: u64) AND 15 = of_nat n"
proof
  have "unat (p AND 15) \<le> 15" using word_and_le1 [of p 15] by (simp add: word_le_nat_alt)
  then have "unat (p AND 15) < 16" by simp
  then show "unat (p AND 15) \<in> set [0, 1, 2, 3, 4, 5, 6, 7, 8, 9, 10, 11, 12, 13, 14, 15]"
    by (simp add: eval_nat_numeral less_Suc_eq)
qed simp

lemma hex_digit_value: "hex_value (hex_digit p) = p AND 15"
  using nibble_cases [of p] by (auto simp: hex_value_def hex_digit_def word_le_nat_alt)

lemma parse_digit: "push_bit 4 (drop_bit (k + 4) p) OR (drop_bit k p AND 15) = drop_bit k (p :: u64)"
proof -
  have m: "x AND 15 = take_bit 4 x" for x :: u64 by (simp add: take_bit_eq_mask mask_eq_exp_minus_1)
  show ?thesis unfolding m by (rule bit_word_eqI) (auto simp: bit_simps not_less le_add_diff_inverse2)
qed

lemma parse_digits:
  "n \<le> 16 \<Longrightarrow> parse_hex (map (\<lambda>k. hex_digit (drop_bit (60 - 4 * k) p)) [0..<n]) = drop_bit (64 - 4 * n) p"
proof (induction n)
  case 0
  show ?case by (simp add: parse_hex_def)
next
  case (Suc n)
  define k where "k = 60 - 4 * n"
  have k: "64 - 4 * n = k + 4" "64 - 4 * Suc n = k" using Suc.prems by (simp_all add: k_def)
  have "parse_hex (map (\<lambda>k. hex_digit (drop_bit (60 - 4 * k) p)) [0..<Suc n])
      = push_bit 4 (drop_bit (k + 4) p) OR (drop_bit k p AND 15)"
    using Suc unfolding k(1) by (simp add: parse_hex_def hex_digit_value k_def)
  then show ?case unfolding k(2) parse_digit .
qed

text \<open>What reaches the port, in order.\<close>

definition port_bytes :: "io_event list \<Rightarrow> u8 list" where
  "port_bytes evs = concat (map (\<lambda>e. case e of Port_Out p n v \<Rightarrow> [ucast v] | _ \<Rightarrow> []) evs)"

definition sent :: "u8 list \<Rightarrow> ('d, 'x) machine_scheme \<Rightarrow> ('d, 'x) machine_scheme \<Rightarrow> bool" where
  "sent bs s s' \<longleftrightarrow> (\<exists>evs. io_run s evs s' \<and> port_bytes evs = bs)"

lemma sent_trans: "sent as s t \<Longrightarrow> sent bs t u \<Longrightarrow> sent (as @ bs) s u"
  unfolding sent_def by (elim exE conjE, rule exI, rule conjI, erule (1) io_run_append) (simp add: port_bytes_def)

lemma sent_Nil [simp]: "sent [] s s"
  by (auto simp: sent_def port_bytes_def intro!: exI [of _ "[]"])

lemma serial_wait_sent: "serial_wait hw s = Some t \<Longrightarrow> sent [] s t"
proof -
  define P :: "'a hw \<Rightarrow> ('a, 'b) machine_scheme \<Rightarrow> ('a, 'b) machine_scheme \<Rightarrow> bool" where "P = (\<lambda>_. sent [])"
  have r: "sent [] s (snd (inb hw p s))" for hw :: "'a hw" and p and s :: "('a, 'b) machine_scheme"
    unfolding sent_def
    by (rule exI [of _ "[Port_In p 1 (take_bit 8 (fst (hw_in hw p 1 (dev s))))]"])
       (simp add: io_run_def io_defs port_bytes_def Let_def split_beta)
  assume w: "serial_wait hw s = Some t"
  have "P hw s t"
    by (rule serial_wait.raw_induct [OF _ w])
       (auto simp: P_def Let_def split_beta split: if_splits intro: r sent_trans [OF r, of "[]", simplified])
  then show ?thesis by (simp add: P_def)
qed

lemma print_char_sent: "print_char hw c s = Some t \<Longrightarrow> sent [c] s t"
proof -
  assume "print_char hw c s = Some t"
  then obtain u where u: "serial_wait hw s = Some u" "t = outb hw c 0x3f8 u" by (auto simp: print_char_def)
  have "(ucast (ucast c :: u32) :: u8) = c" by (rule bit_word_eqI) (simp add: bit_simps)
  then have "sent [c] u t"
    unfolding u sent_def
    by (intro exI [of _ "[Port_Out 0x3f8 1 (ucast c)]"]) (simp add: io_run_def io_defs port_bytes_def)
  with sent_trans [OF serial_wait_sent [OF u(1)]] show ?thesis by fastforce
qed

text \<open>A text as the terminal gets it: up to its NUL, with a carriage return before every line feed.\<close>

definition on_wire :: "u8 list \<Rightarrow> u8 list" where
  "on_wire cs = concat (map (\<lambda>c. if c = 10 then [13, 10] else [c]) (takeWhile (\<lambda>c. c \<noteq> 0) cs))"

lemma print_one_sent: "print_one hw c s = Some t \<Longrightarrow> sent (if c = 10 then [13, 10] else [c]) s t"
  using sent_trans [of "[13]" s _ "[c]" t] print_char_sent
  by (auto simp: print_one_def bind_eq_Some_conv split: if_splits) fastforce

lemma print_text_sent: "print_text hw cs s = Some t \<Longrightarrow> sent (on_wire cs) s t"
proof (induction cs arbitrary: s)
  case Nil
  then show ?case by (simp add: on_wire_def)
next
  case (Cons c cs)
  show ?case
  proof (cases "c = 0")
    case False
    with Cons.prems obtain u where u: "print_one hw c s = Some u" "print_text hw cs u = Some t"
      by (auto simp: bind_eq_Some_conv)
    from sent_trans [OF print_one_sent [OF u(1)] Cons.IH [OF u(2)]] False show ?thesis
      by (simp add: on_wire_def)
  qed (use Cons.prems in \<open>simp add: on_wire_def\<close>)
qed

text \<open>\<^verbatim>\<open>print\<close> on memory is the same on the C string there.\<close>

lemma print_one_ram: "print_one hw c s = Some t \<Longrightarrow> ram t = ram s"
  by (drule print_one_sent) (auto simp: sent_def dest: io_run_ram)

lemma print_at_text:
  "mem_read (ram s) a n = cs \<Longrightarrow> list_all (\<lambda>b. b \<noteq> 0) cs \<Longrightarrow> ram s (a + n) = 0 \<Longrightarrow> print_at hw a s = print_text hw cs s"
proof (induction cs arbitrary: a n s)
  case Nil
  then have "n = 0" by (metis length_mem_read list.size(3))
  with Nil show ?case by (simp add: print_at.simps [of hw a s])
next
  case (Cons c cs)
  then obtain k where n: "n = Suc k" by (cases n) auto
  have c: "ram s a = c" "mem_read (ram s) (a + 1) k = cs"
    using Cons.prems(1) mem_read_cut [of 1 n "ram s" a] by (auto simp: n mem_read_def)
  show ?case
  proof (cases "print_one hw c s")
    case None
    then show ?thesis using Cons.prems c by (simp add: print_at.simps [of hw a s])
  next
    case (Some u)
    have "print_at hw (a + 1) u = print_text hw cs u"
      by (rule Cons.IH [where n = k]) (use Cons.prems c print_one_ram [OF Some] n in auto)
    with Some Cons.prems c show ?thesis by (simp add: print_at.simps [of hw a s])
  qed
qed

section \<open>Numbers and dumps on the wire\<close>

lemma hex_digit_printable: "48 \<le> hex_digit p \<and> hex_digit p \<le> 102"
  using nibble_cases [of p] by (auto simp: hex_digit_def word_le_nat_alt)

lemma hex_digit_plain [simp]: "hex_digit p \<noteq> 0" "hex_digit p \<noteq> 10"
  using hex_digit_printable [of p] by (auto simp: word_le_nat_alt)

lemma on_wire_plain: "list_all (\<lambda>c. c \<noteq> 0 \<and> c \<noteq> 10) cs \<Longrightarrow> on_wire (cs @ 0 # rest) = cs"
  by (induction cs) (auto simp: on_wire_def)

lemma print_u64_sent:
  assumes "print_u64 hw p s = Some t"
  shows "\<exists>ds. sent ([48, 120] @ ds @ [58, 32]) s t \<and> length ds = 16 \<and> parse_hex ds = p"
proof -
  let ?ds = "map (\<lambda>k. hex_digit (drop_bit (60 - 4 * k) p)) [0..<16]"
  have "u64_text p = ([48, 120] @ ?ds @ [58, 32]) @ 0 # []" by (simp add: u64_text_digits)
  moreover have "list_all (\<lambda>c. c \<noteq> 0 \<and> c \<noteq> 10) ([48, 120] @ ?ds @ [58, 32])"
    by (simp add: list_all_iff)
  ultimately have "on_wire (u64_text p) = [48, 120] @ ?ds @ [58, 32]" by (simp only: on_wire_plain)
  with print_text_sent [OF assms [unfolded print_u64_def]] have "sent ([48, 120] @ ?ds @ [58, 32]) s t" by simp
  moreover have "parse_hex ?ds = p" using parse_digits [of 16 p] by simp
  ultimately show ?thesis by (intro exI [of _ ?ds]) simp
qed

lemma print_each_sent:
  assumes "print_each f cs s = Some t" and "\<And>c s t. f c s = Some t \<Longrightarrow> sent (out c) s t"
  shows "sent (concat (map out cs)) s t"
  using assms(1)
proof (induction cs arbitrary: s)
  case (Cons c cs)
  then obtain u where "f c s = Some u" "print_each f cs u = Some t" by (auto simp: bind_eq_Some_conv)
  with sent_trans [OF assms(2) Cons.IH] show ?case by fastforce
qed simp

definition byte_text :: "u8 \<Rightarrow> u8 list" where
  "byte_text p = [hex_digit (ucast (signed_drop_bit 4 p)), hex_digit (ucast p), 32]"

lemma print_b_sent: "print_b hw p s = Some t \<Longrightarrow> sent (byte_text p) s t"
  using on_wire_plain [of "byte_text p" "[]"] print_text_sent [of hw "byte_text p @ [0]" s t]
  by (simp add: print_b_def byte_text_def)

text \<open>
  A dump of one to sixteen bytes is one line of sixteen: whatever follows the data in memory
  is printed as well.
\<close>

lemma hexdump_whole_line:
  assumes h: "hexdump hw a n s = Some t" and n: "1 \<le> n" "n \<le> 16"
  shows "\<exists>pre post. sent (pre @ concat (map byte_text (mem_read (ram s) a 16)) @ post) s t"
proof -
  let ?line = "mem_read (ram s) a 16"
  have 1: "(n + 15) div 16 = Suc 0" using n by auto
  obtain k where "hexdump_line hw a (0, 0) s = Some (k, t)"
    using h unfolding hexdump_def 1 by (auto simp: bind_eq_Some_conv)
  then obtain s1 s2 s3 s4 where c: "print_p hw (of_nat a) s = Some s1" "print_each (print_b hw) ?line s1 = Some s2"
    "print_text hw (ascii ''  '') s2 = Some s3"
    "print_each (\<lambda>c. print_char hw (if isprint c then c else 46)) ?line s3 = Some s4" "print_text hw [10] s4 = Some t"
    by (auto simp: hexdump_line_def Let_def bind_eq_Some_conv split: if_splits)
  note 2 = print_text_sent [OF c(1) [unfolded print_p_def]]
    and 4 = sent_trans [OF print_text_sent [OF c(3)] sent_trans [OF _ print_text_sent [OF c(5)]]]
  have 3: "sent (concat (map byte_text ?line)) s1 s2" by (rule print_each_sent [OF c(2) print_b_sent])
  have "sent (concat (map (\<lambda>c. [if isprint c then c else 46]) ?line)) s3 s4"
    by (rule print_each_sent [OF c(4) print_char_sent])
  from sent_trans [OF 2 sent_trans [OF 3 4 [OF this]]] show ?thesis by blast
qed


text \<open>A port that is always ready.\<close>

definition demo_port :: "unit hw" where
  "demo_port = \<lparr>hw_load = (\<lambda>a n d. (0, d)), hw_store = (\<lambda>a n v d. d), hw_in = \<lambda>p n d. (0x20, d), hw_out = \<lambda>p n v d. d,
     hw_rdmsr = \<lambda>i d. (0, d), hw_tick = \<lambda>d. d, hw_junk = \<lambda>d i. 0\<rparr>"

lemma demo_port_ready: "\<exists>t. print_text demo_port cs s = Some t"
proof (induction cs arbitrary: s)
  case (Cons c cs)
  have w: "\<exists>t. serial_wait demo_port s = Some t" for s :: "(unit, 'x) machine_scheme"
    by (subst serial_wait.simps) (simp add: io_defs demo_port_def Let_def split_beta)
  have p: "\<exists>t. print_char demo_port c s = Some t" for c and s :: "(unit, 'x) machine_scheme"
    using w [of s] by (auto simp: print_char_def)
  have "\<exists>u. print_one demo_port c s = Some u"
    using p [of 13 s] p [of c] by (cases "c = 10") (force simp: print_one_def bind_eq_Some_conv)+
  with Cons.IH show ?case by auto
qed simp


end
