(* ===== verification/Linux_Boot.thy ===== *)
theory Linux_Boot
  imports Prelude
begin

text \<open>
  The Linux boot protocol: the structures of \<^verbatim>\<open>include/linux-bootparams.h\<close> and the checks
  that \<^verbatim>\<open>skl_linux\<close> of \<^verbatim>\<open>main.c\<close> makes on them before it measures the kernel. Offsets and
  sizes are 32-bit fields, and their sums are 32-bit sums before they become pointers.
\<close>

section \<open>Structures in memory\<close>

record boot_params =
  tb_dev_map :: u32
  syssize :: u32
  bp_version :: u16
  code32_start :: u32
  cmd_line_ptr :: u32
  cmdline_size :: u32
  payload_offset :: u32
  payload_length :: u32
  kern_info_offset :: u32

definition boot_params_at :: "mem \<Rightarrow> addr \<Rightarrow> boot_params" where
  "boot_params_at m p = \<lparr>tb_dev_map = load32 m (p + 0x0d8), syssize = load32 m (p + 0x1f4),
     bp_version = load16 m (p + 0x206), code32_start = load32 m (p + 0x214),
     cmd_line_ptr = load32 m (p + 0x228), cmdline_size = load32 m (p + 0x238),
     payload_offset = load32 m (p + 0x248), payload_length = load32 m (p + 0x24c),
     kern_info_offset = load32 m (p + 0x268)\<rparr>"

definition KERNEL_INFO_HEADER :: u32 where "KERNEL_INFO_HEADER = 0x506f544c"

record kernel_info =
  ki_header :: u32
  ki_size :: u32
  size_total :: u32
  setup_type_max :: u32
  mle_header_offset :: u32

definition kernel_info_at :: "mem \<Rightarrow> addr \<Rightarrow> kernel_info" where
  "kernel_info_at m p = \<lparr>ki_header = load32 m p, ki_size = load32 m (p + 4),
     size_total = load32 m (p + 8), setup_type_max = load32 m (p + 12),
     mle_header_offset = load32 m (p + 16)\<rparr>"

definition MLE_UUID0 :: u32 where "MLE_UUID0 = 0x9082ac5a"
definition MLE_UUID1 :: u32 where "MLE_UUID1 = 0x74a7476f"
definition MLE_UUID2 :: u32 where "MLE_UUID2 = 0xa2555c0f"
definition MLE_UUID3 :: u32 where "MLE_UUID3 = 0x42b651cb"

lemmas mle_uuids = MLE_UUID0_def MLE_UUID1_def MLE_UUID2_def MLE_UUID3_def

text \<open>Of the header only the identifier and the entry point are used here.\<close>

record mle_header =
  mle_uuid :: "u32 list"
  sl_stub_entry :: u32

definition mle_header_at :: "mem \<Rightarrow> addr \<Rightarrow> mle_header" where
  "mle_header_at m p = \<lparr>mle_uuid = map (\<lambda>i. load32 m (p + 4 * i)) [0..<4], sl_stub_entry = load32 m (p + 24)\<rparr>"

section \<open>The checks\<close>

text \<open>A pointer is returned as it is or as NULL; all of them are 32-bit sums.\<close>

definition is_in_kernel :: "boot_params \<Rightarrow> u32 \<Rightarrow> u32" where
  "is_in_kernel bp ptr =
     (if ptr < code32_start bp
         \<or> ptr \<ge> code32_start bp + push_bit 4 (syssize bp)
         \<or> (ptr \<ge> code32_start bp + payload_offset bp
            \<and> ptr < code32_start bp + payload_offset bp + payload_length bp)
      then 0 else ptr)"

definition get_kernel_info :: "boot_params \<Rightarrow> u32" where
  "get_kernel_info bp = is_in_kernel bp (code32_start bp + kern_info_offset bp)"

definition get_mle_hdr :: "boot_params \<Rightarrow> kernel_info \<Rightarrow> u32" where
  "get_mle_hdr bp ki = is_in_kernel bp (code32_start bp + mle_header_offset ki)"

definition get_kernel_entry :: "boot_params \<Rightarrow> mle_header \<Rightarrow> u32" where
  "get_kernel_entry bp mle = is_in_kernel bp (code32_start bp + sl_stub_entry mle)"

text \<open>The long condition of \<^verbatim>\<open>skl_linux\<close>: the MLE header it ends up with, or a reboot (\<open>None\<close>).\<close>

definition find_mle_header :: "mem \<Rightarrow> boot_params \<Rightarrow> u32 option" where
  "find_mle_header m bp =
     (if bp_version bp < 0x020f then None
      else
        let ki = get_kernel_info bp
        in if ki = 0 \<or> ki_header (kernel_info_at m (unat ki)) \<noteq> KERNEL_INFO_HEADER then None
           else
             let mle = get_mle_hdr bp (kernel_info_at m (unat ki))
             in if mle = 0
                   \<or> mle_uuid (mle_header_at m (unat mle)) ! 0 \<noteq> MLE_UUID0
                   \<or> mle_uuid (mle_header_at m (unat mle)) ! 1 \<noteq> MLE_UUID1
                   \<or> mle_uuid (mle_header_at m (unat mle)) ! 2 \<noteq> MLE_UUID2
                   \<or> mle_uuid (mle_header_at m (unat mle)) ! 3 \<noteq> MLE_UUID3
                then None else Some mle)"

text \<open>Both checks: the entry point into the kernel, or a reboot.\<close>

definition linux_entry :: "mem \<Rightarrow> boot_params \<Rightarrow> u32 option" where
  "linux_entry m bp = do {
     mle \<leftarrow> find_mle_header m bp;
     let entry = get_kernel_entry bp (mle_header_at m (unat mle));
     if entry = 0 then None else Some entry
   }"

section \<open>What the checks give\<close>

text \<open>The bytes that \<^verbatim>\<open>skl_linux\<close> measures: \<open>syssize << 4\<close>, a 32-bit product, from \<open>code32_start\<close> on.\<close>

definition kernel_bytes :: "boot_params \<Rightarrow> addr set" where
  "kernel_bytes bp = {unat (code32_start bp)..<unat (code32_start bp) + unat (push_bit 4 (syssize bp))}"

lemma sum_range:
  assumes "(a :: u32) \<le> p" "p < a + n"
  shows "unat a \<le> unat p \<and> unat p < unat a + unat n"
proof -
  have "unat (a + n) \<le> unat a + unat n" by (simp add: unat_plus_if')
  with assms show ?thesis by (auto simp: word_le_nat_alt word_less_nat_alt)
qed

lemma is_in_kernel_range:
  assumes "is_in_kernel bp p = q" "q \<noteq> 0"
  shows "q = p \<and> unat q \<in> kernel_bytes bp"
proof -
  have p: "q = p" "code32_start bp \<le> p" "p < code32_start bp + push_bit 4 (syssize bp)"
    using assms by (auto simp: is_in_kernel_def not_less not_le split: if_splits)
  from sum_range [OF p(2,3)] show ?thesis by (simp add: p(1) kernel_bytes_def)
qed

lemma linux_entry_in:
  assumes "linux_entry m bp = Some entry"
  shows "unat entry \<in> kernel_bytes bp"
proof -
  have "\<exists>p. is_in_kernel bp p = entry \<and> entry \<noteq> 0"
    using assms by (cases "find_mle_header m bp") (auto simp: linux_entry_def get_kernel_entry_def Let_def split: if_splits)
  then show ?thesis using is_in_kernel_range by blast
qed

lemma is_in_kernel_payload:
  assumes "is_in_kernel bp p = q" "q \<noteq> 0"
    and "unat (code32_start bp) + unat (payload_offset bp) + unat (payload_length bp) < 2 ^ 32"
  shows "unat q < unat (code32_start bp) + unat (payload_offset bp)
    \<or> unat (code32_start bp) + unat (payload_offset bp) + unat (payload_length bp) \<le> unat q"
proof -
  have s: "unat (code32_start bp + payload_offset bp) = unat (code32_start bp) + unat (payload_offset bp)"
    using assms(3) by (simp add: unat_plus_if')
  have t: "unat (code32_start bp + payload_offset bp + payload_length bp)
      = unat (code32_start bp) + unat (payload_offset bp) + unat (payload_length bp)"
    using assms(3) s by (simp add: unat_plus_if' [of "code32_start bp + payload_offset bp"])
  show ?thesis
    using assms(1,2) s t by (auto simp: is_in_kernel_def word_le_nat_alt word_less_nat_alt split: if_splits)
qed

lemma linux_entry_cases:
  assumes "linux_entry m bp = Some entry"
  shows "\<exists>ki mle. get_kernel_info bp = ki \<and> ki \<noteq> 0 \<and> load32 m (unat ki) = KERNEL_INFO_HEADER
    \<and> get_mle_hdr bp (kernel_info_at m (unat ki)) = mle \<and> mle \<noteq> 0
    \<and> map (\<lambda>i. load32 m (unat mle + 4 * i)) [0..<4] = [MLE_UUID0, MLE_UUID1, MLE_UUID2, MLE_UUID3]
    \<and> get_kernel_entry bp (mle_header_at m (unat mle)) = entry \<and> entry \<noteq> 0"
proof -
  from assms obtain mle where mle: "find_mle_header m bp = Some mle"
    "get_kernel_entry bp (mle_header_at m (unat mle)) = entry" "entry \<noteq> 0"
    by (cases "find_mle_header m bp") (auto simp: linux_entry_def Let_def split: if_splits)
  let ?ki = "get_kernel_info bp"
  have k: "?ki \<noteq> 0" "load32 m (unat ?ki) = KERNEL_INFO_HEADER" "get_mle_hdr bp (kernel_info_at m (unat ?ki)) = mle" "mle \<noteq> 0"
    using mle(1) by (simp_all add: find_mle_header_def Let_def kernel_info_at_def split: if_split_asm)
  have "mle_uuid (mle_header_at m (unat mle)) ! 0 = MLE_UUID0 \<and> mle_uuid (mle_header_at m (unat mle)) ! 1 = MLE_UUID1
      \<and> mle_uuid (mle_header_at m (unat mle)) ! 2 = MLE_UUID2 \<and> mle_uuid (mle_header_at m (unat mle)) ! 3 = MLE_UUID3"
    using mle(1) by (simp add: find_mle_header_def Let_def split: if_split_asm)
  moreover have "[0..<4] = [0, 1, 2, 3 :: nat]" by (simp add: upt_rec)
  ultimately have u: "map (\<lambda>i. load32 m (unat mle + 4 * i)) [0..<4] = [MLE_UUID0, MLE_UUID1, MLE_UUID2, MLE_UUID3]"
    by (simp add: mle_header_at_def)
  show ?thesis
    by (rule exI [of _ ?ki], rule exI [of _ mle]) (intro conjI refl u mle(2,3) k)
qed


text \<open>A kernel at 1 MB: 64 KB long, its kernel_info at 0x100, its MLE header at 0x200, the entry at 0x400.\<close>

definition demo_kernel :: mem where
  "demo_kernel = mem_write (mem_write (mem_write (\<lambda>_. 0) 0x100100 (le_bytes 4 KERNEL_INFO_HEADER)) 0x100110 [0, 2, 0, 0])
     0x100200 (le_bytes 4 MLE_UUID0 @ le_bytes 4 MLE_UUID1 @ le_bytes 4 MLE_UUID2 @ le_bytes 4 MLE_UUID3 @ replicate 8 0 @ [0, 4, 0, 0])"

definition demo_params :: boot_params where
  "demo_params = \<lparr>tb_dev_map = 0, syssize = 0x1000, bp_version = 0x20f, code32_start = 0x100000, cmd_line_ptr = 0,
     cmdline_size = 0, payload_offset = 0x800, payload_length = 0x8000, kern_info_offset = 0x100\<rparr>"

definition demo_entry_loads :: "mem \<Rightarrow> bool" where
  "demo_entry_loads m \<longleftrightarrow> load32 m 0x100100 = KERNEL_INFO_HEADER \<and> load32 m 0x100110 = 0x200
     \<and> load32 m 0x100200 = MLE_UUID0 \<and> load32 m 0x100204 = MLE_UUID1 \<and> load32 m 0x100208 = MLE_UUID2
     \<and> load32 m 0x10020C = MLE_UUID3 \<and> load32 m 0x100218 = 0x400"

lemma demo_kernel_loads: "demo_entry_loads demo_kernel"
proof -
  define mle where "mle = le_bytes 4 MLE_UUID0 @ le_bytes 4 MLE_UUID1 @ le_bytes 4 MLE_UUID2 @ le_bytes 4 MLE_UUID3 @ replicate 8 0 @ [0, 4, 0, 0]"
  have k: "load32 demo_kernel 0x100100 = KERNEL_INFO_HEADER" "load32 demo_kernel 0x100110 = 0x200"
    by (simp_all add: load32_def demo_kernel_def mem_simps of_le_le_bytes) (simp add: of_le_def)
  obtain m where m: "demo_kernel = mem_write m 0x100200 mle" unfolding demo_kernel_def mle_def by blast
  have len: "length mle = 28" by (simp add: mle_def)
  have r: "load32 demo_kernel (0x100200 + i) = of_le (take 4 (drop i mle))" if "i + 4 \<le> 28" for i
    unfolding load32_def m using that by (intro arg_cong [of _ _ of_le] mem_read_write_part) (simp only: len)
  have take: "take 4 (drop 0 mle) = le_bytes 4 MLE_UUID0" "take 4 (drop 4 mle) = le_bytes 4 MLE_UUID1"
    "take 4 (drop 8 mle) = le_bytes 4 MLE_UUID2" "take 4 (drop 12 mle) = le_bytes 4 MLE_UUID3"
    "take 4 (drop 24 mle) = le_bytes 4 (0x400 :: u32)"
    by (simp_all add: mle_def) (simp add: le_bytes_def upt_rec)
  show ?thesis
    using k r [of 0, unfolded take] r [of 4, unfolded take] r [of 8, unfolded take] r [of 12, unfolded take] r [of 24, unfolded take]
    by (simp add: of_le_le_bytes demo_entry_loads_def)
qed

lemma demo_entry: "demo_entry_loads m \<Longrightarrow> linux_entry m demo_params = Some 0x100400"
  by (simp add: demo_entry_loads_def linux_entry_def find_mle_header_def get_kernel_info_def get_mle_hdr_def
      get_kernel_entry_def is_in_kernel_def demo_params_def kernel_info_at_def mle_header_at_def upt_rec)

lemma demo_linux_entry: "linux_entry demo_kernel demo_params = Some 0x100400"
  by (rule demo_entry [OF demo_kernel_loads])


end
