(* ===== verification/Multiboot.thy ===== *)
theory Multiboot
  imports Prelude
begin

text \<open>
  The Multiboot 2 information (MBI): the structures of \<^verbatim>\<open>include/multiboot2.h\<close> that the
  loader reads and the first walk of \<^verbatim>\<open>skl_multiboot2\<close>, which looks for the kernel's entry
  point and size. The walks trust the list: they follow its length fields until a tag of
  type 0 and may not end. Tags are read out of memory at their address.
\<close>

section \<open>Structures\<close>

definition MULTIBOOT_TAG_ALIGN :: u32 where "MULTIBOOT_TAG_ALIGN = 8"
definition MULTIBOOT_TAG_TYPE_END :: u32 where "MULTIBOOT_TAG_TYPE_END = 0"
definition MULTIBOOT_TAG_TYPE_MODULE :: u32 where "MULTIBOOT_TAG_TYPE_MODULE = 3"
definition MULTIBOOT_TAG_TYPE_ELF_SECTIONS :: u32 where "MULTIBOOT_TAG_TYPE_ELF_SECTIONS = 9"
definition MULTIBOOT_TAG_TYPE_LOAD_BASE_ADDR :: u32 where "MULTIBOOT_TAG_TYPE_LOAD_BASE_ADDR = 21"
definition SHT_PROGBITS :: u32 where "SHT_PROGBITS = 1"

lemmas mb_types = MULTIBOOT_TAG_TYPE_END_def MULTIBOOT_TAG_TYPE_MODULE_def MULTIBOOT_TAG_TYPE_ELF_SECTIONS_def
  MULTIBOOT_TAG_TYPE_LOAD_BASE_ADDR_def SHT_PROGBITS_def

record multiboot_tag =
  mb_type :: u32
  mb_size :: u32

record multiboot_tag_module = multiboot_tag +
  mod_start :: u32
  mod_end :: u32
  mod_cmdline :: addr

record multiboot_tag_elf_sections = multiboot_tag +
  es_num :: u32
  es_entsize :: u32
  es_shndx :: u32
  es_sections :: addr

record multiboot_tag_load_base_addr = multiboot_tag +
  load_base_addr :: u32

record elf32_shdr =
  sh_type :: u32
  sh_offset :: u32
  sh_size :: u32

definition mb_tag_at :: "mem \<Rightarrow> addr \<Rightarrow> multiboot_tag" where
  "mb_tag_at m t = \<lparr>mb_type = load32 m t, mb_size = load32 m (t + 4)\<rparr>"

definition module_at :: "mem \<Rightarrow> addr \<Rightarrow> multiboot_tag_module" where
  "module_at m t = \<lparr>mb_type = load32 m t, mb_size = load32 m (t + 4), mod_start = load32 m (t + 8),
     mod_end = load32 m (t + 12), mod_cmdline = t + 16\<rparr>"

definition elf_sections_at :: "mem \<Rightarrow> addr \<Rightarrow> multiboot_tag_elf_sections" where
  "elf_sections_at m t = \<lparr>mb_type = load32 m t, mb_size = load32 m (t + 4), es_num = load32 m (t + 8),
     es_entsize = load32 m (t + 12), es_shndx = load32 m (t + 16), es_sections = t + 20\<rparr>"

definition load_base_addr_at :: "mem \<Rightarrow> addr \<Rightarrow> multiboot_tag_load_base_addr" where
  "load_base_addr_at m t = \<lparr>mb_type = load32 m t, mb_size = load32 m (t + 4), load_base_addr = load32 m (t + 8)\<rparr>"

definition shdr_at :: "mem \<Rightarrow> addr \<Rightarrow> elf32_shdr" where
  "shdr_at m p = \<lparr>sh_type = load32 m (p + 4), sh_offset = load32 m (p + 16), sh_size = load32 m (p + 20)\<rparr>"

section \<open>The walk for the kernel\<close>

text \<open>The size is rounded up to the alignment in 32 bits, then added to the pointer.\<close>

definition multiboot_next_tag :: "mem \<Rightarrow> addr \<Rightarrow> addr" where
  "multiboot_next_tag m t =
     t + unat ((mb_size (mb_tag_at m t) + (MULTIBOOT_TAG_ALIGN - 1)) AND NOT (MULTIBOOT_TAG_ALIGN - 1))"

text \<open>
  The loop over the section headers, with \<open>k\<close> of them left: the size of the first PROGBITS
  section. The index is a 32-bit product. The old size stays when there is none.
\<close>

fun elf_progbits :: "mem \<Rightarrow> multiboot_tag_elf_sections \<Rightarrow> nat \<Rightarrow> nat \<Rightarrow> u32 \<Rightarrow> u32" where
  "elf_progbits m es i 0 kernel_size = kernel_size"
| "elf_progbits m es i (Suc k) kernel_size =
     (let sh = shdr_at m (es_sections es + unat (es_entsize es * of_nat i))
      in if sh_type sh = SHT_PROGBITS then sh_size sh
         else elf_progbits m es (i + 1) k kernel_size)"

text \<open>One tag: the entry point and the size after it. Whatever is already known is kept.\<close>

definition mb_kernel_step :: "mem \<Rightarrow> addr \<Rightarrow> u32 \<Rightarrow> u32 \<Rightarrow> u32 \<times> u32" where
  "mb_kernel_step m tag kernel_entry kernel_size =
     (let type = mb_type (mb_tag_at m tag);
          kernel_entry' = (if kernel_entry = 0 \<and> type = MULTIBOOT_TAG_TYPE_LOAD_BASE_ADDR
                           then load_base_addr (load_base_addr_at m tag) else kernel_entry);
          kernel_size' = (if kernel_size = 0 \<and> type = MULTIBOOT_TAG_TYPE_ELF_SECTIONS
                          then elf_progbits m (elf_sections_at m tag) 0 (unat (es_num (elf_sections_at m tag))) kernel_size
                          else kernel_size)
      in (kernel_entry', kernel_size'))"

partial_function (option) mb_find_kernel :: "mem \<Rightarrow> addr \<Rightarrow> u32 \<Rightarrow> u32 \<Rightarrow> (u32 \<times> u32) option" where
  "mb_find_kernel m tag kernel_entry kernel_size =
     (if mb_type (mb_tag_at m tag) = 0 \<or> kernel_entry \<noteq> 0 \<and> kernel_size \<noteq> 0
      then Some (kernel_entry, kernel_size)
      else
        let (kernel_entry, kernel_size) = mb_kernel_step m tag kernel_entry kernel_size
        in mb_find_kernel m (multiboot_next_tag m tag) kernel_entry kernel_size)"

section \<open>Tag lists\<close>

text \<open>\<open>tag_path m t ts e\<close>: from \<open>t\<close> over the tags \<open>ts\<close>, none of them the last, to \<open>e\<close>.\<close>

fun tag_path :: "mem \<Rightarrow> addr \<Rightarrow> addr list \<Rightarrow> addr \<Rightarrow> bool" where
  "tag_path m t [] e \<longleftrightarrow> t = e"
| "tag_path m t (a # as) e \<longleftrightarrow> t = a \<and> mb_type (mb_tag_at m t) \<noteq> 0 \<and> tag_path m (multiboot_next_tag m t) as e"

lemma tag_path_append: "tag_path m t (as @ bs) e \<longleftrightarrow> (\<exists>u. tag_path m t as u \<and> tag_path m u bs e)"
  by (induction as arbitrary: t) auto

text \<open>A list that ends: a path to a tag of type 0. There is at most one.\<close>

definition tag_list :: "mem \<Rightarrow> addr \<Rightarrow> addr list \<Rightarrow> addr \<Rightarrow> bool" where
  "tag_list m t ts e \<longleftrightarrow> tag_path m t ts e \<and> mb_type (mb_tag_at m e) = 0"

lemma tag_list_Nil [simp]: "tag_list m t [] e \<longleftrightarrow> t = e \<and> mb_type (mb_tag_at m t) = 0"
  by (auto simp: tag_list_def)

lemma tag_list_Cons [simp]:
  "tag_list m t (a # as) e \<longleftrightarrow> t = a \<and> mb_type (mb_tag_at m t) \<noteq> 0 \<and> tag_list m (multiboot_next_tag m t) as e"
  by (auto simp: tag_list_def)

lemma tag_list_unique: "tag_list m t ts e \<Longrightarrow> tag_list m t us f \<Longrightarrow> ts = us \<and> e = f"
proof (induction ts arbitrary: t us)
  case Nil
  then show ?case by (cases us) auto
next
  case (Cons a ts)
  then show ?case by (cases us) auto
qed

text \<open>What the walk computes: the steps folded over the tags, stopping when both are known.\<close>

fun kernel_of_tags :: "mem \<Rightarrow> addr list \<Rightarrow> u32 \<times> u32 \<Rightarrow> u32 \<times> u32" where
  "kernel_of_tags m [] es = es"
| "kernel_of_tags m (t # ts) (e, k) =
     (if e \<noteq> 0 \<and> k \<noteq> 0 then (e, k) else kernel_of_tags m ts (mb_kernel_step m t e k))"

lemma mb_find_kernel_list:
  "tag_list m t ts e \<Longrightarrow> mb_find_kernel m t entry sz = Some (kernel_of_tags m ts (entry, sz))"
proof (induction ts arbitrary: t entry sz)
  case Nil
  then have "t = e" "mb_type (mb_tag_at m e) = 0" by auto
  then show ?case by (simp add: mb_find_kernel.simps [of m e])
next
  case (Cons a ts)
  obtain e' k' where s: "mb_kernel_step m t entry sz = (e', k')" by (cases "mb_kernel_step m t entry sz")
  show ?case
    using Cons.prems Cons.IH [of "multiboot_next_tag m t" e' k'] s
    by (auto simp: mb_find_kernel.simps [of m a])
qed

lemma mb_find_kernel_known:
  "tag_path m t ts e \<Longrightarrow> kernel_of_tags m ts (entry, sz) = (k, n) \<Longrightarrow> k \<noteq> 0 \<Longrightarrow> n \<noteq> 0
    \<Longrightarrow> mb_find_kernel m t entry sz = Some (k, n)"
proof (induction ts arbitrary: t entry sz)
  case Nil
  then show ?case by (simp add: mb_find_kernel.simps [of m e])
next
  case (Cons a ts)
  obtain e' k' where s: "mb_kernel_step m a entry sz = (e', k')" by (cases "mb_kernel_step m a entry sz")
  show ?case
    using Cons.prems Cons.IH [of "multiboot_next_tag m t" e' k'] s
    by (auto simp: mb_find_kernel.simps [of m a] split: if_splits)
qed

lemma mb_find_kernel_ends:
  assumes "mb_find_kernel m t entry sz = Some r"
  shows "\<exists>ts e. r = kernel_of_tags m ts (entry, sz) \<and> (tag_list m t ts e \<or> tag_path m t ts e \<and> fst r \<noteq> 0 \<and> snd r \<noteq> 0)"
proof -
  define P where "P = (\<lambda>m t entry sz r. \<exists>ts e. r = kernel_of_tags m ts (entry, sz)
    \<and> (tag_list m t ts e \<or> tag_path m t ts e \<and> fst r \<noteq> 0 \<and> snd r \<noteq> 0))"
  have "P m t entry sz r"
  proof (rule mb_find_kernel.raw_induct [where P = P, OF _ assms])
    fix f m t entry sz r
    assume IH: "\<And>m t entry sz r. f m t entry sz = Some r \<Longrightarrow> P m t entry sz r"
      and eq: "(if mb_type (mb_tag_at m t) = 0 \<or> entry \<noteq> 0 \<and> sz \<noteq> 0 then Some (entry, sz)
        else let (entry, sz) = mb_kernel_step m t entry sz in f m (multiboot_next_tag m t) entry sz) = Some r"
    show "P m t entry sz r"
    proof (cases "mb_type (mb_tag_at m t) = 0 \<or> entry \<noteq> 0 \<and> sz \<noteq> 0")
      case True
      then have "r = kernel_of_tags m [] (entry, sz)" "tag_list m t [] t \<or> tag_path m t [] t \<and> fst r \<noteq> 0 \<and> snd r \<noteq> 0"
        using eq by auto
      then show ?thesis unfolding P_def by blast
    next
      case False
      then obtain e' k' where s: "mb_kernel_step m t entry sz = (e', k')" and "f m (multiboot_next_tag m t) e' k' = Some r"
        using eq by (cases "mb_kernel_step m t entry sz") auto
      from IH [OF this(2)] obtain ts e where i: "r = kernel_of_tags m ts (e', k')" "tag_list m (multiboot_next_tag m t) ts e
          \<or> tag_path m (multiboot_next_tag m t) ts e \<and> fst r \<noteq> 0 \<and> snd r \<noteq> 0" unfolding P_def by blast
      with False s have "r = kernel_of_tags m (t # ts) (entry, sz)"
        "tag_list m t (t # ts) e \<or> tag_path m t (t # ts) e \<and> fst r \<noteq> 0 \<and> snd r \<noteq> 0" by auto
      then show ?thesis unfolding P_def by blast
    qed
  qed
  then show ?thesis by (simp add: P_def)
qed


text \<open>A tag whose size is 0 (or so large that the rounded size wraps to 0) is its own successor.\<close>

lemma mb_self_loop:
  assumes "multiboot_next_tag m t = t" "mb_type (mb_tag_at m t) \<noteq> 0"
  shows "\<not> tag_list m t ts e"
  using assms by (induction ts) auto

end
