(* ===== verification/Dma_Setup.thy ===== *)
theory Dma_Setup
  imports Iommu
begin

text \<open>
  \<^verbatim>\<open>iommu_setup\<close> of \<^verbatim>\<open>main.c\<close>: the IOMMU is programmed, then SKINIT's protection of the loader
  is lifted so that the IOMMU can read its tables, then it is programmed again and awaited.
  The flag \<^verbatim>\<open>iommu_done\<close> is volatile and written by the IOMMU: accesses to it are accesses to
  the hardware. The code under \<^verbatim>\<open>TEST_DMA\<close> is in \<open>Dma_Test\<close>.
\<close>

partial_function (option) iommu_wait :: "'d hw \<Rightarrow> addr \<Rightarrow> ('d, 'x) pci_machine_scheme \<Rightarrow> ('d, 'x) pci_machine_scheme option" where
  "iommu_wait hw flag s =
     (let (iommu_done, s) = ioread64 hw flag s in if iommu_done \<noteq> 0 then Some s else iommu_wait hw flag s)"

definition iommu_setup :: "'d hw \<Rightarrow> layout \<Rightarrow> ('d, 'x) pci_machine_scheme \<Rightarrow> ('d, 'x) pci_machine_scheme option" where
  "iommu_setup hw L s =
     (let s = iowrite64 hw 0 (unat (l_iommu_done L)) s;
          s = pci_init hw s
      in do {
        (iommu_cap, s) \<leftarrow> iommu_locate hw s;
        if iommu_cap = 0 then Some s
        else do {
          (r, s) \<leftarrow> iommu_load_device_table hw L iommu_cap (l_iommu_done L) s;
          if r \<noteq> 0 then Some s
          else do {
            s \<leftarrow> disable_memory_protection hw s;
            (_, s) \<leftarrow> iommu_load_device_table hw L iommu_cap (l_iommu_done L) s;
            iommu_wait hw (unat (l_iommu_done L)) s
          }
        }
      })"

section \<open>Which accesses are made\<close>

text \<open>An access that can change configuration space through the type 1 ports.\<close>

definition config_out :: "io_event \<Rightarrow> bool" where
  "config_out e = (case e of Port_Out p _ _ \<Rightarrow> p = 0xCFC | _ \<Rightarrow> False)"

abbreviation quiet :: "('d, 'x) machine_scheme \<Rightarrow> ('d, 'x) machine_scheme \<Rightarrow> bool" where
  "quiet \<equiv> grows (\<lambda>e. \<not> config_out e)"

lemma quiet_regs:
  "quiet s t \<Longrightarrow> quiet s (snd (reg_read hw base i t))" "quiet s t \<Longrightarrow> quiet s (reg_write hw base i v t)"
  "quiet s t \<Longrightarrow> quiet s (reg_and hw base i v t)" "quiet s t \<Longrightarrow> quiet s (reg_or hw base i v t)"
  "quiet s t \<Longrightarrow> quiet s (t\<lparr>ram := m\<rparr>)"
  by (auto simp: grows_def reg_read_def reg_write_def reg_and_def reg_or_def io_defs config_out_def Let_def split_beta)

lemma quiet_send: "quiet s t \<Longrightarrow> quiet s (send_command hw L base cmd t)"
  unfolding send_command_def Let_def split_beta by (intro quiet_regs)

lemma quiet_enable: "quiet s t \<Longrightarrow> quiet s (iommu_enable hw L base t)"
  unfolding iommu_enable_def Let_def split_beta by (intro quiet_regs)

lemma quiet_completion: "quiet s t \<Longrightarrow> quiet s (iommu_completion hw L base completed cmd t)"
  unfolding iommu_completion_def Let_def split_beta by (intro quiet_regs quiet_send)

lemma quiet_commands: "quiet s t \<Longrightarrow> quiet s (iommu_commands hw L base completed t)"
  unfolding iommu_commands_def Let_def split_beta
  by (cases "fst (reg_read hw base IOMMU_MMIO_EXTENDED_FEATURE (snd (reg_read hw base IOMMU_MMIO_STATUS_REGISTER t))) AND IOMMU_EF_IASup = 0")
    (simp_all add: quiet_completion quiet_send quiet_regs)

lemma quiet_read_events: "list_all (\<lambda>e. \<not> config_out e) (read_events k base bus devfn reg v)"
  by (cases k) (simp_all add: read_events_def config_out_def)

lemma quiet_read4:
  assumes "pci_read hw 0 bus devfn reg 4 v s = Some (c, x, s')"
  shows "quiet s s'"
  using assms
  by (cases "pci_ops s")
     (auto simp: pci_read_def pci_conf1_read_def pci_mmio_read_def grows_def io_defs config_out_def Let_def split_beta
       split: if_splits)

lemma iommu_load_quiet:
  assumes "iommu_load_device_table hw L cap completed s = Some (r, s')"
  shows "quiet s s'"
proof -
  obtain c low s1 where 1: "pci_read hw 0 IOMMU_PCI_BUS (PCI_DEVFN IOMMU_PCI_DEVICE IOMMU_PCI_FUNCTION)
      (sint (IOMMU_CAP_BA_LOW cap)) 4 0 s = Some (c, low, s1)"
    using assms by (auto simp: iommu_load_device_table_def bind_eq_Some_conv)
  show ?thesis
  proof (cases "low AND IOMMU_CAP_BA_LOW_ENABLE = 0")
    case True
    with assms 1 quiet_read4 [OF 1] show ?thesis by (simp add: iommu_load_device_table_def)
  next
    case False
    obtain d hi s2 where 2: "pci_read hw 0 IOMMU_PCI_BUS (PCI_DEVFN IOMMU_PCI_DEVICE IOMMU_PCI_FUNCTION)
      (sint (IOMMU_CAP_BA_HIGH cap)) 4 0 s1 = Some (d, hi, s2)"
      using assms 1 False by (auto simp: iommu_load_device_table_def bind_eq_Some_conv)
    obtain base where "s' = iommu_commands hw L base completed (iommu_enable hw L base s2)"
      using assms 1 2 False by (auto simp: iommu_load_device_table_def Let_def)
    with quiet_commands [OF quiet_enable [OF grows_trans [OF quiet_read4 [OF 1] quiet_read4 [OF 2]]]]
    show ?thesis by simp
  qed
qed

lemma iommu_load_access:
  assumes l: "iommu_load_device_table hw L cap completed s = Some (r, s')" and o: "pci_ops s \<noteq> Pci_Unset" and c: "cap < 0xFF"
  shows "pci_ops s' = pci_ops s \<and> mmio_base_addr s' = mmio_base_addr s"
proof -
  have rr: "sint (IOMMU_CAP_BA_LOW cap) \<le> 4095" "sint (IOMMU_CAP_BA_HIGH cap) \<le> 4095"
    using cap_offset [OF c, of 4] cap_offset [OF c, of 8]
    by (simp_all add: IOMMU_CAP_BA_LOW_def IOMMU_CAP_BA_HIGH_def)
  have d: "IOMMU_PCI_BUS \<le> 255" "PCI_DEVFN IOMMU_PCI_DEVICE IOMMU_PCI_FUNCTION \<le> 255"
    by (simp_all add: IOMMU_PCI_BUS_def IOMMU_PCI_DEVICE_def IOMMU_PCI_FUNCTION_def PCI_DEVFN_def)
  from pci_read4 [OF o d rr(1), of hw 0] obtain low s1 where
    1: "pci_read hw 0 IOMMU_PCI_BUS (PCI_DEVFN IOMMU_PCI_DEVICE IOMMU_PCI_FUNCTION) (sint (IOMMU_CAP_BA_LOW cap)) 4 0 s = Some (0, low, s1)"
    "io_ext (\<lambda>_. True) s s1" by blast
  note a1 = io_ext_access [OF 1(2)]
  then have o1: "pci_ops s1 \<noteq> Pci_Unset" using o by simp
  from pci_read4 [OF o1 d rr(2), of hw 0] obtain hi s2 where
    2: "pci_read hw 0 IOMMU_PCI_BUS (PCI_DEVFN IOMMU_PCI_DEVICE IOMMU_PCI_FUNCTION) (sint (IOMMU_CAP_BA_HIGH cap)) 4 0 s1 = Some (0, hi, s2)"
    "io_ext (\<lambda>_. True) s1 s2" by blast
  note a2 = io_ext_access [OF 2(2)]
  have "s' = s1 \<or> (\<exists>base. s' = iommu_commands hw L base completed (iommu_enable hw L base s2))"
    using l 1(1) 2(1) by (auto simp: iommu_load_device_table_def Let_def split: if_splits)
  then show ?thesis by (auto simp: a1 a2 iommu_frame)
qed

lemma iommu_wait_run:
  assumes "iommu_wait hw flag s = Some s'"
  shows "\<exists>k v. v \<noteq> 0 \<and> io_run s (replicate k (Load flag 8 0) @ [Load flag 8 v]) s'"
proof -
  define P where "P = (\<lambda>(hw :: 'a hw) flag (s :: ('a, 'b) pci_machine_scheme) s'.
    \<exists>k v. v \<noteq> 0 \<and> io_run s (replicate k (Load flag 8 0) @ [Load flag 8 v]) s')"
  have "P hw flag s s'"
  proof (rule iommu_wait.raw_induct [where P = P, OF _ assms])
    fix f and hw :: "'a hw" and flag and s s' :: "('a, 'b) pci_machine_scheme"
    assume IH: "\<And>hw flag s s'. f hw flag s = Some s' \<Longrightarrow> P hw flag s s'"
      and eq: "(let (iommu_done, s) = ioread64 hw flag s in if iommu_done \<noteq> 0 then Some s else f hw flag s) = Some s'"
    obtain v s1 where 1: "ioread64 hw flag s = (v, s1)" by (cases "ioread64 hw flag s")
    have r: "io_run s [Load flag 8 v] s1"
      using 1 by (auto simp: io_run_def io_defs Let_def take_bit_length_eq split: prod.splits)
    show "P hw flag s s'"
    proof (cases "v = 0")
      case False
      with eq 1 r show ?thesis unfolding P_def by (intro exI [of _ 0] exI [of _ v]) simp
    next
      case True
      with eq 1 IH [of hw flag s1 s'] obtain k w where w: "w \<noteq> 0"
        "io_run s1 (replicate k (Load flag 8 0) @ [Load flag 8 w]) s'" by (auto simp: P_def)
      from io_run_append [OF r w(2)] True w(1) show ?thesis
        unfolding P_def by (intro exI [of _ "Suc k"] exI [of _ w]) simp
    qed
  qed
  then show ?thesis by (simp add: P_def)
qed

section \<open>The order of the set-up\<close>

text \<open>The register writes of one complete programming of the IOMMU.\<close>

definition programs_iommu :: "layout \<Rightarrow> io_event list \<Rightarrow> bool" where
  "programs_iommu L evs \<longleftrightarrow> (\<exists>base c st c2 c3 ts. length ts \<in> {1, 2} \<and>
     evs = enable_stores L base c st c2 c3 @ map (Store (reg_at base IOMMU_MMIO_COMMAND_BUF_TAIL) 8) ts)"

lemma iommu_load_programs:
  assumes "pci_ops s \<noteq> Pci_Unset" "cap < 0xFF" "iommu_load_device_table hw L cap completed s = Some (r, s')"
  shows "r = 1 \<and> stores s' = stores s \<or> r = 0 \<and> (\<exists>sts. programs_iommu L sts \<and> stores s' = stores s @ sts)"
proof -
  from iommu_load_events [OF assms(1,2), of hw L completed] obtain r' u where
    e: "iommu_load_device_table hw L cap completed s = Some (r', u)"
    and c: "r' = 1 \<and> stores u = stores s \<and> ram u = ram s \<or> r' = 0 \<and> (\<exists>base c st c2 c3 ts. length ts \<in> {1, 2} \<and>
           stores u = stores s @ enable_stores L base c st c2 c3
             @ map (Store (reg_at base IOMMU_MMIO_COMMAND_BUF_TAIL) 8) ts)" by blast
  have "r' = r" "u = s'" using e assms(3) by simp_all
  with c show ?thesis unfolding programs_iommu_def by blast
qed

text \<open>\<open>evs\<close> is what happened from \<open>s\<close> to \<open>s'\<close>, with these stores and without a write to port 0xCFC.\<close>

definition quiet_run :: "('d, 'x) machine_scheme \<Rightarrow> io_event list \<Rightarrow> io_event list \<Rightarrow> ('d, 'x) machine_scheme \<Rightarrow> bool" where
  "quiet_run s evs sts s' \<longleftrightarrow> trace s' = trace s @ evs \<and> list_all (\<lambda>e. \<not> config_out e) evs \<and> filter is_store evs = sts"

lemma quiet_runI: "quiet s s' \<Longrightarrow> stores s' = stores s @ sts \<Longrightarrow> \<exists>evs. quiet_run s evs sts s'"
  by (auto simp: quiet_run_def grows_def stores_def list_all_iff)

lemma quiet_run_trans: "quiet_run s a x t \<Longrightarrow> quiet_run t b y u \<Longrightarrow> quiet_run s (a @ b) (x @ y) u"
  by (simp add: quiet_run_def)

lemma locate_quiet:
  assumes "pci_ops s \<noteq> Pci_Unset" "pci_locate hw bus devfn s = Some (c, s')"
  shows "\<exists>evs. quiet_run s evs [] s' \<and> c < 0xFF \<and> pci_ops s' = pci_ops s \<and> mmio_base_addr s' = mmio_base_addr s"
proof -
  have e: "io_ext (cfg_event False (mmio_base_addr s) bus devfn) s s'" and c: "c < 0xFF"
    using pci_locate_ext [OF assms] by auto
  obtain evs where r: "io_run s evs s'" "\<forall>e\<in>set evs. cfg_event False (mmio_base_addr s) bus devfn e"
    using io_ext_run [OF e] by blast
  have "\<not> config_out e \<and> \<not> is_store e" if "e \<in> set evs" for e
    using r(2) that by (cases e) (auto simp: config_out_def is_store_def)
  then have "quiet_run s evs [] s'"
    using io_run_trace [OF r(1)] by (auto simp: quiet_run_def list_all_iff filter_empty_conv)
  with c io_ext_access [OF e] show ?thesis by blast
qed

lemma setup_start:
  fixes hw :: "'d hw" and s :: "('d, 'x) pci_machine_scheme"
  shows "\<exists>evs. quiet_run s evs [Store a 8 0] (pci_init hw (iowrite64 hw 0 a s))
    \<and> pci_ops (pci_init hw (iowrite64 hw 0 a s)) \<noteq> Pci_Unset"
  by (auto simp: quiet_run_def pci_init_def rdmsr_def io_defs Let_def config_out_def is_store_def split_beta)

lemma iommu_setup_run:
  assumes s': "iommu_setup hw L s = Some s'"
  shows "\<exists>pre sts. (quiet_run s pre [Store (unat (l_iommu_done L)) 8 0] s')
    \<or> (\<exists>cap v k w prog tbl t u. programs_iommu L sts
        \<and> quiet_run s pre (Store (unat (l_iommu_done L)) 8 0 # sts) t
        \<and> quiet_run u prog tbl s' \<and> (tbl = [] \<or> programs_iommu L tbl)
        \<and> trace u = trace t @ protection_events (pci_ops t) (mmio_base_addr t) cap v
        \<and> (\<exists>rest. prog = rest @ replicate k (Load (unat (l_iommu_done L)) 8 0) @ [Load (unat (l_iommu_done L)) 8 w]) \<and> w \<noteq> 0)"
proof -
  let ?f = "unat (l_iommu_done L)"
  let ?s1 = "pci_init hw (iowrite64 hw 0 ?f s)"
  obtain e1 where 1: "quiet_run s e1 [Store ?f 8 0] ?s1" "pci_ops ?s1 \<noteq> Pci_Unset" using setup_start by blast
  obtain cap s2 where 2: "iommu_locate hw ?s1 = Some (cap, s2)"
    using s' by (auto simp: iommu_setup_def Let_def bind_eq_Some_conv)
  obtain e2 where e2: "quiet_run ?s1 e2 [] s2" "cap < 0xFF" "pci_ops s2 \<noteq> Pci_Unset"
    using locate_quiet [OF 1(2) 2 [unfolded iommu_locate_def]] 1(2) by auto
  note r2 = quiet_run_trans [OF 1(1) e2(1), simplified]
  show ?thesis
  proof (cases "cap = 0")
    case True
    with s' 2 r2 show ?thesis by (auto simp: iommu_setup_def Let_def)
  next
    case False
    obtain r s3 where 3: "iommu_load_device_table hw L cap (l_iommu_done L) s2 = Some (r, s3)"
      using iommu_load_events [OF e2(3,2), of hw L "l_iommu_done L"] by blast
    have l: "r = 1 \<and> stores s3 = stores s2 @ [] \<or> r = 0 \<and> (\<exists>sts. programs_iommu L sts \<and> stores s3 = stores s2 @ sts)"
      using iommu_load_programs [OF e2(3,2) 3] by simp
    note q3 = quiet_runI [OF iommu_load_quiet [OF 3]]
    show ?thesis
    proof (cases "r = 0")
      case r1: False
      then obtain e3 where "quiet_run s2 e3 [] s3" using l q3 by blast
      with quiet_run_trans [OF r2 this] r1 s' 2 3 False show ?thesis by (auto simp: iommu_setup_def Let_def)
    next
      case True
      then obtain sts where sts: "programs_iommu L sts" "stores s3 = stores s2 @ sts" using l by auto
      obtain e3 where e3: "quiet_run s2 e3 sts s3" using q3 [OF sts(2)] by blast
      note r3 = quiet_run_trans [OF r2 e3, simplified]
      have a3: "pci_ops s3 \<noteq> Pci_Unset" using iommu_load_access [OF 3 e2(3,2)] e2(3) by simp
      obtain s4 where 4: "disable_memory_protection hw s3 = Some s4"
        using s' 2 3 False True by (auto simp: iommu_setup_def Let_def bind_eq_Some_conv)
      then obtain dcap s3' where d: "pci_locate hw 0 (PCI_DEVFN 0x18 3) s3 = Some (dcap, s3')"
        by (auto simp: disable_memory_protection_def dev_locate_def dev_consts bind_eq_Some_conv)
      from disable_protection_events [OF a3 d] 4 obtain v where
        v: "trace s4 = trace s3' @ protection_events (pci_ops s3) (mmio_base_addr s3) dcap v" "io_ext (\<lambda>_. True) s3 s4" by auto
      obtain e4 where e4: "quiet_run s3 e4 [] s3'" "pci_ops s3' = pci_ops s3" "mmio_base_addr s3' = mmio_base_addr s3"
        using locate_quiet [OF a3 d] by blast
      note r4 = quiet_run_trans [OF r3 e4(1), simplified]
      have a4: "pci_ops s4 \<noteq> Pci_Unset" using io_ext_access [OF v(2)] a3 by simp
      obtain r5 s5 where 5: "iommu_load_device_table hw L cap (l_iommu_done L) s4 = Some (r5, s5)"
        and w: "iommu_wait hw ?f s5 = Some s'"
        using s' 2 3 4 False True by (auto simp: iommu_setup_def Let_def bind_eq_Some_conv)
      obtain tbl where tbl: "tbl = [] \<or> programs_iommu L tbl" "stores s5 = stores s4 @ tbl"
        using iommu_load_programs [OF a4 e2(2) 5] by (metis append.right_neutral)
      obtain e5 where e5: "quiet_run s4 e5 tbl s5" using quiet_runI [OF iommu_load_quiet [OF 5] tbl(2)] by blast
      obtain k x where x: "x \<noteq> 0" "io_run s5 (replicate k (Load ?f 8 0) @ [Load ?f 8 x]) s'"
        using iommu_wait_run [OF w] by blast
      have "quiet_run s5 (replicate k (Load ?f 8 0) @ [Load ?f 8 x]) [] s'"
        using io_run_trace [OF x(2)] by (simp add: quiet_run_def config_out_def is_store_def list_all_iff)
      from quiet_run_trans [OF e5 this] have "quiet_run s4 (e5 @ replicate k (Load ?f 8 0) @ [Load ?f 8 x]) tbl s'" by simp
      note q = this
      have tr: "trace s4 = trace s3' @ protection_events (pci_ops s3') (mmio_base_addr s3') dcap v"
        using v(1) e4(2,3) by simp
      show ?thesis
        by (rule exI, rule exI, rule disjI2, rule exI [of _ dcap], rule exI [of _ v], rule exI [of _ k], rule exI [of _ x],
            rule exI, rule exI, rule exI, rule exI)
          (intro conjI, rule sts(1), rule r4, rule q, rule tbl(1), rule tr, rule exI, rule refl, rule x(1))
    qed
  qed
qed


text \<open>A machine with an enabled IOMMU, the family 17h register instead of a DEV, and every load 1.\<close>

definition demo_iommu_cfg :: "u32 \<Rightarrow> u32" where
  "demo_iommu_cfg a = (if a = PCI_CONF1_ADDRESS 0 2 0x34 then 0x40
     else if a = PCI_CONF1_ADDRESS 0 2 0x40 then 0x0F else if a = PCI_CONF1_ADDRESS 0 2 0x44 then 1 else 0)"

definition demo_iommu_hw :: "u32 hw" where
  "demo_iommu_hw = (demo_pci_hw demo_iommu_cfg)\<lparr>hw_load := \<lambda>a n d. (1, d)\<rparr>"

lemma demo_iommu_serves:
  assumes "bus \<le> 255" "devfn \<le> 255"
  shows "serves demo_iommu_hw (\<lambda>s. pci_ops s = Pci_Conf1) bus devfn (\<lambda>reg. demo_iommu_cfg (PCI_CONF1_ADDRESS bus devfn reg))"
  using assms
  by (auto simp: serves_def pci_read_def pci_conf1_read_def bad_target_def demo_iommu_hw_def demo_pci_hw_def outl_def inl_def
      port_in_def port_out_def log_io_def Let_def not_less take_bit_word_eq_self)

lemma demo_iommu_located:
  assumes "pci_ops s = Pci_Conf1"
  shows "\<exists>s'. iommu_locate demo_iommu_hw s = Some (0x40, s')" "\<exists>s'. pci_locate demo_iommu_hw 0 (PCI_DEVFN 0x18 3) s = Some (0, s')"
proof -
  have d: "IOMMU_PCI_BUS = 0" "PCI_DEVFN IOMMU_PCI_DEVICE IOMMU_PCI_FUNCTION = 2" "PCI_DEVFN 0x18 3 = 0xC3"
    by (simp_all add: IOMMU_PCI_BUS_def IOMMU_PCI_DEVICE_def IOMMU_PCI_FUNCTION_def PCI_DEVFN_def)
  let ?c = "\<lambda>reg. demo_iommu_cfg (PCI_CONF1_ADDRESS 0 2 reg)"
  have c: "?c 0x34 = 0x40" "?c 0x40 = 0x0F" "demo_iommu_cfg (PCI_CONF1_ADDRESS 0 0xC3 0x34) = 0"
    by (simp_all add: demo_iommu_cfg_def PCI_CONF1_ADDRESS_def)
  have "cap_found ?c 0x40 0x40"
    by (rule cap_hit) (simp_all add: c PCI_CAP_ID_def PCI_CAPABILITIES_POINTER_ID_DEV_def)
  then have "\<exists>r. cap_found ?c (?c 0x34 AND 0xFF) r \<and> (0x40 :: u32) = (if INVALID_CAP r then 0 else r)"
    by (intro exI [of _ "0x40"]) (simp add: c INVALID_CAP_def)
  moreover have "\<not> INVALID_CAP (?c 0x34)" by (simp add: c INVALID_CAP_def)
  ultimately show "\<exists>s'. iommu_locate demo_iommu_hw s = Some (0x40, s')"
    using pci_locate_iff [OF demo_iommu_serves [of 0 2] assms] unfolding iommu_locate_def d by auto
  show "\<exists>s'. pci_locate demo_iommu_hw 0 (PCI_DEVFN 0x18 3) s = Some (0, s')"
    using pci_locate_iff [OF demo_iommu_serves [of 0 "0xC3"] assms] unfolding d by (simp add: c INVALID_CAP_def)
qed

lemma demo_iommu_wait: "iommu_wait demo_iommu_hw a s \<noteq> None"
  by (subst iommu_wait.simps) (simp add: ioread64_def mmio_load_def demo_iommu_hw_def demo_pci_hw_def Let_def)

lemma demo_iommu_setup: "\<exists>s'. iommu_setup demo_iommu_hw demo_layout demo_pci_state = Some s'"
proof -
  let ?a = "unat (l_iommu_done demo_layout)"
  let ?s1 = "pci_init demo_iommu_hw (iowrite64 demo_iommu_hw 0 ?a demo_pci_state)"
  have o1: "pci_ops ?s1 = Pci_Conf1"
    by (simp add: pci_init_def rdmsr_def demo_iommu_hw_def demo_pci_hw_def Let_def)
  obtain s2 where 2: "iommu_locate demo_iommu_hw ?s1 = Some (0x40, s2)" using demo_iommu_located(1) [OF o1] ..
  have o2: "pci_ops s2 \<noteq> Pci_Unset" "pci_ops s2 = Pci_Conf1"
    using locate_quiet [OF _ 2 [unfolded iommu_locate_def]] o1 by auto
  have cap: "(0x40 :: u32) < 0xFF" by simp
  obtain r s3 where 3: "iommu_load_device_table demo_iommu_hw demo_layout 0x40 (l_iommu_done demo_layout) s2 = Some (r, s3)"
    using iommu_load_events [OF o2(1) cap] by blast
  have o3: "pci_ops s3 = Pci_Conf1" "pci_ops s3 \<noteq> Pci_Unset" using iommu_load_access [OF 3 o2(1) cap] o2 by simp_all
  obtain s3' where "pci_locate demo_iommu_hw 0 (PCI_DEVFN 0x18 3) s3 = Some (0, s3')" using demo_iommu_located(2) [OF o3(1)] ..
  from disable_protection_events [OF o3(2) this] obtain s4 where
    4: "disable_memory_protection demo_iommu_hw s3 = Some s4" "io_ext (\<lambda>_. True) s3 s4" by blast
  have "pci_ops s4 \<noteq> Pci_Unset" using io_ext_access [OF 4(2)] o3 by simp
  from iommu_load_events [OF this cap] obtain r5 s5 where
    5: "iommu_load_device_table demo_iommu_hw demo_layout 0x40 (l_iommu_done demo_layout) s4 = Some (r5, s5)" by blast
  obtain s6 where "iommu_wait demo_iommu_hw ?a s5 = Some s6" using demo_iommu_wait by blast
  with 2 3 4(1) 5 show ?thesis by (cases "r = 0") (simp_all add: iommu_setup_def Let_def)
qed


end
