(* ===== verification/Dma_Test.thy ===== *)
theory Dma_Test
  imports Dma_Setup Printk
begin

text \<open>
  The build with \<^verbatim>\<open>TEST_DMA\<close> (and \<^verbatim>\<open>DEBUG\<close>, for the dumps): \<^verbatim>\<open>do_dma\<close> and the probes that
  \<^verbatim>\<open>iommu_setup\<close> then makes before, between and after its steps. The model's devices do not write
  memory, so a dump shows what the CPU left there.
\<close>

definition do_dma :: "'d hw \<Rightarrow> ('d, 'x) machine_scheme \<Rightarrow> ('d, 'x) machine_scheme" where
  "do_dma hw s =
     (let s = outb hw 0x0a 0x05 s;
          s = outb hw 0x0c 0x00 s;
          s = outb hw 0x0b 0x45 s;
          s = outb hw 0x02 0x00 s;
          s = outb hw 0x02 0x00 s;
          s = outb hw 0x83 0x00 s;
          s = outb hw 0x03 0x20 s;
          s = outb hw 0x03 0x00 s;
          s = outb hw 0x0a 0x01 s
      in outb hw 0x09 0x05 s)"

text \<open>A text and a dump of the first 48 bytes of memory.\<close>

definition show_low :: "'d hw \<Rightarrow> string \<Rightarrow> ('d, 'x) machine_scheme \<Rightarrow> ('d, 'x) machine_scheme option" where
  "show_low hw title s = do { s \<leftarrow> print_text hw (ascii title @ [10, 0]) s; hexdump hw 0 0x30 s }"

fun show_all :: "'d hw \<Rightarrow> string list \<Rightarrow> ('d, 'x) machine_scheme \<Rightarrow> ('d, 'x) machine_scheme option" where
  "show_all hw [] s = Some s"
| "show_all hw (t # ts) s = do { s \<leftarrow> show_low hw t s; show_all hw ts s }"

text \<open>One probe: a pattern, a dump, the transfer, and dumps under the titles \<open>after\<close>.\<close>

definition dma_probe :: "'d hw \<Rightarrow> string \<Rightarrow> string list \<Rightarrow> ('d, 'x) machine_scheme \<Rightarrow> ('d, 'x) machine_scheme option" where
  "dma_probe hw before after s = do {
     let s = s\<lparr>ram := snd (memset 1 0xcc 0x20 (ram s))\<rparr>;
     s \<leftarrow> show_low hw before s;
     show_all hw after (do_dma hw s)
   }"

definition probes_at_start :: "'d hw \<Rightarrow> ('d, 'x) machine_scheme \<Rightarrow> ('d, 'x) machine_scheme option" where
  "probes_at_start hw s = do {
     s \<leftarrow> dma_probe hw ''before DMA:'' [''after DMA:              ''] s;
     dma_probe hw ''before DMA2'' [''after DMA2              ''] s
   }"

text \<open>The probes after the protection is lifted, and again at the end.\<close>

definition probes_again :: "'d hw \<Rightarrow> ('d, 'x) machine_scheme \<Rightarrow> ('d, 'x) machine_scheme option" where
  "probes_again hw s = do {
     s \<leftarrow> dma_probe hw ''before DMA:'' [''after DMA:              '', ''and again''] s;
     dma_probe hw ''before DMA2'' [''after DMA2              '', ''and again2''] s
   }"

text \<open>
  \<^verbatim>\<open>iommu_setup\<close> of this build; its messages other than the probes' are left out.
\<close>

definition iommu_setup_test :: "'d hw \<Rightarrow> layout \<Rightarrow> ('d, 'x) pci_machine_scheme \<Rightarrow> ('d, 'x) pci_machine_scheme option" where
  "iommu_setup_test hw L s = do {
     s \<leftarrow> probes_at_start hw (iowrite64 hw 0 (unat (l_iommu_done L)) s);
     (iommu_cap, s) \<leftarrow> iommu_locate hw (pci_init hw s);
     s \<leftarrow> (if iommu_cap = 0 then Some s
           else do {
             (r, s) \<leftarrow> iommu_load_device_table hw L iommu_cap (l_iommu_done L) s;
             if r \<noteq> 0 then Some s
             else do {
               s \<leftarrow> disable_memory_protection hw s;
               s \<leftarrow> probes_again hw s;
               (_, s) \<leftarrow> iommu_load_device_table hw L iommu_cap (l_iommu_done L) s;
               iommu_wait hw (unat (l_iommu_done L)) s
             }
           });
     probes_again hw s
   }"

section \<open>What the probes do\<close>

text \<open>The ports that are written, and the bytes.\<close>

lemma do_dma_writes:
  "io_run s [Port_Out 0x05 1 0x0a, Port_Out 0x00 1 0x0c, Port_Out 0x45 1 0x0b, Port_Out 0x00 1 0x02, Port_Out 0x00 1 0x02,
     Port_Out 0x00 1 0x83, Port_Out 0x20 1 0x03, Port_Out 0x00 1 0x03, Port_Out 0x01 1 0x0a, Port_Out 0x05 1 0x09] (do_dma hw s)"
  by (simp add: do_dma_def io_run_def io_defs)

text \<open>
  The ports of the DMA controller that the comments of \<^verbatim>\<open>do_dma\<close> are about: the mask, mode, request
  and flip-flop registers, the registers of channel 1 and its page.
\<close>

definition dma_ports :: "u16 set" where "dma_ports = {0x02, 0x03, 0x09, 0x0a, 0x0b, 0x0c, 0x83}"

definition dma_out :: "io_event \<Rightarrow> bool" where
  "dma_out e = (case e of Port_Out p _ _ \<Rightarrow> p \<in> dma_ports | _ \<Rightarrow> False)"

lemma do_dma_grows: "grows (\<lambda>e. \<not> dma_out e) s (do_dma hw s)"
  by (rule grows_io, rule io_run_ext [OF do_dma_writes]) (simp add: dma_out_def dma_ports_def)

text \<open>Printing only waits for the serial port and writes to it.\<close>

definition serial_io :: "io_event \<Rightarrow> bool" where
  "serial_io e = (case e of Port_In p _ _ \<Rightarrow> p = 0x3fd | Port_Out p _ _ \<Rightarrow> p = 0x3f8 | _ \<Rightarrow> False)"

text \<open>Functions that, if they return, made such accesses only.\<close>

definition console :: "(('d, 'x) machine_scheme \<Rightarrow> ('d, 'x) machine_scheme option) \<Rightarrow> bool" where
  "console f \<longleftrightarrow> (\<forall>s t. f s = Some t \<longrightarrow> io_ext serial_io s t)"

lemma consoleD: "console f \<Longrightarrow> f s = Some t \<Longrightarrow> io_ext serial_io s t"
  by (simp add: console_def)

lemma console_bind: "console f \<Longrightarrow> console g \<Longrightarrow> console (\<lambda>s. Option.bind (f s) g)"
  unfolding console_def bind_eq_Some_conv by (metis io_ext_trans)

lemma console_if: "console f \<Longrightarrow> console g \<Longrightarrow> console (\<lambda>s. if c then f s else g s)"
  by (simp add: console_def)

lemma console_Some: "console Some"
  by (simp add: console_def)

lemma serial_wait_console: "console (serial_wait (hw :: 'd hw) :: ('d, 'x) machine_scheme \<Rightarrow> _)"
proof -
  define P :: "'d hw \<Rightarrow> ('d, 'x) machine_scheme \<Rightarrow> ('d, 'x) machine_scheme \<Rightarrow> bool" where "P = (\<lambda>_. io_ext serial_io)"
  have r: "io_ext serial_io s (snd (inb hw 1021 s))" for hw :: "'d hw" and s :: "('d, 'x) machine_scheme"
    by (simp add: inb_def port_in_def Let_def split_beta) (rule io_ext_log, simp add: serial_io_def)
  have "P hw s t" if "serial_wait hw s = Some t" for s t
    by (rule serial_wait.raw_induct [OF _ that])
       (auto simp: P_def Let_def split_beta split: if_splits intro: r io_ext_trans [OF r])
  then show ?thesis by (simp add: console_def P_def)
qed

lemma print_char_console: "console (print_char hw c)"
proof -
  have "io_ext serial_io s (outb hw c 0x3f8 s)" for s
    by (simp add: outb_def port_out_def Let_def) (rule io_ext_log, simp add: serial_io_def)
  then show ?thesis
    by (auto simp: console_def print_char_def intro: io_ext_trans [OF consoleD [OF serial_wait_console]])
qed

lemma print_one_console: "console (print_one hw c)"
  unfolding print_one_def by (intro console_bind console_if console_Some print_char_console)

lemma print_text_console: "console (print_text hw cs)"
proof (induction cs)
  case (Cons c cs)
  from console_bind [OF print_one_console Cons.IH, of hw c] show ?case by (simp add: console_def)
qed (simp add: console_def)

lemma print_each_console:
  assumes "\<And>c. console (f c)"
  shows "console (print_each f cs)"
proof (induction cs)
  case (Cons c cs)
  from console_bind [OF assms Cons.IH] show ?case by (simp add: console_def)
qed (simp add: console_def)

lemma hexdump_line_console:
  assumes "hexdump_line hw a k s = Some (k', t)"
  shows "io_ext serial_io s t"
proof -
  let ?line = "mem_read (ram s) a 16"
  have "console (\<lambda>s. Option.bind (print_p hw (of_nat a) s) (\<lambda>s. Option.bind (print_each (print_b hw) ?line s) (\<lambda>s.
      Option.bind (print_text hw (ascii ''  '') s) (\<lambda>s. Option.bind (print_each (\<lambda>c. print_char hw (if isprint c then c else 46)) ?line s)
      (print_text hw [10])))))"
    unfolding print_p_def print_b_def
    by (intro console_bind print_each_console print_text_console print_char_console)
  moreover note print_text_console [of hw "ascii ''...'' @ [10]"] console_Some
  ultimately show ?thesis
    using assms by (auto simp: hexdump_line_def Let_def console_def split: if_splits)
qed

lemma hexdump_console: "console (hexdump hw a n)"
proof -
  have "hexdump_lines hw m a k s = Some t \<Longrightarrow> io_ext serial_io s t" for m k s t
    by (induction m arbitrary: a k s) (auto simp: bind_eq_Some_conv intro: io_ext_trans [OF hexdump_line_console])
  then show ?thesis unfolding hexdump_def console_def by blast
qed

lemma show_low_console: "console (show_low hw title)"
  unfolding show_low_def by (intro console_bind print_text_console hexdump_console)

lemma show_all_console: "console (show_all hw ts)"
proof (induction ts)
  case (Cons t ts)
  from console_bind [OF show_low_console Cons.IH] show ?case by (simp add: console_def)
qed (simp add: console_def)

text \<open>
  A probe leaves its pattern in memory and nothing else, and it never writes to a port of the DMA
  controller: \<^verbatim>\<open>do_dma\<close> passes the port where \<^verbatim>\<open>outb\<close> expects the value.
\<close>

lemma dma_probe_effect:
  assumes "dma_probe hw before after s = Some t"
  shows "ram t = mem_write (ram s) 1 (replicate 32 0xcc)" and "grows (\<lambda>e. \<not> dma_out e) s t"
proof -
  let ?s = "s\<lparr>ram := snd (memset 1 0xcc 0x20 (ram s))\<rparr>"
  obtain u where u: "show_low hw before ?s = Some u" "show_all hw after (do_dma hw u) = Some t"
    using assms by (auto simp: dma_probe_def Let_def bind_eq_Some_conv)
  have io: "io_ext serial_io ?s u" "io_ext serial_io (do_dma hw u) t"
    by (rule consoleD [OF show_low_console u(1)], rule consoleD [OF show_all_console u(2)])
  have "ram (do_dma hw u) = ram u" by (rule io_run_ram [OF do_dma_writes])
  then show "ram t = mem_write (ram s) 1 (replicate 32 0xcc)"
    using io_ext_ram [OF io(1)] io_ext_ram [OF io(2)] by (simp add: memset_block)
  have away: "\<not> dma_out e" if "serial_io e" for e
    using that by (cases e) (auto simp: serial_io_def dma_out_def dma_ports_def)
  have "grows (\<lambda>e. \<not> dma_out e) ?s t"
    by (rule grows_trans [OF grows_trans [OF grows_mono [OF grows_io [OF io(1)] away] do_dma_grows]
          grows_mono [OF grows_io [OF io(2)] away]])
  then show "grows (\<lambda>e. \<not> dma_out e) s t" by (simp add: grows_def)
qed

end
