(* ===== verification/Layouts.thy ===== *)
theory Layouts
  imports Event_Log_Props Linux_Boot Multiboot Tpm_Cmds
begin

text \<open>
  The memory layout of the structures that the loader shares with the boot loader, the kernel, the
  TPM and the reader of the event log: their C declarations as data, the rules by which a compiler
  places fields (alignment, padding, \<^verbatim>\<open>__packed\<close>), the assertions of \<^verbatim>\<open>build_assertions\<close> in
  \<^verbatim>\<open>main.c\<close>, and the agreement of the rest of the development with the offsets they give.
\<close>

section \<open>Types and their layout\<close>

text \<open>Integers by their size in bytes, arrays, and structures with their packed attribute.\<close>

datatype ctype = CInt nat | CArr ctype nat | CStruct bool "(string \<times> ctype) list"

definition round_up :: "nat \<Rightarrow> nat \<Rightarrow> nat" where
  "round_up n a = (if n mod a = 0 then n else n + (a - n mod a))"

fun calign :: "ctype \<Rightarrow> nat" where
  "calign (CInt n) = n"
| "calign (CArr t _) = calign t"
| "calign (CStruct packed fs) = (if packed then 1 else foldr max (map (\<lambda>(_, t). calign t) fs) 1)"

text \<open>
  Fields are (name, size, alignment). Placing them one by one keeps the end of the last field
  and the (name, offset, size) of the fields so far.
\<close>

definition emit :: "string \<Rightarrow> nat \<Rightarrow> nat \<Rightarrow> nat \<times> (string \<times> nat \<times> nat) list \<Rightarrow> nat \<times> (string \<times> nat \<times> nat) list" where
  "emit f n off st = (off + n, snd st @ [(f, off, n)])"

fun place :: "bool \<Rightarrow> (string \<times> nat \<times> nat) list \<Rightarrow> nat \<times> (string \<times> nat \<times> nat) list \<Rightarrow> nat \<times> (string \<times> nat \<times> nat) list" where
  "place packed [] st = st"
| "place packed ((f, n, a) # fs) st = place packed fs (emit f n (if packed then fst st else round_up (fst st) a) st)"

fun csize :: "ctype \<Rightarrow> nat" where
  "csize (CInt n) = n"
| "csize (CArr t k) = k * csize t"
| "csize (CStruct packed fs) =
     round_up (fst (place packed (map (\<lambda>(f, t). (f, csize t, calign t)) fs) (0, []))) (calign (CStruct packed fs))"

definition fields_of :: "bool \<Rightarrow> (string \<times> ctype) list \<Rightarrow> (string \<times> nat \<times> nat) list" where
  "fields_of packed fs = snd (place packed (map (\<lambda>(f, t). (f, csize t, calign t)) fs) (0, []))"

text \<open>\<^verbatim>\<open>offsetof\<close> of a path of fields.\<close>

fun offset_of :: "ctype \<Rightarrow> string list \<Rightarrow> nat option" where
  "offset_of t [] = Some 0"
| "offset_of (CStruct packed fs) (f # path) = do {
     (off, _) \<leftarrow> map_of (fields_of packed fs) f;
     t \<leftarrow> map_of fs f;
     rest \<leftarrow> offset_of t path;
     Some (off + rest)
   }"
| "offset_of _ _ = None"

section \<open>The rules place fields apart\<close>

lemma round_up_ge: "n \<le> round_up n a"
  by (simp add: round_up_def)

lemma round_up_dvd:
  assumes "0 < a"
  shows "a dvd round_up n a"
proof (cases "n mod a = 0")
  case False
  have "n mod a \<le> a" using assms by (simp add: less_imp_le)
  then have "n + (a - n mod a) = n div a * a + a" using div_mult_mod_eq [of n a] by linarith
  then show ?thesis using False by (simp add: round_up_def)
qed (simp add: round_up_def dvd_eq_mod_eq_0)

text \<open>In order from \<open>off\<close> on, each behind the one before it, the last before \<open>e\<close>.\<close>

fun in_order :: "nat \<Rightarrow> (string \<times> nat \<times> nat) list \<Rightarrow> nat \<Rightarrow> bool" where
  "in_order off [] e \<longleftrightarrow> off \<le> e"
| "in_order off ((f, o1, n) # ps) e \<longleftrightarrow> off \<le> o1 \<and> in_order (o1 + n) ps e"

lemma in_order_snoc: "in_order off (ps @ [(f, o1, n)]) e \<longleftrightarrow> in_order off ps o1 \<and> o1 + n \<le> e"
  by (induction off ps e rule: in_order.induct) auto

lemma in_order_mono: "in_order off ps e \<Longrightarrow> e \<le> e' \<Longrightarrow> in_order off ps e'"
  by (induction off ps e rule: in_order.induct) auto

lemma place_in_order: "in_order 0 (snd st) (fst st) \<Longrightarrow> in_order 0 (snd (place packed fs st)) (fst (place packed fs st))"
  by (induction packed fs st rule: place.induct)
    (auto simp: emit_def in_order_snoc in_order_mono [OF _ round_up_ge])

lemma place_aligned:
  assumes "\<forall>(f, n, a)\<in>set fs. 0 < a" "(f, off, n) \<in> set (snd (place False fs st))" "(f, off, n) \<notin> set (snd st)"
  shows "\<exists>a. (f, n, a) \<in> set fs \<and> a dvd off"
  using assms
proof (induction False fs st rule: place.induct)
  case (2 g k a fs st)
  then show ?case by (cases "(f, off, n) = (g, round_up (fst st) a, k)") (auto simp: emit_def round_up_dvd)
qed simp

lemma fields_in_order: "in_order 0 (fields_of packed fs) (csize (CStruct packed fs))"
  using in_order_mono [OF place_in_order round_up_ge] by (simp add: fields_of_def)

section \<open>The declarations\<close>

abbreviation "U8 \<equiv> CInt 1"
abbreviation "U16 \<equiv> CInt 2"
abbreviation "U32 \<equiv> CInt 4"
abbreviation "U64 \<equiv> CInt 8"

text \<open>\<^verbatim>\<open>include/linux-bootparams.h\<close>\<close>

definition boot_params_t :: ctype where
  "boot_params_t = CStruct False [
     (''_pad0'', CArr U8 0x0d8), (''tb_dev_map'', U32), (''_pad2'', CArr U8 0x118), (''syssize'', U32),
     (''_pad3'', CArr U8 0x00e), (''version'', U16), (''_pad4'', CArr U8 0x00c), (''code32_start'', U32),
     (''_pad6'', CArr U8 0x010), (''cmd_line_ptr'', U32), (''_pad8'', CArr U8 0x00c), (''cmdline_size'', U32),
     (''_pad9'', CArr U8 0x00c), (''payload_offset'', U32), (''payload_length'', U32), (''_pad10'', CArr U8 0x018),
     (''kern_info_offset'', U32)]"

definition kernel_info_t :: ctype where
  "kernel_info_t = CStruct False [(''header'', U32), (''size'', U32), (''size_total'', U32), (''setup_type_max'', U32),
     (''mle_header_offset'', U32)]"

definition mle_header_t :: ctype where
  "mle_header_t = CStruct False [(''uuid'', CArr U32 4), (''size'', U32), (''version'', U32), (''sl_stub_entry'', U32),
     (''first_page'', U32), (''start_offset'', U32), (''end_offset'', U32), (''vector'', U32), (''cmdline_start'', U32),
     (''cmdline_end'', U32)]"

text \<open>\<^verbatim>\<open>include/boot.h\<close>\<close>

definition sl_header_t :: ctype where
  "sl_header_t = CStruct True [(''skl_entry_point'', U16), (''bootloader_data_offset'', U16), (''skl_info_offset'', U16)]"

definition skl_info_t :: ctype where
  "skl_info_t = CStruct True [(''uuid'', CArr U8 16), (''version'', U32), (''msb_key_algo'', U16), (''msb_key_hash'', CArr U8 64)]"

definition ev_log_hash_t :: ctype where
  "ev_log_hash_t = CStruct True [(''count'', U32), (''sha1_id'', U16), (''sha1_hash'', CArr U8 20), (''sha256_id'', U16),
     (''sha256_hash'', CArr U8 32)]"

text \<open>\<^verbatim>\<open>include/tags.h\<close>\<close>

definition setup_indirect_t :: ctype where
  "setup_indirect_t = CStruct True [(''type'', U32), (''reserved'', U32), (''len'', U64), (''addr'', U64)]"

definition setup_data_t :: ctype where
  "setup_data_t = CStruct True [(''next'', U64), (''type'', U32), (''len'', U32), (''indirect'', setup_indirect_t)]"

definition skl_tag_hdr_t :: ctype where
  "skl_tag_hdr_t = CStruct True [(''type'', U8), (''len'', U8)]"

definition skl_tag_tags_size_t :: ctype where
  "skl_tag_tags_size_t = CStruct True [(''hdr'', skl_tag_hdr_t), (''size'', U16)]"

definition skl_tag_boot_linux_t :: ctype where
  "skl_tag_boot_linux_t = CStruct True [(''hdr'', skl_tag_hdr_t), (''zero_page'', U32)]"

definition skl_tag_boot_mb2_t :: ctype where
  "skl_tag_boot_mb2_t = CStruct True [(''hdr'', skl_tag_hdr_t), (''mbi'', U32), (''kernel_entry'', U32), (''kernel_size'', U32)]"

definition skl_tag_evtlog_t :: ctype where
  "skl_tag_evtlog_t = CStruct True [(''hdr'', skl_tag_hdr_t), (''address'', U32), (''size'', U32)]"

definition skl_tag_hash_t :: ctype where
  "skl_tag_hash_t = CStruct True [(''hdr'', skl_tag_hdr_t), (''algo_id'', U16), (''digest'', CArr U8 0)]"

definition skl_tag_setup_indirect_t :: ctype where
  "skl_tag_setup_indirect_t = CStruct True [(''hdr'', skl_tag_hdr_t), (''data'', setup_data_t)]"

text \<open>\<^verbatim>\<open>include/multiboot2.h\<close>\<close>

definition multiboot_tag_t :: ctype where
  "multiboot_tag_t = CStruct False [(''type'', U32), (''size'', U32)]"

definition multiboot_tag_string_t :: ctype where
  "multiboot_tag_string_t = CStruct False [(''type'', U32), (''size'', U32), (''string'', CArr U8 0)]"

definition multiboot_tag_module_t :: ctype where
  "multiboot_tag_module_t = CStruct False [(''type'', U32), (''size'', U32), (''mod_start'', U32), (''mod_end'', U32),
     (''cmdline'', CArr U8 0)]"

definition Elf32_Shdr_t :: ctype where
  "Elf32_Shdr_t = CStruct False [(''pad0'', CArr U32 1), (''sh_type'', U32), (''pad1'', CArr U32 2), (''sh_offset'', U32),
     (''sh_size'', U32), (''pad2'', CArr U32 4)]"

definition multiboot_tag_elf_sections_t :: ctype where
  "multiboot_tag_elf_sections_t = CStruct False [(''type'', U32), (''size'', U32), (''num'', U32), (''entsize'', U32),
     (''shndx'', U32), (''sections'', CArr U8 0)]"

definition multiboot_tag_load_base_addr_t :: ctype where
  "multiboot_tag_load_base_addr_t = CStruct False [(''type'', U32), (''size'', U32), (''load_base_addr'', U32)]"

text \<open>\<^verbatim>\<open>tpmlib/tpm_common.h\<close>, \<^verbatim>\<open>tpmlib/tpm1.h\<close> and \<^verbatim>\<open>tpmlib/tpm2.h\<close>: what is sent to the TPM.\<close>

definition tpm_header_t :: ctype where
  "tpm_header_t = CStruct True [(''tag'', U16), (''size'', U32), (''code'', U32)]"

definition tpm_sha1_digest_t :: ctype where
  "tpm_sha1_digest_t = CStruct False [(''digest'', CArr U8 20)]"

text \<open>A union of one member is laid out as a structure of it, bit fields of one byte as that byte.\<close>

definition tpm_digest_t :: ctype where
  "tpm_digest_t = CStruct False [(''pcr'', U32), (''digest'', CStruct False [(''sha1'', tpm_sha1_digest_t)])]"

definition tpm_extend_cmd_t :: ctype where
  "tpm_extend_cmd_t = CStruct False [(''pcr_num'', U32), (''digest'', tpm_sha1_digest_t)]"

definition tpm_extend_resp_t :: ctype where
  "tpm_extend_resp_t = CStruct False [(''ordinal'', U32), (''digest'', tpm_sha1_digest_t)]"

definition tpm2b_t :: ctype where
  "tpm2b_t = CStruct False [(''size'', U16), (''buffer'', CArr U8 0)]"

definition tpma_session_t :: ctype where
  "tpma_session_t = CStruct False [(''bits'', U8)]"

definition tpmt_ha_t :: ctype where
  "tpmt_ha_t = CStruct False [(''alg'', U16), (''digest'', CArr U8 0)]"

definition tpml_digest_values_t :: ctype where
  "tpml_digest_values_t = CStruct False [(''count'', U32), (''digests'', CArr tpmt_ha_t 0)]"

text \<open>Commands and responses under construction: pointers into the buffer.\<close>

definition pointer :: ctype where
  "pointer = CInt 8"

definition tpms_auth_cmd_t :: ctype where
  "tpms_auth_cmd_t = CStruct False [(''handle'', pointer), (''nonce'', pointer), (''attributes'', pointer), (''hmac'', pointer)]"

definition tpms_auth_resp_t :: ctype where
  "tpms_auth_resp_t = CStruct False [(''nonce'', pointer), (''attributes'', pointer), (''hmac'', pointer)]"

definition tpm2_cmd_t :: ctype where
  "tpm2_cmd_t = CStruct False [(''header'', pointer), (''handles'', pointer), (''auth_size'', pointer), (''auth'', pointer),
     (''params'', pointer), (''raw'', pointer)]"

definition tpm2_resp_t :: ctype where
  "tpm2_resp_t = CStruct False [(''header'', pointer), (''handles'', pointer), (''param_size'', pointer), (''params'', pointer),
     (''auth'', pointer), (''raw'', pointer)]"

text \<open>The event log, \<^verbatim>\<open>event_log.c\<close>\<close>

definition tpm12_event_log_header_t :: ctype where
  "tpm12_event_log_header_t = CStruct True [(''signature'', CArr U8 20), (''reserved'', CArr U8 12),
     (''container_ver_major'', U8), (''container_ver_minor'', U8), (''pcr_event_ver_major'', U8), (''pcr_event_ver_minor'', U8),
     (''container_size'', U32), (''pcr_events_offset'', U32), (''next_event_offset'', U32)]"

definition txt_event_log_pointer2_1_element_t :: ctype where
  "txt_event_log_pointer2_1_element_t = CStruct True [(''phys_addr'', U64), (''allocated_event_container_size'', U32),
     (''first_record_offset'', U32), (''next_record_offset'', U32)]"

definition common_spec_id_ev_t :: ctype where
  "common_spec_id_ev_t = CStruct True [(''signature'', CArr U8 16), (''platform_class'', U32), (''spec_ver_minor'', U8),
     (''spec_ver_major'', U8), (''errata'', U8), (''uintn_size'', U8)]"

definition tpm12_spec_id_ev_t :: ctype where
  "tpm12_spec_id_ev_t = CStruct True [(''c'', common_spec_id_ev_t), (''vendor_info_size'', U8), (''hdr'', tpm12_event_log_header_t)]"

definition tpm20_digest_sizes_t :: ctype where
  "tpm20_digest_sizes_t = CStruct True [(''number_of_algorithms'', U32),
     (''digest_sizes'', CArr (CStruct False [(''id'', U16), (''size'', U16)]) 2)]"

definition tpm20_spec_id_ev_t :: ctype where
  "tpm20_spec_id_ev_t = CStruct True [(''c'', common_spec_id_ev_t), (''sizes'', tpm20_digest_sizes_t), (''vendor_info_size'', U8),
     (''el'', txt_event_log_pointer2_1_element_t)]"

definition tpm12_event_t :: ctype where
  "tpm12_event_t = CStruct True [(''pcr'', U32), (''event_type'', U32), (''digest'', CArr U8 20), (''event_size'', U32)]"

definition tpm20_event_t :: ctype where
  "tpm20_event_t = CStruct True [(''pcr'', U32), (''event_type'', U32), (''digests'', ev_log_hash_t), (''event_size'', U32)]"

section \<open>The loader against its declarations\<close>

text \<open>The variable \<^verbatim>\<open>skl_info\<close> of \<^verbatim>\<open>main.c\<close>, in memory.\<close>

definition skl_info :: "u8 list" where
  "skl_info =
     [0x78, 0xf1, 0x26, 0x8e, 0x04, 0x92, 0x11, 0xe9, 0x83, 0x2a, 0xc8, 0x5b, 0x76, 0xc4, 0xcc, 0x02]
     @ le_bytes 4 (0 :: u32) @ le_bytes 2 (0x14 :: u16) @ replicate 64 0"

text \<open>\<^verbatim>\<open>build_assertions\<close> of \<^verbatim>\<open>main.c\<close>, which the compiler checks.\<close>

definition build_assertions :: bool where
  "build_assertions \<longleftrightarrow>
     offset_of boot_params_t [''tb_dev_map''] = Some 0x0d8
   \<and> offset_of boot_params_t [''syssize''] = Some 0x1f4
   \<and> offset_of boot_params_t [''version''] = Some 0x206
   \<and> offset_of boot_params_t [''code32_start''] = Some 0x214
   \<and> offset_of boot_params_t [''cmd_line_ptr''] = Some 0x228
   \<and> offset_of boot_params_t [''cmdline_size''] = Some 0x238
   \<and> offset_of boot_params_t [''payload_offset''] = Some 0x248
   \<and> offset_of boot_params_t [''payload_length''] = Some 0x24c
   \<and> offset_of boot_params_t [''kern_info_offset''] = Some 0x268
   \<and> offset_of kernel_info_t [''mle_header_offset''] = Some 0x010"

text \<open>A field of the structure at \<open>p\<close>, read at the offset that the layout gives.\<close>

definition field8 :: "mem \<Rightarrow> addr \<Rightarrow> ctype \<Rightarrow> string list \<Rightarrow> u8 option" where
  "field8 m p t path = map_option (\<lambda>off. m (p + off)) (offset_of t path)"

definition field16 :: "mem \<Rightarrow> addr \<Rightarrow> ctype \<Rightarrow> string list \<Rightarrow> u16 option" where
  "field16 m p t path = map_option (\<lambda>off. load16 m (p + off)) (offset_of t path)"

definition field32 :: "mem \<Rightarrow> addr \<Rightarrow> ctype \<Rightarrow> string list \<Rightarrow> u32 option" where
  "field32 m p t path = map_option (\<lambda>off. load32 m (p + off)) (offset_of t path)"

lemmas layout_rules = fields_of_def round_up_def emit_def

lemma boot_params_offsets:
  "offset_of boot_params_t [''tb_dev_map''] = Some 216"
  "offset_of boot_params_t [''syssize''] = Some 500"
  "offset_of boot_params_t [''version''] = Some 518"
  "offset_of boot_params_t [''code32_start''] = Some 532"
  "offset_of boot_params_t [''cmd_line_ptr''] = Some 552"
  "offset_of boot_params_t [''cmdline_size''] = Some 568"
  "offset_of boot_params_t [''payload_offset''] = Some 584"
  "offset_of boot_params_t [''payload_length''] = Some 588"
  "offset_of boot_params_t [''kern_info_offset''] = Some 616"
  by (simp_all add: boot_params_t_def layout_rules)

lemma kernel_info_offsets:
  "offset_of kernel_info_t [''header''] = Some 0"
  "offset_of kernel_info_t [''size''] = Some 4"
  "offset_of kernel_info_t [''size_total''] = Some 8"
  "offset_of kernel_info_t [''setup_type_max''] = Some 12"
  "offset_of kernel_info_t [''mle_header_offset''] = Some 16"
  by (simp_all add: kernel_info_t_def layout_rules)

lemma mle_header_offsets:
  "offset_of mle_header_t [''uuid''] = Some 0"
  "offset_of mle_header_t [''sl_stub_entry''] = Some 24"
  by (simp_all add: mle_header_t_def layout_rules)

lemma skl_tag_hdr_offsets:
  "offset_of skl_tag_hdr_t [''type''] = Some 0"
  "offset_of skl_tag_hdr_t [''len''] = Some 1"
  by (simp_all add: skl_tag_hdr_t_def layout_rules)

lemma skl_tag_tags_size_offsets:
  "offset_of skl_tag_tags_size_t [''hdr''] = Some 0"
  "offset_of skl_tag_tags_size_t [''size''] = Some 2"
  by (simp_all add: skl_tag_tags_size_t_def skl_tag_hdr_t_def layout_rules)

lemma skl_tag_boot_linux_offsets:
  "offset_of skl_tag_boot_linux_t [''zero_page''] = Some 2"
  by (simp_all add: skl_tag_boot_linux_t_def skl_tag_hdr_t_def layout_rules)

lemma skl_tag_boot_mb2_offsets:
  "offset_of skl_tag_boot_mb2_t [''mbi''] = Some 2"
  "offset_of skl_tag_boot_mb2_t [''kernel_entry''] = Some 6"
  "offset_of skl_tag_boot_mb2_t [''kernel_size''] = Some 10"
  by (simp_all add: skl_tag_boot_mb2_t_def skl_tag_hdr_t_def layout_rules)

lemma skl_tag_evtlog_offsets:
  "offset_of skl_tag_evtlog_t [''address''] = Some 2"
  "offset_of skl_tag_evtlog_t [''size''] = Some 6"
  by (simp_all add: skl_tag_evtlog_t_def skl_tag_hdr_t_def layout_rules)

lemma skl_tag_hash_offsets:
  "offset_of skl_tag_hash_t [''algo_id''] = Some 2"
  "offset_of skl_tag_hash_t [''digest''] = Some 4"
  by (simp_all add: skl_tag_hash_t_def skl_tag_hdr_t_def layout_rules)

lemma multiboot_tag_offsets:
  "offset_of multiboot_tag_t [''type''] = Some 0"
  "offset_of multiboot_tag_t [''size''] = Some 4"
  by (simp_all add: multiboot_tag_t_def layout_rules)

lemma multiboot_tag_module_offsets:
  "offset_of multiboot_tag_module_t [''mod_start''] = Some 8"
  "offset_of multiboot_tag_module_t [''mod_end''] = Some 12"
  "offset_of multiboot_tag_module_t [''cmdline''] = Some 16"
  by (simp_all add: multiboot_tag_module_t_def layout_rules)

lemma multiboot_tag_elf_sections_offsets:
  "offset_of multiboot_tag_elf_sections_t [''num''] = Some 8"
  "offset_of multiboot_tag_elf_sections_t [''entsize''] = Some 12"
  "offset_of multiboot_tag_elf_sections_t [''shndx''] = Some 16"
  "offset_of multiboot_tag_elf_sections_t [''sections''] = Some 20"
  by (simp_all add: multiboot_tag_elf_sections_t_def layout_rules)

lemma multiboot_tag_load_base_addr_offsets:
  "offset_of multiboot_tag_load_base_addr_t [''load_base_addr''] = Some 8"
  by (simp_all add: multiboot_tag_load_base_addr_t_def layout_rules)

lemma Elf32_Shdr_offsets:
  "offset_of Elf32_Shdr_t [''sh_type''] = Some 4"
  "offset_of Elf32_Shdr_t [''sh_offset''] = Some 16"
  "offset_of Elf32_Shdr_t [''sh_size''] = Some 20"
  by (simp_all add: Elf32_Shdr_t_def layout_rules)

lemma tpm_header_offsets:
  "offset_of tpm_header_t [''tag''] = Some 0"
  "offset_of tpm_header_t [''size''] = Some 2"
  "offset_of tpm_header_t [''code''] = Some 6"
  by (simp_all add: tpm_header_t_def layout_rules)

lemma tpm_extend_cmd_offsets:
  "offset_of tpm_extend_cmd_t [''pcr_num''] = Some 0"
  "offset_of tpm_extend_cmd_t [''digest''] = Some 4"
  by (simp_all add: tpm_extend_cmd_t_def tpm_sha1_digest_t_def layout_rules)

lemma tpml_digest_values_offsets:
  "offset_of tpml_digest_values_t [''count''] = Some 0"
  "offset_of tpml_digest_values_t [''digests''] = Some 4"
  by (simp_all add: tpml_digest_values_t_def tpmt_ha_t_def layout_rules del: One_nat_def)

lemma tpmt_ha_offsets:
  "offset_of tpmt_ha_t [''alg''] = Some 0"
  "offset_of tpmt_ha_t [''digest''] = Some 2"
  by (simp_all add: tpmt_ha_t_def layout_rules del: One_nat_def)

lemmas layout_offsets = boot_params_offsets kernel_info_offsets mle_header_offsets skl_tag_hdr_offsets skl_tag_tags_size_offsets skl_tag_boot_linux_offsets skl_tag_boot_mb2_offsets skl_tag_evtlog_offsets skl_tag_hash_offsets multiboot_tag_offsets multiboot_tag_module_offsets multiboot_tag_elf_sections_offsets multiboot_tag_load_base_addr_offsets Elf32_Shdr_offsets tpm_header_offsets tpm_extend_cmd_offsets tpml_digest_values_offsets tpmt_ha_offsets

lemma build_assertions_hold: "build_assertions"
  by (simp add: build_assertions_def layout_offsets)

lemmas fields = field8_def field16_def field32_def

text \<open>A reader of the model that reads, at every address, the field that the code names.\<close>

definition reads8 :: "(mem \<Rightarrow> addr \<Rightarrow> u8) \<times> ctype \<times> string \<Rightarrow> bool" where
  "reads8 = (\<lambda>(get, t, f). \<forall>m p. field8 m p t [f] = Some (get m p))"

definition reads16 :: "(mem \<Rightarrow> addr \<Rightarrow> u16) \<times> ctype \<times> string \<Rightarrow> bool" where
  "reads16 = (\<lambda>(get, t, f). \<forall>m p. field16 m p t [f] = Some (get m p))"

definition reads32 :: "(mem \<Rightarrow> addr \<Rightarrow> u32) \<times> ctype \<times> string \<Rightarrow> bool" where
  "reads32 = (\<lambda>(get, t, f). \<forall>m p. field32 m p t [f] = Some (get m p))"

text \<open>A flexible array at the end: its address.\<close>

definition locates :: "(mem \<Rightarrow> addr \<Rightarrow> addr) \<times> ctype \<times> string \<Rightarrow> bool" where
  "locates = (\<lambda>(get, t, f). \<forall>m p. map_option ((+) p) (offset_of t [f]) = Some (get m p))"

lemmas readers = boot_linux_at_def boot_mb2_at_def boot_params_at_def elf_sections_at_def evtlog_at_def hash_at_def hdr_at_def kernel_info_at_def load_base_addr_at_def mb_tag_at_def mle_header_at_def module_at_def shdr_at_def tags_size_at_def

lemma readers8:
  "list_all reads8 [
       (\<lambda>m p. tag_type (hdr_at m p), skl_tag_hdr_t, ''type''),
       (\<lambda>m p. tag_len (hdr_at m p), skl_tag_hdr_t, ''len'')]"
  by (simp add: reads8_def fields layout_offsets readers)

lemma readers16:
  "list_all reads16 [
       (\<lambda>m p. bp_version (boot_params_at m p), boot_params_t, ''version''),
       (\<lambda>m p. tags_size (tags_size_at m p), skl_tag_tags_size_t, ''size''),
       (\<lambda>m p. algo_id (hash_at m p), skl_tag_hash_t, ''algo_id'')]"
  by (simp add: reads16_def fields layout_offsets readers)

lemma readers32:
  "list_all reads32 [
       (\<lambda>m p. tb_dev_map (boot_params_at m p), boot_params_t, ''tb_dev_map''),
       (\<lambda>m p. syssize (boot_params_at m p), boot_params_t, ''syssize''),
       (\<lambda>m p. code32_start (boot_params_at m p), boot_params_t, ''code32_start''),
       (\<lambda>m p. cmd_line_ptr (boot_params_at m p), boot_params_t, ''cmd_line_ptr''),
       (\<lambda>m p. cmdline_size (boot_params_at m p), boot_params_t, ''cmdline_size''),
       (\<lambda>m p. payload_offset (boot_params_at m p), boot_params_t, ''payload_offset''),
       (\<lambda>m p. payload_length (boot_params_at m p), boot_params_t, ''payload_length''),
       (\<lambda>m p. kern_info_offset (boot_params_at m p), boot_params_t, ''kern_info_offset''),
       (\<lambda>m p. ki_header (kernel_info_at m p), kernel_info_t, ''header''),
       (\<lambda>m p. ki_size (kernel_info_at m p), kernel_info_t, ''size''),
       (\<lambda>m p. size_total (kernel_info_at m p), kernel_info_t, ''size_total''),
       (\<lambda>m p. setup_type_max (kernel_info_at m p), kernel_info_t, ''setup_type_max''),
       (\<lambda>m p. mle_header_offset (kernel_info_at m p), kernel_info_t, ''mle_header_offset''),
       (\<lambda>m p. sl_stub_entry (mle_header_at m p), mle_header_t, ''sl_stub_entry''),
       (\<lambda>m p. zero_page (boot_linux_at m p), skl_tag_boot_linux_t, ''zero_page''),
       (\<lambda>m p. mbi (boot_mb2_at m p), skl_tag_boot_mb2_t, ''mbi''),
       (\<lambda>m p. mb2_kernel_entry (boot_mb2_at m p), skl_tag_boot_mb2_t, ''kernel_entry''),
       (\<lambda>m p. mb2_kernel_size (boot_mb2_at m p), skl_tag_boot_mb2_t, ''kernel_size''),
       (\<lambda>m p. evtlog_address (evtlog_at m p), skl_tag_evtlog_t, ''address''),
       (\<lambda>m p. evtlog_size (evtlog_at m p), skl_tag_evtlog_t, ''size''),
       (\<lambda>m p. mb_type (mb_tag_at m p), multiboot_tag_t, ''type''),
       (\<lambda>m p. mb_size (mb_tag_at m p), multiboot_tag_t, ''size''),
       (\<lambda>m p. mod_start (module_at m p), multiboot_tag_module_t, ''mod_start''),
       (\<lambda>m p. mod_end (module_at m p), multiboot_tag_module_t, ''mod_end''),
       (\<lambda>m p. es_num (elf_sections_at m p), multiboot_tag_elf_sections_t, ''num''),
       (\<lambda>m p. es_entsize (elf_sections_at m p), multiboot_tag_elf_sections_t, ''entsize''),
       (\<lambda>m p. es_shndx (elf_sections_at m p), multiboot_tag_elf_sections_t, ''shndx''),
       (\<lambda>m p. load_base_addr (load_base_addr_at m p), multiboot_tag_load_base_addr_t, ''load_base_addr''),
       (\<lambda>m p. sh_type (shdr_at m p), Elf32_Shdr_t, ''sh_type''),
       (\<lambda>m p. sh_offset (shdr_at m p), Elf32_Shdr_t, ''sh_offset''),
       (\<lambda>m p. sh_size (shdr_at m p), Elf32_Shdr_t, ''sh_size'')]"
  by (simp add: reads32_def fields layout_offsets readers)

lemma locators:
  "list_all locates [
       (\<lambda>m p. digest_at (hash_at m p), skl_tag_hash_t, ''digest''),
       (\<lambda>m p. mod_cmdline (module_at m p), multiboot_tag_module_t, ''cmdline''),
       (\<lambda>m p. es_sections (elf_sections_at m p), multiboot_tag_elf_sections_t, ''sections'')]"
  by (simp add: locates_def fields layout_offsets readers)

lemma tpm_sizes_hold:
  "csize tpm_header_t = unat sizeof_tpm_header" "csize tpm_extend_cmd_t = 24" "csize tpm_sha1_digest_t = 20"
  by (simp_all add: tpm_header_t_def tpm_extend_cmd_t_def tpm_sha1_digest_t_def layout_rules sizeof_tpm_header_def)

lemma log_sizes:
  "csize tpm12_event_t = sizeof_tpm12_event" "csize tpm20_event_t = sizeof_tpm20_event"
  "csize tpm12_spec_id_ev_t = sizeof_id12" "csize tpm20_spec_id_ev_t = sizeof_id20"
  "csize tpm12_event_log_header_t = 48" "csize txt_event_log_pointer2_1_element_t = 20"
  by (simp_all add: tpm12_event_t_def tpm20_event_t_def ev_log_hash_t_def tpm12_spec_id_ev_t_def tpm20_spec_id_ev_t_def
      common_spec_id_ev_t_def tpm12_event_log_header_t_def tpm20_digest_sizes_t_def txt_event_log_pointer2_1_element_t_def
      layout_rules sizeofs del: One_nat_def)

lemma log_offsets:
  "map_option ((+) (csize tpm12_event_t)) (offset_of tpm12_spec_id_ev_t [''hdr'', ''next_event_offset'']) = Some next_event_offset_at"
  "map_option ((+) (csize tpm12_event_t)) (offset_of tpm20_spec_id_ev_t [''el'', ''next_record_offset'']) = Some next_record_offset_at"
  unfolding log_sizes
  by (simp_all add: tpm12_spec_id_ev_t_def tpm20_spec_id_ev_t_def
      common_spec_id_ev_t_def tpm12_event_log_header_t_def tpm20_digest_sizes_t_def txt_event_log_pointer2_1_element_t_def
      layout_rules sizeofs del: One_nat_def)

lemma command_sizes:
  "csize tpms_auth_cmd_t = 32" "csize tpms_auth_resp_t = 24" "csize tpm2_cmd_t = 48" "csize tpm2_resp_t = 48"
  by (simp_all add: tpms_auth_cmd_t_def tpms_auth_resp_t_def tpm2_cmd_t_def tpm2_resp_t_def pointer_def layout_rules del: One_nat_def)

lemma info_size: "length skl_info = csize skl_info_t"
  by (simp add: skl_info_def skl_info_t_def layout_rules)


end
