(* ===== verification/Page_Tables.thy ===== *)
theory Page_Tables
  imports Machine
begin

text \<open>
  The page tables of \<^verbatim>\<open>head.S\<close> (section \<^verbatim>\<open>.page_data\<close>): the quads as the assembler and the linker
  leave them, the six relocations, and the translation that they give. The walk through the four
  levels is the one of the processor manual. The result is the identity on the first 4 GB, and
  nothing beyond.
\<close>

section \<open>Quads in memory\<close>

definition load64 :: "mem \<Rightarrow> addr \<Rightarrow> u64" where
  "load64 m a = of_le (mem_read m a 8)"

text \<open>\<^verbatim>\<open>add %reg, disp(%base)\<close> with a 32-bit operand.\<close>

definition add32 :: "mem \<Rightarrow> addr \<Rightarrow> u32 \<Rightarrow> mem" where
  "add32 m a v = store32 m a (load32 m a + v)"

lemma mem_read_8: "mem_read m a 8 = mem_read m a 4 @ mem_read m (a + 4) 4"
  using mem_read_add [of m a 4 4] by simp

lemma bit_load64:
  "bit (load64 m a) i \<longleftrightarrow> i < 64 \<and> (if i < 32 then bit (load32 m a) i else bit (load32 m (a + 4)) (i - 32))"
proof (cases "i < 32")
  case True
  then have "i div 8 < 4" by simp
  with True show ?thesis by (simp add: load64_def load32_def bit_of_le mem_read_8 nth_append)
next
  case False
  then obtain j where i: "i = j + 32" by (metis add.commute le_Suc_ex not_less)
  have j: "(j + 32) div 8 = j div 8 + 4" "(j + 32) mod 8 = j mod 8" by presburger+
  show ?thesis
    by (simp add: i load64_def load32_def bit_of_le mem_read_8 nth_append j)
qed

lemma load32_low: "load32 m a = ucast (load64 m a)"
  by (rule bit_word_eqI) (simp add: bit_simps bit_load64)

lemma load32_high: "load32 m (a + 4) = ucast (drop_bit 32 (load64 m a))"
  by (rule bit_word_eqI) (simp add: bit_simps bit_load64)

lemma load64_halves: "load64 m a = ucast (load32 m a) OR push_bit 32 (ucast (load32 m (a + 4)))"
  by (rule bit_word_eqI) (auto simp: bit_simps bit_load64 dest: bit_imp_le_length)

lemma load64_cong: "(\<And>i. i < 8 \<Longrightarrow> m (a + i) = m' (a + i)) \<Longrightarrow> load64 m a = load64 m' a"
  unfolding load64_def by (intro arg_cong [of _ _ of_le] mem_read_cong)

lemma load32_cong: "(\<And>i. i < 4 \<Longrightarrow> m (a + i) = m' (a + i)) \<Longrightarrow> load32 m a = load32 m' a"
  unfolding load32_def by (intro arg_cong [of _ _ of_le] mem_read_cong)

lemma load16_cong: "(\<And>i. i < 2 \<Longrightarrow> m (a + i) = m' (a + i)) \<Longrightarrow> load16 m a = load16 m' a"
  unfolding load16_def by (intro arg_cong [of _ _ of_le] mem_read_cong)

lemma load32_add32: "load32 (add32 m a v) a = load32 m a + v"
  by (simp add: add32_def load32_store32)

lemma load32_add32_out: "a + 4 \<le> d \<or> d + 4 \<le> a \<Longrightarrow> load32 (add32 m d v) a = load32 m a"
  by (simp add: add32_def load32_def store32_def mem_simps)

lemma add32_out: "x < a \<or> a + 4 \<le> x \<Longrightarrow> add32 m a v x = m x"
  by (simp add: add32_def store32_def mem_write_out)

lemma unat_ucast_up:
  "LENGTH('a) \<le> LENGTH('b) \<Longrightarrow> unat (ucast (x :: 'a::len word) :: 'b::len word) = unat x"
  by (simp add: unsigned_ucast_eq take_bit_nat_eq_self order.strict_trans2 [OF unsigned_less] power_increasing)

lemma unat_drop_bit: "unat (drop_bit k w) = unat w div 2 ^ k"
  by (metis drop_bit_eq_div unat_drop_bit_eq)

lemma of_unat: "unat w = n \<Longrightarrow> w = of_nat n"
  by auto

text \<open>A small quad to which a small number is added: no carry is lost.\<close>

lemma load64_add32:
  assumes "load64 m a = of_nat n" "n + k < 2 ^ 32"
  shows "load64 (add32 m a (of_nat k)) a = of_nat (n + k)"
proof -
  have u: "unat (load64 m a) = n" using assms by (simp add: unat_of_nat_small)
  have "unat (load32 m a) = n" using assms u by (simp add: load32_low unsigned_ucast_eq take_bit_nat_eq_self)
  then have l: "load32 m a = of_nat n" by (rule of_unat)
  have "unat (drop_bit 32 (load64 m a)) = 0" using assms u by (simp only: unat_drop_bit) simp
  then have h: "load32 m (a + 4) = 0" by (simp only: load32_high unat_eq_zero) simp
  have h': "load32 (add32 m a v) (a + 4) = load32 m (a + 4)" for v
    by (simp add: add32_def load32_def store32_def mem_simps)
  have "unat (load64 (add32 m a (of_nat k)) a) = n + k"
    using assms(2)
    by (simp add: load64_halves h' h unat_ucast_up) (simp add: add32_def load32_store32 l unat_of_nat_small flip: of_nat_add)
  then show ?thesis by (rule of_unat)
qed

section \<open>The tables of the image\<close>

definition L1_PT_SHIFT :: nat where "L1_PT_SHIFT = 12"
definition L2_PT_SHIFT :: nat where "L2_PT_SHIFT = 21"

definition PAGE_PRESENT :: u64 where "PAGE_PRESENT = 0x001"
definition PAGE_RW :: u64 where "PAGE_RW = 0x002"
definition PAGE_AD :: u64 where "PAGE_AD = 0x060"
definition PAGE_PSE :: u64 where "PAGE_PSE = 0x080"

lemmas page_consts = PAGE_SHIFT_def PAGE_SIZE_def L1_PT_SHIFT_def L2_PT_SHIFT_def
  PAGE_PRESENT_def PAGE_RW_def PAGE_AD_def PAGE_PSE_def

text \<open>
  The bodies of the \<^verbatim>\<open>.rept\<close> loops, with \<open>idx\<close> as an argument; \<open>l1\<close>, \<open>l2\<close> and \<open>l3\<close> are the offsets in
  the image that the linker gives to the labels. What \<^verbatim>\<open>.align PAGE_SIZE\<close> fills in is zero.
\<close>

definition l1_identmap :: "nat \<Rightarrow> u64" where
  "l1_identmap idx = push_bit L1_PT_SHIFT (of_nat idx) + PAGE_AD + PAGE_RW + PAGE_PRESENT"

definition l2_identmap :: "nat \<Rightarrow> nat \<Rightarrow> u64" where
  "l2_identmap l1 idx =
     (if idx = 0 then of_nat l1 + PAGE_AD + PAGE_RW + PAGE_PRESENT
      else push_bit L2_PT_SHIFT (of_nat idx) + PAGE_PSE + PAGE_AD + PAGE_RW + PAGE_PRESENT)"

definition l3_identmap :: "nat \<Rightarrow> nat \<Rightarrow> u64" where
  "l3_identmap l2 idx =
     (if idx < 4 then of_nat l2 + (of_nat idx * of_nat PAGE_SIZE) + PAGE_AD + PAGE_RW + PAGE_PRESENT else 0)"

definition l4_identmap :: "nat \<Rightarrow> nat \<Rightarrow> u64" where
  "l4_identmap l3 idx = (if idx = 0 then of_nat l3 + PAGE_AD + PAGE_RW + PAGE_PRESENT else 0)"

text \<open>The section as it lies in memory: one, four, one and one pages from offset \<open>l1\<close> on.\<close>

definition l2_at :: "nat \<Rightarrow> nat" where "l2_at l1 = l1 + PAGE_SIZE"
definition l3_at :: "nat \<Rightarrow> nat" where "l3_at l1 = l2_at l1 + 4 * PAGE_SIZE"
definition l4_at :: "nat \<Rightarrow> nat" where "l4_at l1 = l3_at l1 + PAGE_SIZE"

lemmas table_offsets = l2_at_def l3_at_def l4_at_def page_consts

definition table :: "mem \<Rightarrow> addr \<Rightarrow> nat \<Rightarrow> (nat \<Rightarrow> u64) \<Rightarrow> bool" where
  "table m a n f \<longleftrightarrow> (\<forall>i < n. load64 m (a + 8 * i) = f i)"

definition page_data :: "nat \<Rightarrow> addr \<Rightarrow> mem \<Rightarrow> bool" where
  "page_data l1 base m \<longleftrightarrow>
     table m (base + l1) 512 l1_identmap
   \<and> table m (base + l2_at l1) 2048 (l2_identmap l1)
   \<and> table m (base + l3_at l1) 512 (l3_identmap (l2_at l1))
   \<and> table m (base + l4_at l1) 512 (l4_identmap (l3_at l1))"

text \<open>The relocations that \<^verbatim>\<open>_entry\<close> makes, in its order, with the load address in \<^verbatim>\<open>%ebp\<close>.\<close>

definition relocate_tables :: "nat \<Rightarrow> u32 \<Rightarrow> mem \<Rightarrow> mem" where
  "relocate_tables l1 ebp m =
     fold (\<lambda>off m. add32 m (unat ebp + off) ebp)
       [l4_at l1, l3_at l1, l3_at l1 + 0x08, l3_at l1 + 0x10, l3_at l1 + 0x18, l2_at l1] m"

section \<open>The walk\<close>

definition pte_base :: "nat \<Rightarrow> u64 \<Rightarrow> nat" where
  "pte_base n e = unat (push_bit n (take_bit (52 - n) (drop_bit n e)))"

abbreviation pte_present :: "u64 \<Rightarrow> bool" where "pte_present e \<equiv> bit e 0"
abbreviation pte_writable :: "u64 \<Rightarrow> bool" where "pte_writable e \<equiv> bit e 1"
abbreviation pte_large :: "u64 \<Rightarrow> bool" where "pte_large e \<equiv> bit e 7"

text \<open>One level: the entry for the address in the table, or a page fault.\<close>

definition walk_entry :: "mem \<Rightarrow> u64 \<Rightarrow> nat \<Rightarrow> addr \<Rightarrow> u64 option" where
  "walk_entry m t shift va =
     (let e = load64 m (pte_base 12 t + 8 * (va div 2 ^ shift mod 512)) in if pte_present e then Some e else None)"

text \<open>The physical address and whether the page can be written.\<close>

definition walk :: "mem \<Rightarrow> u64 \<Rightarrow> addr \<Rightarrow> (addr \<times> bool) option" where
  "walk m cr3 va = do {
     e4 \<leftarrow> walk_entry m cr3 39 va;
     e3 \<leftarrow> walk_entry m e4 30 va;
     if pte_large e3 then Some (pte_base 30 e3 + va mod 2 ^ 30, pte_writable e4 \<and> pte_writable e3)
     else do {
       e2 \<leftarrow> walk_entry m e3 21 va;
       if pte_large e2
       then Some (pte_base 21 e2 + va mod 2 ^ 21, pte_writable e4 \<and> pte_writable e3 \<and> pte_writable e2)
       else do {
         e1 \<leftarrow> walk_entry m e2 12 va;
         Some (pte_base 12 e1 + va mod 2 ^ 12,
           pte_writable e4 \<and> pte_writable e3 \<and> pte_writable e2 \<and> pte_writable e1)
       }
     }
   }"

section \<open>Entries as numbers\<close>

lemma bit_of_num: "n < 2 ^ 64 \<Longrightarrow> bit (of_nat n :: u64) i \<longleftrightarrow> odd (n div 2 ^ i)"
proof -
  assume "n < 2 ^ 64"
  then have "unat (of_nat n :: u64) = n" by (simp add: unat_of_nat_small)
  then show ?thesis using bit_unsigned_iff [where ?'a = nat, of "of_nat n :: u64" i] bit_iff_odd [of n i] by simp
qed

lemma pte_base_num:
  assumes "n < 2 ^ 52" "s < 52"
  shows "pte_base s (of_nat n) = n div 2 ^ s * 2 ^ s"
proof -
  have n: "unat (of_nat n :: u64) = n" using assms by (simp add: unat_of_nat_small)
  have "n div 2 ^ s < 2 ^ (52 - s)"
    using assms by (simp add: less_mult_imp_div_less flip: power_add)
  then have "unat (take_bit (52 - s) (drop_bit s (of_nat n :: u64))) = n div 2 ^ s"
    unfolding unsigned_take_bit_eq unat_drop_bit n by (simp add: take_bit_nat_eq_self)
  moreover have "n div 2 ^ s * 2 ^ s < 2 ^ 64"
    by (rule le_less_trans [OF div_times_less_eq_dividend]) (use assms in simp)
  ultimately show ?thesis
    unfolding pte_base_def unsigned_push_bit_eq by (simp add: push_bit_eq_mult take_bit_nat_eq_self)
qed

section \<open>The identity\<close>

text \<open>Every entry as a number below 4 GB.\<close>

lemma l1_num: "l1_identmap i = of_nat (i * 4096 + 0x63)"
  by (simp add: l1_identmap_def page_consts push_bit_eq_mult)

lemma l2_num: "l2_identmap l1 i = of_nat (if i = 0 then l1 + 0x63 else i * 2097152 + 0xE3)"
  by (simp add: l2_identmap_def page_consts push_bit_eq_mult)

lemma l3_num: "i < 4 \<Longrightarrow> l3_identmap l2 i = of_nat (l2 + i * 4096 + 0x63)"
  by (simp add: l3_identmap_def page_consts)

lemma l4_num: "l4_identmap l3 0 = of_nat (l3 + 0x63)"
  by (simp add: l4_identmap_def page_consts)

text \<open>The tables after the relocations, with the load address \<open>b\<close> in them.\<close>

definition tables_ready :: "nat \<Rightarrow> addr \<Rightarrow> mem \<Rightarrow> bool" where
  "tables_ready l1 b m \<longleftrightarrow>
     table m (b + l1) 512 (\<lambda>i. of_nat (i * 4096 + 0x63))
   \<and> table m (b + l2_at l1) 2048 (\<lambda>i. of_nat (if i = 0 then b + l1 + 0x63 else i * 2097152 + 0xE3))
   \<and> table m (b + l3_at l1) 512 (\<lambda>i. of_nat (if i < 4 then b + l2_at l1 + i * 4096 + 0x63 else 0))
   \<and> table m (b + l4_at l1) 512 (\<lambda>i. of_nat (if i = 0 then b + l3_at l1 + 0x63 else 0))"

text \<open>An entry that points to a page-aligned table, and the one found there.\<close>

lemma entry_num:
  assumes "4096 dvd a" "f < 4096" "a + f < 2 ^ 52" "load64 m (a + 8 * (va div 2 ^ s mod 512)) = of_nat k" "k < 2 ^ 52"
  shows "walk_entry m (of_nat (a + f)) s va = (if odd k then Some (of_nat k) else None)"
proof -
  from assms(1) obtain c where a: "a = 4096 * c" by (elim dvdE)
  have "(a + f) div 2 ^ 12 * 2 ^ 12 = a" using assms(2) by (simp add: a)
  with pte_base_num [OF assms(3), of 12] have "pte_base 12 (of_nat (a + f)) = a" by simp
  moreover have "pte_present (of_nat k) = odd k" using bit_of_num [of k 0] assms(5) by simp
  ultimately show ?thesis using assms(4) by (simp add: walk_entry_def Let_def)
qed

lemma pointer_bits:
  assumes "4096 dvd a" "a < 2 ^ 32"
  shows "odd (a + 0x63)" "pte_writable (of_nat (a + 0x63))" "\<not> pte_large (of_nat (a + 0x63))"
proof -
  from assms(1) obtain c where a: "a = 4096 * c" by (elim dvdE)
  have d: "(a + 0x63) div 2 ^ 1 = 2048 * c + 0x31" "(a + 0x63) div 2 ^ 7 = 32 * c" by (simp_all add: a)
  have n: "a + 0x63 < 2 ^ 64" using assms(2) by simp
  show "odd (a + 0x63)" by (simp add: a)
  show "pte_writable (of_nat (a + 0x63))" unfolding bit_of_num [OF n] d by simp
  show "\<not> pte_large (of_nat (a + 0x63))" unfolding bit_of_num [OF n] d by simp
qed

lemma large_bits:
  assumes "j < 2048"
  shows "odd (j * 2097152 + 0xE3)" "pte_writable (of_nat (j * 2097152 + 0xE3))" "pte_large (of_nat (j * 2097152 + 0xE3))"
    "pte_base 21 (of_nat (j * 2097152 + 0xE3)) = j * 2097152"
proof -
  have d: "(j * 2097152 + 0xE3) div 2 ^ 1 = 1048576 * j + 0x71" "(j * 2097152 + 0xE3) div 2 ^ 7 = 16384 * j + 1" by simp_all
  have n: "j * 2097152 + 0xE3 < 2 ^ 52" "j * 2097152 + 0xE3 < 2 ^ 64" using assms by simp_all
  show "odd (j * 2097152 + 0xE3)" by simp
  show "pte_writable (of_nat (j * 2097152 + 0xE3))" unfolding bit_of_num [OF n(2)] d by simp
  show "pte_large (of_nat (j * 2097152 + 0xE3))" unfolding bit_of_num [OF n(2)] d by simp
  show "pte_base 21 (of_nat (j * 2097152 + 0xE3)) = j * 2097152" by (rule trans [OF pte_base_num [OF n(1)]]) simp_all
qed

lemma ready_loads:
  assumes "tables_ready l1 b m"
  shows "i < 512 \<Longrightarrow> load64 m (b + l1 + 8 * i) = of_nat (i * 4096 + 0x63)"
    "i < 2048 \<Longrightarrow> load64 m (b + l2_at l1 + 8 * i) = of_nat (if i = 0 then b + l1 + 0x63 else i * 2097152 + 0xE3)"
    "i < 512 \<Longrightarrow> load64 m (b + l3_at l1 + 8 * i) = of_nat (if i < 4 then b + l2_at l1 + i * 4096 + 0x63 else 0)"
    "i < 512 \<Longrightarrow> load64 m (b + l4_at l1 + 8 * i) = of_nat (if i = 0 then b + l3_at l1 + 0x63 else 0)"
  using assms by (simp_all add: tables_ready_def table_def)

lemma walk_identity:
  assumes t: "tables_ready l1 b m" and p: "4096 dvd b" "4096 dvd l1" and fit: "b + l1 + 0x7000 \<le> 2 ^ 32" and va: "va < 2 ^ 48"
  shows "walk m (of_nat (b + l4_at l1)) va = (if va < 2 ^ 32 then Some (va, True) else None)"
proof -
  let ?l3 = "b + l3_at l1" and ?l2 = "b + l2_at l1"
  have d: "4096 dvd b + l4_at l1" "4096 dvd ?l3" "4096 dvd ?l2" "4096 dvd b + l1" using p by (simp_all add: table_offsets)
  have b: "b + l4_at l1 < 2 ^ 32" "?l3 < 2 ^ 32" "?l2 + 4 * 4096 < 2 ^ 32" "b + l1 < 2 ^ 32" using fit by (simp_all add: table_offsets)
  have "va div 2 ^ 39 mod 512 = va div 2 ^ 39" using va by (simp add: less_mult_imp_div_less)
  then have z: "va div 2 ^ 39 mod 512 = 0 \<longleftrightarrow> va < 2 ^ 39" by (simp add: div_eq_0_iff)
  have l4: "load64 m (b + l4_at l1 + 8 * (va div 2 ^ 39 mod 512)) = of_nat (if va < 2 ^ 39 then ?l3 + 0x63 else 0)"
    by (rule ready_loads(4) [OF t, of "va div 2 ^ 39 mod 512", unfolded z]) simp
  from entry_num [OF d(1) _ _ l4, of 0] b pointer_bits(1) [OF d(2) b(2)]
  have e4: "walk_entry m (of_nat (b + l4_at l1)) 39 va = (if va < 2 ^ 39 then Some (of_nat (?l3 + 0x63)) else None)"
    by (simp del: of_nat_add)
  have e3: "walk_entry m (of_nat (?l3 + 0x63)) 30 va
      = (if va < 2 ^ 32 then Some (of_nat (?l2 + va div 2 ^ 30 * 4096 + 0x63)) else None)" if "va < 2 ^ 39"
  proof -
    let ?i = "va div 2 ^ 30"
    have i: "?i mod 512 = ?i" "?i < 4 \<longleftrightarrow> va < 2 ^ 32" using that by (simp_all add: less_mult_imp_div_less div_less_iff_less_mult)
    have l3: "load64 m (?l3 + 8 * (?i mod 512)) = of_nat (if va < 2 ^ 32 then ?l2 + ?i * 4096 + 0x63 else 0)"
      unfolding i(1) by (rule ready_loads(3) [OF t, of ?i, unfolded i(2)]) (use that in \<open>simp add: less_mult_imp_div_less\<close>)
    from entry_num [where f = "0x63", OF d(2) _ _ l3] b i pointer_bits(1) [of "?l2 + ?i * 4096"] d(3)
    show ?thesis by (cases "va < 2 ^ 32") (simp_all del: of_nat_add)
  qed
  show ?thesis
  proof (cases "va < 2 ^ 32")
    case False
    then show ?thesis using e4 e3 by (simp add: walk_def del: of_nat_add)
  next
    case True
    let ?j = "va div 2 ^ 21" and ?t = "?l2 + va div 2 ^ 30 * 4096"
    have j: "?j < 2048" using True by (simp add: less_mult_imp_div_less)
    have q: "va div 2 ^ 30 = ?j div 512" using div_mult2_eq [of va "2 ^ 21" 512] by simp
    have "?t + 8 * (?j mod 512) = ?l2 + 8 * ?j" unfolding q using div_mult_mod_eq [of ?j 512] by linarith
    then have i2: "load64 m (?t + 8 * (?j mod 512)) = of_nat (if ?j = 0 then b + l1 + 0x63 else ?j * 2097152 + 0xE3)"
      using ready_loads(2) [OF t j] by (simp only:)
    have t: "4096 dvd ?t" "?t < 2 ^ 32" using d(3) b(3) j by simp_all
    show ?thesis
    proof (cases "?j = 0")
      case False
      with entry_num [where f = "0x63", OF t(1) _ _ i2] t(2) j large_bits(1) [OF j]
      have "walk_entry m (of_nat (?t + 0x63)) 21 va = Some (of_nat (?j * 2097152 + 0xE3))" by (simp del: of_nat_add)
      moreover have "?j * 2097152 + va mod 2 ^ 21 = va" by simp
      ultimately show ?thesis
        using True e4 e3 pointer_bits [OF t] pointer_bits [OF d(2) b(2)] large_bits [OF j]
        by (simp add: walk_def del: of_nat_add of_nat_mult)
    next
      case True
      then have v: "va < 2097152" by (simp add: div_eq_0_iff)
      then have k: "va div 2 ^ 12 mod 512 = va div 4096" by (simp add: less_mult_imp_div_less)
      let ?k = "va div 4096"
      have k': "?k < 512" using v by (simp add: less_mult_imp_div_less)
      from entry_num [where f = "0x63", OF t(1) _ _ i2] t(2) b(4) True pointer_bits(1) [OF d(4) b(4)]
      have e2: "walk_entry m (of_nat (?t + 0x63)) 21 va = Some (of_nat (b + l1 + 0x63))" by (simp del: of_nat_add)
      have i1: "load64 m (b + l1 + 8 * (va div 2 ^ 12 mod 512)) = of_nat (?k * 4096 + 0x63)"
        unfolding k by (rule ready_loads(1) [OF \<open>tables_ready l1 b m\<close> k'])
      have p: "4096 dvd ?k * 4096" "?k * 4096 < 2 ^ 32" using k' by simp_all
      from entry_num [where f = "0x63", OF d(4) _ _ i1] b(4) p(2) pointer_bits(1) [OF p]
      have e1: "walk_entry m (of_nat (b + l1 + 0x63)) 12 va = Some (of_nat (?k * 4096 + 0x63))" by (simp del: of_nat_add of_nat_mult)
      have "(?k * 4096 + 0x63) div 2 ^ 12 * 2 ^ 12 = ?k * 4096" by simp
      then have "pte_base 12 (of_nat (?k * 4096 + 0x63)) = ?k * 4096"
        using pte_base_num [of "?k * 4096 + 0x63" 12] p(2) by (simp del: of_nat_add of_nat_mult)
      moreover have "?k * 4096 + va mod 2 ^ 12 = va" by simp
      ultimately show ?thesis
        using v e4 e3 e2 e1 pointer_bits [OF t] pointer_bits [OF d(2) b(2)] pointer_bits [OF d(4) b(4)] pointer_bits [OF p]
        by (simp add: walk_def del: of_nat_add of_nat_mult)
    qed
  qed
qed

section \<open>The relocations\<close>

lemma load64_add32_out: "a + 8 \<le> d \<or> d + 4 \<le> a \<Longrightarrow> load64 (add32 m d v) a = load64 m a"
  by (rule load64_cong) (auto simp: add32_out)

lemma adds_miss:
  "\<forall>d\<in>set ds. a + 8 \<le> b + d \<or> b + d + 4 \<le> a \<Longrightarrow> load64 (fold (\<lambda>off m. add32 m (b + off) v) ds m) a = load64 m a"
  by (induction ds arbitrary: m) (simp_all add: load64_add32_out)

lemma adds_hit:
  assumes "distinct ds" "\<forall>d\<in>set ds. d = off \<or> off + 8 \<le> d \<or> d + 4 \<le> off" "off \<in> set ds"
    and "load64 m (b + off) = of_nat n" "n + k < 2 ^ 32"
  shows "load64 (fold (\<lambda>off m. add32 m (b + off) (of_nat k)) ds m) (b + off) = of_nat (n + k)"
  using assms
proof (induction ds arbitrary: m)
  case (Cons d ds)
  show ?case
  proof (cases "d = off")
    case True
    with Cons.prems have "load64 (fold (\<lambda>off m. add32 m (b + off) (of_nat k)) ds (add32 m (b + off) (of_nat k))) (b + off)
        = load64 (add32 m (b + off) (of_nat k)) (b + off)"
      by (intro adds_miss) auto
    with True load64_add32 [OF Cons.prems(4,5)] show ?thesis by simp
  next
    case False
    have "load64 (fold (\<lambda>off m. add32 m (b + off) (of_nat k)) ds (add32 m (b + d) (of_nat k))) (b + off) = of_nat (n + k)"
      by (rule Cons.IH) (use Cons.prems False in \<open>auto simp: load64_add32_out\<close>)
    then show ?thesis by simp
  qed
qed simp

lemma adds_out:
  "\<forall>d\<in>set ds. x < b + d \<or> b + d + 4 \<le> x \<Longrightarrow> fold (\<lambda>off m. add32 m (b + off) v) ds m x = m x"
  by (induction ds arbitrary: m) (simp_all add: add32_out)

lemma relocate_ready:
  assumes p: "page_data l1 (unat ebp) m" and a: "4096 dvd l1" and fit: "unat ebp + l1 + 0x7000 \<le> 2 ^ 32"
  shows "tables_ready l1 (unat ebp) (relocate_tables l1 ebp m)"
proof -
  let ?b = "unat ebp" and ?ds = "[l4_at l1, l3_at l1, l3_at l1 + 0x08, l3_at l1 + 0x10, l3_at l1 + 0x18, l2_at l1]"
  have e: "relocate_tables l1 ebp = fold (\<lambda>off m. add32 m (?b + off) (of_nat ?b)) ?ds" by (simp add: relocate_tables_def fun_eq_iff)
  have far: "distinct ?ds" by (simp add: table_offsets)
  have miss: "load64 (relocate_tables l1 ebp m) a = load64 m a"
    if "\<forall>d\<in>set ?ds. a + 8 \<le> ?b + d \<or> ?b + d + 4 \<le> a" for a unfolding e by (rule adds_miss [OF that])
  have hit: "load64 (relocate_tables l1 ebp m) (?b + off) = of_nat (n + ?b)"
    if "\<forall>d\<in>set ?ds. d = off \<or> off + 8 \<le> d \<or> d + 4 \<le> off" "off \<in> set ?ds" "load64 m (?b + off) = of_nat n" "n + ?b < 2 ^ 32"
    for off n unfolding e by (rule adds_hit [OF far that])
  from p have t: "i < 512 \<Longrightarrow> load64 m (?b + l1 + 8 * i) = l1_identmap i"
    "i < 2048 \<Longrightarrow> load64 m (?b + l2_at l1 + 8 * i) = l2_identmap l1 i"
    "i < 512 \<Longrightarrow> load64 m (?b + l3_at l1 + 8 * i) = l3_identmap (l2_at l1) i"
    "i < 512 \<Longrightarrow> load64 m (?b + l4_at l1 + 8 * i) = l4_identmap (l3_at l1) i" for i
    by (simp_all add: page_data_def table_def)
  show ?thesis
    unfolding tables_ready_def table_def
  proof (intro conjI allI impI)
    fix i :: nat assume i: "i < 512"
    have "load64 (relocate_tables l1 ebp m) (?b + l1 + 8 * i) = load64 m (?b + l1 + 8 * i)"
      by (rule miss) (use i in \<open>simp add: table_offsets\<close>)
    with i t show "load64 (relocate_tables l1 ebp m) (?b + l1 + 8 * i) = of_nat (i * 4096 + 0x63)"
      by (simp only: l1_num)
  next
    fix i :: nat assume i: "i < 2048"
    show "load64 (relocate_tables l1 ebp m) (?b + l2_at l1 + 8 * i) = of_nat (if i = 0 then ?b + l1 + 0x63 else i * 2097152 + 0xE3)"
    proof (cases "i = 0")
      case True
      have "load64 m (?b + l2_at l1) = of_nat (l1 + 0x63)" using t(2) [of 0] l2_num [of l1 0] by simp
      from hit [OF _ _ this] fit True show ?thesis by (simp add: table_offsets add_ac)
    next
      case False
      have "load64 (relocate_tables l1 ebp m) (?b + l2_at l1 + 8 * i) = load64 m (?b + l2_at l1 + 8 * i)"
        by (rule miss) (use i False in \<open>simp add: table_offsets\<close>)
      with i t False show ?thesis by (simp only: l2_num if_False)
    qed
  next
    fix i :: nat assume i: "i < 512"
    show "load64 (relocate_tables l1 ebp m) (?b + l3_at l1 + 8 * i) = of_nat (if i < 4 then ?b + l2_at l1 + i * 4096 + 0x63 else 0)"
    proof (cases "i < 4")
      case True
      then have k: "i \<in> {0, 1, 2, 3}" by auto
      have "load64 m (?b + (l3_at l1 + 8 * i)) = of_nat (l2_at l1 + i * 4096 + 0x63)"
        using t i l3_num [OF True, of "l2_at l1"] by (simp add: add.assoc)
      from hit [OF _ _ this] fit k show ?thesis by (auto simp: table_offsets add_ac)
    next
      case False
      have "load64 (relocate_tables l1 ebp m) (?b + l3_at l1 + 8 * i) = load64 m (?b + l3_at l1 + 8 * i)"
        by (rule miss) (use i False in \<open>simp add: table_offsets\<close>)
      with i t False show ?thesis by (simp add: l3_identmap_def)
    qed
  next
    fix i :: nat assume i: "i < 512"
    show "load64 (relocate_tables l1 ebp m) (?b + l4_at l1 + 8 * i) = of_nat (if i = 0 then ?b + l3_at l1 + 0x63 else 0)"
    proof (cases "i = 0")
      case True
      have "load64 m (?b + l4_at l1) = of_nat (l3_at l1 + 0x63)" using t(4) [of 0] l4_num [of "l3_at l1"] by simp
      from hit [OF _ _ this] fit True show ?thesis by (simp add: table_offsets add_ac)
    next
      case False
      have "load64 (relocate_tables l1 ebp m) (?b + l4_at l1 + 8 * i) = load64 m (?b + l4_at l1 + 8 * i)"
        by (rule miss) (use i False in \<open>simp add: table_offsets\<close>)
      with i t False show ?thesis by (simp add: l4_identmap_def)
    qed
  qed
qed

end
