(* ===== verification/Entry.thy ===== *)
theory Entry
  imports Page_Tables
begin

text \<open>
  The entry and the exit of the loader, \<^verbatim>\<open>head.S\<close>: from the state in which SKINIT leaves the
  processor to the call of \<^verbatim>\<open>skl_main\<close> in long mode, and from its return to the jump into the kernel
  in protected mode. An instruction of the file is a constructor, with the rules of the processor
  manual for the faults that a mode switch can raise; a sequence ends at its first fault. The data
  of the file (the descriptor table, the operand of the far jump, the page tables) lie in memory as
  the linker left them and are read from there, after the code has relocated them. Labels are
  offsets in the image, a parameter.
\<close>

section \<open>Constants\<close>

definition CR0_PE :: u32 where "CR0_PE = 0x00000001"
definition CR0_MP :: u32 where "CR0_MP = 0x00000002"
definition CR0_TS :: u32 where "CR0_TS = 0x00000008"
definition CR0_NE :: u32 where "CR0_NE = 0x00000020"
definition CR0_WP :: u32 where "CR0_WP = 0x00010000"
definition CR0_NW :: u32 where "CR0_NW = 0x20000000"
definition CR0_CD :: u32 where "CR0_CD = 0x40000000"
definition CR0_PG :: u32 where "CR0_PG = 0x80000000"
definition CR4_PAE :: u32 where "CR4_PAE = 0x00000020"
definition IA32_EFER :: u32 where "IA32_EFER = 0xc0000080"
definition IA32_VM_CR :: u32 where "IA32_VM_CR = 0xc0010114"
definition EFER_LME :: u64 where "EFER_LME = push_bit 8 1"
definition EFER_LMA :: u64 where "EFER_LMA = push_bit 10 1"
definition VM_CR_DIS_A20M :: u64 where "VM_CR_DIS_A20M = push_bit 2 1"
definition CS_SEL32 :: u16 where "CS_SEL32 = 0x0008"
definition DS_SEL :: u16 where "DS_SEL = 0x0010"
definition CS_SEL64 :: u16 where "CS_SEL64 = 0x0018"
definition MULTIBOOT2_BOOTLOADER_MAGIC :: u32 where "MULTIBOOT2_BOOTLOADER_MAGIC = 0x36d76289"

text \<open>The registers with all the flags that \<^verbatim>\<open>defs.h\<close> names.\<close>

definition CR0_flags :: "(string \<times> u32) list" where
  "CR0_flags =
     [(''PE'', 0x00000001), (''MP'', 0x00000002), (''EM'', 0x00000004), (''TS'', 0x00000008), (''ET'', 0x00000010),
      (''PG'', 0x80000000), (''NE'', 0x00000020), (''WP'', 0x00010000), (''AM'', 0x00040000), (''NW'', 0x20000000), (''CD'', 0x40000000)]"

definition CR4_flags :: "(string \<times> u32) list" where
  "CR4_flags =
     [(''VME'', 0x00000001), (''PVI'', 0x00000002), (''TSD'', 0x00000004), (''DE'', 0x00000008), (''PSE'', 0x00000010),
      (''PAE'', 0x00000020), (''MCE'', 0x00000040), (''PGE'', 0x00000080), (''PCE'', 0x00000100), (''FXSR'', 0x00000200),
      (''XMM'', 0x00000400), (''VMXE'', 0x00002000), (''SMXE'', 0x00004000), (''PCIDE'', 0x00020000)]"

definition EFER_flags :: "(string \<times> u64) list" where
  "EFER_flags = [(''SCE'', push_bit 0 1), (''LME'', push_bit 8 1), (''LMA'', push_bit 10 1), (''NXE'', push_bit 11 1),
     (''SVME'', push_bit 12 1)]"

definition VM_CR_flags :: "(string \<times> u64) list" where
  "VM_CR_flags = [(''DPD'', push_bit 0 1), (''R_INIT'', push_bit 1 1), (''DIS_A20M'', push_bit 2 1), (''SVME_DISABLE'', push_bit 4 1)]"

lemma flags_disjoint:
  "sorted_wrt (\<lambda>a b. a AND b = 0) (map snd CR0_flags)" "sorted_wrt (\<lambda>a b. a AND b = 0) (map snd CR4_flags)"
  "sorted_wrt (\<lambda>a b. a AND b = 0) (map snd EFER_flags)" "sorted_wrt (\<lambda>a b. a AND b = 0) (map snd VM_CR_flags)"
  by (simp_all add: CR0_flags_def CR4_flags_def EFER_flags_def VM_CR_flags_def)

lemmas cr_consts = CR0_PE_def CR0_MP_def CR0_TS_def CR0_NE_def CR0_WP_def CR0_NW_def CR0_CD_def CR0_PG_def CR4_PAE_def
lemmas msr_consts = IA32_EFER_def IA32_VM_CR_def EFER_LME_def EFER_LMA_def VM_CR_DIS_A20M_def
lemmas selectors = CS_SEL32_def DS_SEL_def CS_SEL64_def

text \<open>All the bits of a mask are set.\<close>

definition has :: "'a::len word \<Rightarrow> 'a word \<Rightarrow> bool" where
  "has x f \<longleftrightarrow> x AND f = f"

section \<open>The processor\<close>

datatype reg = EAX | EBX | ECX | EDX | ESI | EBP | ESP

text \<open>
  The flags are those that an addition or comparison leaves alone. \<open>cs_desc\<close> is the cached
  descriptor of the code segment; the stack segment is flat, as SKINIT leaves it. \<open>gif\<close> is the global
  interrupt flag, which SKINIT clears: while it is clear, every interrupt is held.
\<close>

record cpu =
  regs :: "reg \<Rightarrow> u32"
  cr0 :: u32
  cr3 :: u32
  cr4 :: u32
  efer :: u64
  vm_cr :: u64
  gdtr :: "u16 \<times> u32"
  idtr :: "u16 \<times> u32"
  cs :: u16
  cs_desc :: u64
  ds :: u16
  es :: u16
  eflags :: u32
  gif :: bool
  eip :: addr

abbreviation paging :: "cpu \<Rightarrow> bool" where "paging c \<equiv> has (cr0 c) CR0_PG"
abbreviation lma :: "cpu \<Rightarrow> bool" where "lma c \<equiv> has (efer c) EFER_LMA"
abbreviation lme :: "cpu \<Rightarrow> bool" where "lme c \<equiv> has (efer c) EFER_LME"

text \<open>Descriptors: present, not a system segment, code, long and default-size bits; base and limit.\<close>

abbreviation d_present :: "u64 \<Rightarrow> bool" where "d_present d \<equiv> bit d 47"
abbreviation d_user :: "u64 \<Rightarrow> bool" where "d_user d \<equiv> bit d 44"
abbreviation d_code :: "u64 \<Rightarrow> bool" where "d_code d \<equiv> bit d 43"
abbreviation d_long :: "u64 \<Rightarrow> bool" where "d_long d \<equiv> bit d 53"
abbreviation d_big :: "u64 \<Rightarrow> bool" where "d_big d \<equiv> bit d 54"

definition d_flat :: "u64 \<Rightarrow> bool" where
  "d_flat d \<longleftrightarrow> take_bit 16 d = 0xffff \<and> take_bit 24 (drop_bit 16 d) = 0 \<and> take_bit 4 (drop_bit 48 d) = 0xf
     \<and> bit d 55 \<and> drop_bit 56 d = 0"

abbreviation code64 :: "cpu \<Rightarrow> bool" where "code64 c \<equiv> lma c \<and> d_long (cs_desc c)"

text \<open>Where an access goes. Without paging that is the address itself.\<close>

definition phys :: "cpu \<Rightarrow> mem \<Rightarrow> bool \<Rightarrow> addr \<Rightarrow> addr option" where
  "phys c m write a =
     (if \<not> paging c then Some a
      else case walk m (ucast (cr3 c)) a of
        None \<Rightarrow> None
      | Some (p, writable) \<Rightarrow> if write \<and> \<not> writable \<and> has (cr0 c) CR0_WP then None else Some p)"

text \<open>An access of \<open>n\<close> bytes that are mapped one behind the other.\<close>

definition reach :: "cpu \<Rightarrow> mem \<Rightarrow> bool \<Rightarrow> addr \<Rightarrow> nat \<Rightarrow> addr option" where
  "reach c m write a n = do {
     p \<leftarrow> phys c m write a;
     if list_all (\<lambda>i. phys c m write (a + i) = Some (p + i)) [0..<n] then Some p else None
   }"

definition set_reg :: "reg \<Rightarrow> u32 \<Rightarrow> cpu \<Rightarrow> cpu" where
  "set_reg r v c = c\<lparr>regs := (regs c)(r := v)\<rparr>"

definition ea :: "cpu \<Rightarrow> nat \<Rightarrow> reg \<Rightarrow> addr" where
  "ea c off r = unat (regs c r + of_nat off)"

type_synonym state = "cpu \<times> mem"

definition push :: "nat \<Rightarrow> u64 \<Rightarrow> state \<Rightarrow> state option" where
  "push n v = (\<lambda>(c, m). do {
     let esp = regs c ESP - of_nat n;
     p \<leftarrow> reach c m True (unat esp) n;
     Some (set_reg ESP esp c, mem_write m p (le_bytes n v))
   })"

definition pop :: "nat \<Rightarrow> state \<Rightarrow> (u64 \<times> state) option" where
  "pop n = (\<lambda>(c, m). do {
     p \<leftarrow> reach c m False (unat (regs c ESP)) n;
     Some (of_le (mem_read m p n), set_reg ESP (regs c ESP + of_nat n) c, m)
   })"

text \<open>The size of a push in the mode of the processor.\<close>

definition width :: "cpu \<Rightarrow> nat" where
  "width c = (if code64 c then 8 else 4)"

text \<open>A descriptor of the global table, within its limit; the null selector faults.\<close>

definition descriptor :: "state \<Rightarrow> u16 \<Rightarrow> u64 option" where
  "descriptor = (\<lambda>(c, m) sel. do {
     let off = unat sel div 8 * 8;
     p \<leftarrow> (if off = 0 \<or> unat (fst (gdtr c)) < off + 7 then None else reach c m False (unat (snd (gdtr c)) + off) 8);
     Some (load64 m p)
   })"

definition load_cs :: "u16 \<Rightarrow> addr \<Rightarrow> state \<Rightarrow> state option" where
  "load_cs sel target s = do {
     d \<leftarrow> descriptor s sel;
     if \<not> d_present d \<or> \<not> d_user d \<or> \<not> d_code d \<or> lma (fst s) \<and> d_long d \<and> d_big d then None
     else Some ((fst s)\<lparr>cs := sel, cs_desc := d, eip := target\<rparr>, snd s)
   }"

definition data_segment :: "state \<Rightarrow> u16 \<Rightarrow> bool" where
  "data_segment s sel \<longleftrightarrow> (case descriptor s sel of None \<Rightarrow> False | Some d \<Rightarrow> d_present d \<and> d_user d \<and> \<not> d_code d)"

text \<open>
  The rules for control registers: no paging without protection, no not-write-through with the
  cache on, no long mode without PAE or from a long code segment, no leaving from 64-bit code.
  Turning paging on with LME set makes long mode active, turning it off ends it.
\<close>

definition write_cr0 :: "u32 \<Rightarrow> cpu \<Rightarrow> cpu option" where
  "write_cr0 v c =
     (if has v CR0_PG \<and> \<not> has v CR0_PE \<or> has v CR0_NW \<and> \<not> has v CR0_CD then None
      else if has v CR0_PG \<and> \<not> paging c then
        (if lme c \<and> (\<not> has (cr4 c) CR4_PAE \<or> d_long (cs_desc c)) then None
         else Some (c\<lparr>cr0 := v, efer := if lme c then efer c OR EFER_LMA else efer c\<rparr>))
      else if \<not> has v CR0_PG \<and> paging c then
        (if code64 c then None else Some (c\<lparr>cr0 := v, efer := efer c AND NOT EFER_LMA\<rparr>))
      else Some (c\<lparr>cr0 := v\<rparr>))"

definition write_cr4 :: "u32 \<Rightarrow> cpu \<Rightarrow> cpu option" where
  "write_cr4 v c = (if lma c \<and> \<not> has v CR4_PAE then None else Some (c\<lparr>cr4 := v\<rparr>))"

definition read_msr :: "u32 \<Rightarrow> cpu \<Rightarrow> u64 option" where
  "read_msr i c = (if i = IA32_EFER then Some (efer c) else if i = IA32_VM_CR then Some (vm_cr c) else None)"

text \<open>LME is fixed while paging is on, LMA always.\<close>

definition write_msr :: "u32 \<Rightarrow> u64 \<Rightarrow> cpu \<Rightarrow> cpu option" where
  "write_msr i v c =
     (if i = IA32_EFER then
        (if paging c \<and> has v EFER_LME \<noteq> lme c \<or> has v EFER_LMA \<noteq> lma c then None else Some (c\<lparr>efer := v\<rparr>))
      else if i = IA32_VM_CR then Some (c\<lparr>vm_cr := v\<rparr>)
      else None)"

text \<open>\<^verbatim>\<open>stgi\<close> of \<^verbatim>\<open>boot.h\<close>, which has no caller.\<close>

definition stgi :: "cpu \<Rightarrow> cpu" where
  "stgi c = c\<lparr>gif := True\<rparr>"

section \<open>Instructions\<close>

datatype instr =
    Mov reg reg
  | Mov_Imm reg u32
  | Lea reg nat reg
  | Lea_Rip reg nat
  | Xchg reg reg
  | Add_Imm reg u32
  | And_Imm reg u32
  | Or_Imm reg u32
  | And_Ah u8
  | Or_Ah u8
  | Add_To_Mem nat reg reg
  | Push_Imm u32
  | Push reg
  | Popf
  | Lidt nat reg
  | Lgdt nat reg
  | Mov_Ds reg
  | Mov_Es reg
  | Rd_Msr
  | Wr_Msr
  | Read_Cr0 reg
  | Write_Cr0 reg
  | Write_Cr3 reg
  | Read_Cr4 reg
  | Write_Cr4 reg
  | Ljmp nat
  | Lretq
  | Call nat nat

text \<open>
  The operand of \<open>Ljmp\<close> is read where it lies in memory, behind the opcode; \<open>Call\<close> names its target and
  the label behind it. \<open>base\<close> is the address at which the image was loaded.
\<close>

fun step :: "u32 \<Rightarrow> instr \<Rightarrow> state \<Rightarrow> state option" where
  "step base (Mov d r) (c, m) = Some (set_reg d (regs c r) c, m)"
| "step base (Mov_Imm d v) (c, m) = Some (set_reg d v c, m)"
| "step base (Lea d off r) (c, m) = Some (set_reg d (regs c r + of_nat off) c, m)"
| "step base (Lea_Rip d label) (c, m) = Some (set_reg d (base + of_nat label) c, m)"
| "step base (Xchg d r) (c, m) = Some (set_reg d (regs c r) (set_reg r (regs c d) c), m)"
| "step base (Add_Imm d v) (c, m) = Some (set_reg d (regs c d + v) c, m)"
| "step base (And_Imm d v) (c, m) = Some (set_reg d (regs c d AND v) c, m)"
| "step base (Or_Imm d v) (c, m) = Some (set_reg d (regs c d OR v) c, m)"
| "step base (And_Ah v) (c, m) = Some (set_reg EAX (regs c EAX AND NOT (push_bit 8 (ucast (NOT v)))) c, m)"
| "step base (Or_Ah v) (c, m) = Some (set_reg EAX (regs c EAX OR push_bit 8 (ucast v)) c, m)"
| "step base (Add_To_Mem off r s) (c, m) = do {
     p \<leftarrow> reach c m True (ea c off r) 4;
     Some (c, add32 m p (regs c s))
   }"
| "step base (Push_Imm v) (c, m) = push (width c) (ucast v) (c, m)"
| "step base (Push r) (c, m) = push (width c) (ucast (regs c r)) (c, m)"
| "step base Popf (c, m) = do {
     (v, c, m) \<leftarrow> pop (width c) (c, m);
     Some (c\<lparr>eflags := ucast v OR 2\<rparr>, m)
   }"
| "step base (Lidt off r) (c, m) = do {
     p \<leftarrow> reach c m False (ea c off r) 6;
     Some (c\<lparr>idtr := (load16 m p, load32 m (p + 2))\<rparr>, m)
   }"
| "step base (Lgdt off r) (c, m) = do {
     p \<leftarrow> reach c m False (ea c off r) 6;
     Some (c\<lparr>gdtr := (load16 m p, load32 m (p + 2))\<rparr>, m)
   }"
| "step base (Mov_Ds r) (c, m) = (if data_segment (c, m) (ucast (regs c r)) then Some (c\<lparr>ds := ucast (regs c r)\<rparr>, m) else None)"
| "step base (Mov_Es r) (c, m) = (if data_segment (c, m) (ucast (regs c r)) then Some (c\<lparr>es := ucast (regs c r)\<rparr>, m) else None)"
| "step base Rd_Msr (c, m) = do {
     v \<leftarrow> read_msr (regs c ECX) c;
     Some (set_reg EDX (ucast (drop_bit 32 v)) (set_reg EAX (ucast v) c), m)
   }"
| "step base Wr_Msr (c, m) = do {
     c \<leftarrow> write_msr (regs c ECX) (push_bit 32 (ucast (regs c EDX)) OR ucast (regs c EAX)) c;
     Some (c, m)
   }"
| "step base (Read_Cr0 d) (c, m) = Some (set_reg d (cr0 c) c, m)"
| "step base (Write_Cr0 r) (c, m) = do { c \<leftarrow> write_cr0 (regs c r) c; Some (c, m) }"
| "step base (Write_Cr3 r) (c, m) = Some (c\<lparr>cr3 := regs c r\<rparr>, m)"
| "step base (Read_Cr4 d) (c, m) = Some (set_reg d (cr4 c) c, m)"
| "step base (Write_Cr4 r) (c, m) = do { c \<leftarrow> write_cr4 (regs c r) c; Some (c, m) }"
| "step base (Ljmp label) (c, m) = do {
     p \<leftarrow> reach c m False (unat base + label + 1) 6;
     load_cs (load16 m (p + 4)) (unat (load32 m p)) (c, m)
   }"
| "step base Lretq (c, m) = do {
     (ip, c, m) \<leftarrow> pop 8 (c, m);
     (sel, c, m) \<leftarrow> pop 8 (c, m);
     load_cs (ucast sel) (unat ip) (c, m)
   }"
| "step base (Call target ret) (c, m) = do {
     (c, m) \<leftarrow> push (width c) (ucast base + of_nat ret) (c, m);
     Some (c\<lparr>eip := unat base + target\<rparr>, m)
   }"

fun run :: "u32 \<Rightarrow> instr list \<Rightarrow> state \<Rightarrow> state option" where
  "run base [] s = Some s"
| "run base (i # is) s = do { s \<leftarrow> step base i s; run base is s }"

lemma run_append: "run base (is @ js) s = do { s \<leftarrow> run base is s; run base js s }"
  by (induction "is" arbitrary: s) (simp_all split: Option.bind_split)

section \<open>The image\<close>

text \<open>
  Offsets that the linker chooses: the descriptor table, the far jump, the local labels, \<^verbatim>\<open>skl_main\<close> and
  the page tables. The stack lies between the header and the code, so its end is known.
\<close>

record head_layout =
  h_gdt :: nat
  h_ljump64 :: nat
  h_long :: nat
  h_ret :: nat
  h_compat :: nat
  h_skl_main :: nat
  h_pages :: nat

definition stack_base :: nat where
  "stack_base = ((6 + 4 + 0x280) + 0xf) div 0x10 * 0x10"

abbreviation h_gdtr :: "head_layout \<Rightarrow> nat" where "h_gdtr h \<equiv> h_gdt h + 2"

text \<open>The three descriptors, field by field as in the file, behind the null segment with \<^verbatim>\<open>gdtr\<close> in it.\<close>

definition gdt_bytes :: "nat \<Rightarrow> u8 list" where
  "gdt_bytes gdt =
     le_bytes 2 (0 :: u16)
     @ le_bytes 2 (32 - 1 :: u16) @ le_bytes 4 (of_nat gdt :: u32)
     @ le_bytes 2 (0xffff :: u16) @ le_bytes 2 (0x0000 :: u16) @ [0x00, 0x9b, 0xcf, 0x00]
     @ le_bytes 2 (0xffff :: u16) @ le_bytes 2 (0x0000 :: u16) @ [0x00, 0x93, 0xcf, 0x00]
     @ le_bytes 2 (0x0000 :: u16) @ le_bytes 2 (0x0000 :: u16) @ [0x00, 0x9b, 0x20, 0x00]"

definition ljump_bytes :: "nat \<Rightarrow> u8 list" where
  "ljump_bytes target = [0xea] @ le_bytes 4 (of_nat target :: u32) @ le_bytes 2 CS_SEL64"

text \<open>The order of \<^verbatim>\<open>link.lds\<close> and its assertion: the code behind the stack, data behind it, the page data last.\<close>

definition layout_ok :: "head_layout \<Rightarrow> bool" where
  "layout_ok h \<longleftrightarrow> stack_base \<le> h_ljump64 h \<and> h_ljump64 h + 7 \<le> h_long h \<and> h_long h < h_ret h \<and> h_ret h < h_compat h
     \<and> h_compat h < h_gdt h \<and> h_skl_main h < h_gdt h
     \<and> h_gdt h + 32 \<le> h_pages h \<and> PAGE_SIZE dvd h_pages h \<and> h_pages h + 7 * PAGE_SIZE \<le> 0x10000"

definition image_at :: "head_layout \<Rightarrow> addr \<Rightarrow> mem \<Rightarrow> bool" where
  "image_at h base m \<longleftrightarrow>
     mem_read m (base + h_gdt h) 32 = gdt_bytes (h_gdt h)
   \<and> mem_read m (base + h_ljump64 h) 7 = ljump_bytes (h_long h)
   \<and> page_data (h_pages h) base m"

section \<open>The code\<close>

definition setup_stack :: "instr list" where
  "setup_stack = [Mov EBP EAX, Lea ESP stack_base EBP, Push_Imm 0, Push_Imm 0, Lidt 0 ESP, Add_Imm ESP 8,
     Mov_Imm ECX IA32_VM_CR, Rd_Msr, And_Imm EAX (NOT (ucast VM_CR_DIS_A20M)), Wr_Msr]"

definition relocate :: "head_layout \<Rightarrow> instr list" where
  "relocate h = [Add_To_Mem (2 + h_gdtr h) EBP EBP, Add_To_Mem (1 + h_ljump64 h) EBP EBP,
     Add_To_Mem (l4_at (h_pages h)) EBP EBP, Add_To_Mem (l3_at (h_pages h)) EBP EBP,
     Add_To_Mem (l3_at (h_pages h) + 0x08) EBP EBP, Add_To_Mem (l3_at (h_pages h) + 0x10) EBP EBP,
     Add_To_Mem (l3_at (h_pages h) + 0x18) EBP EBP, Add_To_Mem (l2_at (h_pages h)) EBP EBP]"

definition load_segments :: "head_layout \<Rightarrow> instr list" where
  "load_segments h = [Lgdt (h_gdtr h) EBP, Mov_Imm EAX (ucast DS_SEL), Mov_Ds EAX, Mov_Es EAX]"

definition long_mode :: "head_layout \<Rightarrow> instr list" where
  "long_mode h = [Read_Cr4 ECX, Or_Imm ECX CR4_PAE, Write_Cr4 ECX, Lea EAX (l4_at (h_pages h)) EBP, Write_Cr3 EAX,
     Mov_Imm ECX IA32_EFER, Rd_Msr, Or_Ah (ucast (drop_bit 8 EFER_LME)), Wr_Msr,
     Read_Cr0 EAX, Or_Imm EAX (CR0_PG OR CR0_NE OR CR0_TS OR CR0_MP), Write_Cr0 EAX]"

definition entry_code :: "head_layout \<Rightarrow> instr list" where
  "entry_code h = setup_stack @ relocate h @ load_segments h @ long_mode h
     @ [Ljmp (h_ljump64 h), Call (h_skl_main h) (h_ret h)]"

text \<open>Behind the call: \<^verbatim>\<open>%eax\<close> and \<^verbatim>\<open>%edx\<close> are the two fields that \<^verbatim>\<open>skl_main\<close> returns.\<close>

definition to_compat :: "head_layout \<Rightarrow> instr list" where
  "to_compat h = [Mov EBX EAX, Mov ESI EDX, Lea_Rip ECX (h_compat h), Push_Imm (ucast CS_SEL32), Push ECX, Lretq]"

definition to_protected :: "instr list" where
  "to_protected = [Read_Cr0 EAX, And_Imm EAX (NOT (CR0_PG OR CR0_NE OR CR0_TS OR CR0_MP)), Write_Cr0 EAX,
     Mov_Imm ECX IA32_EFER, Rd_Msr, And_Ah (NOT (ucast (drop_bit 8 EFER_LME))), Wr_Msr,
     Read_Cr4 EAX, And_Imm EAX (NOT CR4_PAE), Write_Cr4 EAX,
     Push_Imm 0, Popf]"

definition exit_code :: "head_layout \<Rightarrow> instr list" where
  "exit_code h = to_compat h @ to_protected"

text \<open>The comparison with \<^verbatim>\<open>boot_protocol\<close> and the two jumps.\<close>

definition jump_linux :: "instr list" where "jump_linux = [Mov EDX EBP]"

definition jump_multiboot2 :: "instr list" where
  "jump_multiboot2 = [Xchg ESI EBX, Mov_Imm EAX MULTIBOOT2_BOOTLOADER_MAGIC]"

definition enter_kernel :: "u32 \<Rightarrow> bool \<Rightarrow> state \<Rightarrow> state option" where
  "enter_kernel base mb2 s =
     (if mb2 then do { (c, m) \<leftarrow> run base jump_multiboot2 s; Some (c\<lparr>eip := unat (regs c ESI)\<rparr>, m) }
      else do { (c, m) \<leftarrow> run base jump_linux s; Some (c\<lparr>eip := unat (regs c EBX)\<rparr>, m) })"

end
