(* ===== verification/Entry_Props.thy ===== *)
theory Entry_Props
  imports Entry
begin

text \<open>
  What \<^verbatim>\<open>head.S\<close> does: from the state after SKINIT its first half calls \<^verbatim>\<open>skl_main\<close> in long mode, on a
  stack of its own, with interrupts vectored nowhere and the first 4 GB mapped to themselves; its
  second half leaves long mode without a fault and jumps to the address that \<^verbatim>\<open>skl_main\<close> returned.
\<close>

section \<open>Reasoning about single steps\<close>

lemma has_or: "has y f \<Longrightarrow> has (x OR y) f" "y AND f = 0 \<Longrightarrow> has (x OR y) f = has x f"
  by (simp_all add: has_def and.commute bit.conj_disj_distrib2 bit.conj_disj_distrib)

lemma has_and: "has m f \<Longrightarrow> f \<noteq> 0 \<Longrightarrow> \<not> has (x AND NOT m) f" "m AND f = 0 \<Longrightarrow> has (x AND NOT m) f = has x f"
proof -
  assume m: "has m f" "f \<noteq> 0"
  then have "(x AND NOT m) AND f = (x AND NOT m) AND (m AND f)" by (simp add: has_def)
  also have "\<dots> = 0" by (rule bit_word_eqI) (simp add: bit_simps)
  finally show "\<not> has (x AND NOT m) f" using m(2) by (simp add: has_def)
next
  assume "m AND f = 0"
  then have "NOT m AND f = f" by (metis and.commute bit.conj_cancel_right bit.conj_disj_distrib bit.conj_one_right bit.disj_cancel_right bit.disj_zero_right or.commute)
  then show "has (x AND NOT m) f = has x f" by (simp add: has_def and.assoc)
qed

lemma set_reg_fields [simp]:
  "cr0 (set_reg r v c) = cr0 c" "cr3 (set_reg r v c) = cr3 c" "cr4 (set_reg r v c) = cr4 c"
  "efer (set_reg r v c) = efer c" "vm_cr (set_reg r v c) = vm_cr c" "gdtr (set_reg r v c) = gdtr c"
  "idtr (set_reg r v c) = idtr c" "cs (set_reg r v c) = cs c" "cs_desc (set_reg r v c) = cs_desc c"
  "ds (set_reg r v c) = ds c" "es (set_reg r v c) = es c" "eflags (set_reg r v c) = eflags c" "eip (set_reg r v c) = eip c"
  "regs (set_reg r v c) = (regs c)(r := v)"
  by (simp_all add: set_reg_def)

lemma phys_off: "\<not> paging c \<Longrightarrow> phys c m w a = Some a"
  by (simp add: phys_def)

lemma reach_off: "\<not> paging c \<Longrightarrow> reach c m w a n = Some a"
  by (simp add: reach_def phys_off list_all_iff)

lemma msr_or: "push_bit 32 (ucast (ucast (drop_bit 32 v) :: u32)) OR ucast (ucast v OR x :: u32) = (v :: u64) OR ucast x"
  by (rule bit_word_eqI) (auto simp: bit_simps dest: bit_imp_le_length)

lemma msr_and_not: "push_bit 32 (ucast (ucast (drop_bit 32 v) :: u32)) OR ucast (ucast v AND NOT x :: u32) = (v :: u64) AND NOT (ucast x)"
  by (rule bit_word_eqI) (auto simp: bit_simps dest: bit_imp_le_length)

text \<open>Addresses in the image do not wrap.\<close>

lemma base_plus:
  assumes "unat (base :: u32) + 0x10000 \<le> 2 ^ 32" "off < 0x10000"
  shows "unat (base + of_nat off) = unat base + off"
proof -
  have "unat (of_nat off :: u32) = off" using assms by (simp add: unat_of_nat_small)
  moreover from this have "unat base + unat (of_nat off :: u32) < 2 ^ LENGTH(32)" using assms by simp
  ultimately show ?thesis by (simp add: unat_add_lem [THEN iffD1])
qed

lemma push_off:
  "\<not> paging c \<Longrightarrow> push n v (c, m) = Some (set_reg ESP (regs c ESP - of_nat n) c,
     mem_write m (unat (regs c ESP - of_nat n)) (le_bytes n v))"
  by (simp add: push_def reach_off Let_def)

lemma msr_access [simp]:
  "read_msr IA32_EFER c = Some (efer c)" "read_msr IA32_VM_CR c = Some (vm_cr c)"
  "write_msr IA32_VM_CR v c = Some (c\<lparr>vm_cr := v\<rparr>)"
  by (simp_all add: read_msr_def write_msr_def IA32_EFER_def IA32_VM_CR_def)

lemma zero_bytes: "le_bytes n 0 = replicate n 0"
  by (simp add: le_bytes_def map_replicate_const)

lemma of_le_zeros: "of_le (replicate n 0) = 0"
  by (rule bit_word_eqI) (simp add: bit_of_le)

lemma pop_off:
  "\<not> paging c \<Longrightarrow> pop n (c, m) = Some (of_le (mem_read m (unat (regs c ESP)) n), set_reg ESP (regs c ESP + of_nat n) c, m)"
  by (simp add: pop_def reach_off)

lemma loads_zero:
  assumes "\<And>i. i < 6 \<Longrightarrow> m (p + i) = 0"
  shows "load16 m p = 0" "load32 m (p + 2) = 0"
proof -
  have "mem_read m p 2 = replicate 2 0" by (rule nth_equalityI) (use assms in simp_all)
  then show "load16 m p = 0" by (simp add: load16_def of_le_zeros)
  have "m (p + 2 + i) = 0" if "i < 4" for i using assms [of "2 + i"] that by simp
  then have "mem_read m (p + 2) 4 = replicate 4 0" by (intro nth_equalityI) simp_all
  then show "load32 m (p + 2) = 0" by (simp add: load32_def of_le_zeros)
qed

text \<open>Nothing that the code does touches the global interrupt flag.\<close>

lemma gif_parts:
  "push n v (c, m) = Some (c', m') \<Longrightarrow> gif c' = gif c" "pop n (c, m) = Some (v, c', m') \<Longrightarrow> gif c' = gif c"
  "load_cs sel a (c, m) = Some (c', m') \<Longrightarrow> gif c' = gif c" "write_cr0 w c = Some c' \<Longrightarrow> gif c' = gif c"
  "write_cr4 w c = Some c' \<Longrightarrow> gif c' = gif c" "write_msr w v c = Some c' \<Longrightarrow> gif c' = gif c"
  by (auto simp: push_def pop_def load_cs_def write_cr0_def write_cr4_def write_msr_def set_reg_def Let_def
      split: Option.bind_splits if_splits)

lemma step_gif: "step base i (c, m) = Some (c', m') \<Longrightarrow> gif c' = gif c"
  by (cases i) (auto simp: set_reg_def split: Option.bind_splits if_splits dest!: gif_parts)

lemma run_gif: "run base is (c, m) = Some (c', m') \<Longrightarrow> gif c' = gif c"
proof (induction "is" arbitrary: c m)
  case (Cons i "is")
  then show ?case by (cases "step base i (c, m)") (auto dest: step_gif)
qed simp

lemma enter_gif: "enter_kernel base mb2 (c, m) = Some (c', m') \<Longrightarrow> gif c' = gif c"
  by (auto simp: enter_kernel_def split: Option.bind_splits if_splits dest!: run_gif)

section \<open>Up to the relocations\<close>

definition after_skinit :: "u32 \<Rightarrow> cpu \<Rightarrow> bool" where
  "after_skinit base c \<longleftrightarrow> regs c EAX = base \<and> 0x10000 dvd unat base
     \<and> has (cr0 c) CR0_PE \<and> \<not> paging c \<and> (has (cr0 c) CR0_NW \<longrightarrow> has (cr0 c) CR0_CD)
     \<and> \<not> lma c \<and> \<not> d_long (cs_desc c)"

lemma setup_stack_runs:
  assumes s: "after_skinit base c" and fit: "unat base + 0x10000 \<le> 2 ^ 32"
  shows "\<exists>c' m'. run base setup_stack (c, m) = Some (c', m')
    \<and> c' = c\<lparr>regs := regs c', idtr := (0, 0), vm_cr := vm_cr c AND NOT VM_CR_DIS_A20M\<rparr>
    \<and> regs c' EBP = base \<and> regs c' ESP = base + of_nat stack_base
    \<and> (\<forall>x. x < unat base + stack_base - 8 \<or> unat base + stack_base \<le> x \<longrightarrow> m' x = m x)"
proof -
  have b: "unat (652 + base) = unat base + 652" "unat (648 + base) = unat base + 648"
    "unat (base + 652) = unat base + 652" "unat (base + 648) = unat base + 648"
    using base_plus [OF fit, of 652] base_plus [OF fit, of 648] by (simp_all add: add.commute)
  have s': "\<not> paging c" "regs c EAX = base" "width c = 4" using s by (simp_all add: after_skinit_def width_def)
  have w: "width (set_reg r v c) = width c" for r v and c :: cpu by (simp add: width_def)
  define m' where "m' = mem_write (mem_write m (unat base + 652) (replicate 4 0)) (unat base + 648) (replicate 4 0)"
  have "m' (unat base + 648 + i) = 0" if "i < 6" for i using that by (auto simp: m'_def mem_write_def)
  then have z: "load16 m' (unat base + 648) = 0" "load32 m' (Suc (Suc (unat base + 648))) = 0"
    using loads_zero [of m' "unat base + 648"] by (simp_all add: add.commute)
  have d: "ucast (ucast VM_CR_DIS_A20M :: u32) = VM_CR_DIS_A20M" by (simp add: VM_CR_DIS_A20M_def)
  have f: "m' x = m x" if "x < unat base + stack_base - 8 \<or> unat base + stack_base \<le> x" for x
    using that by (auto simp: m'_def mem_write_def stack_base_def)
  show ?thesis
    using s' z f
    by (simp add: setup_stack_def push_off reach_off w stack_base_def ea_def b zero_bytes m'_def msr_and_not d) (simp add: set_reg_def)
qed

definition relocated :: "head_layout \<Rightarrow> u32 \<Rightarrow> mem \<Rightarrow> mem" where
  "relocated h base m =
     relocate_tables (h_pages h) base
       (add32 (add32 m (unat base + h_gdt h + 4) base) (unat base + h_ljump64 h + 1) base)"

lemma relocate_runs:
  assumes c: "\<not> paging c" "regs c EBP = base" and fit: "unat base + 0x10000 \<le> 2 ^ 32" and h: "layout_ok h"
  shows "run base (relocate h) (c, m) = Some (c, relocated h base m)"
proof -
  have e: "ea c off EBP = unat base + off" if "off < 0x10000" for off using base_plus [OF fit that] c(2) by (simp add: ea_def)
  have p: "h_pages h + 7 * 4096 \<le> 0x10000" "h_gdt h + 32 \<le> h_pages h" "h_ljump64 h + 7 < h_gdt h"
    using h by (simp_all add: layout_ok_def page_consts)
  have "4 + h_gdt h < 0x10000" "1 + h_ljump64 h < 0x10000" using p by simp_all
  note a = this [THEN e]
  have "l4_at (h_pages h) < 0x10000" "l3_at (h_pages h) < 0x10000" "l3_at (h_pages h) + 0x08 < 0x10000"
    "l3_at (h_pages h) + 0x10 < 0x10000" "l3_at (h_pages h) + 0x18 < 0x10000" "l2_at (h_pages h) < 0x10000"
    using p by (simp_all add: table_offsets)
  note t = this [THEN e]
  have n: "unat base + h_gdt h + 4 = unat base + (4 + h_gdt h)" "unat base + h_ljump64 h + 1 = unat base + (1 + h_ljump64 h)" by simp_all
  show ?thesis
    unfolding relocated_def relocate_tables_def relocate_def n
    using c by (simp add: reach_off a t del: add_2_eq_Suc add_2_eq_Suc' plus_1_eq_Suc One_nat_def)
qed

lemma relocated_out:
  assumes "layout_ok h" and "x < unat base + h_gdt h + 4 \<or> unat base + h_gdt h + 8 \<le> x"
    and "x < unat base + h_ljump64 h + 1 \<or> unat base + h_ljump64 h + 5 \<le> x" and "x < unat base + h_pages h + 0x1000"
  shows "relocated h base m x = m x"
proof -
  have "relocated h base m x = add32 (add32 m (unat base + h_gdt h + 4) base) (unat base + h_ljump64 h + 1) base x"
    unfolding relocated_def relocate_tables_def
    by (rule adds_out) (use assms(4) in \<open>simp add: table_offsets\<close>)
  also have "\<dots> = add32 m (unat base + h_gdt h + 4) base x" by (rule add32_out) (use assms(3) in linarith)
  also have "\<dots> = m x" by (rule add32_out) (use assms(2) in linarith)
  finally show ?thesis .
qed

lemma relocated_tables:
  assumes i: "image_at h (unat base) m" and h: "layout_ok h" and fit: "unat base + 0x10000 \<le> 2 ^ 32"
  shows "tables_ready (h_pages h) (unat base) (relocated h base m)"
  unfolding relocated_def
proof (rule relocate_ready)
  define m1 where "m1 = add32 (add32 m (unat base + h_gdt h + 4) base) (unat base + h_ljump64 h + 1) base"
  have same: "load64 m1 a = load64 m a" if "unat base + h_pages h \<le> a" for a
    using that h by (simp add: m1_def load64_add32_out layout_ok_def)
  have "page_data (h_pages h) (unat base) m1"
    using i by (simp add: image_at_def page_data_def table_def same table_offsets)
  then show "page_data (h_pages h) (unat base) (add32 (add32 m (unat base + h_gdt h + 4) base) (unat base + h_ljump64 h + 1) base)"
    by (simp only: m1_def)
  have p: "4096 dvd h_pages h" "h_pages h + 7 * 4096 \<le> 0x10000" using h by (simp_all add: layout_ok_def page_consts)
  show "4096 dvd h_pages h" by (rule p(1))
  show "unat base + h_pages h + 0x7000 \<le> 2 ^ 32" using p(2) fit by linarith
qed

lemma relocated_low:
  "x < unat base + h_pages h + 0x1000 \<Longrightarrow>
     relocated h base m x = add32 (add32 m (unat base + h_gdt h + 4) base) (unat base + h_ljump64 h + 1) base x"
  unfolding relocated_def relocate_tables_def by (rule adds_out) (simp add: table_offsets)

text \<open>What the code will load from its data: the pseudo-descriptor, the descriptors, the far pointer.\<close>

lemma relocated_data:
  assumes i: "image_at h (unat base) m" and h: "layout_ok h"
  shows "load16 (relocated h base m) (unat base + h_gdtr h) = 31"
    "load32 (relocated h base m) (unat base + h_gdtr h + 2) = base + of_nat (h_gdt h)"
    "load64 (relocated h base m) (unat base + h_gdt h + 8) = 0x00cf9b000000ffff"
    "load64 (relocated h base m) (unat base + h_gdt h + 16) = 0x00cf93000000ffff"
    "load64 (relocated h base m) (unat base + h_gdt h + 24) = 0x00209b0000000000"
    "load32 (relocated h base m) (unat base + h_ljump64 h + 1) = base + of_nat (h_long h)"
    "load16 (relocated h base m) (unat base + h_ljump64 h + 1 + 4) = CS_SEL64"
proof -
  have p: "h_gdt h + 32 \<le> h_pages h" "h_ljump64 h + 7 < h_gdt h" using h by (simp_all add: layout_ok_def)
  have out: "relocated h base m x = m x"
    if "x < unat base + h_gdt h + 4 \<or> unat base + h_gdt h + 8 \<le> x"
      "x < unat base + h_ljump64 h + 1 \<or> unat base + h_ljump64 h + 5 \<le> x" "x < unat base + h_gdt h + 32" for x
    by (rule relocated_out [OF h that(1,2)]) (use p that(3) in linarith)
  have g: "mem_read m (unat base + h_gdt h + k) n = take n (drop k (gdt_bytes (h_gdt h)))" if "k + n \<le> 32" for k n
    using i that by (simp add: image_at_def mem_read_sub)
  have j: "mem_read m (unat base + h_ljump64 h + k) n = take n (drop k (ljump_bytes (h_long h)))" if "k + n \<le> 7" for k n
    using i that by (simp add: image_at_def mem_read_sub)
  have "load16 (relocated h base m) (unat base + h_gdt h + 2) = load16 m (unat base + h_gdt h + 2)"
    by (rule load16_cong, rule out) (use p in linarith)+
  then show "load16 (relocated h base m) (unat base + h_gdtr h) = 31"
    using g [of 2 2] by (simp add: load16_def add.assoc) (simp add: gdt_bytes_def le_bytes_def upt_rec of_le_def)
  have q: "load64 (relocated h base m) (unat base + h_gdt h + k) = of_le (take 8 (drop k (gdt_bytes (h_gdt h))))"
    if "8 \<le> k" "k \<le> 24" for k
  proof -
    have "load64 (relocated h base m) (unat base + h_gdt h + k) = load64 m (unat base + h_gdt h + k)"
      by (rule load64_cong, rule out) (use p that in linarith)+
    then show ?thesis using g [of k 8] that by (simp add: load64_def)
  qed
  show "load64 (relocated h base m) (unat base + h_gdt h + 8) = 0x00cf9b000000ffff"
    "load64 (relocated h base m) (unat base + h_gdt h + 16) = 0x00cf93000000ffff"
    "load64 (relocated h base m) (unat base + h_gdt h + 24) = 0x00209b0000000000"
    using q [of 8] q [of 16] q [of 24] by (simp_all add: gdt_bytes_def le_bytes_def upt_rec of_le_def)
  note low = relocated_low [of _ base h m]
  have "load32 (relocated h base m) (unat base + h_gdt h + 4)
      = load32 (add32 (add32 m (unat base + h_gdt h + 4) base) (unat base + h_ljump64 h + 1) base) (unat base + h_gdt h + 4)"
    by (rule load32_cong, rule low) (use p in linarith)
  also have "\<dots> = load32 m (unat base + h_gdt h + 4) + base" using p by (simp add: load32_add32_out load32_add32)
  also have "load32 m (unat base + h_gdt h + 4) = of_le (le_bytes 4 (of_nat (h_gdt h) :: u32))"
    using g [of 4 4] by (simp add: load32_def gdt_bytes_def)
  finally have "load32 (relocated h base m) (unat base + h_gdt h + 4) = base + of_nat (h_gdt h)"
    by (simp add: of_le_le_bytes add.commute)
  moreover have "unat base + h_gdtr h + 2 = unat base + h_gdt h + 4" by simp
  ultimately show "load32 (relocated h base m) (unat base + h_gdtr h + 2) = base + of_nat (h_gdt h)" by (simp only:)
  have "load32 (relocated h base m) (unat base + h_ljump64 h + 1)
      = load32 (add32 (add32 m (unat base + h_gdt h + 4) base) (unat base + h_ljump64 h + 1) base) (unat base + h_ljump64 h + 1)"
    by (rule load32_cong, rule low) (use p in linarith)
  also have "\<dots> = load32 m (unat base + h_ljump64 h + 1) + base" using p by (simp add: load32_add32_out load32_add32)
  also have "load32 m (unat base + h_ljump64 h + 1) = of_le (le_bytes 4 (of_nat (h_long h) :: u32))"
    using j [of 1 4] by (simp add: load32_def ljump_bytes_def)
  finally show "load32 (relocated h base m) (unat base + h_ljump64 h + 1) = base + of_nat (h_long h)"
    by (simp add: of_le_le_bytes add.commute)
  have "load16 (relocated h base m) (unat base + h_ljump64 h + 5) = load16 m (unat base + h_ljump64 h + 5)"
    by (rule load16_cong, rule out) (use p in linarith)+
  also have "\<dots> = of_le (le_bytes 2 CS_SEL64)" using j [of 5 2] by (simp add: load16_def ljump_bytes_def)
  finally show "load16 (relocated h base m) (unat base + h_ljump64 h + 1 + 4) = CS_SEL64"
    by (simp add: of_le_le_bytes add.commute)
qed

section \<open>Into long mode\<close>

lemma descriptor_off:
  assumes "\<not> paging c" "0 < unat sel div 8" "unat sel div 8 * 8 + 7 \<le> unat (fst (gdtr c))"
  shows "descriptor (c, m) sel = Some (load64 m (unat (snd (gdtr c)) + unat sel div 8 * 8))"
  using assms by (simp add: descriptor_def Let_def reach_off)

text \<open>A descriptor table of this image, relocated: three descriptors, at \<open>base + h_gdt h\<close>.\<close>

definition gdt_ready :: "head_layout \<Rightarrow> addr \<Rightarrow> mem \<Rightarrow> bool" where
  "gdt_ready h b m \<longleftrightarrow> load64 m (b + h_gdt h + 8) = 0x00cf9b000000ffff
     \<and> load64 m (b + h_gdt h + 16) = 0x00cf93000000ffff \<and> load64 m (b + h_gdt h + 24) = 0x00209b0000000000"

lemma descriptor_kinds:
  "d_present 0x00cf9b000000ffff \<and> d_user 0x00cf9b000000ffff \<and> d_code 0x00cf9b000000ffff \<and> d_flat 0x00cf9b000000ffff
     \<and> \<not> d_long 0x00cf9b000000ffff \<and> d_big 0x00cf9b000000ffff"
  "d_present 0x00cf93000000ffff \<and> d_user 0x00cf93000000ffff \<and> \<not> d_code 0x00cf93000000ffff \<and> d_flat 0x00cf93000000ffff"
  "d_present 0x00209b0000000000 \<and> d_user 0x00209b0000000000 \<and> d_code 0x00209b0000000000
     \<and> d_long 0x00209b0000000000 \<and> \<not> d_big 0x00209b0000000000"
  by (simp_all add: d_flat_def)

lemma load_segments_runs:
  assumes c: "\<not> paging c" "regs c EBP = base" and fit: "unat base + 0x10000 \<le> 2 ^ 32" and h: "layout_ok h"
    and i: "image_at h (unat base) m"
  shows "run base (load_segments h) (c, relocated h base m)
    = Some (c\<lparr>regs := (regs c)(EAX := ucast DS_SEL), gdtr := (31, base + of_nat (h_gdt h)), ds := DS_SEL, es := DS_SEL\<rparr>,
        relocated h base m)"
proof -
  have p: "h_gdt h + 32 \<le> h_pages h" "h_pages h + 7 * 4096 \<le> 0x10000" using h by (simp_all add: layout_ok_def page_consts)
  have "h_gdtr h < 0x10000" "h_gdt h < 0x10000" using p by simp_all
  note a = this [THEN base_plus [OF fit]]
  note d = relocated_data [OF i h]
  have s: "unat DS_SEL = 16" by (simp add: DS_SEL_def)
  have "data_segment (c', relocated h base m) DS_SEL"
    if "\<not> paging c'" "gdtr c' = (31, base + of_nat (h_gdt h))" for c'
    using that d(4) descriptor_kinds(2) by (simp add: data_segment_def descriptor_off s a)
  moreover have "ucast (ucast DS_SEL :: u32) = DS_SEL" by (simp add: DS_SEL_def)
  ultimately show ?thesis
    using c a d(1,2)
    by (simp add: load_segments_def reach_off ea_def) (simp add: set_reg_def)
qed

abbreviation cr0_long :: u32 where "cr0_long \<equiv> CR0_PG OR CR0_NE OR CR0_TS OR CR0_MP"

lemma cr0_long_masks:
  "has (x OR cr0_long) CR0_PG" "has (x OR cr0_long) CR0_PE = has x CR0_PE" "has (x OR cr0_long) CR0_NW = has x CR0_NW"
  "has (x OR cr0_long) CR0_CD = has x CR0_CD" "has (x OR CR4_PAE) CR4_PAE"
  "\<not> has (x AND NOT cr0_long) CR0_PG" "has (x AND NOT cr0_long) CR0_PE = has x CR0_PE"
  "has (x AND NOT cr0_long) CR0_NW = has x CR0_NW" "has (x AND NOT cr0_long) CR0_CD = has x CR0_CD"
  by (rule has_or has_and; simp add: has_def cr_consts)+

lemma efer_masks:
  "has (x OR EFER_LME) EFER_LME" "has (x OR EFER_LMA) EFER_LMA" "has (x OR EFER_LME) EFER_LMA = has x EFER_LMA"
  "has (x OR EFER_LMA) EFER_LME = has x EFER_LME" "\<not> has (x AND NOT EFER_LMA) EFER_LMA"
  "\<not> has (x AND NOT EFER_LME) EFER_LME" "has (x AND NOT EFER_LME) EFER_LMA = has x EFER_LMA"
  "has (x OR EFER_LME OR EFER_LMA) EFER_LME" "has (x OR EFER_LME OR EFER_LMA) EFER_LMA"
  by (rule has_or has_and; simp add: has_def msr_consts)+

lemma write_efer: "\<not> paging c \<Longrightarrow> has v EFER_LMA = lma c \<Longrightarrow> write_msr IA32_EFER v c = Some (c\<lparr>efer := v\<rparr>)"
  by (simp add: write_msr_def)

lemma long_mode_runs:
  assumes c: "\<not> paging c" "has (cr0 c) CR0_PE" "has (cr0 c) CR0_NW \<longrightarrow> has (cr0 c) CR0_CD" "\<not> lma c" "\<not> d_long (cs_desc c)"
    "regs c EBP = base"
  shows "\<exists>c'. run base (long_mode h) (c, m) = Some (c', m)
    \<and> c' = c\<lparr>regs := regs c', cr0 := cr0 c OR cr0_long, cr3 := base + of_nat (l4_at (h_pages h)), cr4 := cr4 c OR CR4_PAE,
         efer := efer c OR EFER_LME OR EFER_LMA\<rparr>
    \<and> regs c' EBP = base \<and> regs c' ESP = regs c ESP"
proof -
  have e: "ucast (push_bit 8 (ucast (ucast (drop_bit 8 EFER_LME) :: u8)) :: u32) = EFER_LME" by (simp add: EFER_LME_def)
  have l: "\<not> has (efer c OR EFER_LME) EFER_LMA" using c(4) by (simp add: efer_masks)
  show ?thesis
    using c l
    by (simp add: long_mode_def write_cr4_def msr_or e write_cr0_def cr0_long_masks efer_masks write_efer)
       (simp add: set_reg_def or.assoc)
qed

lemma phys_identity:
  assumes "tables_ready (h_pages h) (unat base) m" "cr3 c = base + of_nat (l4_at (h_pages h))"
    and "layout_ok h" "0x10000 dvd unat base" "unat base + 0x10000 \<le> 2 ^ 32" "a < 2 ^ 32"
  shows "phys c m w a = Some a"
proof -
  have p: "4096 dvd h_pages h" "h_pages h + 7 * 4096 \<le> 0x10000" using assms(3) by (simp_all add: layout_ok_def page_consts)
  have "l4_at (h_pages h) < 0x10000" using p by (simp add: table_offsets)
  from base_plus [OF assms(5) this] have "ucast (cr3 c) = (of_nat (unat base + l4_at (h_pages h)) :: u64)"
    by (metis assms(2) of_nat_unat)
  moreover have "walk m (of_nat (unat base + l4_at (h_pages h))) a = Some (a, True)"
    using walk_identity [OF assms(1) _ p(1), of a] assms(4-6) p(2) by (simp add: dvd_trans [of 4096 65536])
  ultimately show ?thesis by (simp add: phys_def)
qed

lemma reach_identity:
  assumes "\<And>a. a < 2 ^ 32 \<Longrightarrow> phys c m w a = Some a" "a + n < 2 ^ 32"
  shows "reach c m w a n = Some a"
  using assms by (simp add: reach_def list_all_iff)

text \<open>The processor when \<^verbatim>\<open>skl_main\<close> runs, or is about to.\<close>

definition in_long_mode :: "head_layout \<Rightarrow> u32 \<Rightarrow> cpu \<Rightarrow> bool" where
  "in_long_mode h base c \<longleftrightarrow> has (cr0 c) CR0_PE \<and> paging c \<and> (has (cr0 c) CR0_NW \<longrightarrow> has (cr0 c) CR0_CD)
     \<and> has (cr4 c) CR4_PAE \<and> lme c \<and> lma c \<and> cs c = CS_SEL64 \<and> code64 c
     \<and> cr3 c = base + of_nat (l4_at (h_pages h)) \<and> gdtr c = (31, base + of_nat (h_gdt h)) \<and> idtr c = (0, 0)
     \<and> regs c EBP = base"

text \<open>What the assembly changes: eight bytes of stack, two relocated operands, the upper page tables.\<close>

definition head_writes :: "head_layout \<Rightarrow> addr \<Rightarrow> addr set" where
  "head_writes h b = {b + stack_base - 8..<b + stack_base} \<union> {b + h_gdt h + 4..<b + h_gdt h + 8}
     \<union> {b + h_ljump64 h + 1..<b + h_ljump64 h + 5} \<union> {b + l2_at (h_pages h)..<b + h_pages h + 7 * PAGE_SIZE}"

lemma relocated_frame:
  assumes "layout_ok h" "x \<notin> head_writes h (unat base)"
  shows "relocated h base m x = m x"
proof (cases "x < unat base + h_pages h + 0x1000")
  case True
  with assms show ?thesis by (intro relocated_out) (auto simp: head_writes_def)
next
  case False
  with assms(2) have "unat base + h_pages h + 0x7000 \<le> x" by (auto simp: head_writes_def table_offsets)
  moreover have "h_gdt h + 32 \<le> h_pages h" "h_ljump64 h + 7 < h_gdt h" using assms(1) by (simp_all add: layout_ok_def)
  ultimately have "fold (\<lambda>off m. add32 m (unat base + off) base)
      [l4_at (h_pages h), l3_at (h_pages h), l3_at (h_pages h) + 0x08, l3_at (h_pages h) + 0x10, l3_at (h_pages h) + 0x18, l2_at (h_pages h)] m' x
      = m' x" for m'
    by (intro adds_out) (auto simp: table_offsets)
  with \<open>unat base + h_pages h + 0x7000 \<le> x\<close> \<open>h_gdt h + 32 \<le> h_pages h\<close> \<open>h_ljump64 h + 7 < h_gdt h\<close> show ?thesis
    by (simp add: relocated_def relocate_tables_def add32_out)
qed

lemma image_at_same:
  assumes "image_at h b m" "layout_ok h" "\<And>x. b + stack_base \<le> x \<Longrightarrow> m' x = m x"
  shows "image_at h b m'"
proof -
  have p: "stack_base \<le> h_ljump64 h" "h_ljump64 h < h_gdt h" "h_gdt h + 32 \<le> h_pages h" using assms(2) by (simp_all add: layout_ok_def)
  have "mem_read m' a n = mem_read m a n" if "b + stack_base \<le> a" for a n
    by (rule mem_read_cong) (use assms(3) that in simp)
  moreover have "load64 m' a = load64 m a" if "b + stack_base \<le> a" for a
    by (rule load64_cong) (use assms(3) that in simp)
  ultimately show ?thesis using assms(1) p by (simp add: image_at_def page_data_def table_def table_offsets)
qed

lemma ready_same:
  assumes "\<And>x. b + h_gdt h + 8 \<le> x \<Longrightarrow> m' x = m x" "layout_ok h"
  shows "tables_ready (h_pages h) b m \<Longrightarrow> tables_ready (h_pages h) b m'" "gdt_ready h b m \<Longrightarrow> gdt_ready h b m'"
proof -
  have "h_gdt h + 32 \<le> h_pages h" using assms(2) by (simp add: layout_ok_def)
  moreover have "load64 m' a = load64 m a" if "b + h_gdt h + 8 \<le> a" for a
    by (rule load64_cong) (use assms(1) that in simp)
  ultimately show "tables_ready (h_pages h) b m \<Longrightarrow> tables_ready (h_pages h) b m'" "gdt_ready h b m \<Longrightarrow> gdt_ready h b m'"
    by (simp_all add: tables_ready_def table_def gdt_ready_def table_offsets)
qed

lemma descriptor_on:
  assumes "\<And>a. a < 2 ^ 32 \<Longrightarrow> phys c m False a = Some a" "gdtr c = (31, base + of_nat (h_gdt h))"
    and "layout_ok h" "unat base + 0x10000 \<le> 2 ^ 32" "sel = 8 \<or> sel = 16 \<or> sel = 24"
  shows "descriptor (c, m) sel = Some (load64 m (unat base + h_gdt h + unat sel))"
proof -
  have p: "h_gdt h + 32 < 0x10000" using assms(3) by (simp add: layout_ok_def page_consts)
  then have b: "unat (base + of_nat (h_gdt h)) = unat base + h_gdt h" by (intro base_plus [OF assms(4)]) simp
  have "reach c m False (unat base + h_gdt h + unat sel) 8 = Some (unat base + h_gdt h + unat sel)"
    by (rule reach_identity [OF assms(1)]) (use assms(4,5) p in auto)
  with assms(5) show ?thesis by (auto simp: descriptor_def Let_def assms(2) b)
qed

lemma far_jump_runs:
  assumes c: "cr3 c = base + of_nat (l4_at (h_pages h))" "gdtr c = (31, base + of_nat (h_gdt h))"
    and i: "image_at h (unat base) m" and h: "layout_ok h" and b: "0x10000 dvd unat base" and fit: "unat base + 0x10000 \<le> 2 ^ 32"
  shows "step base (Ljmp (h_ljump64 h)) (c, relocated h base m)
    = Some (c\<lparr>cs := CS_SEL64, cs_desc := 0x00209b0000000000, eip := unat base + h_long h\<rparr>, relocated h base m)"
proof -
  have p: "h_ljump64 h + 7 < 0x10000" "h_long h < 0x10000" using h by (simp_all add: layout_ok_def page_consts)
  have ph: "phys c (relocated h base m) w a = Some a" if "a < 2 ^ 32" for a w
    by (rule phys_identity [OF relocated_tables [OF i h fit] c(1) h b fit that])
  then have "reach c (relocated h base m) False (unat base + h_ljump64 h + 1) 6 = Some (unat base + h_ljump64 h + 1)"
    by (rule reach_identity) (use p fit in auto)
  moreover have "descriptor (c, relocated h base m) CS_SEL64 = Some 0x00209b0000000000"
    using descriptor_on [OF ph c(2) h fit, of CS_SEL64] relocated_data(5) [OF i h] by (simp add: CS_SEL64_def)
  moreover have "unat (base + of_nat (h_long h)) = unat base + h_long h" by (rule base_plus [OF fit p(2)])
  ultimately show ?thesis
    using relocated_data(6,7) [OF i h] descriptor_kinds(3) by (simp add: load_cs_def)
qed

lemma call_runs:
  assumes c: "in_long_mode h base c" "regs c ESP = base + of_nat stack_base"
    and t: "tables_ready (h_pages h) (unat base) m" and h: "layout_ok h" and b: "0x10000 dvd unat base" and fit: "unat base + 0x10000 \<le> 2 ^ 32"
  shows "step base (Call (h_skl_main h) (h_ret h)) (c, m)
    = Some ((set_reg ESP (base + of_nat stack_base - 8) c)\<lparr>eip := unat base + h_skl_main h\<rparr>,
        mem_write m (unat base + stack_base - 8) (le_bytes 8 (of_nat (unat base + h_ret h) :: u64)))"
proof -
  have ph: "phys c m w a = Some a" if "a < 2 ^ 32" for a w
    by (rule phys_identity [OF t _ h b fit that]) (use c(1) in \<open>simp add: in_long_mode_def\<close>)
  have e: "unat (648 + base) = 648 + unat base" using base_plus [OF fit, of 648] by (simp add: add.commute)
  have "reach c m True (648 + unat base) 8 = Some (648 + unat base)"
    by (rule reach_identity [OF ph]) (use fit in simp_all)
  moreover have "width c = 8" using c(1) by (simp add: width_def in_long_mode_def)
  ultimately show ?thesis
    using c(2) by (simp add: push_def Let_def stack_base_def e)
qed

lemma entry_runs:
  assumes s: "after_skinit base c" and i: "image_at h (unat base) m" and h: "layout_ok h" and fit: "unat base + 0x10000 \<le> 2 ^ 32"
  shows "\<exists>c' m'. run base (entry_code h) (c, m) = Some (c', m')
    \<and> in_long_mode h base c' \<and> eip c' = unat base + h_skl_main h
    \<and> regs c' ESP = base + of_nat stack_base - 8 \<and> load64 m' (unat base + stack_base - 8) = of_nat (unat base + h_ret h)
    \<and> ds c' = DS_SEL \<and> es c' = DS_SEL \<and> vm_cr c' = vm_cr c AND NOT VM_CR_DIS_A20M
    \<and> tables_ready (h_pages h) (unat base) m' \<and> gdt_ready h (unat base) m'
    \<and> (\<forall>x. x \<notin> head_writes h (unat base) \<longrightarrow> m' x = m x)"
proof -
  from setup_stack_runs [OF s fit, of m] obtain c1 m1 where 1: "run base setup_stack (c, m) = Some (c1, m1)"
    "c1 = c\<lparr>regs := regs c1, idtr := (0, 0), vm_cr := vm_cr c AND NOT VM_CR_DIS_A20M\<rparr>"
    "regs c1 EBP = base" "regs c1 ESP = base + of_nat stack_base"
    "\<And>x. x < unat base + stack_base - 8 \<or> unat base + stack_base \<le> x \<Longrightarrow> m1 x = m x" by blast
  have f1: "cr0 c1 = cr0 c" "efer c1 = efer c" "cs_desc c1 = cs_desc c" "idtr c1 = (0, 0)" "vm_cr c1 = vm_cr c AND NOT VM_CR_DIS_A20M"
    by (subst 1(2), simp)+
  have i1: "image_at h (unat base) m1" by (rule image_at_same [OF i h]) (use 1(5) in simp)
  have b: "0x10000 dvd unat base" and s': "has (cr0 c) CR0_PE" "\<not> paging c" "has (cr0 c) CR0_NW \<longrightarrow> has (cr0 c) CR0_CD" "\<not> lma c" "\<not> d_long (cs_desc c)"
    using s by (simp_all add: after_skinit_def)
  let ?m2 = "relocated h base m1"
  let ?c3 = "c1\<lparr>regs := (regs c1)(EAX := ucast DS_SEL), gdtr := (31, base + of_nat (h_gdt h)), ds := DS_SEL, es := DS_SEL\<rparr>"
  have 2: "run base (relocate h) (c1, m1) = Some (c1, ?m2)" by (rule relocate_runs [OF _ 1(3) fit h]) (simp add: f1 s')
  have 3: "run base (load_segments h) (c1, ?m2) = Some (?c3, ?m2)" by (rule load_segments_runs [OF _ 1(3) fit h i1]) (simp add: f1 s')
  from long_mode_runs [of ?c3 base h ?m2] f1 s' 1(3) obtain c4 where 4: "run base (long_mode h) (?c3, ?m2) = Some (c4, ?m2)"
    "c4 = ?c3\<lparr>regs := regs c4, cr0 := cr0 c OR cr0_long, cr3 := base + of_nat (l4_at (h_pages h)), cr4 := cr4 c1 OR CR4_PAE,
         efer := efer c OR EFER_LME OR EFER_LMA\<rparr>" "regs c4 EBP = base" "regs c4 ESP = base + of_nat stack_base"
    using 1(4) by auto
  let ?c5 = "c4\<lparr>cs := CS_SEL64, cs_desc := 0x00209b0000000000, eip := unat base + h_long h\<rparr>"
  have f4: "cr0 c4 = cr0 c OR cr0_long" "cr3 c4 = base + of_nat (l4_at (h_pages h))" "cr4 c4 = cr4 c1 OR CR4_PAE"
    "efer c4 = efer c OR EFER_LME OR EFER_LMA" "gdtr c4 = (31, base + of_nat (h_gdt h))" "idtr c4 = (0, 0)" "ds c4 = DS_SEL" "es c4 = DS_SEL"
    "vm_cr c4 = vm_cr c AND NOT VM_CR_DIS_A20M"
    by (subst 4(2), simp add: f1)+
  have 5: "step base (Ljmp (h_ljump64 h)) (c4, ?m2) = Some (?c5, ?m2)" by (rule far_jump_runs [OF f4(2,5) i1 h b fit])
  have l5: "in_long_mode h base ?c5"
    using s' descriptor_kinds(3)
    by (simp add: in_long_mode_def f4 4(3) cr0_long_masks efer_masks)
  note t2 = relocated_tables [OF i1 h fit]
  let ?m3 = "mem_write ?m2 (unat base + stack_base - 8) (le_bytes 8 (of_nat (unat base + h_ret h) :: u64))"
  let ?c6 = "(set_reg ESP (base + of_nat stack_base - 8) ?c5)\<lparr>eip := unat base + h_skl_main h\<rparr>"
  have 6: "step base (Call (h_skl_main h) (h_ret h)) (?c5, ?m2) = Some (?c6, ?m3)"
    by (rule call_runs [OF l5 _ t2 h b fit]) (simp add: 4(4))
  have r: "run base (entry_code h) (c, m) = Some (?c6, ?m3)"
    using 1(1) 2 3 4(1) 5 6 by (simp add: entry_code_def run_append del: step.simps)
  have low: "?m3 x = ?m2 x" if "unat base + h_gdt h + 8 \<le> x" for x
    using that h by (intro mem_write_out) (simp add: layout_ok_def stack_base_def)
  have g2: "gdt_ready h (unat base) ?m2" using relocated_data(3-5) [OF i1 h] by (simp add: gdt_ready_def)
  have w: "load64 ?m3 (unat base + stack_base - 8) = of_nat (unat base + h_ret h)"
    by (simp add: load64_def mem_simps of_le_le_bytes)
  have fr: "?m3 x = m x" if "x \<notin> head_writes h (unat base)" for x
    using that relocated_frame [OF h that, of m1] 1(5) [of x]
    by (subst mem_write_out) (auto simp: head_writes_def stack_base_def)
  have l6: "in_long_mode h base ?c6" using l5 by (simp add: in_long_mode_def)
  show ?thesis
    using r l6 w fr ready_same [OF low h] t2 g2 f4 by (intro exI [of _ ?c6] exI [of _ ?m3]) simp
qed

section \<open>Out of long mode\<close>

text \<open>A push and a pop on the stack of the image, with paging on.\<close>

lemma set_reg_twice [simp]: "set_reg r v (set_reg r w c) = set_reg r v c"
  by (simp add: set_reg_def)

lemma push_on:
  assumes "\<And>a w. a < 2 ^ 32 \<Longrightarrow> phys c m w a = Some a" "esp = regs c ESP - of_nat n" "unat esp = p" "p + n < 2 ^ 32"
  shows "push n v (c, m) = Some (set_reg ESP esp c, mem_write m p (le_bytes n v))"
  using reach_identity [OF assms(1) assms(4)] by (simp add: push_def Let_def assms(2) flip: assms(3))

lemma pop_on:
  assumes "\<And>a w. a < 2 ^ 32 \<Longrightarrow> phys c m w a = Some a" "unat (regs c ESP) = p" "p + n < 2 ^ 32"
  shows "pop n (c, m) = Some (of_le (mem_read m p n), set_reg ESP (regs c ESP + of_nat n) c, m)"
  using reach_identity [OF assms(1) assms(3)] by (simp add: pop_def flip: assms(2))

lemma to_compat_runs:
  assumes c: "in_long_mode h base c" "regs c ESP = base + of_nat stack_base"
    and t: "tables_ready (h_pages h) (unat base) m" "gdt_ready h (unat base) m"
    and h: "layout_ok h" and b: "0x10000 dvd unat base" and fit: "unat base + 0x10000 \<le> 2 ^ 32"
  shows "\<exists>m'. run base (to_compat h) (c, m) = Some (c\<lparr>regs := (regs c)(EBX := regs c EAX, ESI := regs c EDX, ECX := base + of_nat (h_compat h)),
      cs := CS_SEL32, cs_desc := 0x00cf9b000000ffff, eip := unat base + h_compat h\<rparr>, m')
    \<and> (\<forall>x. x < unat base + stack_base - 16 \<or> unat base + stack_base \<le> x \<longrightarrow> m' x = m x)"
proof -
  define v where "v = (of_nat (unat base + h_compat h) :: u64)"
  define m1 where "m1 = mem_write m (unat base + 648) (le_bytes 8 (ucast (ucast CS_SEL32 :: u32) :: u64))"
  define m2 where "m2 = mem_write m1 (unat base + 640) (le_bytes 8 v)"
  have p: "stack_base \<le> h_gdt h" "h_compat h < 0x10000" using h by (simp_all add: layout_ok_def page_consts)
  have m2: "m2 x = m x" if "x < unat base + 640 \<or> unat base + 656 \<le> x" for x
    using that by (auto simp: m2_def m1_def mem_write_def)
  have m1: "m1 x = m x" if "unat base + 656 \<le> x" for x using that by (auto simp: m1_def mem_write_def)
  have high: "unat base + 656 \<le> x" if "unat base + h_gdt h + 8 \<le> x" for x using that p(1) by (simp add: stack_base_def)
  have r1: "tables_ready (h_pages h) (unat base) m1"
    by (rule ready_same(1) [OF _ h t(1)]) (use m1 high in blast)
  have r2: "tables_ready (h_pages h) (unat base) m2" "gdt_ready h (unat base) m2"
    by (rule ready_same [OF _ h]; use m2 high t in blast)+
  have ph: "phys c' m' w a = Some a" if "cr3 c' = cr3 c" "m' \<in> {m, m1, m2}" "a < 2 ^ 32" for c' m' w a
    using that c(1) r1 r2(1) t(1) by (intro phys_identity [OF _ _ h b fit]) (auto simp: in_long_mode_def)
  have e: "unat (base + 648) = unat base + 648" "unat (base + 640) = unat base + 640" "unat (base + of_nat (h_compat h)) = unat base + h_compat h"
    using base_plus [OF fit, of 648] base_plus [OF fit, of 640] base_plus [OF fit p(2)] by simp_all
  let ?c1 = "c\<lparr>regs := (regs c)(EBX := regs c EAX, ESI := regs c EDX, ECX := base + of_nat (h_compat h))\<rparr>"
  have 1: "run base [Mov EBX EAX, Mov ESI EDX, Lea_Rip ECX (h_compat h)] (c, m) = Some (?c1, m)"
    by (simp add: set_reg_def)
  have l: "code64 c" using c(1) by (simp add: in_long_mode_def)
  let ?c2 = "set_reg ESP (base + 648) ?c1" and ?c3 = "set_reg ESP (base + 640) ?c1"
  have "push 8 (ucast (ucast CS_SEL32 :: u32)) (?c1, m) = Some (?c2, m1)"
    unfolding m1_def by (rule push_on [OF ph _ e(1)]) (use c(2) fit in \<open>simp_all add: stack_base_def\<close>)
  then have 2: "step base (Push_Imm (ucast CS_SEL32)) (?c1, m) = Some (?c2, m1)" using l by (simp add: width_def)
  have "push 8 v (?c2, m1) = Some (set_reg ESP (base + 640) ?c2, m2)"
    unfolding m2_def by (rule push_on [OF ph _ e(2)]) (use fit in simp_all)
  then have "push 8 v (?c2, m1) = Some (?c3, m2)" by simp
  moreover have "ucast (base + of_nat (h_compat h)) = v" unfolding v_def e(3) [symmetric] by simp
  ultimately have 3: "step base (Push ECX) (?c2, m1) = Some (?c3, m2)" using l by (simp add: width_def)
  have 4: "step base Lretq (?c3, m2) = Some (?c1\<lparr>cs := CS_SEL32, cs_desc := 0x00cf9b000000ffff, eip := unat base + h_compat h\<rparr>, m2)"
  proof -
    have "mem_read m2 (unat base + 640) 8 = le_bytes 8 v" by (simp add: m2_def mem_simps)
    moreover have "mem_read m2 (unat base + 648) 8 = le_bytes 8 (ucast (ucast CS_SEL32 :: u32) :: u64)"
      by (simp add: m2_def m1_def mem_simps)
    ultimately have r: "of_le (mem_read m2 (unat base + 640) 8) = v"
      "of_le (mem_read m2 (unat base + 648) 8) = (ucast (ucast CS_SEL32 :: u32) :: u64)"
      by (simp_all add: of_le_le_bytes)
    have "pop 8 (?c3, m2) = Some (v, set_reg ESP (regs ?c3 ESP + of_nat 8) ?c3, m2)"
      unfolding r(1) [symmetric] by (rule pop_on [OF ph]) (use fit e in simp_all)
    then have p1: "pop 8 (?c3, m2) = Some (v, ?c2, m2)" by (simp add: add.commute)
    have "pop 8 (?c2, m2) = Some (ucast (ucast CS_SEL32 :: u32), set_reg ESP (regs ?c2 ESP + of_nat 8) ?c2, m2)"
      unfolding r(2) [symmetric] by (rule pop_on [OF ph]) (use fit e in simp_all)
    moreover have "set_reg ESP (base + 648 + 8) ?c2 = ?c1" using c(2) by (simp add: set_reg_def stack_base_def fun_upd_idem)
    ultimately have p2: "pop 8 (?c2, m2) = Some (ucast (ucast CS_SEL32 :: u32), ?c1, m2)" by simp
    have g: "gdtr ?c1 = (31, base + of_nat (h_gdt h))" using c(1) by (simp add: in_long_mode_def)
    have "descriptor (?c1, m2) CS_SEL32 = Some 0x00cf9b000000ffff"
      using descriptor_on [OF ph g h fit, of m2 CS_SEL32] r2(2) by (simp add: CS_SEL32_def gdt_ready_def)
    moreover have "ucast (ucast (ucast CS_SEL32 :: u32) :: u64) = CS_SEL32" by (simp add: CS_SEL32_def)
    moreover have "unat v = unat base + h_compat h" unfolding v_def by (rule unat_of_nat_small) (use fit p(2) in simp)
    ultimately show ?thesis using p1 p2 descriptor_kinds(1) by (simp add: load_cs_def)
  qed
  have "run base (to_compat h) (c, m)
      = Some (?c1\<lparr>cs := CS_SEL32, cs_desc := 0x00cf9b000000ffff, eip := unat base + h_compat h\<rparr>, m2)"
  proof -
    have "to_compat h = [Mov EBX EAX, Mov ESI EDX, Lea_Rip ECX (h_compat h)] @ [Push_Imm (ucast CS_SEL32), Push ECX, Lretq]"
      by (simp add: to_compat_def)
    then show ?thesis by (simp only: run_append 1) (simp add: 2 3 4 del: step.simps)
  qed
  then show ?thesis using m2 by (intro exI [of _ m2]) (simp add: stack_base_def)
qed

text \<open>Protected mode without paging, flat code, all flags clear but the reserved one.\<close>

definition in_protected_mode :: "cpu \<Rightarrow> bool" where
  "in_protected_mode c \<longleftrightarrow> has (cr0 c) CR0_PE \<and> \<not> paging c \<and> \<not> lma c \<and> \<not> lme c \<and> \<not> has (cr4 c) CR4_PAE
     \<and> cs c = CS_SEL32 \<and> d_code (cs_desc c) \<and> d_flat (cs_desc c) \<and> d_big (cs_desc c) \<and> \<not> d_long (cs_desc c)
     \<and> eflags c = 2"

lemma to_protected_runs:
  assumes c: "has (cr0 c) CR0_PE" "paging c" "has (cr0 c) CR0_NW \<longrightarrow> has (cr0 c) CR0_CD" "cs c = CS_SEL32" "cs_desc c = 0x00cf9b000000ffff"
    and e: "regs c ESP = base + of_nat stack_base" and fit: "unat base + 0x10000 \<le> 2 ^ 32"
  shows "\<exists>c' m'. run base to_protected (c, m) = Some (c', m') \<and> in_protected_mode c'
    \<and> regs c' EBX = regs c EBX \<and> regs c' ESI = regs c ESI \<and> regs c' EBP = regs c EBP \<and> regs c' ESP = regs c ESP
    \<and> gdtr c' = gdtr c \<and> idtr c' = idtr c \<and> ds c' = ds c \<and> es c' = es c \<and> vm_cr c' = vm_cr c
    \<and> (\<forall>x. x < unat base + stack_base - 4 \<or> unat base + stack_base \<le> x \<longrightarrow> m' x = m x)"
proof -
  have 1: "push_bit 8 (ucast (ucast (drop_bit 8 EFER_LME) :: u8) :: u32) = ucast EFER_LME" by (simp add: EFER_LME_def)
  have 2: "ucast (ucast EFER_LME :: u32) = EFER_LME" by (simp add: EFER_LME_def)
  have 3: "unat (652 + base) = 652 + unat base" using base_plus [OF fit, of 652] by (simp add: add.commute)
  have 4: "\<not> d_long (cs_desc c)" using c(5) descriptor_kinds(1) by simp
  have 5: "\<not> has ((efer c AND NOT EFER_LMA) AND NOT EFER_LME) EFER_LMA"
    using efer_masks(7) [of "efer c AND NOT EFER_LMA"] efer_masks(5) [of "efer c"] by simp
  have 6: "\<not> has (x AND NOT CR4_PAE) CR4_PAE" for x :: u32 by (rule has_and) (simp_all add: has_def cr_consts)
  show ?thesis
    using c e descriptor_kinds(1)
    by (simp add: to_protected_def write_cr0_def cr0_long_masks 4 1 msr_and_not 2 write_efer efer_masks 5 write_cr4_def width_def 6
        push_off pop_off stack_base_def 3 mem_simps zero_bytes of_le_zeros in_protected_mode_def del: bit.de_Morgan_disj)
qed

section \<open>The jump\<close>

lemma exit_runs:
  assumes c: "in_long_mode h base c" "regs c ESP = base + of_nat stack_base"
    and t: "tables_ready (h_pages h) (unat base) m" "gdt_ready h (unat base) m"
    and h: "layout_ok h" and b: "0x10000 dvd unat base" and fit: "unat base + 0x10000 \<le> 2 ^ 32"
  shows "\<exists>c' m'. do { s \<leftarrow> run base (exit_code h) (c, m); enter_kernel base mb2 s } = Some (c', m')
    \<and> in_protected_mode c' \<and> eip c' = unat (regs c EAX)
    \<and> (if mb2 then regs c' EAX = MULTIBOOT2_BOOTLOADER_MAGIC \<and> regs c' EBX = regs c EDX
       else regs c' EBX = regs c EAX \<and> regs c' ESI = regs c EDX \<and> regs c' EDX = base)
    \<and> (\<forall>x. x < unat base + stack_base - 16 \<or> unat base + stack_base \<le> x \<longrightarrow> m' x = m x)"
proof -
  let ?c1 = "c\<lparr>regs := (regs c)(EBX := regs c EAX, ESI := regs c EDX, ECX := base + of_nat (h_compat h)),
      cs := CS_SEL32, cs_desc := 0x00cf9b000000ffff, eip := unat base + h_compat h\<rparr>"
  obtain m1 where 1: "run base (to_compat h) (c, m) = Some (?c1, m1)"
    "\<And>x. x < unat base + stack_base - 16 \<or> unat base + stack_base \<le> x \<Longrightarrow> m1 x = m x"
    using to_compat_runs [OF c t h b fit] by blast
  obtain c2 m2 where 2: "run base to_protected (?c1, m1) = Some (c2, m2)" "in_protected_mode c2"
    "regs c2 EBX = regs c EAX" "regs c2 ESI = regs c EDX" "regs c2 EBP = base"
    "\<And>x. x < unat base + stack_base - 4 \<or> unat base + stack_base \<le> x \<Longrightarrow> m2 x = m1 x"
    using to_protected_runs [of ?c1 base m1] c fit by (auto simp: in_long_mode_def)
  have r: "run base (exit_code h) (c, m) = Some (c2, m2)" using 1(1) 2(1) by (simp add: exit_code_def run_append)
  have m: "m2 x = m x" if "x < unat base + stack_base - 16 \<or> unat base + stack_base \<le> x" for x
    using that 1(2) [OF that] 2(6) [of x] by (auto simp: stack_base_def)
  have p: "in_protected_mode (c2\<lparr>regs := f, eip := e\<rparr>)" for f e using 2(2) by (simp add: in_protected_mode_def)
  show ?thesis
    using r m p 2(3-5) by (simp add: enter_kernel_def jump_multiboot2_def jump_linux_def set_reg_def)
qed

section \<open>An image in memory\<close>

text \<open>What a boot loader that copies the file to address \<open>b\<close> leaves of the data of \<^verbatim>\<open>head.S\<close>.\<close>

definition page_quad :: "nat \<Rightarrow> nat \<Rightarrow> u64" where
  "page_quad l1 i =
     (if i < 512 then l1_identmap i else if i < 2560 then l2_identmap l1 (i - 512)
      else if i < 3072 then l3_identmap (l2_at l1) (i - 2560) else l4_identmap (l3_at l1) (i - 3072))"

definition place_image :: "head_layout \<Rightarrow> addr \<Rightarrow> mem \<Rightarrow> mem" where
  "place_image h b m x =
     (if b + h_gdt h \<le> x \<and> x < b + h_gdt h + 32 then gdt_bytes (h_gdt h) ! (x - (b + h_gdt h))
      else if b + h_ljump64 h \<le> x \<and> x < b + h_ljump64 h + 7 then ljump_bytes (h_long h) ! (x - (b + h_ljump64 h))
      else if b + h_pages h \<le> x \<and> x < b + h_pages h + 7 * PAGE_SIZE
      then le_bytes 8 (page_quad (h_pages h) ((x - (b + h_pages h)) div 8)) ! ((x - (b + h_pages h)) mod 8)
      else m x)"

lemma placed_quad:
  assumes "layout_ok h" "i < 3584"
  shows "load64 (place_image h b m) (b + h_pages h + 8 * i) = page_quad (h_pages h) i"
proof -
  have p: "h_gdt h + 32 \<le> h_pages h" "h_ljump64 h + 7 < h_gdt h" using assms(1) by (simp_all add: layout_ok_def)
  have "mem_read (place_image h b m) (b + h_pages h + 8 * i) 8 = le_bytes 8 (page_quad (h_pages h) i)"
  proof (rule nth_equalityI)
    fix j assume "j < length (mem_read (place_image h b m) (b + h_pages h + 8 * i) 8)"
    then have j: "j < 8" by simp
    have "b + h_pages h + 8 * i + j - (b + h_pages h) = 8 * i + j" "(8 * i + j) div 8 = i" "(8 * i + j) mod 8 = j" using j by simp_all
    moreover have "8 * i + j < 7 * 4096" using j assms(2) by simp
    ultimately show "mem_read (place_image h b m) (b + h_pages h + 8 * i) 8 ! j = le_bytes 8 (page_quad (h_pages h) i) ! j"
      using p j by (simp add: place_image_def page_consts)
  qed simp
  then show ?thesis by (simp add: load64_def of_le_le_bytes)
qed

lemma image_placed:
  assumes "layout_ok h"
  shows "image_at h b (place_image h b m)"
proof -
  have p: "h_gdt h + 32 \<le> h_pages h" "h_ljump64 h + 7 < h_gdt h" using assms by (simp_all add: layout_ok_def)
  have l: "length (gdt_bytes (h_gdt h)) = 32" "length (ljump_bytes (h_long h)) = 7"
    by (simp_all add: gdt_bytes_def ljump_bytes_def)
  have "mem_read (place_image h b m) (b + h_gdt h) 32 = gdt_bytes (h_gdt h)"
    by (rule nth_equalityI) (simp_all add: l place_image_def)
  moreover have "mem_read (place_image h b m) (b + h_ljump64 h) 7 = ljump_bytes (h_long h)"
    by (rule nth_equalityI) (use p in \<open>simp_all add: l place_image_def\<close>)
  moreover have "page_data (h_pages h) b (place_image h b m)"
  proof -
    note q = placed_quad [OF assms, of _ b m]
    have "i < 512 \<Longrightarrow> load64 (place_image h b m) (b + h_pages h + 8 * i) = l1_identmap i"
      "i < 2048 \<Longrightarrow> load64 (place_image h b m) (b + (h_pages h + 4096) + 8 * i) = l2_identmap (h_pages h) i"
      "i < 512 \<Longrightarrow> load64 (place_image h b m) (b + (h_pages h + 20480) + 8 * i) = l3_identmap (h_pages h + 4096) i"
      "i < 512 \<Longrightarrow> load64 (place_image h b m) (b + (h_pages h + 24576) + 8 * i) = l4_identmap (h_pages h + 20480) i" for i
      using q [of i] q [of "512 + i"] q [of "2560 + i"] q [of "3072 + i"]
      by (simp_all add: page_quad_def table_offsets add_ac)
    moreover have "l2_at (h_pages h) = h_pages h + 4096" "l3_at (h_pages h) = h_pages h + 20480"
      "l4_at (h_pages h) = h_pages h + 24576" by (simp_all add: table_offsets)
    ultimately show ?thesis unfolding page_data_def table_def by presburger
  qed
  ultimately show ?thesis by (simp add: image_at_def)
qed

definition demo_head :: head_layout where
  "demo_head = \<lparr>h_gdt = 0x1800, h_ljump64 = 0x1000, h_long = 0x1007, h_ret = 0x1010, h_compat = 0x1020,
     h_skl_main = 0x1100, h_pages = 0x2000\<rparr>"

definition demo_cpu :: "u32 \<Rightarrow> cpu" where
  "demo_cpu base = \<lparr>regs = \<lambda>r. if r = EAX then base else if r = ESP then base + 0x10000 else 0, cr0 = CR0_PE, cr3 = 0, cr4 = 0,
     efer = 0, vm_cr = VM_CR_DIS_A20M, gdtr = (0, 0), idtr = (0x3ff, 0), cs = CS_SEL32, cs_desc = 0x00cf9b000000ffff,
     ds = 0, es = 0, eflags = 2, gif = False, eip = 0\<rparr>"

lemma demo_head_ok: "layout_ok demo_head"
  by (simp add: layout_ok_def demo_head_def stack_base_def page_consts)

lemma demo_cpu_ready: "0x10000 dvd unat base \<Longrightarrow> after_skinit base (demo_cpu base)"
  using descriptor_kinds(1) by (simp add: after_skinit_def demo_cpu_def has_def cr_consts msr_consts)

section \<open>Entering and leaving long mode\<close>

text \<open>
  C8. The tables of the image, once relocated, translate every address below 4 GB to itself,
  writable, and no canonical address of the lower half beyond: with paging on the loader reaches
  memory and registers where it reached them before, wherever the boot loader put it.
\<close>

theorem page_tables_identity:
  assumes "page_data l1 (unat ebp) m" and "4096 dvd l1" and "0x10000 dvd unat ebp" and "unat ebp + l1 + 0x7000 \<le> 2 ^ 32"
    and "va < 2 ^ 48"
  shows "walk (relocate_tables l1 ebp m) (of_nat (unat ebp + l4_at l1)) va = (if va < 2 ^ 32 then Some (va, True) else None)"
  by (rule walk_identity [OF relocate_ready [OF assms(1,2,4)] dvd_trans [OF _ assms(3)] assms(2,4,5)]) simp

theorem page_tables_identity_witness:
  "walk (relocate_tables 0x2000 0x1000000 (place_image demo_head 0x1000000 (\<lambda>_. 0))) (of_nat (0x1000000 + l4_at 0x2000)) 0x1234567
    = Some (0x1234567, True)"
proof -
  have "page_data 0x2000 (unat (0x1000000 :: u32)) (place_image demo_head 0x1000000 (\<lambda>_. 0))"
    using image_placed [OF demo_head_ok, of "0x1000000"] by (simp add: image_at_def demo_head_def)
  from page_tables_identity [OF this, of "0x1234567"] show ?thesis by simp
qed

text \<open>
  C7. The entry code. From the state in which SKINIT leaves the processor, with the image as it was
  linked at any address a multiple of 64 KB, no instruction up to the call of \<^verbatim>\<open>skl_main\<close> faults. Then the
  processor is in 64-bit mode with the relocated tables and descriptors, on the stack of the image
  with the return address on it, has flat data segments, an empty interrupt table and A20M no longer
  disabled; and no byte of memory changed but eight of the stack, the two relocated operands and the
  upper page tables.
\<close>

theorem entry_reaches_skl_main:
  assumes "after_skinit base c" and "image_at h (unat base) m" and "layout_ok h" and "unat base + 0x10000 \<le> 2 ^ 32"
  shows "\<exists>c' m'. run base (entry_code h) (c, m) = Some (c', m')
    \<and> in_long_mode h base c' \<and> eip c' = unat base + h_skl_main h
    \<and> regs c' ESP = base + of_nat stack_base - 8 \<and> load64 m' (unat base + stack_base - 8) = of_nat (unat base + h_ret h)
    \<and> ds c' = DS_SEL \<and> es c' = DS_SEL \<and> vm_cr c' = vm_cr c AND NOT VM_CR_DIS_A20M
    \<and> tables_ready (h_pages h) (unat base) m' \<and> gdt_ready h (unat base) m'
    \<and> (\<forall>x. x \<notin> head_writes h (unat base) \<longrightarrow> m' x = m x)"
  by (rule entry_runs [OF assms])

theorem entry_reaches_skl_main_witness:
  "\<exists>c' m'. run 0x1000000 (entry_code demo_head) (demo_cpu 0x1000000, place_image demo_head 0x1000000 (\<lambda>_. 0)) = Some (c', m')
    \<and> code64 c' \<and> eip c' = 0x1001100 \<and> vm_cr c' = 0"
proof -
  have i: "image_at demo_head (unat (0x1000000 :: u32)) (place_image demo_head 0x1000000 (\<lambda>_. 0))"
    using image_placed [OF demo_head_ok, of "0x1000000"] by simp
  have z: "vm_cr (demo_cpu 0x1000000) AND NOT VM_CR_DIS_A20M = 0" "h_skl_main demo_head = 0x1100"
    by (simp_all add: demo_cpu_def demo_head_def)
  have d: "0x10000 dvd unat (0x1000000 :: u32)" "unat (0x1000000 :: u32) + 0x10000 \<le> 2 ^ 32" by simp_all
  from entry_reaches_skl_main [OF demo_cpu_ready [OF d(1)] i demo_head_ok d(2)] obtain c' m' where
    "run 0x1000000 (entry_code demo_head) (demo_cpu 0x1000000, place_image demo_head 0x1000000 (\<lambda>_. 0)) = Some (c', m')"
    "in_long_mode demo_head 0x1000000 c'" "eip c' = unat (0x1000000 :: u32) + h_skl_main demo_head"
    "vm_cr c' = vm_cr (demo_cpu 0x1000000) AND NOT VM_CR_DIS_A20M" by blast
  with z show ?thesis by (intro exI [of _ c'] exI [of _ m']) (simp add: in_long_mode_def)
qed

end
