(* ===== verification/Skl_Main.thy ===== *)
theory Skl_Main
  imports Dma_Setup Tpm Event_Log Linux_Boot Multiboot Cstring Sha1 Sha256
begin

text \<open>
  \<^verbatim>\<open>main.c\<close>: the loader from its 64-bit entry to the jump into the kernel. The state is that
  of the TPM library with the event log and \<^verbatim>\<open>boot_protocol\<close>. A function may poll for ever
  (\<open>None\<close>), fault, reboot the machine or return.

  The prints are empty in the release build. \<^verbatim>\<open>struct tpm\<close> is one static object, so the
  pointer \<^verbatim>\<open>tpm\<close> is NULL or that object; the first use of a NULL pointer faults.
\<close>

section \<open>State and outcomes\<close>

definition MULTIBOOT2 :: u32 where "MULTIBOOT2 = 2"
definition STACK_CANARY :: u32 where "STACK_CANARY = 0xDEADBEEF"

record 'd skl_machine = "'d tpm_machine" +
  evl :: evlog
  boot_protocol :: u32

text \<open>Where the linker and the compiler put the canary and the variable \<^verbatim>\<open>tag\<close> of \<^verbatim>\<open>skl_multiboot2\<close>.\<close>

record skl_layout = layout +
  l_stack_canary :: u64
  l_tag_var :: u64

abbreviation lay :: "skl_layout \<Rightarrow> layout" where
  "lay L \<equiv> layout.truncate L"

datatype 's stop = Fault fault | Rebooted 's

type_synonym ('a, 's) run = "('s stop + 'a \<times> 's) option"

definition andthen :: "('a, 's) run \<Rightarrow> ('a \<Rightarrow> 's \<Rightarrow> ('b, 's) run) \<Rightarrow> ('b, 's) run" where
  "andthen r f = (case r of
     None \<Rightarrow> None | Some (Inl e) \<Rightarrow> Some (Inl e) | Some (Inr (a, s)) \<Rightarrow> f a s)"

definition returns :: "'a \<Rightarrow> 's \<Rightarrow> ('a, 's) run" where
  "returns a s = Some (Inr (a, s))"

definition polled :: "('a \<times> 's) option \<Rightarrow> ('a, 's) run" where
  "polled = map_option Inr"

definition faulty :: "(fault + 'a \<times> 's) option \<Rightarrow> ('a, 's) run" where
  "faulty = map_option (map_sum Fault id)"

definition reboot :: "'s \<Rightarrow> ('a, 's) run" where
  "reboot s = Some (Inl (Rebooted s))"

section \<open>Extending a PCR\<close>

text \<open>The text of an event: a literal of the loader, or a C string in memory.\<close>

datatype event_text = Literal string | String_At addr

definition event_text_bytes :: "mem \<Rightarrow> event_text \<Rightarrow> u8 list option" where
  "event_text_bytes m ev = (case ev of Literal t \<Rightarrow> Some (ascii t) | String_At a \<Rightarrow> cstring m a)"

definition log_extend12 :: "u32 \<Rightarrow> u8 list \<Rightarrow> event_text \<Rightarrow> 'd skl_machine \<Rightarrow> (unit, 'd skl_machine) run" where
  "log_extend12 pcr hash ev s = do {
     text \<leftarrow> event_text_bytes (ram s) ev;
     let (_, l, m) = log_event_tpm12 pcr hash text (evl s) (ram s);
     returns () (s\<lparr>evl := l, ram := m\<rparr>)
   }"

definition log_extend20 :: "u32 \<Rightarrow> u8 list \<Rightarrow> u8 list \<Rightarrow> event_text \<Rightarrow> 'd skl_machine \<Rightarrow> (unit, 'd skl_machine) run" where
  "log_extend20 pcr hash hash2 ev s = do {
     text \<leftarrow> event_text_bytes (ram s) ev;
     let (_, l, m) = log_event_tpm20 pcr hash hash2 text (evl s) (ram s);
     returns () (s\<lparr>evl := l, ram := m\<rparr>)
   }"

text \<open>The results of \<^verbatim>\<open>tpm_extend_pcr\<close> and of the log are not looked at.\<close>

definition extend_pcr :: "'d hw \<Rightarrow> addr \<Rightarrow> u32 \<Rightarrow> u32 \<Rightarrow> event_text \<Rightarrow> 'd skl_machine \<Rightarrow> (unit, 'd skl_machine) run" where
  "extend_pcr hw data sz pcr ev s =
     (let hash = sha1sum (mem_read (ram s) data (unat sz)) sz
      in andthen (faulty (tpm_extend_pcr hw pcr TPM_ALG_SHA1 hash s)) (\<lambda>_ s.
        case t_family (tpm_st s) of
          TPM12 \<Rightarrow> log_extend12 pcr hash ev s
        | TPM20 \<Rightarrow>
            (let hash2 = sha256sum (mem_read (ram s) data (unat sz)) sz
             in andthen (faulty (tpm_extend_pcr hw pcr TPM_ALG_SHA256 hash2 s)) (\<lambda>_ s.
                  log_extend20 pcr hash hash2 ev s))))"

section \<open>Leaving the TPM\<close>

text \<open>\<^verbatim>\<open>tpm_relinquish_locality(tpm); free_tpm(tpm);\<close>\<close>

definition leave_tpm :: "'d hw \<Rightarrow> 'd skl_machine \<Rightarrow> (unit, 'd skl_machine) run" where
  "leave_tpm hw s =
     andthen (faulty (map_option (map_sum id (Pair ())) (tpm_relinquish_locality hw s))) (\<lambda>_ s.
       faulty (map_option (map_sum id (Pair ())) (free_tpm hw s)))"

section \<open>Linux\<close>

record asm_return =
  pm_kernel_entry :: u32
  ret_zero_page :: u32

definition skl_linux :: "'d hw \<Rightarrow> skl_layout \<Rightarrow> addr \<Rightarrow> 'd skl_machine \<Rightarrow> (asm_return, 'd skl_machine) run" where
  "skl_linux hw L skl_tag s =
     (let bp = zero_page (boot_linux_at (ram s) skl_tag)
      in andthen (polled (map_option (Pair ()) (iommu_setup hw (lay L) s))) (\<lambda>_ s.
        let params = boot_params_at (ram s) (unat bp)
        in case linux_entry (ram s) params of
             None \<Rightarrow> reboot s
           | Some entry \<Rightarrow>
               andthen (extend_pcr hw (unat (code32_start params)) (push_bit 4 (syssize params)) 17
                          (Literal ''Measured Kernel into PCR17'') s) (\<lambda>_ s.
               andthen (leave_tpm hw s) (\<lambda>_ s.
               returns \<lparr>pm_kernel_entry = entry, ret_zero_page = bp\<rparr> s))))"

section \<open>Multiboot 2\<close>

text \<open>The loop over the modules; it ends at the end tag, whose address is the result.\<close>

partial_function (option) measure_modules :: "'d hw \<Rightarrow> addr \<Rightarrow> 'd skl_machine \<Rightarrow> (addr, 'd skl_machine) run" where
  "measure_modules hw tag s =
     (if mb_type (mb_tag_at (ram s) tag) = 0 then returns tag s
      else do {
        r \<leftarrow> (if mb_type (mb_tag_at (ram s) tag) = MULTIBOOT_TAG_TYPE_MODULE
             then let module = module_at (ram s) tag
                  in extend_pcr hw (unat (mod_start module)) (mod_end module - mod_start module) 17
                       (String_At (mod_cmdline module)) s
             else returns () s);
        case r of Inl e \<Rightarrow> Some (Inl e)
        | Inr (_, s) \<Rightarrow> measure_modules hw (multiboot_next_tag (ram s) tag) s
      })"

text \<open>
  The first \<^verbatim>\<open>extend_pcr\<close> is given the address of the local variable \<^verbatim>\<open>tag\<close>, not its value.
  The variable is written to memory there, where its bytes are about to be hashed.
\<close>

definition skl_multiboot2 :: "'d hw \<Rightarrow> skl_layout \<Rightarrow> addr \<Rightarrow> 'd skl_machine \<Rightarrow> (asm_return, 'd skl_machine) run" where
  "skl_multiboot2 hw L skl_tag s =
     (let tag = unat (mbi (boot_mb2_at (ram s) skl_tag));
          kernel_size = mb2_kernel_size (boot_mb2_at (ram s) skl_tag);
          kernel_entry = mb2_kernel_entry (boot_mb2_at (ram s) skl_tag)
      in andthen (polled (map_option (Pair ()) (iommu_setup hw (lay L) s))) (\<lambda>_ s.
        let mbi_len = mb_type (mb_tag_at (ram s) tag);
            s = s\<lparr>ram := mem_write (ram s) (unat (l_tag_var L)) (le_bytes 8 (of_nat tag :: u64))\<rparr>
        in andthen (extend_pcr hw (unat (l_tag_var L)) mbi_len 18 (Literal ''Measured MBI into PCR18'') s) (\<lambda>_ s.
        andthen (polled (map_option (\<lambda>k. (k, s)) (mb_find_kernel (ram s) (tag + 8) kernel_entry kernel_size)))
          (\<lambda>(kernel_entry, kernel_size) s.
        andthen (extend_pcr hw (unat kernel_entry) kernel_size 17 (Literal ''Measured Kernel into PCR17'') s) (\<lambda>_ s.
        let tag = unat (mbi (boot_mb2_at (ram s) skl_tag))
        in andthen (measure_modules hw (tag + 8) s) (\<lambda>tag s.
          if mb_size (mb_tag_at (ram s) tag) \<noteq> 8
             \<or> multiboot_next_tag (ram s) tag > unat (mbi (boot_mb2_at (ram s) skl_tag)) + unat mbi_len
          then reboot s
          else returns \<lparr>pm_kernel_entry = kernel_entry, ret_zero_page = mbi (boot_mb2_at (ram s) skl_tag)\<rparr>
                 (s\<lparr>boot_protocol := MULTIBOOT2\<rparr>)))))))"

section \<open>The whole loader\<close>

text \<open>
  \<^verbatim>\<open>next_of_type\<close> and \<^verbatim>\<open>next_of_class\<close> on the memory as it is. The last search, for the event
  log, only serves a print, but it is made.
\<close>

definition search_tags :: "(mem \<Rightarrow> addr \<Rightarrow> addr \<Rightarrow> u8 \<Rightarrow> (fault + addr) option) \<Rightarrow> skl_layout \<Rightarrow> addr \<Rightarrow> u8
    \<Rightarrow> 'd skl_machine \<Rightarrow> (addr, 'd skl_machine) run" where
  "search_tags search L t k s =
     faulty (map_option (map_sum id (\<lambda>a. (a, s))) (search (ram s) (unat (l_bootloader_data L)) t k))"

definition measure_bootloader_data :: "'d hw \<Rightarrow> skl_layout \<Rightarrow> 'd skl_machine \<Rightarrow> (unit, 'd skl_machine) run" where
  "measure_bootloader_data hw L s =
     (let bd = unat (l_bootloader_data L)
      in extend_pcr hw bd (ucast (tags_size (tags_size_at (ram s) bd))) 18
           (Literal ''Measured bootloader data into PCR18'') s)"

text \<open>From \<^verbatim>\<open>enable_tpm\<close> to the measurement of the boot loader's data.\<close>

definition start_tpm :: "'d hw \<Rightarrow> skl_layout \<Rightarrow> 'd skl_machine \<Rightarrow> (unit, 'd skl_machine) run" where
  "start_tpm hw L s =
     (let (tpm, s) = enable_tpm hw s
      in if \<not> tpm then Some (Inl (Fault Null_Deref))
         else
           andthen (polled (tpm_request_locality hw (lay L) 2 s)) (\<lambda>_ s.
           andthen (faulty (map_option (map_sum id (\<lambda>(_, l, m). ((), s\<lparr>evl := l, ram := m\<rparr>)))
             (event_log_init (Some (t_family (tpm_st s))) (unat (l_start L)) (unat (l_bootloader_data L)) (evl s) (ram s))))
             (\<lambda>_ s. measure_bootloader_data hw L s)))"

text \<open>The one tag of the boot class, and what it starts.\<close>

definition boot_kernel :: "'d hw \<Rightarrow> skl_layout \<Rightarrow> 'd skl_machine \<Rightarrow> (asm_return, 'd skl_machine) run" where
  "boot_kernel hw L s =
     andthen (search_tags next_of_class L (unat (l_bootloader_data L)) SKL_TAG_BOOT_CLASS s) (\<lambda>t s.
     if t = 0 then reboot s
     else andthen (search_tags next_of_class L t SKL_TAG_BOOT_CLASS s) (\<lambda>t2 s.
       if t2 \<noteq> 0 then reboot s
       else
         let type = tag_type (hdr_at (ram s) t)
         in if type = SKL_TAG_BOOT_LINUX then skl_linux hw L t s
            else if type = SKL_TAG_BOOT_MB2 then skl_multiboot2 hw L t s
            else reboot s))"

text \<open>The canary is a volatile variable of the loader's own memory.\<close>

definition finish :: "'d hw \<Rightarrow> skl_layout \<Rightarrow> asm_return \<Rightarrow> 'd skl_machine \<Rightarrow> (asm_return, 'd skl_machine) run" where
  "finish hw L ret s =
     andthen (leave_tpm hw s) (\<lambda>_ s.
     andthen (search_tags next_of_type L (unat (l_bootloader_data L)) SKL_TAG_EVENT_LOG s) (\<lambda>_ s.
       if load32 (ram s) (unat (l_stack_canary L)) \<noteq> STACK_CANARY then reboot s else returns ret s))"

definition skl_main :: "'d hw \<Rightarrow> skl_layout \<Rightarrow> 'd skl_machine \<Rightarrow> (asm_return, 'd skl_machine) run" where
  "skl_main hw L s =
     (let s = pci_init hw s
      in andthen (faulty (map_option (map_sum id (\<lambda>ok. (ok, s)))
           (bootloader_data_ok (ram s) (unat (l_start L)) (unat (l_bootloader_data L))))) (\<lambda>ok s.
         if \<not> ok then reboot s
         else
           andthen (start_tpm hw L s) (\<lambda>_ s.
           andthen (boot_kernel hw L s) (\<lambda>ret s.
           finish hw L ret s))))"

end
