(* ===== verification/Skl_Frames.thy ===== *)
theory Skl_Frames
  imports Skl_Main Tpm_Props Event_Log_Init
begin

text \<open>
  What the steps of \<^verbatim>\<open>skl_main\<close> leave unchanged: the set-up of the IOMMU, the start of the TPM,
  the event log and the measurements, as a relation that the steps compose.
\<close>

section \<open>The set-up of the IOMMU keeps the state of the loader\<close>

definition kept :: "('d, 'x) pci_machine_scheme \<Rightarrow> ('d, 'x) pci_machine_scheme \<Rightarrow> bool" where
  "kept s t \<longleftrightarrow> pci_machine.more t = pci_machine.more s"

lemma kept_trans: "kept s t \<Longrightarrow> kept t u \<Longrightarrow> kept s u"
  by (simp add: kept_def)

lemma kept_refl [simp]: "kept s s"
  by (simp add: kept_def)

lemma kept_io: "io_ext P s t \<Longrightarrow> kept s t"
  by (drule io_ext_more) (cases s, cases t, simp add: kept_def)

lemma kept_regs [simp]:
  "pci_machine.more (snd (reg_read hw base i s)) = pci_machine.more s"
  "pci_machine.more (reg_write hw base i v s) = pci_machine.more s"
  "pci_machine.more (reg_and hw base i v s) = pci_machine.more s"
  "pci_machine.more (reg_or hw base i v s) = pci_machine.more s"
  by (simp_all add: reg_read_def reg_write_def reg_and_def reg_or_def io_defs Let_def split_beta)

lemma kept_send [simp]: "pci_machine.more (send_command hw L base cmd s) = pci_machine.more s"
  by (simp add: send_command_def Let_def split_beta)

lemma kept_enable [simp]: "pci_machine.more (iommu_enable hw L base s) = pci_machine.more s"
  by (simp add: iommu_enable_def Let_def split_beta)

lemma kept_commands [simp]: "pci_machine.more (iommu_commands hw L base completed s) = pci_machine.more s"
  by (simp add: iommu_commands_def iommu_completion_def Let_def split_beta)

lemma kept_read [simp]: "pci_read hw seg bus devfn reg n v s = Some (r, x, t) \<Longrightarrow> kept s t"
  by (cases "pci_ops s")
     (auto simp: kept_def pci_read_def pci_conf1_read_def pci_mmio_read_def io_defs Let_def split_beta split: if_splits)

lemma kept_write [simp]: "pci_write hw seg bus devfn reg n v s = Some (r, t) \<Longrightarrow> kept s t"
  by (cases "pci_ops s")
     (auto simp: kept_def pci_write_def pci_conf1_write_def pci_mmio_write_def io_defs Let_def split_beta split: if_splits)

lemma kept_init [simp]: "kept s (pci_init hw s)"
  by (simp add: kept_def pci_init_def rdmsr_def io_defs Let_def split_beta)

lemma kept_walk: "pci_cap_walk hw bus devfn p s = Some (q, t) \<Longrightarrow> kept s t"
proof -
  define P :: "'a hw \<Rightarrow> u32 \<Rightarrow> u32 \<Rightarrow> u32 \<Rightarrow> ('a, 'b) pci_machine_scheme \<Rightarrow> u32 \<times> ('a, 'b) pci_machine_scheme \<Rightarrow> bool"
    where "P = (\<lambda>_ _ _ _ s r. kept s (snd r))"
  assume w: "pci_cap_walk hw bus devfn p s = Some (q, t)"
  have "P hw bus devfn p s (q, t)"
    by (rule pci_cap_walk.raw_induct [OF _ w])
       (auto simp: P_def bind_eq_Some_conv split: if_splits intro: kept_trans [OF kept_read])
  then show ?thesis by (simp add: P_def)
qed

lemma kept_locate: "pci_locate hw bus devfn s = Some (c, t) \<Longrightarrow> kept s t"
  by (auto simp: pci_locate_def bind_eq_Some_conv split: if_splits dest!: kept_walk kept_read intro: kept_trans)

lemma kept_disable: "disable_memory_protection hw s = Some t \<Longrightarrow> kept s t"
  by (auto simp: disable_memory_protection_def dev_locate_def dev_disable_sl_def dev_read_def dev_write_def
      bind_eq_Some_conv split: if_splits dest!: kept_locate kept_read kept_write)
     (simp_all add: kept_def)

lemma kept_load: "iommu_load_device_table hw L cap completed s = Some (r, t) \<Longrightarrow> kept s t"
  by (auto simp: iommu_load_device_table_def bind_eq_Some_conv Let_def split: if_splits dest!: kept_read)
     (auto simp: kept_def)

lemma kept_wait: "iommu_wait hw flag s = Some t \<Longrightarrow> kept s t"
proof -
  define P :: "'a hw \<Rightarrow> addr \<Rightarrow> ('a, 'b) pci_machine_scheme \<Rightarrow> ('a, 'b) pci_machine_scheme \<Rightarrow> bool"
    where "P = (\<lambda>_ _ s t. kept s t)"
  assume w: "iommu_wait hw flag s = Some t"
  have "P hw flag s t"
    by (rule iommu_wait.raw_induct [OF _ w])
       (auto simp: P_def kept_def io_defs Let_def split_beta split: if_splits)
  then show ?thesis by (simp add: P_def)
qed

lemma iommu_setup_kept: "iommu_setup hw L s = Some t \<Longrightarrow> kept s t"
proof -
  assume i: "iommu_setup hw L s = Some t"
  define s1 where "s1 = pci_init hw (iowrite64 hw 0 (unat (l_iommu_done L)) s)"
  have 1: "kept s s1"
    unfolding s1_def by (rule kept_trans [OF _ kept_init]) (simp add: kept_def io_defs)
  have "kept s1 t"
    using i unfolding iommu_setup_def Let_def s1_def [symmetric]
    by (auto simp: bind_eq_Some_conv iommu_locate_def split: if_splits
        dest!: kept_locate kept_load kept_disable kept_wait)
       (simp_all add: kept_def)
  with 1 show ?thesis by (rule kept_trans)
qed

section \<open>Sequencing\<close>

named_theorems run_iff \<open>when a sequence of steps returns\<close>

lemma andthen_returns [run_iff]:
  "andthen r f = Some (Inr (b, t)) \<longleftrightarrow> (\<exists>a s. r = Some (Inr (a, s)) \<and> f a s = Some (Inr (b, t)))"
  by (auto simp: andthen_def split: option.splits sum.splits)

lemma basic_returns [run_iff]:
  "returns a s = Some (Inr (b, t)) \<longleftrightarrow> a = b \<and> s = t"
  "polled p = Some (Inr (b, t)) \<longleftrightarrow> p = Some (b, t)"
  "faulty q = Some (Inr (b, t)) \<longleftrightarrow> q = Some (Inr (b, t))"
  "reboot s = Some (Inr (b, t)) \<longleftrightarrow> False"
proof -
  show "faulty q = Some (Inr (b, t)) \<longleftrightarrow> q = Some (Inr (b, t))"
    by (cases q) (simp add: faulty_def, case_tac a, simp_all add: faulty_def)
qed (auto simp: returns_def polled_def reboot_def)

lemma map_sum_Inr [run_iff]: "map_sum f g x = Inr y \<longleftrightarrow> (\<exists>z. x = Inr z \<and> y = g z)"
  by (cases x) auto

lemma mapped_returns [run_iff]:
  "map_option (map_sum id g) q = Some (Inr x) \<longleftrightarrow> (\<exists>y. q = Some (Inr y) \<and> x = g y)"
  "map_option (Pair ()) p = Some (u, s) \<longleftrightarrow> p = Some s"
  "map_option (\<lambda>k. (k, s0)) o2 = Some (k, s) \<longleftrightarrow> o2 = Some k \<and> s = s0"
  by (auto simp: map_sum_Inr)

section \<open>Where the log writes\<close>

text \<open>An open log holds its header and is used up to a point in its region; a closed one is full.\<close>

definition log_bounds :: "tpm_family \<Rightarrow> evlog \<Rightarrow> bool" where
  "log_bounds f l \<longleftrightarrow> ptr_current l = limit l
     \<or> evtlog_base l + (case f of TPM12 \<Rightarrow> hdr12_len | TPM20 \<Rightarrow> hdr20_len) \<le> ptr_current l
       \<and> ptr_current l \<le> limit l \<and> limit l < 2 ^ 32"

abbreviation in_log :: "evlog \<Rightarrow> addr \<Rightarrow> bool" where
  "in_log l x \<equiv> evtlog_base l \<le> x \<and> x < limit l"

definition log_frame :: "tpm_family \<Rightarrow> evlog \<Rightarrow> mem \<Rightarrow> evlog \<Rightarrow> mem \<Rightarrow> bool" where
  "log_frame f l m l' m' \<longleftrightarrow> log_bounds f l' \<and> evtlog_base l' = evtlog_base l \<and> limit l' = limit l
     \<and> (\<forall>x. \<not> in_log l x \<longrightarrow> m' x = m x)"

lemma log_write_frame:
  assumes "log_bounds f l" "log_write data l m = (r, l', m')" "evtlog_base l \<le> ptr_current l"
  shows "log_frame f l m l' m' \<and> evtlog_base l' \<le> ptr_current l'"
  using assms
  by (auto simp: log_write_def log_frame_def log_bounds_def mem_write_out Let_def split: if_splits)

lemma log_frame_trans: "log_frame f l m l1 m1 \<Longrightarrow> log_frame f l1 m1 l2 m2 \<Longrightarrow> log_frame f l m l2 m2"
  by (simp add: log_frame_def)

lemma open_log:
  assumes "log_bounds f l" "has_enough_space l n"
  shows "evtlog_base l + (case f of TPM12 \<Rightarrow> hdr12_len | TPM20 \<Rightarrow> hdr20_len) \<le> ptr_current l"
    "ptr_current l \<le> limit l"
  using assms closed_no_space [of l n] by (auto simp: log_bounds_def log_closed_def)

lemma store_frame:
  assumes "log_bounds f l" "evtlog_base l + k + 4 \<le> limit l"
  shows "log_frame f l m l (store32 m (evtlog_base l + k) v)"
  using assms by (auto simp: log_frame_def store32_def mem_write_out)

lemma log_event_frame:
  assumes b: "log_bounds f l"
    and e: "f = TPM12 \<and> log_event_tpm12 pcr sha1 event l m = (r, l', m')
      \<or> f = TPM20 \<and> log_event_tpm20 pcr sha1 sha256 event l m = (r, l', m')"
  shows "log_frame f l m l' m'"
proof (cases "l' = l \<and> m' = m")
  case True
  with b show ?thesis by (simp add: log_frame_def)
next
  case False
  obtain k n data v l1 m1 r1 where k: "k + 4 = (case f of TPM12 \<Rightarrow> hdr12_len | TPM20 \<Rightarrow> hdr20_len)"
    and n: "has_enough_space l n"
    and 1: "log_write data l (store32 m (evtlog_base l + k) v) = (r1, l1, m1)"
    and 2: "log_write event l1 m1 = (r, l', m')"
  proof (cases f)
    case TPM12
    with e False show ?thesis
      by (auto simp: log_event_tpm12_def hdr12_len_def sizeofs Let_def split: if_splits prod.splits)
         (rule that [rotated 2], assumption, assumption, simp add: hdr12_len_def sizeofs, assumption)+
  next
    case TPM20
    with e False show ?thesis
      by (auto simp: log_event_tpm20_def hdr20_len_def sizeofs Let_def split: if_splits prod.splits)
         (rule that [rotated 2], assumption, assumption, simp add: hdr20_len_def sizeofs, assumption)+
  qed
  note o = open_log [OF b n]
  have s: "log_frame f l m l (store32 m (evtlog_base l + k) v)"
    by (rule store_frame [OF b]) (use o k in simp)
  have w: "log_frame f l (store32 m (evtlog_base l + k) v) l1 m1 \<and> evtlog_base l1 \<le> ptr_current l1"
    by (rule log_write_frame [OF b 1]) (use o in simp)
  from log_write_frame [OF _ 2, of f] w have "log_frame f l1 m1 l' m'" by (auto simp: log_frame_def)
  with log_frame_trans [OF s] w show ?thesis by (blast intro: log_frame_trans)
qed

lemma log_inv_bounds: "log_inv f l m \<Longrightarrow> log_bounds f l"
  by (cases f) (auto simp: log_inv_def log_repr_def log_bounds_def)

lemma event_log_init_bounds:
  assumes i: "event_log_init (Some f) start bd l m = Some (Inr (r, l', m'))" and f: "ids_fresh l"
  shows "log_bounds f l'"
  using event_log_init_cases [OF i f]
proof (elim disjE exE conjE)
  assume "log_closed l'"
  then show ?thesis by (simp add: log_bounds_def log_closed_def)
next
  fix t l1 m1
  assume ok: "region_ok f start (evtlog_address (evtlog_at m t)) (evtlog_size (evtlog_at m t))"
    and o: "event_log_open f start (evtlog_address (evtlog_at m t)) (evtlog_size (evtlog_at m t)) l m = (True, l1, m1)"
    and s: "event_log_skinit f bd l1 m1 = Some (Inr (r, l', m'))"
  from skinit_inv [OF _ s] opened_log_inv [OF ok f o] show ?thesis by (blast intro: log_inv_bounds)
qed

section \<open>What a measurement changes\<close>

definition off_limits :: "'d skl_machine \<Rightarrow> addr \<Rightarrow> bool" where
  "off_limits s x \<longleftrightarrow> in_log (evl s) x
     \<or> t_buff (tpm_st s) \<and> unat (b_head (tpm_buff s)) \<le> x \<and> x < unat (b_head (tpm_buff s)) + unat (b_truesize (tpm_buff s))"

definition safe_state :: "'d skl_machine \<Rightarrow> bool" where
  "safe_state s \<longleftrightarrow> log_bounds (t_family (tpm_st s)) (evl s) \<and> (t_buff (tpm_st s) \<longrightarrow> buff_inv (tpm_buff s))"

definition tame :: "'d skl_machine \<Rightarrow> 'd skl_machine \<Rightarrow> bool" where
  "tame s t \<longleftrightarrow> safe_state t \<and> tpm_st t = tpm_st s \<and> evtlog_base (evl t) = evtlog_base (evl s) \<and> limit (evl t) = limit (evl s)
     \<and> b_head (tpm_buff t) = b_head (tpm_buff s) \<and> b_truesize (tpm_buff t) = b_truesize (tpm_buff s)
     \<and> (\<forall>x. \<not> off_limits s x \<longrightarrow> ram t x = ram s x)"

lemma tame_refl: "safe_state s \<Longrightarrow> tame s s"
  by (simp add: tame_def)

lemma tame_off_limits: "tame s t \<Longrightarrow> off_limits t x = off_limits s x"
  by (simp add: tame_def off_limits_def)

lemma tame_trans [trans]:
  assumes "tame s t" "tame t u"
  shows "tame s u"
proof -
  have "ram u x = ram s x" if "\<not> off_limits s x" for x
    using that assms tame_off_limits [OF assms(1), of x] by (simp add: tame_def)
  with assms show ?thesis by (simp add: tame_def)
qed

lemma skl_more:
  fixes s t :: "'d skl_machine"
  assumes "machine.more t = machine.more (s\<lparr>tpm_buff := b\<rparr>)"
  shows "tpm_st t = tpm_st s" "evl t = evl s" "tpm_buff t = b"
  using assms by (cases s, cases t, simp)+

lemma tpm_extend_tame:
  assumes "tpm_extend_pcr hw pcr algo digest s = Some (Inr (r, t))" "safe_state s"
  shows "tame s t"
proof (cases "t_buff (tpm_st s)")
  case False
  with assms show ?thesis by (simp add: tpm_extend_pcr_def tame_refl)
next
  case True
  then have "buff_inv (tpm_buff s)" using assms(2) by (simp add: safe_state_def)
  from tpm_extend_pcr_frame [OF assms(1) this] have f: "buff_frame s t" .
  then have m: "machine.more t = machine.more (s\<lparr>tpm_buff := tpm_buff t\<rparr>)" by (simp add: buff_frame_def)
  show ?thesis
    using f skl_more [OF m] assms(2) True
    by (auto simp: tame_def buff_frame_def safe_state_def off_limits_def outside_same_def)
qed

lemma log_tame:
  assumes "log_frame (t_family (tpm_st s)) (evl s) (ram s) l m" "safe_state s"
  shows "tame s (s\<lparr>evl := l, ram := m\<rparr>)"
  using assms by (auto simp: tame_def safe_state_def log_frame_def off_limits_def)

lemma log_extend_returns:
  "log_extend12 pcr hash ev s = Some (Inr (u, t)) \<Longrightarrow>
     \<exists>str q l m. log_event_tpm12 pcr hash str (evl s) (ram s) = (q, l, m) \<and> t = s\<lparr>evl := l, ram := m\<rparr>"
  "log_extend20 pcr hash hash2 ev s = Some (Inr (u, t)) \<Longrightarrow>
     \<exists>str q l m. log_event_tpm20 pcr hash hash2 str (evl s) (ram s) = (q, l, m) \<and> t = s\<lparr>evl := l, ram := m\<rparr>"
  by (cases "event_text_bytes (ram s) ev"; cases "log_event_tpm12 pcr hash (the (event_text_bytes (ram s) ev)) (evl s) (ram s)";
      auto simp: log_extend12_def returns_def)
     (cases "event_text_bytes (ram s) ev"; cases "log_event_tpm20 pcr hash hash2 (the (event_text_bytes (ram s) ev)) (evl s) (ram s)";
      auto simp: log_extend20_def returns_def)

lemma extend_pcr_tame:
  assumes e: "extend_pcr hw a n pcr ev s = Some (Inr (u, t))" and s: "safe_state s"
  shows "tame s t"
proof -
  define hash where "hash = sha1sum (mem_read (ram s) a (unat n)) n"
  obtain r s1 where 1: "tpm_extend_pcr hw pcr TPM_ALG_SHA1 hash s = Some (Inr (r, s1))"
    and r: "(case t_family (tpm_st s1) of
          TPM12 \<Rightarrow> log_extend12 pcr hash ev s1
        | TPM20 \<Rightarrow>
            (let hash2 = sha256sum (mem_read (ram s1) a (unat n)) n
             in andthen (faulty (tpm_extend_pcr hw pcr TPM_ALG_SHA256 hash2 s1)) (\<lambda>_ s.
                  log_extend20 pcr hash hash2 ev s))) = Some (Inr (u, t))"
    using e by (auto simp: extend_pcr_def hash_def [symmetric] Let_def run_iff)
  note t1 = tpm_extend_tame [OF 1 s]
  then have s1: "safe_state s1" by (simp add: tame_def)
  show ?thesis
  proof (cases "t_family (tpm_st s1)")
    case TPM12
    with r obtain str q l m where "log_event_tpm12 pcr hash str (evl s1) (ram s1) = (q, l, m)" "t = s1\<lparr>evl := l, ram := m\<rparr>"
      using log_extend_returns(1) [of pcr hash ev s1 u t] by auto
    moreover have "log_bounds TPM12 (evl s1)" using s1 TPM12 by (simp add: safe_state_def)
    ultimately have "tame s1 t" using log_event_frame [of TPM12 "evl s1"] TPM12 by (simp add: log_tame [OF _ s1])
    with t1 show ?thesis by (rule tame_trans)
  next
    case TPM20
    define hash2 where "hash2 = sha256sum (mem_read (ram s1) a (unat n)) n"
    obtain r2 s2 where 2: "tpm_extend_pcr hw pcr TPM_ALG_SHA256 hash2 s1 = Some (Inr (r2, s2))"
      and l: "log_extend20 pcr hash hash2 ev s2 = Some (Inr (u, t))"
      using r TPM20 by (auto simp: Let_def run_iff hash2_def)
    note t2 = tpm_extend_tame [OF 2 s1]
    then have s2: "safe_state s2" "t_family (tpm_st s2) = TPM20" using TPM20 by (simp_all add: tame_def)
    from l obtain str q l m where "log_event_tpm20 pcr hash hash2 str (evl s2) (ram s2) = (q, l, m)" "t = s2\<lparr>evl := l, ram := m\<rparr>"
      using log_extend_returns(2) [of pcr hash hash2 ev s2 u t] by auto
    moreover have "log_bounds TPM20 (evl s2)" using s2 by (simp add: safe_state_def)
    ultimately have "tame s2 t" using log_event_frame [of TPM20 "evl s2"] s2 by (simp add: log_tame)
    with tame_trans [OF t1 t2] show ?thesis by (rule tame_trans)
  qed
qed

lemma measure_modules_tame:
  assumes m: "measure_modules hw tag s = Some (Inr (r, t))" and s: "safe_state s"
  shows "tame s t"
proof -
  define P :: "'a hw \<Rightarrow> addr \<Rightarrow> 'a skl_machine \<Rightarrow> 'a skl_machine stop + addr \<times> 'a skl_machine \<Rightarrow> bool"
    where "P = (\<lambda>_ _ s r. case r of Inl _ \<Rightarrow> True | Inr (_, t) \<Rightarrow> safe_state s \<longrightarrow> tame s t)"
  have "P hw tag s (Inr (r, t))"
  proof (rule measure_modules.raw_induct [OF _ m])
    fix f :: "'a hw \<Rightarrow> addr \<Rightarrow> 'a skl_machine \<Rightarrow> (addr, 'a skl_machine) run" and hw tag s r
    assume IH: "\<And>hw tag s r. f hw tag s = Some r \<Longrightarrow> P hw tag s r"
    assume c: "(if mb_type (mb_tag_at (ram s) tag) = 0 then returns tag s
      else do {
        r \<leftarrow> (if mb_type (mb_tag_at (ram s) tag) = MULTIBOOT_TAG_TYPE_MODULE
             then let module = module_at (ram s) tag
                  in extend_pcr hw (unat (mod_start module)) (mod_end module - mod_start module) 17
                       (String_At (mod_cmdline module)) s
             else returns () s);
        case r of Inl e \<Rightarrow> Some (Inl e)
        | Inr (_, s) \<Rightarrow> f hw (multiboot_next_tag (ram s) tag) s
      }) = Some r"
    show "P hw tag s r"
    proof (cases r)
      case (Inl e)
      then show ?thesis by (simp add: P_def)
    next
      case (Inr x)
      have "tame s t'" if s: "safe_state s" and x: "x = (r', t')" for r' t'
      proof -
        from c Inr x have "t' = s \<or> (\<exists>v s1. (s1 = s \<or> (\<exists>a n ev. extend_pcr hw a n 17 ev s = Some (Inr (v, s1))))
            \<and> f hw (multiboot_next_tag (ram s1) tag) s1 = Some r)"
          by (auto simp: returns_def bind_eq_Some_conv Let_def split: if_split_asm sum.split_asm prod.split_asm)
        then show ?thesis
        proof (elim disjE exE conjE)
          assume "t' = s" with s show ?thesis by (simp add: tame_refl)
        next
          fix v s1 assume "s1 = s" "f hw (multiboot_next_tag (ram s1) tag) s1 = Some r"
          with IH [of hw _ s1 r] s show ?thesis by (simp add: P_def Inr x)
        next
          fix v s1 a n ev assume e: "extend_pcr hw a n 17 ev s = Some (Inr (v, s1))" and g: "f hw (multiboot_next_tag (ram s1) tag) s1 = Some r"
          note t1 = extend_pcr_tame [OF e s]
          with IH [OF g] have "tame s1 t'" by (simp add: P_def Inr x tame_def [of s])
          with t1 show ?thesis by (rule tame_trans)
        qed
      qed
      then show ?thesis by (cases x) (simp add: P_def Inr)
    qed
  qed
  with s show ?thesis by (simp add: P_def)
qed

section \<open>Up to the measurement\<close>

definition init_frame :: "('d, 'x) tpm_machine_scheme \<Rightarrow> ('d, 'x) tpm_machine_scheme \<Rightarrow> bool" where
  "init_frame s t \<longleftrightarrow> ram t = ram s \<and> tpm_buff t = tpm_buff s \<and> t_buff (tpm_st t) = t_buff (tpm_st s)
     \<and> tpm_machine.more t = tpm_machine.more s"

lemma init_frame_trans [trans]: "init_frame s t \<Longrightarrow> init_frame t u \<Longrightarrow> init_frame s u"
  by (simp add: init_frame_def)

lemma init_frame_locality: "locality_frame s t \<Longrightarrow> init_frame s t"
  by (simp add: locality_frame_def init_frame_def)

lemma init_frame_io: "io_ext P s t \<Longrightarrow> init_frame s t"
  using io_ext_more [of P s t] io_ext_ram [of P s t] by (cases s, cases t) (simp add: init_frame_def)

lemma init_frame_set [simp]:
  "init_frame s (s\<lparr>tpm_st := (tpm_st s)\<lparr>t_family := f, t_intf := i\<rparr>\<rparr>)" "init_frame s (s\<lparr>tpm_st := (tpm_st s)\<lparr>t_intf := i\<rparr>\<rparr>)"
  "init_frame s (s\<lparr>tpm_st := (tpm_st s)\<lparr>t_vendor := v\<rparr>\<rparr>)" "init_frame s (s\<lparr>tpm_st := (tpm_st s)\<lparr>t_ops := p\<rparr>\<rparr>)"
  "init_frame s (s\<lparr>tis_locality := l\<rparr>)" "init_frame s s"
  by (simp_all add: init_frame_def)

lemma init_frame_read: "tpm_read32 hw f s = (v, t) \<Longrightarrow> init_frame s t"
  using init_frame_io [OF tpm_io_ext(2) [of "\<lambda>_. True" f s hw]] by simp

lemma find_interface_frame: "init_frame s (find_interface_and_family hw s)"
proof -
  obtain v s1 where 1: "tpm_read32 hw TPM_INTF_CAPABILITY_0 s = (v, s1)" by (cases "tpm_read32 hw TPM_INTF_CAPABILITY_0 s")
  define s2 where "s2 = s1\<lparr>tpm_st := (tpm_st s1)\<lparr>t_family := TPM20, t_intf := TPM_TIS\<rparr>\<rparr>"
  obtain w s3 where 3: "tpm_read32 hw TPM_INTERFACE_ID_0 s2 = (w, s3)" by (cases "tpm_read32 hw TPM_INTERFACE_ID_0 s2")
  have f: "init_frame s s1" "init_frame s1 s2" "init_frame s2 s3"
    using init_frame_read [OF 1] init_frame_read [OF 3] by (simp_all add: s2_def)
  then have "init_frame s s3" by (blast intro: init_frame_trans)
  then show ?thesis
    using f 1 3 by (auto simp: find_interface_and_family_def Let_def s2_def intro: init_frame_trans)
qed

lemma tis_init_frame: "init_frame s (snd (tis_init hw s))"
proof -
  let ?s = "s\<lparr>tis_locality := TPM_NO_LOCALITY\<rparr>"
  obtain l s1 where 1: "tis_request_locality hw 0 ?s = (l, s1)" by (cases "tis_request_locality hw 0 ?s")
  have "init_frame ?s s1" using init_frame_locality tis_request_frame [OF 1] by blast
  with init_frame_set(5) have f: "init_frame s s1" by (rule init_frame_trans)
  obtain v s2 where 2: "tpm_read32 hw (DID_VID 0) s1 = (v, s2)" by (cases "tpm_read32 hw (DID_VID 0) s1")
  note g = init_frame_trans [OF f init_frame_read [OF 2]]
  show ?thesis
    using f g 1 2 by (simp add: tis_init_def Let_def) (simp add: init_frame_def)
qed

lemma idle_io: "io_ext (\<lambda>_. True) s (go_idle hw s)" "io_ext (\<lambda>_. True) s (snd (cmd_ready hw s))"
proof -
  have i: "io_ext (\<lambda>_. True) s t" if "is_idle hw s = (b, t)" for s t :: "('a, 'b) tpm_machine_scheme" and b
    by (rule io_ext_mono [OF is_idle_event [OF that]]) simp
  have w: "io_ext (\<lambda>_. True) s (tpm2_timeout_c hw (tpm_write32 hw v f s))"
    for s :: "('a, 'b) tpm_machine_scheme" and v f
    by (rule io_ext_trans [of _ _ "tpm_write32 hw v f s"]) simp_all
  obtain b s1 where 1: "is_idle hw s = (b, s1)" by (cases "is_idle hw s")
  note f = i [OF 1]
  show "io_ext (\<lambda>_. True) s (go_idle hw s)"
    using io_ext_trans [OF f w] f 1 by (simp add: go_idle_def)
  define s2 where "s2 = tpm2_timeout_c hw (tpm_write32 hw (set_cmd_ready (junk32 hw s1)) (crb_register s1 TPM_CRB_CTRL_REQ) s1)"
  obtain c s3 where 3: "is_idle hw s2 = (c, s3)" by (cases "is_idle hw s2")
  have "io_ext (\<lambda>_. True) s s2" unfolding s2_def by (rule io_ext_trans [OF f w])
  then have "io_ext (\<lambda>_. True) s s3" using i [OF 3] by (rule io_ext_trans)
  with f 1 3 show "io_ext (\<lambda>_. True) s (snd (cmd_ready hw s))" by (simp add: cmd_ready_def s2_def [symmetric])
qed

lemmas idle_frame = idle_io [THEN init_frame_io]

lemma crb_init_frame: "init_frame s (snd (crb_init hw s))"
proof -
  obtain l s1 where 1: "crb_request_locality hw 0 s = (l, s1)" by (cases "crb_request_locality hw 0 s")
  have f: "init_frame s s1" using init_frame_locality crb_request_frame [OF 1] by blast
  obtain v s2 where 2: "tpm_read32 hw (REGISTER 0 (TPM_CRB_INTF_ID + 4)) s1 = (v, s2)"
    by (cases "tpm_read32 hw (REGISTER 0 (TPM_CRB_INTF_ID + 4)) s1")
  have g: "init_frame s (s2\<lparr>tpm_st := (tpm_st s2)\<lparr>t_vendor := x\<rparr>\<rparr>)" for x
    by (rule init_frame_trans [OF init_frame_trans [OF f init_frame_read [OF 2]]]) simp
  have h: "init_frame s (snd (cmd_ready hw (go_idle hw (s2\<lparr>tpm_st := (tpm_st s2)\<lparr>t_vendor := x\<rparr>\<rparr>))))" for x
    by (rule init_frame_trans [OF init_frame_trans [OF g idle_frame(1)] idle_frame(2)])
  show ?thesis
    using f g h 1 2 by (auto simp: crb_init_def Let_def split_beta) (auto simp: init_frame_def)
qed

lemma enable_tpm_frame: "enable_tpm hw s = (b, t) \<Longrightarrow> init_frame s t"
  using find_interface_frame [of s hw] tis_init_frame [of "find_interface_and_family hw s" hw]
    crb_init_frame [of "find_interface_and_family hw s" hw]
  by (auto simp: enable_tpm_def Let_def split: tpm_hw_intf.splits prod.splits dest: init_frame_trans)

lemma request_frame:
  assumes r: "tpm_request_locality hw L l s = Some (g, t)" and "buff_idle L (tpm_buff s)" "\<not> t_buff (tpm_st s)"
  shows "ram t = ram s \<and> tpm_machine.more t = tpm_machine.more s \<and> (t_buff (tpm_st t) \<longrightarrow> buff_inv (tpm_buff t))"
proof -
  obtain g1 s1 where 1: "ops_request_locality hw l s = Some (g1, s1)"
    using r by (cases "ops_request_locality hw l s") (auto simp: tpm_request_locality_def)
  note f = ops.request_in [OF 1]
  then have "buff_idle L (tpm_buff s1)" using assms(2) by (simp add: locality_frame_def)
  with r 1 f alloc_ready [OF this, of g] assms(3) show ?thesis
    by (auto simp: tpm_request_locality_def locality_frame_def locality_consts)
qed

text \<open>After \<^verbatim>\<open>start_tpm\<close> the log and the buffer are in order, whatever the boot loader's tags say.\<close>

definition fresh :: "skl_layout \<Rightarrow> 'd skl_machine \<Rightarrow> bool" where
  "fresh L s \<longleftrightarrow> evl s = evlog_init \<and> \<not> t_buff (tpm_st s) \<and> buff_idle (lay L) (tpm_buff s)"

lemma start_tpm_safe:
  assumes r: "start_tpm hw L s = Some (Inr (u, t))" and f: "fresh L s"
  shows "safe_state t"
proof -
  obtain s1 where 1: "enable_tpm hw s = (True, s1)"
    using r by (cases "enable_tpm hw s") (auto simp: start_tpm_def split: if_splits)
  obtain g s2 q l m where 2: "tpm_request_locality hw (lay L) 2 s1 = Some (g, s2)"
    and e: "event_log_init (Some (t_family (tpm_st s2))) (unat (l_start L)) (unat (l_bootloader_data L)) (evl s2) (ram s2)
        = Some (Inr (q, l, m))"
    and x: "measure_bootloader_data hw L (s2\<lparr>evl := l, ram := m\<rparr>) = Some (Inr (u, t))"
    using r 1 by (auto simp: start_tpm_def run_iff map_sum_Inr)
  note f1 = enable_tpm_frame [OF 1]
  have b: "buff_idle (lay L) (tpm_buff s1)" "\<not> t_buff (tpm_st s1)" "evl s1 = evlog_init"
    using f1 f by (auto simp: fresh_def init_frame_def) (cases s, cases s1, simp)
  note f2 = request_frame [OF 2 b(1,2)]
  then have "evl s2 = evlog_init" using b(3) by (cases s1, cases s2, simp)
  then have "log_bounds (t_family (tpm_st s2)) l" by (intro event_log_init_bounds [OF e]) (simp add: ids_fresh_def evlog_init_def)
  then have "safe_state (s2\<lparr>evl := l, ram := m\<rparr>)" using f2 by (simp add: safe_state_def)
  from extend_pcr_tame [OF x [unfolded measure_bootloader_data_def Let_def] this] show ?thesis by (simp add: tame_def)
qed

lemma iommu_setup_safe:
  assumes "iommu_setup hw L s = Some t" "safe_state s"
  shows "safe_state t"
  using iommu_setup_kept [OF assms(1)] assms(2) by (cases s, cases t) (simp add: kept_def safe_state_def)

end
