(* ===== verification/Skl_Props.thy ===== *)
theory Skl_Props
  imports Skl_Frames
begin

text \<open>
  The loader as a whole: that the kernel it jumps into is the one it measured, and that it
  stops on bad data. A launch with concrete hardware, tags and kernel shows that it can return.
\<close>

section \<open>From the measurement to the jump\<close>

lemma leave_tpm_ram: "leave_tpm hw s = Some (Inr (u, t)) \<Longrightarrow> ram t = ram s"
proof -
  have r: "ram t = ram s" if l: "tpm_relinquish_locality hw s = Some (Inr t)" for s t :: "'a skl_machine"
  proof -
    obtain s1 where 1: "ops_relinquish_locality hw s = Some s1" "t = s1\<lparr>tpm_buff := free_tpmbuff (tpm_buff s1) (t_intf (tpm_st s1))\<rparr>"
      using l by (cases "ops_relinquish_locality hw s") (auto simp: tpm_relinquish_locality_def split: if_splits)
    from ops.relinquish_in [OF 1(1)] show ?thesis by (simp add: locality_frame_def 1(2))
  qed
  assume "leave_tpm hw s = Some (Inr (u, t))"
  then show ?thesis by (auto simp: leave_tpm_def free_tpm_def run_iff dest!: r)
qed

lemma search_tags_same: "search_tags search L a k s = Some (Inr (b, t)) \<Longrightarrow> t = s"
  by (auto simp: search_tags_def run_iff)

lemma finish_ram: "finish hw L ret s = Some (Inr (r, t)) \<Longrightarrow> ram t = ram s \<and> r = ret"
  by (auto simp: finish_def run_iff split: if_split_asm dest!: leave_tpm_ram search_tags_same)

text \<open>
  What a run from \<open>s\<close> that ends in \<open>s'\<close> and jumps to \<open>ret\<close> owes: some time after the set-up of
  the IOMMU the kernel was measured, and since then nothing but the buffer of the TPM and the
  region of the log has changed.
\<close>

definition runs_measured :: "'d hw \<Rightarrow> skl_layout \<Rightarrow> 'd skl_machine \<Rightarrow> asm_return \<Rightarrow> 'd skl_machine \<Rightarrow> bool" where
  "runs_measured hw L s ret s' \<longleftrightarrow> (\<exists>s2 t u a n. iommu_setup hw (lay L) s = Some s2
     \<and> (t = s2 \<or> (\<exists>m k. extend_pcr hw (unat (l_tag_var L)) k 18 (Literal ''Measured MBI into PCR18'') (s2\<lparr>ram := m\<rparr>) = Some (Inr ((), t))))
     \<and> extend_pcr hw a n 17 (Literal ''Measured Kernel into PCR17'') t = Some (Inr ((), u))
     \<and> (\<forall>x. \<not> off_limits t x \<longrightarrow> ram s' x = ram t x)
     \<and> (unat (pm_kernel_entry ret) = a \<or> a \<le> unat (pm_kernel_entry ret) \<and> unat (pm_kernel_entry ret) < a + unat n))"

lemma skl_linux_measures:
  assumes r: "skl_linux hw L tag s = Some (Inr (ret, t))" and s: "safe_state s"
  shows "runs_measured hw L s ret t"
proof -
  let ?bp = "zero_page (boot_linux_at (ram s) tag)"
  obtain s2 where 2: "iommu_setup hw (lay L) s = Some s2"
    using r by (auto simp: skl_linux_def Let_def run_iff)
  let ?p = "boot_params_at (ram s2) (unat ?bp)"
  obtain entry u where e: "linux_entry (ram s2) ?p = Some entry" and ret: "pm_kernel_entry ret = entry"
    and x: "extend_pcr hw (unat (code32_start ?p)) (push_bit 4 (syssize ?p)) 17 (Literal ''Measured Kernel into PCR17'') s2
        = Some (Inr ((), u))"
    and l: "leave_tpm hw u = Some (Inr ((), t))"
    using r 2 by (auto simp: skl_linux_def Let_def run_iff split: option.split_asm)
  have "tame s2 u" by (rule extend_pcr_tame [OF x iommu_setup_safe [OF 2 s]])
  then have "\<forall>x. \<not> off_limits s2 x \<longrightarrow> ram t x = ram s2 x" using leave_tpm_ram [OF l] by (simp add: tame_def)
  moreover have "unat entry \<in> kernel_bytes ?p" by (rule linux_entry_in [OF e])
  ultimately show ?thesis
    unfolding runs_measured_def ret using 2 x
    by (intro exI [of _ s2] exI [of _ u] exI [of _ "unat (code32_start ?p)"] exI [of _ "push_bit 4 (syssize ?p)"])
       (simp add: kernel_bytes_def)
qed

lemma skl_multiboot2_measures:
  assumes r: "skl_multiboot2 hw L skl_tag s = Some (Inr (ret, t))" and s: "safe_state s"
  shows "runs_measured hw L s ret t"
proof -
  obtain s2 where 2: "iommu_setup hw (lay L) s = Some s2"
    using r by (auto simp: skl_multiboot2_def Let_def run_iff)
  obtain m k s3 a n u tag' b s5 where 3: "extend_pcr hw (unat (l_tag_var L)) k 18 (Literal ''Measured MBI into PCR18'') (s2\<lparr>ram := m\<rparr>)
        = Some (Inr ((), s3))"
    and x: "extend_pcr hw (unat a) n 17 (Literal ''Measured Kernel into PCR17'') s3 = Some (Inr ((), u))"
    and mm: "measure_modules hw tag' u = Some (Inr (b, s5))"
    and t: "t = s5\<lparr>boot_protocol := MULTIBOOT2\<rparr>" "pm_kernel_entry ret = a"
    using r 2 by (auto simp: skl_multiboot2_def Let_def run_iff split: if_split_asm prod.split_asm)
  have "safe_state (s2\<lparr>ram := m\<rparr>)" using iommu_setup_safe [OF 2 s] by (simp add: safe_state_def)
  from extend_pcr_tame [OF 3 this] have s3: "safe_state s3" by (simp add: tame_def)
  note t1 = extend_pcr_tame [OF x s3]
  have "tame u s5" by (rule measure_modules_tame [OF mm]) (use t1 in \<open>simp add: tame_def\<close>)
  with t1 have "tame s3 s5" by (rule tame_trans)
  then have "\<forall>x. \<not> off_limits s3 x \<longrightarrow> ram t x = ram s3 x" by (simp add: tame_def t)
  then show ?thesis
    unfolding runs_measured_def t(2) using 2 3 x by blast
qed

lemma boot_kernel_measures:
  assumes "boot_kernel hw L s = Some (Inr (ret, t))" "safe_state s"
  shows "runs_measured hw L s ret t"
  using assms skl_linux_measures skl_multiboot2_measures
  by (auto simp: boot_kernel_def Let_def run_iff split: if_split_asm dest!: search_tags_same)

lemma fresh_init: "fresh L s \<Longrightarrow> fresh L (pci_init hw s)"
  using kept_init [of s hw] by (cases s, cases "pci_init hw s") (simp add: fresh_def kept_def)

lemma skl_main_measures:
  assumes r: "skl_main hw L s = Some (Inr (ret, s'))" and f: "fresh L s"
  shows "\<exists>s1. start_tpm hw L (pci_init hw s) = Some (Inr ((), s1)) \<and> runs_measured hw L s1 ret s'"
proof -
  obtain s1 ret1 s2 where 1: "start_tpm hw L (pci_init hw s) = Some (Inr ((), s1))"
    and b: "boot_kernel hw L s1 = Some (Inr (ret1, s2))" and e: "finish hw L ret1 s2 = Some (Inr (ret, s'))"
    using r by (auto simp: skl_main_def Let_def run_iff split: if_split_asm)
  have "runs_measured hw L s1 ret1 s2"
    by (rule boot_kernel_measures [OF b start_tpm_safe [OF 1 fresh_init [OF f]]])
  moreover have "ram s' = ram s2" "ret = ret1" using finish_ram [OF e] by simp_all
  ultimately show ?thesis using 1 by (auto simp: runs_measured_def)
qed


section \<open>Bad data of the boot loader\<close>

lemma rejected_run:
  assumes "\<nexists>ts. valid_tags (ram s) (unat (l_start L)) (unat (l_bootloader_data L)) ts"
  shows "case skl_main hw L s of
      None \<Rightarrow> True | Some (Inl (Fault f)) \<Rightarrow> True
    | Some (Inl (Rebooted t)) \<Rightarrow> t = pci_init hw s | Some (Inr _) \<Rightarrow> False"
proof -
  have r: "ram (pci_init hw s) = ram s"
    by (simp add: pci_init_def rdmsr_def log_io_def Let_def split_beta)
  let ?b = "bootloader_data_ok (ram s) (unat (l_start L)) (unat (l_bootloader_data L))"
  have "?b \<noteq> Some (Inr True)" using check_valid_tags assms by blast
  then show ?thesis
    by (cases ?b; cases "the ?b") (auto simp: skl_main_def r andthen_def faulty_def reboot_def Let_def)
qed


section \<open>With a command response buffer every measurement returns\<close>

lemma digest_lengths [simp]: "length (sha1sum data n) = 20" "length (sha256sum data n) = 32"
proof -
  show "length (sha1sum data n) = 20"
    by (simp add: sha1sum_def sha1_final_def Let_def)
  have "[0..<8] = [0, 1, 2, 3, 4, 5, 6, 7 :: nat]" by (simp add: upt_rec)
  then show "length (sha256sum data n) = 32"
    by (simp add: sha256sum_def sha256_final_def Let_def split_beta)
qed

definition crb_ready :: "'d skl_machine \<Rightarrow> bool" where
  "crb_ready s \<longleftrightarrow> safe_state s \<and> t_family (tpm_st s) = TPM20 \<and> t_ops (tpm_st s) = Crb_Ops \<and> t_buff (tpm_st s)
     \<and> 97 \<le> size_at s"

lemma crb_ready_tame: "tame s t \<Longrightarrow> crb_ready s \<Longrightarrow> crb_ready t"
  by (simp add: tame_def crb_ready_def)

lemma crb_extend_returns:
  assumes r: "crb_ready s" and n: "extend_size algo = Some n" "length digest = n"
  shows "\<exists>k t. tpm_extend_pcr hw pcr algo digest s = Some (Inr (k, t)) \<and> tame s t"
proof -
  let ?buf = "map (hw_junk hw (dev s)) [0..<MAX_TPM_EXTEND_SIZE]"
  have "counted_size algo \<le> 64" using n(1) by (auto simp: counted_size_def extend_size_def tpm_sizes split: if_splits)
  then have sz: "33 + counted_size algo \<le> size_at s" using r by (simp add: crb_ready_def)
  have i: "buff_inv (tpm_buff s)" using r by (simp add: crb_ready_def safe_state_def)
  obtain s1 where 1: "tpm2_build pcr (one_digest ?buf algo digest) s = Inr (0, s1)" "buffer_only s s1"
    using tpm2_build_message [OF i n _ sz, of ?buf pcr] by (auto simp: MAX_TPM_EXTEND_SIZE_def)
  have "t_ops (tpm_st s1) = Crb_Ops" using 1(2) r by (simp add: buffer_only_def crb_ready_def)
  then obtain q s2 where 2: "ops_send hw s1 = Some (q, s2)" by (cases "crb_send hw s1") (simp add: ops_send_def)
  have "\<exists>k t. tpm_extend_pcr hw pcr algo digest s = Some (Inr (k, t))"
    using r n 1 2 by (simp add: tpm_extend_pcr_def tpm2_extend_pcr_def tpm2_submit_def crb_ready_def Let_def)
  then show ?thesis using tpm_extend_tame r by (meson crb_ready_def)
qed

lemma extend_pcr_returns:
  assumes r: "crb_ready s"
  shows "\<exists>t. extend_pcr hw a n pcr (Literal ev) s = Some (Inr ((), t)) \<and> tame s t"
proof -
  obtain k s1 where 1: "tpm_extend_pcr hw pcr TPM_ALG_SHA1 (sha1sum (mem_read (ram s) a (unat n)) n) s = Some (Inr (k, s1))"
    "tame s s1"
    using crb_extend_returns [OF r, where algo = TPM_ALG_SHA1 and n = 20 and digest = "sha1sum (mem_read (ram s) a (unat n)) n"
        and hw = hw and pcr = pcr] by (auto simp: extend_size_def tpm_sizes)
  have r1: "crb_ready s1" by (rule crb_ready_tame [OF 1(2) r])
  obtain k2 s2 where 2: "tpm_extend_pcr hw pcr TPM_ALG_SHA256 (sha256sum (mem_read (ram s1) a (unat n)) n) s1 = Some (Inr (k2, s2))"
    using crb_extend_returns [OF r1, where algo = TPM_ALG_SHA256 and n = 32 and digest = "sha256sum (mem_read (ram s1) a (unat n)) n"
        and hw = hw and pcr = pcr] by (auto simp: extend_size_def tpm_sizes tpm_algs)
  have "\<exists>t. extend_pcr hw a n pcr (Literal ev) s = Some (Inr ((), t))"
    using 1(1) 2 r1
    by (simp add: extend_pcr_def andthen_def faulty_def crb_ready_def log_extend20_def event_text_bytes_def returns_def
        split_beta Let_def)
  then show ?thesis using extend_pcr_tame r by (meson crb_ready_def)
qed

lemma leave_tpm_returns:
  assumes "t_ops (tpm_st s) = Crb_Ops" "t_buff (tpm_st s)"
  shows "\<exists>t. leave_tpm hw s = Some (Inr ((), t)) \<and> ram t = ram s \<and> t_ops (tpm_st t) = Crb_Ops \<and> t_buff (tpm_st t)"
proof -
  have r: "\<exists>t. tpm_relinquish_locality hw s = Some (Inr t) \<and> ram t = ram s \<and> t_ops (tpm_st t) = Crb_Ops \<and> t_buff (tpm_st t)"
    if "t_ops (tpm_st s) = Crb_Ops" "t_buff (tpm_st s)" for s :: "'a skl_machine"
    using that crb_relinquish_frame [of s hw]
    by (auto simp: tpm_relinquish_locality_def ops_relinquish_locality_def locality_frame_def)
  from r [OF assms] obtain s1 where 1: "tpm_relinquish_locality hw s = Some (Inr s1)" "ram s1 = ram s"
    "t_ops (tpm_st s1) = Crb_Ops" "t_buff (tpm_st s1)" by blast
  from r [OF 1(3,4)] 1 show ?thesis
    by (auto simp: leave_tpm_def free_tpm_def andthen_def faulty_def)
qed

section \<open>A concrete launch\<close>

text \<open>
  A TPM with a command response buffer that is never idle, and no IOMMU. Memory holds the tags
  at 256, the zero page at 0x20000, the canary at 0x30000 and the kernel of \<open>demo_kernel\<close>.
\<close>

definition demo_boot_hw :: "unit hw" where
  "demo_boot_hw = \<lparr>hw_load = (\<lambda>a n d. (if a = 0xFED4000C \<or> a = 0xFED4200C \<or> a = 0xFED40030 then 1
       else if a = 0xFED40014 then 0x30000000 else 0, d)),
     hw_store = (\<lambda>a n v d. d), hw_in = \<lambda>p n d. (0, d), hw_out = \<lambda>p n v d. d,
     hw_rdmsr = \<lambda>i d. (0, d), hw_tick = \<lambda>d. d, hw_junk = \<lambda>d i. 0\<rparr>"

definition demo_boot_mem :: mem where
  "demo_boot_mem x =
     (if x < 0x1000 then demo_launch x
      else if x < 0x100000 then
        (if x = 0x201F5 \<or> x = 0x20216 then 0x10 else if x = 0x20206 then 0x0F else if x = 0x20207 then 2
         else if x = 0x20249 then 8 else if x = 0x2024D then 0x80 else if x = 0x20269 then 1
         else if x = 0x30000 then 0xEF else if x = 0x30001 then 0xBE else if x = 0x30002 then 0xAD
         else if x = 0x30003 then 0xDE else 0)
      else demo_kernel x)"

definition demo_skl_layout :: skl_layout where
  "demo_skl_layout = layout.extend (demo_layout\<lparr>l_start := 0, l_bootloader_data := 256\<rparr>)
     (skl_layout.fields 0x30000 0xF000)"

definition demo_boot :: "unit skl_machine" where
  "demo_boot = \<lparr>dev = (), trace = [], ram = demo_boot_mem, pci_ops = Pci_Unset, mmio_base_addr = 0,
     tis_locality = 0, crb_locality = 0, tpm_buff = demo_buff\<lparr>b_head := 0\<rparr>,
     tpm_st = \<lparr>t_vendor = 0, t_family = TPM12, t_intf = TPM_TIS, t_ops = No_Ops, t_buff = False\<rparr>,
     evl = evlog_init, boot_protocol = 0\<rparr>"

text \<open>
  Memory below the registers as the boot loader left it; what lies in the image of the loader
  from the end of its stack on is free.
\<close>

definition as_loaded :: "mem \<Rightarrow> bool" where
  "as_loaded m \<longleftrightarrow> (\<forall>x < 0xFED00000. x < 0x280 \<or> 0x10000 \<le> x \<longrightarrow> m x = demo_boot_mem x)"

definition same_low :: "mem \<Rightarrow> mem \<Rightarrow> bool" where
  "same_low m m' \<longleftrightarrow> (\<forall>x < 0xFED00000. m' x = m x)"

lemma same_low_trans: "same_low m m' \<Longrightarrow> same_low m' m'' \<Longrightarrow> same_low m m''"
  by (simp add: same_low_def)

lemma same_low_loaded: "same_low m m' \<Longrightarrow> as_loaded m \<Longrightarrow> as_loaded m'"
  by (simp add: same_low_def as_loaded_def)

lemma demo_lay [simp]:
  "l_start demo_skl_layout = 0" "l_bootloader_data demo_skl_layout = 256" "l_stack_canary demo_skl_layout = 0x30000"
  "l_tis_buff (lay demo_skl_layout) = 0xD100"
  by (simp_all add: demo_skl_layout_def demo_layout_def layout.defs skl_layout.defs)

lemma loaded_low: "as_loaded m \<Longrightarrow> x < 0x280 \<Longrightarrow> m x = demo_launch x"
  by (simp add: as_loaded_def demo_boot_mem_def)

lemma loaded_hdrs:
  assumes "as_loaded m"
  shows "hdr_at m 256 = \<lparr>tag_type = 0x0F, tag_len = 4\<rparr>" "hdr_at m 260 = \<lparr>tag_type = 0x20, tag_len = 10\<rparr>"
    "hdr_at m 270 = \<lparr>tag_type = 0x21, tag_len = 24\<rparr>" "hdr_at m 294 = \<lparr>tag_type = 0x21, tag_len = 36\<rparr>"
    "hdr_at m 330 = \<lparr>tag_type = 0x10, tag_len = 6\<rparr>" "hdr_at m 336 = \<lparr>tag_type = 0, tag_len = 2\<rparr>"
  using demo_launch_hdrs by (simp_all add: hdr_at_def loaded_low [OF assms])

lemma loaded_fields:
  assumes "as_loaded m"
  shows "evtlog_at m 260 = evtlog_at demo_launch 260" "zero_page (boot_linux_at m 330) = 0x20000"
    "hash_at m 270 = hash_at demo_launch 270" "hash_at m 294 = hash_at demo_launch 294"
proof -
  have "m 332 = 0" "m 333 = 0" "m 334 = 2" "m 335 = 0"
    by (simp_all add: loaded_low [OF assms] demo_launch_def mem_write_def nth_append)
  then show "zero_page (boot_linux_at m 330) = 0x20000"
    by (simp add: boot_linux_at_def load32_def mem_read_def upt_rec of_le_def)
qed (simp_all add: evtlog_at_def hash_at_def load32_def load16_def mem_read_def upt_rec loaded_low [OF assms])

lemma loaded_tags:
  assumes "as_loaded m"
  shows "valid_tags m 0 256 [256, 260, 270, 294, 330, 336]"
    "launch_list family m 0 256 [256, 260, 270, 294, 330, 336] 260"
proof -
  show "valid_tags m 0 256 [256, 260, 270, 294, 330, 336]"
    by (rule valid_tags_cong [OF demo_launch_valid]) (simp add: loaded_low [OF assms] demo_launch_end)
  moreover have "end_of_tags m 256 = 338"
    using demo_launch_end
    by (simp add: end_of_tags_def tags_size_at_def load16_def mem_read_def upt_rec loaded_low [OF assms])
  ultimately show "launch_list family m 0 256 [256, 260, 270, 294, 330, 336] 260"
    using demo_launch_list [of family]
    by (simp add: launch_list_def loaded_fields [OF assms])
       (simp add: of_kind_def demo_launch_hdrs loaded_hdrs [OF assms] tag_consts demo_launch_end loaded_fields [OF assms])
qed

lemma loaded_digests:
  "as_loaded m \<Longrightarrow> both_of m (of_kind m SKL_TAG_SKL_HASH [260, 270, 294, 330, 336]) 0 0 = Some (274, 298)"
  by (simp add: of_kind_def loaded_hdrs loaded_fields tag_consts demo_launch_fields tpm_algs)

lemma load32_same: "(\<And>i. i < 4 \<Longrightarrow> m (a + i) = m' (a + i)) \<Longrightarrow> load32 m a = load32 m' a"
  unfolding load32_def by (intro arg_cong [of _ _ of_le] mem_read_cong)

lemma loaded_kernel:
  assumes "as_loaded m"
  shows "linux_entry m (boot_params_at m 0x20000) = Some 0x100400"
proof -
  have k: "load32 m a = load32 demo_kernel a" if "0x100000 \<le> a" "a + 4 \<le> 0xFED00000" for a
    using assms that by (intro load32_same) (simp add: as_loaded_def demo_boot_mem_def)
  have "demo_entry_loads m"
    using demo_kernel_loads unfolding demo_entry_loads_def by (simp add: k)
  moreover have "boot_params_at m 0x20000 = demo_params"
    using assms by (simp add: boot_params_at_def demo_params_def load32_def load16_def mem_read_def upt_rec as_loaded_def
        demo_boot_mem_def of_le_def)
  ultimately show ?thesis by (simp add: demo_entry)
qed

lemma loaded_canary: "as_loaded m \<Longrightarrow> load32 m 0x30000 = STACK_CANARY"
  by (simp add: load32_def mem_read_def upt_rec as_loaded_def demo_boot_mem_def of_le_def STACK_CANARY_def)

lemma loaded_searches:
  assumes "as_loaded m"
  shows "bootloader_data_ok m 0 256 = Some (Inr True)"
    "next_of_type m 256 256 SKL_TAG_EVENT_LOG = Some (Inr 260)"
    "next_of_class m 256 256 SKL_TAG_BOOT_CLASS = Some (Inr 330)"
    "next_of_class m 256 330 SKL_TAG_BOOT_CLASS = Some (Inr 0)"
proof -
  note t = loaded_tags(1) [OF assms] and h = loaded_hdrs [OF assms]
  show "bootloader_data_ok m 0 256 = Some (Inr True)" by (rule valid_tags_check [OF t])
  have c: "tag_chain m 256 256 [256, 260, 270, 294, 330, 336]" using t by (simp add: valid_tags_def)
  note c = c chain_drop [of m 256 256 "[256, 260, 270, 294]" 330 "[336]", simplified, OF c]
  have "by_type.first_hit m [260, 270, 294, 330, 336] SKL_TAG_EVENT_LOG = 260"
    "by_class.first_hit m [260, 270, 294, 330, 336] SKL_TAG_BOOT_CLASS = 330"
    "by_class.first_hit m [336] SKL_TAG_BOOT_CLASS = 0"
    by (simp_all add: by_type.first_hit_def by_class.first_hit_def h) (simp_all add: tag_consts)
  then show "next_of_type m 256 256 SKL_TAG_EVENT_LOG = Some (Inr 260)"
    "next_of_class m 256 256 SKL_TAG_BOOT_CLASS = Some (Inr 330)"
    "next_of_class m 256 330 SKL_TAG_BOOT_CLASS = Some (Inr 0)"
    by (simp_all only: by_type.search_chain [OF c(1)] by_class.search_chain [OF c(1)] by_class.search_chain [OF c(2)])
qed

lemma demo_no_iommu: "\<exists>t. iommu_setup demo_boot_hw L s = Some t \<and> ram t = ram s"
  by (simp add: iommu_setup_def Let_def pci_init_def rdmsr_def io_defs demo_boot_hw_def iommu_locate_def pci_locate_def
      pci_read_def pci_conf1_read_def bad_target_def INVALID_CAP_def split_beta)

lemma demo_reads:
  "fst (tpm_read32 demo_boot_hw TPM_INTF_CAPABILITY_0 s) = 0x30000000" "fst (tpm_read32 demo_boot_hw TPM_INTERFACE_ID_0 s) = 1"
  "fst (tpm_read32 demo_boot_hw (REGISTER 0 TPM_LOC_STS) s) = 1" "fst (tpm_read32 demo_boot_hw (REGISTER 2 TPM_LOC_STS) s) = 1"
  "fst (tpm_read8 demo_boot_hw (REGISTER 0 TPM_LOC_STATE) s) = 0"
  "fst (tpm_read32 demo_boot_hw (REGISTER 0 (TPM_CRB_INTF_ID + 4)) s) = 0"
  by (simp_all add: tpm_read32_def tpm_read8_def io_defs demo_boot_hw_def tpm_addr_def TPM_MMIO_BASE_def REGISTER_def crb_regs
      TPM_INTF_CAPABILITY_0_def TPM_INTERFACE_ID_0_def)

lemma demo_crb_granted:
  assumes "l = 0 \<or> l = 2"
  shows "fst (crb_request_locality demo_boot_hw l s) = l"
  using assms by (auto simp: crb_request_locality_def Let_def split_beta loc_assigned_def granted_def demo_reads)

lemma demo_tpm_found:
  fixes s :: "unit skl_machine"
  shows "\<exists>s1. enable_tpm demo_boot_hw s = (True, s1) \<and> t_family (tpm_st s1) = TPM20 \<and> t_ops (tpm_st s1) = Crb_Ops
     \<and> t_intf (tpm_st s1) = TPM_CRB"
proof -
  have same: "tpm_st (snd (tpm_read32 hw f s)) = tpm_st s" for hw :: "'d hw" and f and s :: "('d, 'x) tpm_machine_scheme"
    by (rule io_ext_tpm [OF tpm_io_ext(2) [of "\<lambda>_. True"]]) simp
  define s0 where "s0 = find_interface_and_family demo_boot_hw s"
  have 0: "t_family (tpm_st s0) = TPM20" "t_intf (tpm_st s0) = TPM_CRB"
    by (simp_all add: s0_def find_interface_and_family_def Let_def split_beta demo_reads same cap_interface_version_def
        id_interface_type_def TPM12_TIS_INTF_12_def TPM12_TIS_INTF_13_def TPM_CRB_INTF_ACTIVE_def)
  obtain s1 where 1: "crb_request_locality demo_boot_hw 0 s0 = (0, s1)"
    using demo_crb_granted [of 0 s0] by (cases "crb_request_locality demo_boot_hw 0 s0") auto
  have "tpm_st s1 = tpm_st s0" using crb_request_frame [OF 1] by (simp add: locality_frame_def)
  moreover obtain s2 where 2: "tpm_read32 demo_boot_hw (REGISTER 0 (TPM_CRB_INTF_ID + 4)) s1 = (0, s2)"
    using demo_reads(6) [of s1] by (cases "tpm_read32 demo_boot_hw (REGISTER 0 (TPM_CRB_INTF_ID + 4)) s1") auto
  moreover have "tpm_st s2 = tpm_st s1" using same [of demo_boot_hw _ s1] 2 by (metis snd_conv)
  moreover have "tpm_st (snd (cmd_ready demo_boot_hw (go_idle demo_boot_hw t))) = tpm_st t" for t :: "unit skl_machine"
    using io_ext_tpm(4) [OF io_ext_trans [OF idle_io(1) idle_io(2)]] by blast
  ultimately show ?thesis using 0 1
    by (simp add: enable_tpm_def s0_def [symmetric] crb_init_def Let_def split_beta intf_vid_def locality_consts)
qed

lemma demo_tpm_granted:
  assumes "t_ops (tpm_st s) = Crb_Ops"
  shows "\<exists>t. tpm_request_locality demo_boot_hw L 2 s = Some (2, t)"
proof -
  have "\<exists>t. crb_request_locality demo_boot_hw 2 s = (2, t)"
    using demo_crb_granted [of 2 s] by (cases "crb_request_locality demo_boot_hw 2 s") simp
  then show ?thesis using assms by (auto simp: tpm_request_locality_def ops_request_locality_def)
qed

definition launched :: "'d skl_machine \<Rightarrow> bool" where
  "launched s \<longleftrightarrow> crb_ready s \<and> as_loaded (ram s) \<and> (\<forall>x < 0xFED00000. \<not> off_limits s x)"

lemma launched_tame: "tame s t \<Longrightarrow> launched s \<Longrightarrow> launched t"
  using crb_ready_tame [of s t] tame_off_limits [of s t]
  by (auto simp: launched_def as_loaded_def) (auto simp: tame_def)

lemma launched_extend:
  assumes "launched s"
  shows "\<exists>t. extend_pcr hw a n pcr (Literal ev) s = Some (Inr ((), t)) \<and> launched t \<and> tame s t"
  using extend_pcr_returns [of s hw a n pcr ev] launched_tame assms by (fastforce simp: launched_def)

lemma launched_same: "tame s t \<Longrightarrow> launched s \<Longrightarrow> same_low (ram s) (ram t)"
  by (auto simp: tame_def launched_def same_low_def)

text \<open>The same launch with another image of the loader in memory.\<close>

abbreviation demo_on :: "mem \<Rightarrow> unit skl_machine" where
  "demo_on m \<equiv> demo_boot\<lparr>ram := m\<rparr>"

lemma demo_on_demo: "demo_on demo_boot_mem = demo_boot"
  by (simp add: demo_boot_def)

lemma demo_start_on:
  assumes m: "as_loaded m"
  shows "\<exists>t. start_tpm demo_boot_hw demo_skl_layout (pci_init demo_boot_hw (demo_on m)) = Some (Inr ((), t)) \<and> launched t
    \<and> unat (b_head (tpm_buff t)) + unat (b_truesize (tpm_buff t)) \<le> 0xFED50000 \<and> same_low m (ram t)"
proof -
  let ?hw = demo_boot_hw and ?L = demo_skl_layout and ?s = "pci_init demo_boot_hw (demo_on m)"
  have s: "ram ?s = m" "tpm_buff ?s = demo_buff\<lparr>b_head := 0\<rparr>" "evl ?s = evlog_init"
    by (simp_all add: pci_init_def rdmsr_def io_defs demo_boot_def Let_def split_beta)
  obtain s1 where 1: "enable_tpm ?hw ?s = (True, s1)" "t_family (tpm_st s1) = TPM20" "t_ops (tpm_st s1) = Crb_Ops"
    "t_intf (tpm_st s1) = TPM_CRB" using demo_tpm_found [of ?s] by blast
  have s1: "ram s1 = m" "tpm_buff s1 = demo_buff\<lparr>b_head := 0\<rparr>" "evl s1 = evlog_init"
    using enable_tpm_frame [OF 1(1)] s by (simp_all add: init_frame_def) (cases s1, cases ?s, simp)
  obtain s2 where 2: "ops_request_locality ?hw 2 s1 = Some (2, s2)"
    using demo_crb_granted [of 2 s1] 1(3) by (cases "crb_request_locality ?hw 2 s1") (simp add: ops_request_locality_def)
  have s2: "ram s2 = m" "tpm_buff s2 = tpm_buff s1" "evl s2 = evlog_init" "tpm_st s2 = tpm_st s1"
    using ops.request_in [OF 2] s1 by (simp_all add: locality_frame_def) (cases s1, cases s2, simp)
  define b where "b = alloc_tpmbuff (lay ?L) TPM_CRB 2 (tpm_buff s1)"
  have "buff_idle (lay ?L) (tpm_buff s1)" by (simp add: s1(2) buff_idle_def)
  from alloc_ready [OF this, of 2 TPM_CRB] have b: "buff_inv b" "97 \<le> unat (b_truesize b)" by (simp_all add: b_def)
  have h: "0xFED40080 \<le> unat (b_head b)"
    using crb_head_bounds(1) [of 2] by (simp add: b_def alloc_tpmbuff_def reset_tpmbuff_def)
  have e: "unat (b_head b) + unat (b_truesize b) \<le> 0xFED50000"
    using crb_head_bounds(2) [of 2] by (simp add: b_def alloc_tpmbuff_def reset_tpmbuff_def buff_consts)
  obtain l m' where i: "event_log_init (Some TPM20) 0 256 evlog_init m = Some (Inr (0, l, m'))"
    "evtlog_base l = 0xFEE00000" "\<And>x. x < 0xFED00000 \<Longrightarrow> m' x = m x"
    using init_skinit20 [OF loaded_tags(2) [OF m] ids_fresh_init, of 274 298] loaded_digests [OF m]
    by (auto simp: loaded_fields(1) [OF m] demo_launch_fields in_region_def)
  have lb: "log_bounds TPM20 l" by (rule event_log_init_bounds [OF i(1) ids_fresh_init])
  define s3 where "s3 = s2\<lparr>tpm_buff := b, tpm_st := (tpm_st s2)\<lparr>t_buff := True\<rparr>, evl := l, ram := m'\<rparr>"
  have low: "same_low m (ram s3)" using i(3) by (simp add: same_low_def s3_def)
  have "as_loaded (ram s3)" by (rule same_low_loaded [OF low m])
  then have l3: "launched s3"
    using b h 1(2,3) s2 i(2,3) lb by (auto simp: launched_def crb_ready_def safe_state_def s3_def off_limits_def)
  from launched_extend [OF this] obtain t where t: "measure_bootloader_data ?hw ?L s3 = Some (Inr ((), t))" "launched t" "tame s3 t"
    unfolding measure_bootloader_data_def Let_def by blast
  have "tpm_request_locality ?hw (lay ?L) 2 s1 = Some (2, s2\<lparr>tpm_buff := b, tpm_st := (tpm_st s2)\<lparr>t_buff := True\<rparr>\<rparr>)"
    using 2 1(4) s2 by (simp add: tpm_request_locality_def b_def locality_consts)
  with i(1) have "start_tpm ?hw ?L ?s = Some (Inr ((), t))"
    using 1 s2 t(1) by (simp add: start_tpm_def andthen_def polled_def faulty_def s3_def)
  moreover have "same_low m (ram t)" by (rule same_low_trans [OF low launched_same [OF t(3) l3]])
  ultimately show ?thesis using t e by (auto simp: tame_def s3_def)
qed

lemma demo_start:
  "\<exists>t. start_tpm demo_boot_hw demo_skl_layout (pci_init demo_boot_hw demo_boot) = Some (Inr ((), t)) \<and> launched t
    \<and> unat (b_head (tpm_buff t)) + unat (b_truesize (tpm_buff t)) \<le> 0xFED50000"
  using demo_start_on [of demo_boot_mem, unfolded demo_on_demo] by (auto simp: as_loaded_def)

lemma demo_linux:
  assumes "launched s"
  shows "\<exists>t. skl_linux demo_boot_hw L 330 s = Some (Inr (\<lparr>pm_kernel_entry = 0x100400, ret_zero_page = 0x20000\<rparr>, t))
    \<and> same_low (ram s) (ram t) \<and> t_ops (tpm_st t) = Crb_Ops \<and> t_buff (tpm_st t)"
proof -
  let ?hw = demo_boot_hw
  obtain s1 where 1: "iommu_setup ?hw (lay L) s = Some s1" "ram s1 = ram s"
    using demo_no_iommu [of "lay L" s] by blast
  have "tpm_st s1 = tpm_st s" "evl s1 = evl s" "tpm_buff s1 = tpm_buff s"
    using iommu_setup_kept [OF 1(1)] by (cases s, cases s1, simp add: kept_def)+
  then have "launched s1 = launched s"
    using 1(2) by (simp add: launched_def crb_ready_def safe_state_def off_limits_def)
  then have s1: "launched s1" using assms by simp
  let ?p = "boot_params_at (ram s1) 0x20000"
  obtain s2 where 2: "extend_pcr ?hw (unat (code32_start ?p)) (push_bit 4 (syssize ?p)) 17
      (Literal ''Measured Kernel into PCR17'') s1 = Some (Inr ((), s2))" "launched s2" "tame s1 s2"
    using launched_extend [OF s1] by blast
  then obtain t where t: "leave_tpm ?hw s2 = Some (Inr ((), t))" "ram t = ram s2" "t_ops (tpm_st t) = Crb_Ops" "t_buff (tpm_st t)"
    using leave_tpm_returns [of s2 ?hw] by (auto simp: launched_def crb_ready_def)
  have l: "zero_page (boot_linux_at (ram s) 330) = 0x20000" "linux_entry (ram s1) ?p = Some 0x100400"
    using loaded_fields(2) loaded_kernel s1 assms by (simp_all add: launched_def)
  have "same_low (ram s) (ram t)" using launched_same [OF 2(3) s1] 1(2) t(2) by simp
  with l 1(1) 2(1) t show ?thesis
    by (simp add: skl_linux_def Let_def andthen_def polled_def returns_def)
qed

lemma demo_boots_on:
  assumes "as_loaded m"
  shows "\<exists>t. skl_main demo_boot_hw demo_skl_layout (demo_on m)
     = Some (Inr (\<lparr>pm_kernel_entry = 0x100400, ret_zero_page = 0x20000\<rparr>, t)) \<and> same_low m (ram t)"
proof -
  let ?hw = demo_boot_hw and ?L = demo_skl_layout
  have m: "as_loaded (ram (pci_init ?hw (demo_on m)))"
    using assms by (simp add: pci_init_def rdmsr_def io_defs Let_def split_beta)
  obtain s where s: "start_tpm ?hw ?L (pci_init ?hw (demo_on m)) = Some (Inr ((), s))" "launched s" "same_low m (ram s)"
    using demo_start_on [OF assms] by blast
  let ?ret = "\<lparr>pm_kernel_entry = 0x100400, ret_zero_page = 0x20000\<rparr>"
  obtain t where t: "skl_linux ?hw ?L 330 s = Some (Inr (?ret, t))" "same_low (ram s) (ram t)" "t_ops (tpm_st t) = Crb_Ops" "t_buff (tpm_st t)"
    using demo_linux [OF s(2)] by blast
  have a: "as_loaded (ram s)" using s(2) by (simp add: launched_def)
  have a': "as_loaded (ram t)" by (rule same_low_loaded [OF t(2) a])
  have type: "tag_type (hdr_at (ram s) 330) = SKL_TAG_BOOT_LINUX" using loaded_hdrs(5) [OF a] by (simp add: tag_consts)
  have b: "boot_kernel ?hw ?L s = Some (Inr (?ret, t))"
    using loaded_searches(3,4) [OF a] t(1)
    by (simp add: boot_kernel_def search_tags_def andthen_def faulty_def type)
  obtain u where u: "leave_tpm ?hw t = Some (Inr ((), u))" "ram u = ram t" using leave_tpm_returns [OF t(3,4)] by blast
  have "finish ?hw ?L ?ret t = Some (Inr (?ret, u))"
    using u loaded_searches(2) [OF a'] loaded_canary [OF a']
    by (simp add: finish_def search_tags_def andthen_def faulty_def returns_def)
  moreover have "same_low m (ram u)" using same_low_trans [OF s(3) t(2)] u(2) by simp
  ultimately show ?thesis using m s(1) b loaded_searches(1) [OF m]
    by (simp add: skl_main_def andthen_def faulty_def Let_def)
qed

lemma demo_boots:
  "\<exists>t. skl_main demo_boot_hw demo_skl_layout demo_boot
     = Some (Inr (\<lparr>pm_kernel_entry = 0x100400, ret_zero_page = 0x20000\<rparr>, t))"
  using demo_boots_on [of demo_boot_mem, unfolded demo_on_demo] by (auto simp: as_loaded_def)

lemma demo_fresh: "fresh demo_skl_layout demo_boot" "fresh demo_skl_layout (demo_on m)"
  by (simp_all add: fresh_def demo_boot_def buff_idle_def)



end
