(* ===== verification/Skl_Log.thy ===== *)
theory Skl_Log
  imports Skl_Props
begin

text \<open>
  What a measurement leaves in the event log: the record of \<^verbatim>\<open>extend_pcr\<close> carries the digests
  that were handed to the TPM, and these are the hashes of the measured memory.
\<close>

section \<open>The log depends on its region only\<close>

lemma log_repr_cong:
  assumes r: "log_repr hdr off bias enc l m es" and o: "off + 4 \<le> hdr"
    and same: "\<And>x. in_log l x \<Longrightarrow> m' x = m x"
  shows "log_repr hdr off bias enc l m' es"
proof -
  have p: "ptr_current l = evtlog_base l + hdr + length (concat (map enc es))" "ptr_current l \<le> limit l"
    using r by (simp_all add: log_repr_def)
  have "mem_read m' (evtlog_base l + hdr) (length (concat (map enc es)))
      = mem_read m (evtlog_base l + hdr) (length (concat (map enc es)))"
    by (rule mem_read_cong) (use p same in auto)
  moreover have "load32 m' (evtlog_base l + off) = load32 m (evtlog_base l + off)"
    by (rule load32_same) (use p same o in auto)
  ultimately show ?thesis using r by (simp add: log_repr_def)
qed

section \<open>Memory apart from the buffer of the TPM\<close>

definition in_buff :: "'d skl_machine \<Rightarrow> addr \<Rightarrow> bool" where
  "in_buff s x \<longleftrightarrow> t_buff (tpm_st s) \<and> unat (b_head (tpm_buff s)) \<le> x \<and> x < unat (b_head (tpm_buff s)) + unat (b_truesize (tpm_buff s))"

definition beside_buff :: "'d skl_machine \<Rightarrow> 'd skl_machine \<Rightarrow> bool" where
  "beside_buff s t \<longleftrightarrow> safe_state t \<and> evl t = evl s \<and> tpm_st t = tpm_st s \<and> in_buff t = in_buff s
     \<and> (\<forall>x. \<not> in_buff s x \<longrightarrow> ram t x = ram s x)"

lemma beside_buff_trans [trans]: "beside_buff s t \<Longrightarrow> beside_buff t u \<Longrightarrow> beside_buff s u"
  by (auto simp: beside_buff_def)

lemma tpm_extend_beside:
  assumes e: "tpm_extend_pcr hw pcr algo digest s = Some (Inr (r, t))" and s: "safe_state s"
  shows "beside_buff s t"
proof (cases "t_buff (tpm_st s)")
  case False
  with e s show ?thesis by (simp add: tpm_extend_pcr_def beside_buff_def)
next
  case True
  then have "buff_inv (tpm_buff s)" using s by (simp add: safe_state_def)
  from tpm_extend_pcr_frame [OF e this] have f: "buff_frame s t" .
  then have m: "machine.more t = machine.more (s\<lparr>tpm_buff := tpm_buff t\<rparr>)" by (simp add: buff_frame_def)
  show ?thesis
    using f skl_more [OF m] s True
    by (auto simp: beside_buff_def buff_frame_def safe_state_def in_buff_def outside_same_def fun_eq_iff)
qed

lemma beside_mem_read:
  assumes "beside_buff s t" "\<forall>x. a \<le> x \<and> x < a + n \<longrightarrow> \<not> in_buff s x"
  shows "mem_read (ram t) a n = mem_read (ram s) a n"
  by (rule mem_read_cong) (use assms in \<open>auto simp: beside_buff_def\<close>)

text \<open>The text of an event, and the addresses it is read from.\<close>

definition text_apart :: "'d skl_machine \<Rightarrow> event_text \<Rightarrow> nat \<Rightarrow> bool" where
  "text_apart s ev n \<longleftrightarrow> (case ev of Literal _ \<Rightarrow> True | String_At a \<Rightarrow> list_all (\<lambda>x. \<not> in_buff s x) [a..<a + n + 1])"

lemma beside_text:
  assumes b: "beside_buff s t" and e: "event_text_bytes (ram s) ev = Some str" and a: "text_apart s ev (length str)"
  shows "event_text_bytes (ram t) ev = Some str"
proof (cases ev)
  case (String_At a)
  let ?n = "length str"
  have s: "strlen (ram s) a = Some ?n" "str = mem_read (ram s) a ?n"
    using e by (auto simp: String_At event_text_bytes_def cstring_def)
  have same: "ram t x = ram s x" if "a \<le> x" "x \<le> a + ?n" for x
    using b assms(3) that by (auto simp: beside_buff_def text_apart_def String_At list_all_iff)
  then have "mem_read (ram t) a ?n = mem_read (ram s) a ?n" by (intro mem_read_cong) auto
  moreover from this s same [of "a + ?n"] have "strlen (ram t) a = Some ?n" by (simp add: strlen_iff)
  ultimately show ?thesis using s by (simp add: String_At event_text_bytes_def cstring_def)
qed (use e in \<open>simp add: event_text_bytes_def\<close>)

section \<open>One measurement\<close>

text \<open>The conditions: the measured bytes, the text and the open log lie apart from the buffer of the TPM.\<close>

definition measurable :: "'d skl_machine \<Rightarrow> addr \<Rightarrow> nat \<Rightarrow> event_text \<Rightarrow> u8 list \<Rightarrow> bool" where
  "measurable s a n ev str \<longleftrightarrow> safe_state s \<and> event_text_bytes (ram s) ev = Some str \<and> length str < 2 ^ 32
     \<and> text_apart s ev (length str)
     \<and> list_all (\<lambda>x. \<not> in_buff s x) [a..<a + n] \<and> list_all (\<lambda>x. \<not> in_buff s x) [evtlog_base (evl s)..<limit (evl s)]"

lemma hash_digests:
  "sha1sum (mem_read m a (unat n)) n = fips1 (mem_read m a (unat n))"
  "sha256sum (mem_read m a (unat n)) n = fips256 (mem_read m a (unat n))"
  by (simp_all add: sha1sum_fips sha256sum_fips)

lemma fips_lengths:
  "length (fips1 (mem_read m a (unat n))) = 20" "length (fips256 (mem_read m a (unat n))) = 32" for n :: u32
  by (simp_all only: hash_digests [symmetric] digest_lengths)

lemma measure12:
  assumes e: "extend_pcr hw a n pcr ev s = Some (Inr (u, t))" and c: "measurable s a (unat n) ev str"
    and f: "t_family (tpm_st s) = TPM12" and r: "repr12 (evl s) (ram s) es"
  defines "bytes \<equiv> mem_read (ram s) a (unat n)"
  shows "(\<exists>k s1. tpm_extend_pcr hw pcr TPM_ALG_SHA1 (fips1 bytes) s = Some (Inr (k, s1)) \<and> trace t = trace s1)
    \<and> repr12 (evl t) (ram t) (admit (room hdr12_len (evl s)) enc12 (pcr, fips1 bytes, str) es)"
proof -
  obtain k s1 where 1: "tpm_extend_pcr hw pcr TPM_ALG_SHA1 (fips1 bytes) s = Some (Inr (k, s1))"
    and x: "(case t_family (tpm_st s1) of TPM12 \<Rightarrow> log_extend12 pcr (fips1 bytes) ev s1
        | TPM20 \<Rightarrow>
            (let hash2 = sha256sum (mem_read (ram s1) a (unat n)) n
             in andthen (faulty (tpm_extend_pcr hw pcr TPM_ALG_SHA256 hash2 s1)) (\<lambda>_ s.
                  log_extend20 pcr (fips1 bytes) hash2 ev s))) = Some (Inr (u, t))"
    using e unfolding extend_pcr_def Let_def hash_digests(1) bytes_def by (auto simp: run_iff Let_def)
  have s: "safe_state s" using c by (simp add: measurable_def)
  note b = tpm_extend_beside [OF 1 s]
  have f1: "t_family (tpm_st s1) = TPM12" "evl s1 = evl s" using b f by (simp_all add: beside_buff_def)
  have str: "event_text_bytes (ram s1) ev = Some str"
    by (rule beside_text [OF b]) (use c in \<open>simp_all add: measurable_def\<close>)
  obtain q l m where l: "append12 (pcr, fips1 bytes, str) (evl s1) (ram s1) = (q, l, m)"
    by (cases "append12 (pcr, fips1 bytes, str) (evl s1) (ram s1)")
  with x f1 str have t: "t = s1\<lparr>evl := l, ram := m\<rparr>"
    by (simp add: log_extend12_def returns_def)
  have "repr12 (evl s1) (ram s1) es"
    unfolding f1(2) by (rule log_repr_cong [OF r])
      (use b c in \<open>auto simp: hdr12_len_def sizeofs beside_buff_def measurable_def list_all_iff\<close>)
  moreover have "length (fips1 bytes) = 20" by (simp add: bytes_def fips_lengths)
  ultimately have "repr12 l m (admit (room hdr12_len (evl s1)) enc12 (pcr, fips1 bytes, str) es)"
    using tpm12log.append_cases [OF _ _ l] c by (simp add: measurable_def)
  with 1 t f1(2) show ?thesis by simp
qed

lemma measure20:
  assumes e: "extend_pcr hw a n pcr ev s = Some (Inr (u, t))" and c: "measurable s a (unat n) ev str"
    and f: "t_family (tpm_st s) = TPM20" and r: "repr20 (evl s) (ram s) es"
  defines "bytes \<equiv> mem_read (ram s) a (unat n)"
  shows "(\<exists>k s1 k2 s2. tpm_extend_pcr hw pcr TPM_ALG_SHA1 (fips1 bytes) s = Some (Inr (k, s1))
      \<and> tpm_extend_pcr hw pcr TPM_ALG_SHA256 (fips256 bytes) s1 = Some (Inr (k2, s2)) \<and> trace t = trace s2)
    \<and> repr20 (evl t) (ram t) (admit (room hdr20_len (evl s)) enc20 (pcr, fips1 bytes, fips256 bytes, str) es)"
proof -
  have s: "safe_state s" using c by (simp add: measurable_def)
  obtain k s1 where 1: "tpm_extend_pcr hw pcr TPM_ALG_SHA1 (fips1 bytes) s = Some (Inr (k, s1))"
    and x: "(case t_family (tpm_st s1) of TPM12 \<Rightarrow> log_extend12 pcr (fips1 bytes) ev s1
        | TPM20 \<Rightarrow>
            (let hash2 = sha256sum (mem_read (ram s1) a (unat n)) n
             in andthen (faulty (tpm_extend_pcr hw pcr TPM_ALG_SHA256 hash2 s1)) (\<lambda>_ s.
                  log_extend20 pcr (fips1 bytes) hash2 ev s))) = Some (Inr (u, t))"
    using e unfolding extend_pcr_def Let_def hash_digests(1) bytes_def by (auto simp: run_iff Let_def)
  note b1 = tpm_extend_beside [OF 1 s]
  then have f1: "t_family (tpm_st s1) = TPM20" "safe_state s1" using f by (simp_all add: beside_buff_def)
  have "mem_read (ram s1) a (unat n) = bytes"
    unfolding bytes_def by (rule beside_mem_read [OF b1]) (use c in \<open>auto simp: measurable_def list_all_iff\<close>)
  then have h: "sha256sum (mem_read (ram s1) a (unat n)) n = fips256 bytes" using hash_digests(2) [of "ram s1" a n] by simp
  from x f1(1) obtain k2 s2 where 2: "tpm_extend_pcr hw pcr TPM_ALG_SHA256 (fips256 bytes) s1 = Some (Inr (k2, s2))"
    and y: "log_extend20 pcr (fips1 bytes) (fips256 bytes) ev s2 = Some (Inr (u, t))"
    by (auto simp: Let_def run_iff h)
  note b = beside_buff_trans [OF b1 tpm_extend_beside [OF 2 f1(2)]]
  have f2: "evl s2 = evl s" using b by (simp add: beside_buff_def)
  have str: "event_text_bytes (ram s2) ev = Some str"
    by (rule beside_text [OF b]) (use c in \<open>simp_all add: measurable_def\<close>)
  obtain q l m where l: "append20 (pcr, fips1 bytes, fips256 bytes, str) (evl s2) (ram s2) = (q, l, m)"
    by (cases "append20 (pcr, fips1 bytes, fips256 bytes, str) (evl s2) (ram s2)")
  with y str have t: "t = s2\<lparr>evl := l, ram := m\<rparr>"
    by (simp add: log_extend20_def returns_def)
  have "repr20 (evl s2) (ram s2) es"
    unfolding f2 by (rule log_repr_cong [OF r])
      (use b c in \<open>auto simp: hdr20_len_def sizeofs beside_buff_def measurable_def list_all_iff\<close>)
  moreover have "length (fips1 bytes) = 20" "length (fips256 bytes) = 32" by (simp_all add: bytes_def fips_lengths)
  ultimately have "repr20 l m (admit (room hdr20_len (evl s2)) enc20 (pcr, fips1 bytes, fips256 bytes, str) es)"
    using tpm20log.append_cases [OF _ _ l] c by (simp add: measurable_def)
  with 1 2 t f2 show ?thesis by auto
qed

lemma extend_pcr_measures:
  assumes e: "extend_pcr hw a n pcr ev s = Some (Inr (u, t))" and c: "measurable s a (unat n) ev str"
    and r: "case t_family (tpm_st s) of TPM12 \<Rightarrow> repr12 (evl s) (ram s) es | TPM20 \<Rightarrow> repr20 (evl s) (ram s) es'"
  shows "let bytes = mem_read (ram s) a (unat n) in
    case t_family (tpm_st s) of
      TPM12 \<Rightarrow>
        (\<exists>k s1. tpm_extend_pcr hw pcr TPM_ALG_SHA1 (fips1 bytes) s = Some (Inr (k, s1)) \<and> trace t = trace s1)
        \<and> repr12 (evl t) (ram t) (admit (room hdr12_len (evl s)) enc12 (pcr, fips1 bytes, str) es)
    | TPM20 \<Rightarrow>
        (\<exists>k s1 k2 s2. tpm_extend_pcr hw pcr TPM_ALG_SHA1 (fips1 bytes) s = Some (Inr (k, s1))
          \<and> tpm_extend_pcr hw pcr TPM_ALG_SHA256 (fips256 bytes) s1 = Some (Inr (k2, s2)) \<and> trace t = trace s2)
        \<and> repr20 (evl t) (ram t) (admit (room hdr20_len (evl s)) enc20 (pcr, fips1 bytes, fips256 bytes, str) es')"
proof (cases "t_family (tpm_st s)")
  case TPM12
  with measure12 [OF e c TPM12] r show ?thesis by (simp add: Let_def)
next
  case TPM20
  with measure20 [OF e c TPM20] r show ?thesis by (simp add: Let_def)
qed

text \<open>
  C5. A measurement (\<^verbatim>\<open>extend_pcr\<close> of \<^verbatim>\<open>main.c\<close>) hands the FIPS digests of the measured memory to the
  TPM, and the record it adds to the event log, if there is room, holds the same PCR number, the
  same digests and the text of the event: one SHA-1 command and a TPM 1.2 record, or a SHA-1 and
  then a SHA-256 command and a TPM 2.0 record. The log keeps what it held, whatever the TPM
  answers.
\<close>

theorem extend_pcr_logs_what_it_sends:
  assumes "extend_pcr hw a n pcr ev s = Some (Inr (u, t))" and "measurable s a (unat n) ev str"
    and "case t_family (tpm_st s) of TPM12 \<Rightarrow> repr12 (evl s) (ram s) es | TPM20 \<Rightarrow> repr20 (evl s) (ram s) es'"
  shows "let bytes = mem_read (ram s) a (unat n) in
    case t_family (tpm_st s) of
      TPM12 \<Rightarrow>
        (\<exists>k s1. tpm_extend_pcr hw pcr TPM_ALG_SHA1 (fips1 bytes) s = Some (Inr (k, s1)) \<and> trace t = trace s1)
        \<and> repr12 (evl t) (ram t) (admit (room hdr12_len (evl s)) enc12 (pcr, fips1 bytes, str) es)
    | TPM20 \<Rightarrow>
        (\<exists>k s1 k2 s2. tpm_extend_pcr hw pcr TPM_ALG_SHA1 (fips1 bytes) s = Some (Inr (k, s1))
          \<and> tpm_extend_pcr hw pcr TPM_ALG_SHA256 (fips256 bytes) s1 = Some (Inr (k2, s2)) \<and> trace t = trace s2)
        \<and> repr20 (evl t) (ram t) (admit (room hdr20_len (evl s)) enc20 (pcr, fips1 bytes, fips256 bytes, str) es')"
  by (rule extend_pcr_measures [OF assms])

section \<open>A launch of Linux\<close>

lemma leave_tpm_log: "leave_tpm hw s = Some (Inr (u, t)) \<Longrightarrow> evl t = evl s \<and> tpm_st t = tpm_st s"
proof -
  have r: "evl t = evl s \<and> tpm_st t = tpm_st s" if l: "tpm_relinquish_locality hw s = Some (Inr t)" for s t :: "'a skl_machine"
  proof -
    obtain s1 where 1: "ops_relinquish_locality hw s = Some s1" "t = s1\<lparr>tpm_buff := free_tpmbuff (tpm_buff s1) (t_intf (tpm_st s1))\<rparr>"
      using l by (cases "ops_relinquish_locality hw s") (auto simp: tpm_relinquish_locality_def split: if_splits)
    from ops.relinquish_in [OF 1(1)] have "tpm_st s1 = tpm_st s" "tpm_machine.more s1 = tpm_machine.more s"
      by (simp_all add: locality_frame_def)
    then show ?thesis unfolding 1(2) by (cases s, cases s1) simp
  qed
  assume "leave_tpm hw s = Some (Inr (u, t))"
  then show ?thesis by (auto simp: leave_tpm_def free_tpm_def run_iff dest!: r)
qed

abbreviation kernel_text :: string where "kernel_text \<equiv> ''Measured Kernel into PCR17''"

text \<open>
  If \<^verbatim>\<open>skl_linux\<close> returns, the record it added for PCR 17 (if the log had room) holds the FIPS
  digests of the kernel as it is in memory when the loader has left the TPM, and the entry point
  lies in those bytes.
\<close>

lemma linux_kernel_logged:
  assumes r: "skl_linux hw L tag s = Some (Inr (ret, t))" and 2: "iommu_setup hw (lay L) s = Some s2"
    and p: "p = boot_params_at (ram s2) (unat (zero_page (boot_linux_at (ram s) tag)))"
    and c: "measurable s2 (unat (code32_start p)) (unat (push_bit 4 (syssize p))) (Literal kernel_text) (ascii kernel_text)"
    and k: "\<forall>x. x \<in> kernel_bytes p \<longrightarrow> \<not> in_log (evl s2) x"
    and l: "case t_family (tpm_st s2) of TPM12 \<Rightarrow> repr12 (evl s2) (ram s2) es | TPM20 \<Rightarrow> repr20 (evl s2) (ram s2) es'"
  shows "let bytes = mem_read (ram t) (unat (code32_start p)) (unat (push_bit 4 (syssize p))) in
     unat (pm_kernel_entry ret) \<in> kernel_bytes p
     \<and> (case t_family (tpm_st s2) of
          TPM12 \<Rightarrow> repr12 (evl t) (ram t) (admit (room hdr12_len (evl s2)) enc12 (17, fips1 bytes, ascii kernel_text) es)
        | TPM20 \<Rightarrow> repr20 (evl t) (ram t) (admit (room hdr20_len (evl s2)) enc20 (17, fips1 bytes, fips256 bytes, ascii kernel_text) es'))"
proof -
  let ?a = "unat (code32_start p)" and ?n = "unat (push_bit 4 (syssize p))"
  obtain entry u where e: "linux_entry (ram s2) p = Some entry" and ret: "pm_kernel_entry ret = entry"
    and x: "extend_pcr hw ?a (push_bit 4 (syssize p)) 17 (Literal kernel_text) s2 = Some (Inr ((), u))"
    and v: "leave_tpm hw u = Some (Inr ((), t))"
    using r 2 by (auto simp: skl_linux_def Let_def run_iff p split: option.split_asm)
  have m: "ram t = ram u" "evl t = evl u" "tpm_st t = tpm_st u" using leave_tpm_ram [OF v] leave_tpm_log [OF v] by simp_all
  have tm: "tame s2 u" by (rule extend_pcr_tame [OF x]) (use c in \<open>simp add: measurable_def\<close>)
  have "mem_read (ram u) ?a ?n = mem_read (ram s2) ?a ?n"
  proof (rule mem_read_cong)
    fix i assume "i < ?n"
    then have "\<not> off_limits s2 (?a + i)"
      using c k by (auto simp: measurable_def list_all_iff off_limits_def in_buff_def kernel_bytes_def)
    then show "ram u (?a + i) = ram s2 (?a + i)" using tm by (simp add: tame_def)
  qed
  then show ?thesis
    using extend_pcr_measures [OF x c l] linux_entry_in [OF e] m ret
    by (auto simp: Let_def split: tpm_family.splits)
qed

section \<open>A concrete log\<close>

text \<open>The state of the demo launch with an empty log of 1 KB at 0xFEE00000, and sixteen bytes of its kernel.\<close>

definition demo_measure :: "unit skl_machine" where
  "demo_measure = demo_boot\<lparr>tpm_buff := alloc_tpmbuff (lay demo_skl_layout) TPM_CRB 2 (demo_buff\<lparr>b_head := 0\<rparr>),
     tpm_st := \<lparr>t_vendor = 0, t_family = TPM20, t_intf = TPM_CRB, t_ops = Crb_Ops, t_buff = True\<rparr>,
     evl := evlog_init\<lparr>evtlog_base := 0xFEE00000, ptr_current := 0xFEE00000 + hdr20_len, limit := 0xFEE00400\<rparr>,
     ram := store32 demo_boot_mem (0xFEE00000 + next_record_offset_at) (of_nat hdr20_len)\<rparr>"

lemma demo_measure_fields:
  "t_family (tpm_st demo_measure) = TPM20" "t_ops (tpm_st demo_measure) = Crb_Ops" "t_buff (tpm_st demo_measure)"
  "evl demo_measure = evlog_init\<lparr>evtlog_base := 0xFEE00000, ptr_current := 0xFEE00000 + hdr20_len, limit := 0xFEE00400\<rparr>"
  by (simp_all add: demo_measure_def)

lemma demo_measure_buff:
  "buff_inv (tpm_buff demo_measure)" "97 \<le> unat (b_truesize (tpm_buff demo_measure))"
  "in_buff demo_measure x \<Longrightarrow> 0xFED40080 \<le> x \<and> x < 0xFED50000"
proof -
  have i: "buff_idle (lay demo_skl_layout) (demo_buff\<lparr>b_head := 0\<rparr>)" by (simp add: buff_idle_def)
  from alloc_ready [OF i, of 2 TPM_CRB] show "buff_inv (tpm_buff demo_measure)" "97 \<le> unat (b_truesize (tpm_buff demo_measure))"
    by (simp_all add: demo_measure_def)
  assume "in_buff demo_measure x"
  then show "0xFED40080 \<le> x \<and> x < 0xFED50000"
    using crb_head_bounds [of 2]
    by (simp add: in_buff_def demo_measure_def alloc_tpmbuff_def reset_tpmbuff_def buff_consts)
qed

lemma demo_measure_safe: "safe_state demo_measure"
  using demo_measure_buff(1) by (simp add: safe_state_def demo_measure_fields log_bounds_def hdr20_len_def sizeofs)

lemma demo_measure_clear:
  "0xFED50000 \<le> b \<or> c \<le> 0xFED40080 \<Longrightarrow> list_all (\<lambda>x. \<not> in_buff demo_measure x) [b..<c]"
  using demo_measure_buff(3) by (fastforce simp: list_all_iff)

lemma demo_measure_empty: "repr20 (evl demo_measure) (ram demo_measure) []"
  by (simp add: log_repr_def demo_measure_fields) (simp add: demo_measure_def hdr20_len_def sizeofs load32_store32)

lemma demo_measure_room:
  assumes "length a = 20" "length b = 32"
  shows "admit (room hdr20_len (evl demo_measure)) enc20 (17, a, b, ascii kernel_text) [] = [(17, a, b, ascii kernel_text)]"
  using assms by (simp add: admit_def room_def demo_measure_fields hdr20_len_def sizeofs length_event20_bytes)

lemma demo_measure_launched: "launched demo_measure"
proof -
  have "as_loaded (ram demo_measure)"
    by (simp add: as_loaded_def demo_measure_def store32_def mem_write_out)
  moreover have "\<not> off_limits demo_measure x" if "x < 0xFED00000" for x
    using demo_measure_buff(3) [of x] that by (auto simp: off_limits_def demo_measure_fields in_buff_def)
  moreover have "crb_ready demo_measure"
    using demo_measure_safe demo_measure_buff(2) by (simp add: crb_ready_def demo_measure_fields)
  ultimately show ?thesis by (simp add: launched_def)
qed

lemma demo_measurable:
  assumes "a + n \<le> 0xFED40080"
  shows "measurable demo_measure a n (Literal ev) (ascii ev) \<longleftrightarrow> length ev < 2 ^ 32"
proof -
  have "list_all (\<lambda>x. \<not> in_buff demo_measure x) [evtlog_base (evl demo_measure)..<limit (evl demo_measure)]"
    by (rule demo_measure_clear) (simp add: demo_measure_fields)
  with demo_measure_safe demo_measure_clear [of a "a + n"] assms show ?thesis
    by (simp add: measurable_def event_text_bytes_def text_apart_def)
qed

theorem extend_pcr_logs_what_it_sends_witness:
  "\<exists>t. extend_pcr demo_boot_hw 0x100000 16 17 (Literal kernel_text) demo_measure = Some (Inr ((), t))
     \<and> repr20 (evl t) (ram t)
        [(17, fips1 (mem_read (ram demo_measure) 0x100000 16), fips256 (mem_read (ram demo_measure) 0x100000 16),
          ascii kernel_text)]"
proof -
  obtain t where t: "extend_pcr demo_boot_hw 0x100000 16 17 (Literal kernel_text) demo_measure = Some (Inr ((), t))"
    using extend_pcr_returns demo_measure_launched by (fastforce simp: launched_def)
  have "measurable demo_measure 0x100000 (unat (16 :: u32)) (Literal kernel_text) (ascii kernel_text)"
    by (subst demo_measurable) simp_all
  from extend_pcr_logs_what_it_sends [OF t this, of "[]" "[]"] t demo_measure_empty show ?thesis
    using fips_lengths [where m = "ram demo_measure" and a = "0x100000" and n = 16]
    by (simp add: Let_def demo_measure_fields(1) demo_measure_room)
qed

lemma kept_skl:
  fixes s t :: "'d skl_machine"
  assumes "kept s t"
  shows "tpm_st t = tpm_st s" "evl t = evl s" "tpm_buff t = tpm_buff s"
  using assms by (cases s, cases t, simp add: kept_def)+

lemma measurable_same:
  "ram t = ram s \<Longrightarrow> evl t = evl s \<Longrightarrow> tpm_st t = tpm_st s \<Longrightarrow> tpm_buff t = tpm_buff s \<Longrightarrow> measurable t = measurable s"
proof -
  assume same: "ram t = ram s" "evl t = evl s" "tpm_st t = tpm_st s" "tpm_buff t = tpm_buff s"
  then have "in_buff t = in_buff s" by (simp add: in_buff_def fun_eq_iff)
  with same show ?thesis by (intro ext) (simp add: measurable_def safe_state_def text_apart_def cong: event_text.case_cong)
qed

lemma loaded_params: "as_loaded m \<Longrightarrow> boot_params_at m 0x20000 = demo_params"
  by (simp add: boot_params_at_def demo_params_def load32_def load16_def mem_read_def upt_rec as_loaded_def
      demo_boot_mem_def of_le_def)

end
