(* ===== verification/Launch_Log.thy ===== *)
theory Launch_Log
  imports Skl_Log
begin

text \<open>
  The event log of a whole launch of Linux, for both families: the SKINIT record with the digests
  that the boot loader passed, the boot loader's data for PCR 18, and the kernel for PCR 17.
\<close>

section \<open>Records of either family\<close>

text \<open>A TPM 1.2 log has no SHA-256 digests.\<close>

fun drop256 :: "ev20 \<Rightarrow> ev12" where
  "drop256 (pcr, d1, d2, event) = (pcr, d1, event)"

definition log_holds :: "tpm_family \<Rightarrow> evlog \<Rightarrow> mem \<Rightarrow> ev20 list \<Rightarrow> bool" where
  "log_holds f l m es \<longleftrightarrow> (case f of TPM12 \<Rightarrow> repr12 l m (map drop256 es) | TPM20 \<Rightarrow> repr20 l m es)"

definition log_fits :: "tpm_family \<Rightarrow> evlog \<Rightarrow> ev20 list \<Rightarrow> bool" where
  "log_fits f l es \<longleftrightarrow> (case f of
     TPM12 \<Rightarrow> length (concat (map enc12 (map drop256 es))) < room hdr12_len l
   | TPM20 \<Rightarrow> length (concat (map enc20 es)) < room hdr20_len l)"

definition measured :: "u32 \<Rightarrow> u8 list \<Rightarrow> string \<Rightarrow> ev20" where
  "measured pcr bytes event = (pcr, fips1 bytes, fips256 bytes, ascii event)"

lemma log_holds_same:
  assumes "log_holds f l m es" "\<And>x. in_log l x \<Longrightarrow> m' x = m x"
  shows "log_holds f l m' es"
proof (cases f)
  case TPM12
  then show ?thesis
    using assms log_repr_cong [where m = m and m' = m' and l = l and off = next_event_offset_at and hdr = hdr12_len]
    by (simp add: log_holds_def hdr12_len_def sizeofs)
next
  case TPM20
  then show ?thesis
    using assms log_repr_cong [where m = m and m' = m' and l = l and off = next_record_offset_at and hdr = hdr20_len]
    by (simp add: log_holds_def hdr20_len_def sizeofs)
qed

lemma measure_logged:
  assumes e: "extend_pcr hw a n pcr (Literal ev) s = Some (Inr (u, t))"
    and c: "measurable s a (unat n) (Literal ev) (ascii ev)"
    and h: "log_holds (t_family (tpm_st s)) (evl s) (ram s) es"
    and r: "log_fits (t_family (tpm_st s)) (evl s) (es @ [measured pcr (mem_read (ram s) a (unat n)) ev])"
  shows "log_holds (t_family (tpm_st s)) (evl t) (ram t) (es @ [measured pcr (mem_read (ram s) a (unat n)) ev])"
    and "tame s t"
proof -
  show "tame s t" by (rule extend_pcr_tame [OF e]) (use c in \<open>simp add: measurable_def\<close>)
  show "log_holds (t_family (tpm_st s)) (evl t) (ram t) (es @ [measured pcr (mem_read (ram s) a (unat n)) ev])"
  proof (cases "t_family (tpm_st s)")
    case TPM12
    then show ?thesis
      using measure12 [OF e c TPM12, of "map drop256 es"] h r
      by (simp add: log_holds_def log_fits_def measured_def admit_def)
  next
    case TPM20
    then show ?thesis
      using measure20 [OF e c TPM20, of es] h r
      by (simp add: log_holds_def log_fits_def measured_def admit_def)
  qed
qed

section \<open>The start of the log\<close>

definition skinit_digests :: "tpm_family \<Rightarrow> mem \<Rightarrow> addr list \<Rightarrow> (u8 list \<times> u8 list) option" where
  "skinit_digests f m hs = (case f of
     TPM12 \<Rightarrow> map_option (\<lambda>d. (mem_read m d 20, [])) (sha1_of m hs)
   | TPM20 \<Rightarrow> map_option (\<lambda>(d, d2). (mem_read m d 20, mem_read m d2 32)) (both_of m hs 0 0))"

lemma init_logged:
  assumes L: "launch_list f m start bd ts tag" and i: "ids_fresh l"
    and d: "skinit_digests f m (of_kind m SKL_TAG_SKL_HASH (tl ts)) = Some (d1, d2)"
  obtains l' m' where "event_log_init (Some f) start bd l m = Some (Inr (0, l', m'))"
    "evtlog_base l' = unat (evtlog_address (evtlog_at m tag))"
    "limit l' = unat (evtlog_address (evtlog_at m tag)) + unat (evtlog_size (evtlog_at m tag))"
    "log_holds f l' m' [(17, d1, d2, ascii ''SKINIT'')]"
    "\<And>x. \<not> in_region (evtlog_at m tag) x \<Longrightarrow> m' x = m x"
proof (cases f)
  case TPM12
  with d obtain d' where d': "sha1_of m (of_kind m SKL_TAG_SKL_HASH (tl ts)) = Some d'" "d1 = mem_read m d' 20"
    by (auto simp: skinit_digests_def)
  from init_skinit12 [OF L [unfolded TPM12] i d'(1)] that show ?thesis
    by (auto simp: TPM12 log_holds_def d'(2))
next
  case TPM20
  with d obtain a b where d': "both_of m (of_kind m SKL_TAG_SKL_HASH (tl ts)) 0 0 = Some (a, b)" "d1 = mem_read m a 20" "d2 = mem_read m b 32"
    by (auto simp: skinit_digests_def)
  from init_skinit20 [OF L [unfolded TPM20] i d'(1)] that show ?thesis
    by (auto simp: TPM20 log_holds_def d'(2,3))
qed

lemma skinit_lengths:
  assumes "skinit_digests f m hs = Some (d1, d2)"
  shows "length d1 = 20 \<and> (f = TPM20 \<longrightarrow> length d2 = 32)"
  using assms by (cases f) (auto simp: skinit_digests_def)

lemma fips_length: "length (fips1 b) = 20" "length (fips256 b) = 32"
proof -
  show "length (fips1 b) = 20"
    by (cases "md_fold fips1_compress (0x67452301, 0xefcdab89, 0x98badcfe, 0x10325476, 0xc3d2e1f0) (md_pad b)") (simp add: fips1_def)
  show "length (fips256 b) = 32"
    by (cases "md_fold fips2_compress (0x6a09e667, 0xbb67ae85, 0x3c6ef372, 0xa54ff53a,
      0x510e527f, 0x9b05688c, 0x1f83d9ab, 0x5be0cd19) (md_pad b)" rule: sha256_regs_cases) (simp add: fips256_def)
qed

abbreviation data_text :: string where "data_text \<equiv> ''Measured bootloader data into PCR18''"

text \<open>A kilobyte is enough for the three records.\<close>

lemma launch_fits:
  assumes "length d1 = 20 \<and> (f = TPM20 \<longrightarrow> length d2 = 32)" "limit l = evtlog_base l + n" "0x400 \<le> n"
  shows "log_fits f l [(17, d1, d2, ascii ''SKINIT''), measured 18 b data_text]"
    "log_fits f l [(17, d1, d2, ascii ''SKINIT''), measured 18 b data_text, measured 17 k kernel_text]"
  using assms
  by (cases f; simp add: log_fits_def measured_def room_def hdr12_len_def hdr20_len_def sizeofs length_event12_bytes
      length_event20_bytes fips_length)+

section \<open>Up to the boot loader's data\<close>

definition tag_bytes :: "mem \<Rightarrow> addr \<Rightarrow> u8 list" where
  "tag_bytes m bd = mem_read m bd (unat (tags_size (tags_size_at m bd)))"

text \<open>What the two halves of a launch need: tags of the right shape, room, and the TPM's buffer out of the way.\<close>

definition log_ready :: "skl_layout \<Rightarrow> mem \<Rightarrow> 'd skl_machine \<Rightarrow> addr list \<Rightarrow> addr \<Rightarrow> u8 list \<Rightarrow> u8 list \<Rightarrow> bool" where
  "log_ready L m t ts tag d1 d2 \<longleftrightarrow>
     (let f = t_family (tpm_st t); bd = unat (l_bootloader_data L) in
      launch_list f m (unat (l_start L)) bd ts tag
      \<and> skinit_digests f m (of_kind m SKL_TAG_SKL_HASH (tl ts)) = Some (d1, d2)
      \<and> 0x400 \<le> unat (evtlog_size (evtlog_at m tag))
      \<and> (\<forall>x. in_buff t x \<longrightarrow> \<not> in_region (evtlog_at m tag) x \<and> \<not> (bd \<le> x \<and> x < end_of_tags m bd)))"

lemma region_apart_tags:
  assumes "launch_list f m start bd ts tag" "bd \<le> x" "x \<le> end_of_tags m bd"
  shows "\<not> in_region (evtlog_at m tag) x"
  using assms by (auto simp: launch_list_def valid_tags_def region_ok_def in_region_def)

lemma ucast_u32 [simp]: "unat (ucast (x :: u16) :: u32) = unat x"
  by (simp add: unsigned_ucast_eq take_bit_nat_eq_self order.strict_trans [OF unsigned_less])

lemma start_tpm_logged:
  assumes r: "start_tpm hw L s = Some (Inr (u, t))" and f: "fresh L s" and c: "log_ready L (ram s) t ts tag d1 d2"
  shows "log_holds (t_family (tpm_st t)) (evl t) (ram t)
      [(17, d1, d2, ascii ''SKINIT''), measured 18 (tag_bytes (ram s) (unat (l_bootloader_data L))) data_text]
    \<and> evtlog_base (evl t) = unat (evtlog_address (evtlog_at (ram s) tag))
    \<and> limit (evl t) = unat (evtlog_address (evtlog_at (ram s) tag)) + unat (evtlog_size (evtlog_at (ram s) tag))
    \<and> safe_state t"
proof -
  let ?bd = "unat (l_bootloader_data L)" and ?f = "t_family (tpm_st t)" and ?e = "evtlog_at (ram s) tag"
  obtain s1 where 1: "enable_tpm hw s = (True, s1)"
    using r by (cases "enable_tpm hw s") (auto simp: start_tpm_def split: if_splits)
  obtain g s2 q l m where 2: "tpm_request_locality hw (lay L) 2 s1 = Some (g, s2)"
    and e: "event_log_init (Some (t_family (tpm_st s2))) (unat (l_start L)) ?bd (evl s2) (ram s2) = Some (Inr (q, l, m))"
    and x: "measure_bootloader_data hw L (s2\<lparr>evl := l, ram := m\<rparr>) = Some (Inr (u, t))"
    using r 1 by (auto simp: start_tpm_def run_iff map_sum_Inr)
  note f1 = enable_tpm_frame [OF 1]
  have b: "buff_idle (lay L) (tpm_buff s1)" "\<not> t_buff (tpm_st s1)" "evl s1 = evlog_init" "ram s1 = ram s"
    using f1 f by (auto simp: fresh_def init_frame_def) (cases s, cases s1, simp)
  note f2 = request_frame [OF 2 b(1,2)]
  then have s2: "evl s2 = evlog_init" "ram s2 = ram s" using b(3,4) by (cases s1, cases s2, simp)+
  let ?s = "s2\<lparr>evl := l, ram := m\<rparr>" and ?n = "ucast (tags_size (tags_size_at m ?bd)) :: u32"
  have "log_bounds (t_family (tpm_st s2)) l"
    by (rule event_log_init_bounds [OF e]) (simp add: s2 ids_fresh_def evlog_init_def)
  then have safe: "safe_state ?s" using f2 by (simp add: safe_state_def)
  note x' = x [unfolded measure_bootloader_data_def Let_def, simplified]
  have tm: "tame ?s t" using extend_pcr_tame [OF x' ] safe by simp
  then have fam: "tpm_st t = tpm_st s2" and ib: "in_buff ?s = in_buff t"
    by (simp_all add: tame_def in_buff_def fun_eq_iff)
  from c have L: "launch_list ?f (ram s) (unat (l_start L)) ?bd ts tag"
    and d: "skinit_digests ?f (ram s) (of_kind (ram s) SKL_TAG_SKL_HASH (tl ts)) = Some (d1, d2)"
    and n: "0x400 \<le> unat (evtlog_size ?e)"
    and apart: "\<And>x. in_buff t x \<Longrightarrow> \<not> in_region ?e x \<and> \<not> (?bd \<le> x \<and> x < end_of_tags (ram s) ?bd)"
    by (auto simp: log_ready_def Let_def)
  have "ids_fresh evlog_init" by (simp add: ids_fresh_def evlog_init_def)
  from init_logged [OF L this d] e have l: "evtlog_base l = unat (evtlog_address ?e)"
    "limit l = unat (evtlog_address ?e) + unat (evtlog_size ?e)" "log_holds ?f l m [(17, d1, d2, ascii ''SKINIT'')]"
    and same: "\<And>x. \<not> in_region ?e x \<Longrightarrow> m x = ram s x"
    by (auto simp: s2 fam)
  from L obtain t0 ts' where v: "ts = ?bd # t0 # ts'" "tag_chain (ram s) ?bd ?bd (?bd # t0 # ts')"
    by (auto simp: launch_list_def elim: valid_tags_ConsE)
  have "?bd + 5 \<le> end_of_tags (ram s) ?bd"
    using chain_increases [OF v(2)] chain_next [OF v(2)] L
    by (auto simp: next_tag_def Let_def launch_list_def valid_tags_def split: if_splits)
  then have "m (?bd + i) = ram s (?bd + i)" if "i < 5" for i
    using that by (intro same region_apart_tags [OF L]) simp_all
  from this [of 2] this [of 3] have size: "tags_size (tags_size_at m ?bd) = tags_size (tags_size_at (ram s) ?bd)"
    by (simp add: tags_size_at_def load16_def mem_read_def upt_rec numeral_3_eq_3)
  have bytes: "mem_read m ?bd (unat (tags_size (tags_size_at m ?bd))) = tag_bytes (ram s) ?bd"
    unfolding tag_bytes_def size
    by (rule mem_read_cong) (intro same region_apart_tags [OF L], simp_all add: end_of_tags_def)
  have "measurable ?s ?bd (unat ?n) (Literal data_text) (ascii data_text)"
    using safe apart l
    by (auto simp: measurable_def event_text_bytes_def text_apart_def list_all_iff ib in_region_def size end_of_tags_def)
  note e' = measure_logged [OF x' this]
  have digests: "length d1 = 20 \<and> (?f = TPM20 \<longrightarrow> length d2 = 32)" by (rule skinit_lengths [OF d])
  have "log_holds ?f (evl t) (ram t) [(17, d1, d2, ascii ''SKINIT''), measured 18 (tag_bytes (ram s) ?bd) data_text]"
    using e'(1) [of "[(17, d1, d2, ascii ''SKINIT'')]"] l launch_fits(1) [OF digests _ n, of l] by (simp add: fam bytes)
  then show ?thesis using tm l by (simp add: tame_def)
qed

section \<open>The whole launch\<close>

text \<open>
  The second half of a launch of Linux from the state \<open>a\<close> in which the boot loader's data have been
  measured: the boot tag, the memory after \<^verbatim>\<open>iommu_setup\<close>, which left the log alone, and a kernel
  beside the log and the TPM's buffer.
\<close>

definition linux_route :: "'d hw \<Rightarrow> skl_layout \<Rightarrow> 'd skl_machine \<Rightarrow> 'd skl_machine \<Rightarrow> addr \<Rightarrow> boot_params \<Rightarrow> bool" where
  "linux_route hw L a b k p \<longleftrightarrow>
     (let bd = unat (l_bootloader_data L) in
      next_of_class (ram a) bd bd SKL_TAG_BOOT_CLASS = Some (Inr k)
      \<and> tag_type (hdr_at (ram a) k) = SKL_TAG_BOOT_LINUX
      \<and> iommu_setup hw (lay L) a = Some b
      \<and> (\<forall>x. in_log (evl a) x \<longrightarrow> ram b x = ram a x)
      \<and> p = boot_params_at (ram b) (unat (zero_page (boot_linux_at (ram a) k)))
      \<and> (\<forall>x\<in>kernel_bytes p. \<not> in_log (evl a) x \<and> \<not> in_buff a x))"

definition kernel_at :: "mem \<Rightarrow> boot_params \<Rightarrow> u8 list" where
  "kernel_at m p = mem_read m (unat (code32_start p)) (unat (push_bit 4 (syssize p)))"

lemma boot_kernel_linux:
  assumes "boot_kernel hw L a = Some (Inr (ret, t))" "linux_route hw L a b k p"
  shows "skl_linux hw L k a = Some (Inr (ret, t))"
  using assms
  by (auto simp: boot_kernel_def linux_route_def Let_def run_iff search_tags_def map_sum_Inr split: if_splits)

lemma linux_logged:
  assumes r: "skl_linux hw L k a = Some (Inr (ret, t))" and q: "linux_route hw L a b k p"
    and s: "safe_state a" and i: "\<forall>x. in_buff a x \<longrightarrow> \<not> in_log (evl a) x"
    and h: "log_holds (t_family (tpm_st a)) (evl a) (ram a) es"
    and n: "\<And>k. log_fits (t_family (tpm_st a)) (evl a) (es @ [measured 17 k kernel_text])"
  shows "log_holds (t_family (tpm_st a)) (evl t) (ram t) (es @ [measured 17 (kernel_at (ram t) p) kernel_text])
    \<and> unat (pm_kernel_entry ret) \<in> kernel_bytes p"
proof -
  let ?f = "t_family (tpm_st a)"
  from q have b: "iommu_setup hw (lay L) a = Some b" "\<And>x. in_log (evl a) x \<Longrightarrow> ram b x = ram a x"
    and p: "p = boot_params_at (ram b) (unat (zero_page (boot_linux_at (ram a) k)))"
    and apart: "\<And>x. x \<in> kernel_bytes p \<Longrightarrow> \<not> in_log (evl a) x \<and> \<not> in_buff a x"
    by (auto simp: linux_route_def Let_def)
  note same = kept_skl [OF iommu_setup_kept [OF b(1)]]
  then have ib: "in_buff b = in_buff a" by (simp add: in_buff_def fun_eq_iff)
  have m: "measurable b (unat (code32_start p)) (unat (push_bit 4 (syssize p))) (Literal kernel_text) (ascii kernel_text)"
    using apart i iommu_setup_safe [OF b(1) s]
    by (auto simp: measurable_def event_text_bytes_def text_apart_def list_all_iff ib same kernel_bytes_def)
  have "log_holds ?f (evl b) (ram b) es" unfolding same by (rule log_holds_same [OF h b(2)])
  then have l: "case t_family (tpm_st b) of TPM12 \<Rightarrow> repr12 (evl b) (ram b) (map drop256 es) | TPM20 \<Rightarrow> repr20 (evl b) (ram b) es"
    by (simp add: log_holds_def same split: tpm_family.splits)
  have "\<forall>x. x \<in> kernel_bytes p \<longrightarrow> \<not> in_log (evl b) x" using apart by (simp add: same)
  from linux_kernel_logged [OF r b(1) p m this l] n [of "kernel_at (ram t) p"] show ?thesis
    by (cases ?f) (simp_all add: Let_def same kernel_at_def measured_def log_holds_def log_fits_def admit_def)
qed

lemma linux_launch_logged:
  assumes r: "skl_main hw L s = Some (Inr (ret, t))" and f: "fresh L s"
    and a: "start_tpm hw L (pci_init hw s) = Some (Inr (u, a))" and c: "log_ready L (ram s) a ts tag d1 d2"
    and q: "linux_route hw L a b k p"
  shows "log_holds (t_family (tpm_st a)) (evl t) (ram t)
      [(17, d1, d2, ascii ''SKINIT''), measured 18 (tag_bytes (ram s) (unat (l_bootloader_data L))) data_text,
       measured 17 (kernel_at (ram t) p) kernel_text]
    \<and> unat (pm_kernel_entry ret) \<in> kernel_bytes p"
proof -
  obtain ret' v where b: "boot_kernel hw L a = Some (Inr (ret', v))" and w: "finish hw L ret' v = Some (Inr (ret, t))"
    using r a by (auto simp: skl_main_def Let_def run_iff map_sum_Inr split: if_splits)
  have t: "ret' = ret" "ram t = ram v" "evl t = evl v"
    using w leave_tpm_ram leave_tpm_log by (fastforce simp: finish_def run_iff search_tags_def map_sum_Inr split: if_splits)+
  have m: "ram (pci_init hw s) = ram s"
    by (simp add: pci_init_def rdmsr_def log_io_def Let_def split_beta)
  note l = start_tpm_logged [OF a fresh_init [OF f] c [folded m], unfolded m]
  have n: "0x400 \<le> unat (evtlog_size (evtlog_at (ram s) tag))"
    and d: "length d1 = 20 \<and> (t_family (tpm_st a) = TPM20 \<longrightarrow> length d2 = 32)"
    and i: "\<forall>x. in_buff a x \<longrightarrow> \<not> in_log (evl a) x"
    using c l by (auto simp: log_ready_def Let_def in_region_def skinit_lengths)
  have "limit (evl a) = evtlog_base (evl a) + unat (evtlog_size (evtlog_at (ram s) tag))" using l by simp
  note n = launch_fits(2) [OF d this n]
  from linux_logged [OF boot_kernel_linux [OF b q] q _ i, of "[(17, d1, d2, ascii ''SKINIT''), measured 18 (tag_bytes (ram s) (unat (l_bootloader_data L))) data_text]"]
  show ?thesis using l n t by simp
qed

text \<open>
  C4. The event log of a complete launch of Linux, with either family of TPM, is what a verifier
  needs and nothing else: the SKINIT record with the digests that the boot loader's hash tags
  hold, the boot loader's data for PCR 18 as they were at the start, and for PCR 17 the FIPS digests
  of the kernel as it is in memory at the jump, whose entry point lies in those bytes. The loader
  was started with a well-formed list of tags and a log of at least 1 KB beside the TPM's buffer.
\<close>

theorem linux_launch_log:
  assumes "skl_main hw L s = Some (Inr (ret, t))" and "fresh L s"
    and "start_tpm hw L (pci_init hw s) = Some (Inr (u, a))" and "log_ready L (ram s) a ts tag d1 d2"
    and "linux_route hw L a b k p"
  shows "log_holds (t_family (tpm_st a)) (evl t) (ram t)
      [(17, d1, d2, ascii ''SKINIT''), measured 18 (tag_bytes (ram s) (unat (l_bootloader_data L))) data_text,
       measured 17 (kernel_at (ram t) p) kernel_text]
    \<and> unat (pm_kernel_entry ret) \<in> kernel_bytes p"
  by (rule linux_launch_logged [OF assms])

theorem linux_launch_log_witness:
  "\<exists>t. skl_main demo_boot_hw demo_skl_layout demo_boot
       = Some (Inr (\<lparr>pm_kernel_entry = 0x100400, ret_zero_page = 0x20000\<rparr>, t))
     \<and> log_holds TPM20 (evl t) (ram t)
         [(17, mem_read demo_boot_mem 274 20, mem_read demo_boot_mem 298 32, ascii ''SKINIT''),
          measured 18 (tag_bytes demo_boot_mem 256) data_text, measured 17 (kernel_at (ram t) demo_params) kernel_text]"
proof -
  obtain t where t: "skl_main demo_boot_hw demo_skl_layout demo_boot
      = Some (Inr (\<lparr>pm_kernel_entry = 0x100400, ret_zero_page = 0x20000\<rparr>, t))" using demo_boots by blast
  obtain a where a: "start_tpm demo_boot_hw demo_skl_layout (pci_init demo_boot_hw demo_boot) = Some (Inr ((), a))" "launched a"
    "unat (b_head (tpm_buff a)) + unat (b_truesize (tpm_buff a)) \<le> 0xFED50000" using demo_start by blast
  obtain b where b: "iommu_setup demo_boot_hw (lay demo_skl_layout) a = Some b" "ram b = ram a"
    using demo_no_iommu by blast
  have m: "as_loaded demo_boot_mem" "as_loaded (ram a)" "ram demo_boot = demo_boot_mem"
    using a(2) by (simp_all add: as_loaded_def launched_def demo_boot_def)
  have f: "t_family (tpm_st a) = TPM20" using a(2) by (simp add: launched_def crb_ready_def)
  have i: "0xFED00000 \<le> x \<and> x < 0xFED50000" if "in_buff a x" for x
  proof -
    have "off_limits a x" using that by (simp add: in_buff_def off_limits_def)
    then have "\<not> x < 0xFED00000" using a(2) by (auto simp: launched_def)
    then show ?thesis using that a(3) by (simp add: in_buff_def)
  qed
  have "\<not> in_region (evtlog_at demo_boot_mem 260) x \<and> \<not> (256 \<le> x \<and> x < end_of_tags demo_boot_mem 256)" if "in_buff a x" for x
    using i [OF that] loaded_tags(1) [OF m(1)]
    by (simp add: in_region_def loaded_fields(1) [OF m(1)] demo_launch_fields valid_tags_def SLB_SIZE_def)
  then have r: "log_ready demo_skl_layout (ram demo_boot) a [256, 260, 270, 294, 330, 336] 260
      (mem_read demo_boot_mem 274 20) (mem_read demo_boot_mem 298 32)"
    using loaded_tags(2) [OF m(1)] loaded_digests [OF m(1)]
    by (simp add: log_ready_def Let_def f m(3) skinit_digests_def loaded_fields(1) [OF m(1)] demo_launch_fields)
  have k: "kernel_bytes demo_params = {0x100000..<0x110000}" by (simp add: kernel_bytes_def demo_params_def)
  have type: "tag_type (hdr_at (ram a) 330) = SKL_TAG_BOOT_LINUX" by (simp add: loaded_hdrs(5) [OF m(2)] tag_consts)
  have "\<not> in_log (evl a) x \<and> \<not> in_buff a x" if "x \<in> kernel_bytes demo_params" for x
    using that a(2) i [of x] by (auto simp: k launched_def off_limits_def)
  then have q: "linux_route demo_boot_hw demo_skl_layout a b 330 demo_params"
    using loaded_searches(3) [OF m(2)] b type
    by (simp add: linux_route_def Let_def loaded_fields(2) [OF m(2)] loaded_params [OF m(2)])
  show ?thesis using t linux_launch_log [OF t demo_fresh(1) a(1) r q] by (simp only: f m(3) demo_lay) auto
qed

end
