(* ===== verification/Skl_Writes.thy ===== *)
theory Skl_Writes
  imports Skl_Log
begin

text \<open>
  Which bytes of its own image the loader writes: the buffer of the TPM, the one variable whose
  address is hashed, and the slots of commands for the IOMMU. The index of a slot is what the IOMMU
  answers for its tail register, so the slots are those of the answers in the trace.
\<close>

section \<open>The set-up of the IOMMU\<close>

definition command_slot :: "layout \<Rightarrow> io_event list \<Rightarrow> addr \<Rightarrow> bool" where
  "command_slot L evs x \<longleftrightarrow> (\<exists>base v. Load (reg_at base IOMMU_MMIO_COMMAND_BUF_TAIL) 8 v \<in> set evs
     \<and> (let p = unat (l_command_buf L) + 16 * unat (ucast (drop_bit 4 v) :: u32) in p \<le> x \<and> x < p + 16))"

lemma command_slot_append [simp]: "command_slot L (a @ b) x \<longleftrightarrow> command_slot L a x \<or> command_slot L b x"
  by (auto simp: command_slot_def)

definition fills_slots :: "layout \<Rightarrow> ('d, 'x) machine_scheme \<Rightarrow> ('d, 'x) machine_scheme \<Rightarrow> bool" where
  "fills_slots L s t \<longleftrightarrow> (\<exists>evs. trace t = trace s @ evs \<and> (\<forall>x. \<not> command_slot L evs x \<longrightarrow> ram t x = ram s x))"

lemma fills_refl [simp]: "fills_slots L s s"
  by (simp add: fills_slots_def)

lemma fills_trans: "fills_slots L s t \<Longrightarrow> fills_slots L t u \<Longrightarrow> fills_slots L s u"
  by (force simp: fills_slots_def)

lemma fills_io: "io_ext P s t \<Longrightarrow> fills_slots L s t"
  using io_ext_ram by (fastforce simp: fills_slots_def io_ext_def)

lemmas fills_step = fills_trans [OF _ fills_io]

lemma fills_read: "pci_read hw seg bus devfn reg n v s = Some (r, x, t) \<Longrightarrow> fills_slots L s t"
  by (cases "pci_ops s")
     (auto simp: fills_slots_def pci_read_def pci_conf1_read_def pci_mmio_read_def io_defs Let_def split_beta split: if_splits)

lemma fills_write: "pci_write hw seg bus devfn reg n v s = Some (r, t) \<Longrightarrow> fills_slots L s t"
  by (cases "pci_ops s")
     (auto simp: fills_slots_def pci_write_def pci_conf1_write_def pci_mmio_write_def io_defs Let_def split_beta split: if_splits)

lemma fills_init: "fills_slots L s (pci_init hw s)"
  by (simp add: fills_slots_def pci_init_def rdmsr_def io_defs Let_def split_beta)

lemma fills_walk: "pci_cap_walk hw bus devfn p s = Some (q, t) \<Longrightarrow> fills_slots L s t"
proof -
  define P :: "'a hw \<Rightarrow> u32 \<Rightarrow> u32 \<Rightarrow> u32 \<Rightarrow> ('a, 'b) pci_machine_scheme \<Rightarrow> u32 \<times> ('a, 'b) pci_machine_scheme \<Rightarrow> bool"
    where "P = (\<lambda>_ _ _ _ s r. fills_slots L s (snd r))"
  assume w: "pci_cap_walk hw bus devfn p s = Some (q, t)"
  have "P hw bus devfn p s (q, t)"
    by (rule pci_cap_walk.raw_induct [OF _ w])
       (auto simp: P_def bind_eq_Some_conv split: if_splits intro: fills_trans [OF fills_read])
  then show ?thesis by (simp add: P_def)
qed

lemma fills_locate: "pci_locate hw bus devfn s = Some (c, t) \<Longrightarrow> fills_slots L s t"
  by (auto simp: pci_locate_def bind_eq_Some_conv split: if_splits dest: fills_read fills_walk intro: fills_trans)

lemma fills_dev:
  "dev_read hw cap f i s = Some (v, t) \<Longrightarrow> fills_slots L s t" "dev_write hw cap f i v s = Some t \<Longrightarrow> fills_slots L s t"
  by (auto simp: dev_read_def dev_write_def bind_eq_Some_conv dest: fills_read fills_write intro: fills_trans)

lemma fills_disable: "disable_memory_protection hw s = Some t \<Longrightarrow> fills_slots L s t"
  by (auto simp: disable_memory_protection_def dev_locate_def dev_disable_sl_def bind_eq_Some_conv split: if_splits)
     (meson fills_locate fills_dev fills_read fills_write fills_trans)+

lemma fills_send: "fills_slots L s (send_command hw L base cmd s)"
proof -
  let ?a = "reg_at base IOMMU_MMIO_COMMAND_BUF_TAIL"
  obtain v s1 where 1: "reg_read hw base IOMMU_MMIO_COMMAND_BUF_TAIL s = (v, s1)" "trace s1 = trace s @ [Load ?a 8 v]" "ram s1 = ram s"
    by (cases "reg_read hw base IOMMU_MMIO_COMMAND_BUF_TAIL s") (auto simp: reg_read_def io_defs Let_def split_beta)
  let ?p = "unat (l_command_buf L) + 16 * unat (ucast (drop_bit 4 v) :: u32)"
  have t: "trace (send_command hw L base cmd s) = trace s @ [Load ?a 8 v] @ [Store ?a 8 (ucast (push_bit 4 (ucast (drop_bit 4 v) + 1 :: u32)))]"
    and m: "ram (send_command hw L base cmd s) = mem_write (ram s) ?p (command_bytes cmd)"
    by (simp_all add: send_command_def Let_def 1 reg_write_def io_defs)
  have "length (command_bytes cmd) = 16" by (simp add: command_bytes_def)
  then have "mem_write (ram s) ?p (command_bytes cmd) x = ram s x" if "\<not> (?p \<le> x \<and> x < ?p + 16)" for x
    using that by (intro mem_write_out) auto
  moreover have "command_slot L [Load ?a 8 v] x" if "?p \<le> x \<and> x < ?p + 16" for x
    using that by (auto simp: command_slot_def Let_def)
  ultimately show ?thesis unfolding fills_slots_def t m by (metis command_slot_append)
qed

lemma fills_ops:
  "fills_slots L s t \<Longrightarrow> fills_slots L s (snd (reg_read hw base i t))" "fills_slots L s t \<Longrightarrow> fills_slots L s (reg_write hw base i v t)"
  "fills_slots L s t \<Longrightarrow> fills_slots L s (reg_and hw base i v t)" "fills_slots L s t \<Longrightarrow> fills_slots L s (reg_or hw base i v t)"
  "fills_slots L s t \<Longrightarrow> fills_slots L s (send_command hw L base cmd t)"
  by (rule fills_step, assumption, rule io_ext_regs io_ext_rmw)+ (rule fills_trans [OF _ fills_send])

lemma fills_enable: "fills_slots L s t \<Longrightarrow> fills_slots L s (iommu_enable hw L base t)"
  unfolding iommu_enable_def Let_def split_beta by (intro fills_ops)

lemma fills_completion: "fills_slots L s t \<Longrightarrow> fills_slots L s (iommu_completion hw L base completed cmd t)"
  unfolding iommu_completion_def Let_def split_beta by (intro fills_ops)

lemma fills_commands: "fills_slots L s t \<Longrightarrow> fills_slots L s (iommu_commands hw L base completed t)"
  unfolding iommu_commands_def Let_def split_beta
  by (cases "fst (reg_read hw base IOMMU_MMIO_EXTENDED_FEATURE (snd (reg_read hw base IOMMU_MMIO_STATUS_REGISTER t))) AND IOMMU_EF_IASup = 0")
    (simp_all add: fills_completion fills_ops)

lemma fills_load: "iommu_load_device_table hw L cap completed s = Some (r, t) \<Longrightarrow> fills_slots L s t"
  by (auto simp: iommu_load_device_table_def bind_eq_Some_conv Let_def split: if_splits dest: fills_read
      intro: fills_commands fills_enable fills_trans)

lemma fills_wait: "iommu_wait hw flag s = Some t \<Longrightarrow> fills_slots L s t"
  using iommu_wait_run io_run_ext [where P = "\<lambda>_. True"] fills_io by blast

lemma iommu_setup_fills: "iommu_setup hw L s = Some t \<Longrightarrow> fills_slots L s t"
proof -
  assume i: "iommu_setup hw L s = Some t"
  define s1 where "s1 = pci_init hw (iowrite64 hw 0 (unat (l_iommu_done L)) s)"
  have 1: "fills_slots L s s1"
    unfolding s1_def by (rule fills_trans [OF _ fills_init]) (rule fills_io [OF io_ext_writes(4) [where P = "\<lambda>_. True"]], simp)
  have "fills_slots L s1 t"
    using i unfolding iommu_setup_def Let_def s1_def [symmetric]
    by (auto simp: bind_eq_Some_conv iommu_locate_def split: if_splits)
       (meson fills_locate fills_load fills_disable fills_wait fills_trans)+
  with 1 show ?thesis by (rule fills_trans)
qed

section \<open>The image of the loader\<close>

definition in_image :: "skl_layout \<Rightarrow> addr \<Rightarrow> bool" where
  "in_image L x \<longleftrightarrow> unat (l_start L) \<le> x \<and> x \<le> unat (l_start L) + SLB_SIZE"

lemma off_limits_parts: "off_limits s x \<longleftrightarrow> in_log (evl s) x \<or> in_buff s x"
  by (simp add: off_limits_def in_buff_def)

text \<open>The log is opened beside the image, or it is empty and stays so.\<close>

lemma log_beside_image:
  assumes i: "event_log_init (Some f) start bd evlog_init m = Some (Inr (r, l, m'))" and x: "start \<le> x" "x \<le> start + SLB_SIZE"
  shows "m' x = m x \<and> \<not> in_log l x"
proof -
  have ids: "ids_fresh evlog_init" by (simp add: ids_fresh_def evlog_init_def)
  note o = event_log_init_outside [OF ids i]
  then have m: "m' x = m x" using x by blast
  have "ptr_current evlog_init \<le> evtlog_base evlog_init" by (simp add: evlog_init_def)
  with o x have "\<not> in_log l x" by auto
  with m show ?thesis ..
qed

lemma start_tpm_image:
  assumes r: "start_tpm hw L s = Some (Inr (u, t))" and f: "fresh L s" and x: "in_image L x" "\<not> in_buff t x"
  shows "ram t x = ram s x \<and> \<not> in_log (evl t) x"
proof -
  obtain s1 where 1: "enable_tpm hw s = (True, s1)"
    using r by (cases "enable_tpm hw s") (auto simp: start_tpm_def split: if_splits)
  obtain g s2 q l m where 2: "tpm_request_locality hw (lay L) 2 s1 = Some (g, s2)"
    and e: "event_log_init (Some (t_family (tpm_st s2))) (unat (l_start L)) (unat (l_bootloader_data L)) (evl s2) (ram s2)
        = Some (Inr (q, l, m))"
    and y: "measure_bootloader_data hw L (s2\<lparr>evl := l, ram := m\<rparr>) = Some (Inr (u, t))"
    using r 1 by (auto simp: start_tpm_def run_iff map_sum_Inr)
  note f1 = enable_tpm_frame [OF 1]
  have b: "buff_idle (lay L) (tpm_buff s1)" "\<not> t_buff (tpm_st s1)" "evl s1 = evlog_init" "ram s1 = ram s"
    using f1 f by (auto simp: fresh_def init_frame_def) (cases s, cases s1, simp)
  note f2 = request_frame [OF 2 b(1,2)]
  then have l: "evl s2 = evlog_init" "ram s2 = ram s" using b(3,4) by (cases s1, cases s2, simp)+
  let ?u = "s2\<lparr>evl := l, ram := m\<rparr>"
  have "log_bounds (t_family (tpm_st s2)) l"
    by (rule event_log_init_bounds [OF e]) (simp add: l ids_fresh_def evlog_init_def)
  then have "safe_state ?u" using f2 by (simp add: safe_state_def)
  note t = extend_pcr_tame [OF y [unfolded measure_bootloader_data_def Let_def] this]
  then have "in_buff t x = in_buff ?u x" "in_log (evl t) x = in_log l x" by (auto simp: tame_def in_buff_def)
  moreover from log_beside_image [OF e [unfolded l]] x(1) have "m x = ram s x" "\<not> in_log l x" by (auto simp: in_image_def)
  ultimately show ?thesis using t x(2) by (auto simp: tame_def off_limits_parts)
qed

section \<open>From the set-up of the IOMMU on\<close>

definition in_tag_var :: "skl_layout \<Rightarrow> addr \<Rightarrow> bool" where
  "in_tag_var L x \<longleftrightarrow> unat (l_tag_var L) \<le> x \<and> x < unat (l_tag_var L) + 8"

lemma skl_linux_spares:
  assumes r: "skl_linux hw L tag s = Some (Inr (ret, t))" and b: "iommu_setup hw (lay L) s = Some b" and s: "safe_state b"
    and x: "\<not> off_limits b x"
  shows "ram t x = ram b x"
proof -
  obtain a n ev u where e: "extend_pcr hw a n 17 ev b = Some (Inr ((), u))" and l: "leave_tpm hw u = Some (Inr ((), t))"
    using r b by (auto simp: skl_linux_def Let_def run_iff split: option.split_asm)
  from extend_pcr_tame [OF e s] x show ?thesis by (simp add: leave_tpm_ram [OF l] tame_def)
qed

lemma skl_multiboot2_spares:
  assumes r: "skl_multiboot2 hw L tag s = Some (Inr (ret, t))" and b: "iommu_setup hw (lay L) s = Some b" and s: "safe_state b"
    and x: "\<not> off_limits b x" "\<not> in_tag_var L x"
  shows "ram t x = ram b x"
proof -
  obtain v s3 a n u tag' d s5 k where 3: "extend_pcr hw (unat (l_tag_var L)) k 18 (Literal ''Measured MBI into PCR18'')
        (b\<lparr>ram := mem_write (ram b) (unat (l_tag_var L)) (le_bytes 8 (v :: u64))\<rparr>) = Some (Inr ((), s3))"
    and 4: "extend_pcr hw a n 17 (Literal ''Measured Kernel into PCR17'') s3 = Some (Inr ((), u))"
    and 5: "measure_modules hw tag' u = Some (Inr (d, s5))" and t: "ram t = ram s5"
    using r b by (auto simp: skl_multiboot2_def Let_def run_iff split: if_split_asm prod.split_asm)
  let ?b = "b\<lparr>ram := mem_write (ram b) (unat (l_tag_var L)) (le_bytes 8 v)\<rparr>"
  have "safe_state ?b" using s by (simp add: safe_state_def)
  note t3 = extend_pcr_tame [OF 3 this]
  then have "safe_state s3" by (simp add: tame_def)
  note t4 = tame_trans [OF t3 extend_pcr_tame [OF 4 this]]
  then have "safe_state u" by (simp add: tame_def)
  note t5 = tame_trans [OF t4 measure_modules_tame [OF 5 this]]
  have "\<not> off_limits ?b x" using x(1) by (simp add: off_limits_def)
  with t5 have "ram t x = ram ?b x" by (simp add: t tame_def)
  also have "\<dots> = ram b x" using x(2) by (simp add: mem_write_out in_tag_var_def not_le not_less)
  finally show ?thesis .
qed

lemma boot_kernel_spares:
  assumes "boot_kernel hw L s = Some (Inr (ret, t))" "iommu_setup hw (lay L) s = Some b" "safe_state b"
    and "\<not> off_limits b x" "\<not> in_tag_var L x"
  shows "ram t x = ram b x"
  using assms skl_linux_spares skl_multiboot2_spares
  by (auto simp: boot_kernel_def Let_def run_iff split: if_split_asm dest!: search_tags_same)

text \<open>Where the loader may write in its image, by what was set up: the state \<open>a\<close> of the TPM, \<open>b\<close> of the IOMMU.\<close>

definition own_writes :: "skl_layout \<Rightarrow> 'd skl_machine \<Rightarrow> 'd skl_machine \<Rightarrow> addr \<Rightarrow> bool" where
  "own_writes L a b x \<longleftrightarrow> in_buff a x \<or> in_tag_var L x \<or> command_slot (lay L) (drop (length (trace a)) (trace b)) x"

lemma skl_main_spares:
  assumes r: "skl_main hw L s = Some (Inr (ret, t))" and f: "fresh L s"
    and a: "start_tpm hw L (pci_init hw s) = Some (Inr ((), a))" and b: "iommu_setup hw (lay L) a = Some b"
    and x: "in_image L x" "\<not> own_writes L a b x"
  shows "ram t x = ram s x"
proof -
  have m: "ram (pci_init hw s) = ram s"
    by (simp add: pci_init_def rdmsr_def log_io_def Let_def split_beta)
  note f' = fresh_init [OF f]
  from start_tpm_image [OF a f' x(1)] x(2) have 1: "ram a x = ram s x" "\<not> in_log (evl a) x" "\<not> in_buff a x"
    by (auto simp: own_writes_def m)
  from iommu_setup_fills [OF b] x(2) have 2: "ram b x = ram a x" by (auto simp: fills_slots_def own_writes_def)
  have k: "tpm_st b = tpm_st a" "evl b = evl a" "tpm_buff b = tpm_buff a"
    using iommu_setup_kept [OF b] by (cases a, cases b, simp add: kept_def)+
  then have o: "\<not> off_limits b x" using 1 by (simp add: off_limits_parts in_buff_def)
  have s: "safe_state b" by (rule iommu_setup_safe [OF b start_tpm_safe [OF a f']])
  obtain ret' v where 3: "boot_kernel hw L a = Some (Inr (ret', v))" and 4: "finish hw L ret' v = Some (Inr (ret, t))"
    using r a by (auto simp: skl_main_def Let_def run_iff map_sum_Inr split: if_splits)
  have "ram v x = ram b x" by (rule boot_kernel_spares [OF 3 b s o]) (use x(2) in \<open>simp add: own_writes_def\<close>)
  moreover have "ram t = ram v" using finish_ram [OF 4] by simp
  ultimately show ?thesis using 1 2 by simp
qed


section \<open>The concrete launch\<close>

lemma demo_iommu_trace:
  "\<exists>t evs. iommu_setup demo_boot_hw L s = Some t \<and> trace t = trace s @ evs \<and> (\<forall>a n v. Load a n v \<notin> set evs)"
  by (simp add: iommu_setup_def Let_def pci_init_def rdmsr_def io_defs demo_boot_hw_def iommu_locate_def pci_locate_def
      pci_read_def pci_conf1_read_def bad_target_def INVALID_CAP_def split_beta)

lemma demo_no_slots:
  assumes "iommu_setup demo_boot_hw L s = Some t"
  shows "\<not> command_slot L' (drop (length (trace s)) (trace t)) x"
  using demo_iommu_trace [of L s] assms by (auto simp: command_slot_def)

lemma demo_own_writes:
  assumes "launched a" "iommu_setup demo_boot_hw (lay demo_skl_layout) a = Some b" "x < 0xF000"
  shows "\<not> own_writes demo_skl_layout a b x"
proof -
  have "l_tag_var demo_skl_layout = 0xF000" by (simp add: demo_skl_layout_def layout.defs skl_layout.defs)
  then have "\<not> in_tag_var demo_skl_layout x" using assms(3) by (simp add: in_tag_var_def)
  moreover have "\<not> in_buff a x" using assms(1,3) by (auto simp: launched_def off_limits_parts)
  ultimately show ?thesis using demo_no_slots [OF assms(2)] by (simp add: own_writes_def)
qed


end
