(* ===== verification/Boot.thy ===== *)
theory Boot
  imports Entry_Props Launch_Log Skl_Writes
begin

text \<open>
  A whole boot: the entry code of \<^verbatim>\<open>head.S\<close>, \<^verbatim>\<open>skl_main\<close> of \<^verbatim>\<open>main.c\<close> on the memory that the entry code
  left, the exit code and the jump into the kernel. \<^verbatim>\<open>skl_main\<close> is called and returns as the System V
  ABI has it: the two pointers in \<^verbatim>\<open>%rax\<close> and \<^verbatim>\<open>%rdx\<close>, the callee-saved registers as before, the other
  ones arbitrary; its \<^verbatim>\<open>ret\<close> takes the address from the stack.
\<close>

section \<open>The sequence\<close>

text \<open>
  How a boot ends. \<open>Lost\<close> is a fault of the processor, which no handler takes, or a return to
  another address than the one behind the call.
\<close>

datatype 's boot_end = Hangs | Stops "'s stop" | Lost | Entered cpu 's

text \<open>The \<^verbatim>\<open>ret\<close> of \<^verbatim>\<open>skl_main\<close>; \<open>junk\<close> is what it leaves in the registers that it need not save.\<close>

definition main_returns :: "(reg \<Rightarrow> u32) \<Rightarrow> addr \<Rightarrow> asm_return \<Rightarrow> state \<Rightarrow> state option" where
  "main_returns junk behind ret = (\<lambda>(c, m). do {
     (ip, c, m) \<leftarrow> pop 8 (c, m);
     if unat ip = behind
     then Some (c\<lparr>regs := (regs c)(EAX := pm_kernel_entry ret, EDX := ret_zero_page ret, ECX := junk ECX, ESI := junk ESI),
            eip := behind\<rparr>, m)
     else None
   })"

definition boot :: "'d hw \<Rightarrow> skl_layout \<Rightarrow> head_layout \<Rightarrow> (reg \<Rightarrow> u32) \<Rightarrow> cpu \<Rightarrow> 'd skl_machine \<Rightarrow> 'd skl_machine boot_end" where
  "boot hw L h junk c s =
     (let base = regs c EAX in
      case run base (entry_code h) (c, ram s) of
        None \<Rightarrow> Lost
      | Some (c, m) \<Rightarrow>
          (case skl_main hw L (s\<lparr>ram := m\<rparr>) of
             None \<Rightarrow> Hangs
           | Some (Inl e) \<Rightarrow> Stops e
           | Some (Inr (ret, s)) \<Rightarrow>
               (case do {
                  t \<leftarrow> main_returns junk (unat base + h_ret h) ret (c, ram s);
                  t \<leftarrow> run base (exit_code h) t;
                  enter_kernel base (boot_protocol s = MULTIBOOT2) t
                } of
                  None \<Rightarrow> Lost
                | Some (c, m) \<Rightarrow> Entered c (s\<lparr>ram := m\<rparr>))))"

section \<open>What it needs of the loader\<close>

text \<open>The bytes of \<^verbatim>\<open>head.S\<close> that its exit code uses: the return address, the descriptors, the page tables.\<close>

definition head_data :: "head_layout \<Rightarrow> addr \<Rightarrow> addr set" where
  "head_data h b = {b + stack_base - 8..<b + stack_base} \<union> {b + h_gdt h..<b + h_gdt h + 32}
     \<union> {b + h_pages h..<b + h_pages h + 7 * PAGE_SIZE}"

lemma head_data_same:
  assumes "\<And>x. x \<in> head_data h b \<Longrightarrow> m' x = m x"
  shows "tables_ready (h_pages h) b m \<Longrightarrow> tables_ready (h_pages h) b m'" "gdt_ready h b m \<Longrightarrow> gdt_ready h b m'"
    "load64 m' (b + stack_base - 8) = load64 m (b + stack_base - 8)"
proof -
  have l: "load64 m' a = load64 m a" if "\<And>i. i < 8 \<Longrightarrow> a + i \<in> head_data h b" for a
    by (rule load64_cong) (use assms that in blast)
  have q: "load64 m' a = load64 m a" if "b + h_pages h \<le> a" "a + 8 \<le> b + h_pages h + 7 * 4096" for a
    by (rule l) (use that in \<open>simp add: head_data_def page_consts\<close>)
  then show "tables_ready (h_pages h) b m \<Longrightarrow> tables_ready (h_pages h) b m'"
    by (simp add: tables_ready_def table_def table_offsets)
  have "load64 m' (b + h_gdt h + k) = load64 m (b + h_gdt h + k)" if "k \<le> 24" for k
    by (rule l) (use that in \<open>simp add: head_data_def\<close>)
  then show "gdt_ready h b m \<Longrightarrow> gdt_ready h b m'" by (simp add: gdt_ready_def)
  show "load64 m' (b + stack_base - 8) = load64 m (b + stack_base - 8)"
    by (rule l) (simp add: head_data_def stack_base_def)
qed

lemma head_data_in_image:
  assumes "x \<in> head_data h b" "layout_ok h" "unat (l_start L) = b"
  shows "in_image L x"
  using assms by (auto simp: head_data_def in_image_def layout_ok_def SLB_SIZE_def page_consts stack_base_def)

lemma main_returns_runs:
  assumes c: "in_long_mode h base c" "regs c ESP = base + of_nat stack_base - 8"
    and m: "load64 m (unat base + stack_base - 8) = of_nat (unat base + h_ret h)"
    and t: "tables_ready (h_pages h) (unat base) m"
    and h: "layout_ok h" and b: "0x10000 dvd unat base" and fit: "unat base + 0x10000 \<le> 2 ^ 32"
  shows "\<exists>c'. main_returns junk (unat base + h_ret h) ret (c, m) = Some (c', m)
    \<and> in_long_mode h base c' \<and> regs c' ESP = base + of_nat stack_base
    \<and> regs c' EAX = pm_kernel_entry ret \<and> regs c' EDX = ret_zero_page ret"
proof -
  have p: "h_ret h < 0x10000" using h by (simp add: layout_ok_def page_consts)
  have u: "unat (of_nat (unat base + h_ret h) :: u64) = unat base + h_ret h"
    by (rule unat_of_nat_small) (use p fit in simp)
  have e: "unat (regs c ESP) = unat base + stack_base - 8"
    using base_plus [OF fit, of 648] c(2) by (simp add: stack_base_def add.commute)
  have ph: "phys c m w a = Some a" if "a < 2 ^ 32" for w a
    by (rule phys_identity [OF t _ h b fit that]) (use c(1) in \<open>simp add: in_long_mode_def\<close>)
  have "pop 8 (c, m) = Some (of_nat (unat base + h_ret h), set_reg ESP (regs c ESP + of_nat 8) c, m)"
    using pop_on [OF ph e, of 8] m fit by (simp add: load64_def stack_base_def)
  then show ?thesis
    using c u by (simp add: main_returns_def in_long_mode_def)
qed

lemma main_returns_gif: "main_returns junk a ret (c, m) = Some (c', m') \<Longrightarrow> gif c' = gif c"
  by (auto simp: main_returns_def split: Option.bind_splits if_splits dest!: gif_parts(2))

lemma exit_gif: "do { s \<leftarrow> run base is (c, m); enter_kernel base mb2 s } = Some (c', m') \<Longrightarrow> gif c' = gif c"
  by (auto split: Option.bind_splits dest!: run_gif enter_gif)

section \<open>From SKINIT to the kernel\<close>

text \<open>What the kernel finds: protected mode and the registers of its boot protocol.\<close>

definition kernel_entered :: "u32 \<Rightarrow> bool \<Rightarrow> asm_return \<Rightarrow> cpu \<Rightarrow> bool" where
  "kernel_entered base mb2 ret c \<longleftrightarrow> in_protected_mode c \<and> eip c = unat (pm_kernel_entry ret)
     \<and> (if mb2 then regs c EAX = MULTIBOOT2_BOOTLOADER_MAGIC \<and> regs c EBX = ret_zero_page ret
        else regs c EBX = pm_kernel_entry ret \<and> regs c ESI = ret_zero_page ret \<and> regs c EDX = base)"

lemma boot_enters:
  assumes s: "after_skinit base c" and i: "image_at h (unat base) (ram s)" and h: "layout_ok h" and fit: "unat base + 0x10000 \<le> 2 ^ 32"
    and e: "run base (entry_code h) (c, ram s) = Some (c1, m1)" and r: "skl_main hw L (s\<lparr>ram := m1\<rparr>) = Some (Inr (ret, t))"
    and k: "\<And>x. x \<in> head_data h (unat base) \<Longrightarrow> ram t x = m1 x"
  shows "\<exists>c2 m2. boot hw L h junk c s = Entered c2 (t\<lparr>ram := m2\<rparr>)
    \<and> kernel_entered base (boot_protocol t = MULTIBOOT2) ret c2 \<and> gif c2 = gif c
    \<and> (\<forall>x. x < unat base + stack_base - 16 \<or> unat base + stack_base \<le> x \<longrightarrow> m2 x = ram t x)"
proof -
  have b: "regs c EAX = base" "0x10000 dvd unat base" using s by (simp_all add: after_skinit_def)
  from entry_runs [OF s i h fit] e have 1: "in_long_mode h base c1" "regs c1 ESP = base + of_nat stack_base - 8"
    "load64 m1 (unat base + stack_base - 8) = of_nat (unat base + h_ret h)"
    "tables_ready (h_pages h) (unat base) m1" "gdt_ready h (unat base) m1" by auto
  note same = head_data_same [OF k]
  have t: "tables_ready (h_pages h) (unat base) (ram t)" "gdt_ready h (unat base) (ram t)"
    "load64 (ram t) (unat base + stack_base - 8) = of_nat (unat base + h_ret h)"
    using same(1) [OF _ 1(4)] same(2) [OF _ 1(5)] same(3) 1(3) by simp_all
  obtain c2 where 2: "main_returns junk (unat base + h_ret h) ret (c1, ram t) = Some (c2, ram t)" "in_long_mode h base c2"
    "regs c2 ESP = base + of_nat stack_base" "regs c2 EAX = pm_kernel_entry ret" "regs c2 EDX = ret_zero_page ret"
    using main_returns_runs [OF 1(1,2) t(3,1) h b(2) fit] by blast
  obtain c3 m3 where 3: "do { s \<leftarrow> run base (exit_code h) (c2, ram t); enter_kernel base (boot_protocol t = MULTIBOOT2) s } = Some (c3, m3)"
    "kernel_entered base (boot_protocol t = MULTIBOOT2) ret c3"
    "\<forall>x. x < unat base + stack_base - 16 \<or> unat base + stack_base \<le> x \<longrightarrow> m3 x = ram t x"
    using exit_runs [OF 2(2,3) t(1,2) h b(2) fit, of "boot_protocol t = MULTIBOOT2"] 2(4,5)
    unfolding kernel_entered_def by auto
  have "boot hw L h junk c s = Entered c3 (t\<lparr>ram := m3\<rparr>)"
    using b(1) e r 2(1) 3(1) by (simp add: boot_def)
  moreover have "gif c3 = gif c"
    using run_gif [OF e] main_returns_gif [OF 2(1)] exit_gif [OF 3(1)] by simp
  ultimately show ?thesis using 3 by blast
qed

lemma measured_iommu: "runs_measured hw L a ret t \<Longrightarrow> \<exists>d. iommu_setup hw (lay L) a = Some d"
  by (auto simp: runs_measured_def)

lemma boot_cases:
  assumes s: "after_skinit base c" and i: "image_at h (unat base) (ram s)" and h: "layout_ok h" and fit: "unat base + 0x10000 \<le> 2 ^ 32"
    and f: "fresh L s" and l: "unat (l_start L) = unat base"
  shows "\<exists>c1 m1. run base (entry_code h) (c, ram s) = Some (c1, m1) \<and> (\<forall>x. x \<notin> head_writes h (unat base) \<longrightarrow> m1 x = ram s x)
    \<and> (case skl_main hw L (s\<lparr>ram := m1\<rparr>) of
         None \<Rightarrow> boot hw L h junk c s = Hangs
       | Some (Inl e) \<Rightarrow> boot hw L h junk c s = Stops e
       | Some (Inr (ret, t)) \<Rightarrow>
           (\<exists>a b. start_tpm hw L (pci_init hw (s\<lparr>ram := m1\<rparr>)) = Some (Inr ((), a)) \<and> iommu_setup hw (lay L) a = Some b
           \<and> runs_measured hw L a ret t
           \<and> ((\<forall>x \<in> head_data h (unat base). \<not> own_writes L a b x) \<longrightarrow>
              (\<exists>c2 m2. boot hw L h junk c s = Entered c2 (t\<lparr>ram := m2\<rparr>)
                \<and> kernel_entered base (boot_protocol t = MULTIBOOT2) ret c2 \<and> gif c2 = gif c
                \<and> (\<forall>x. x < unat base + stack_base - 16 \<or> unat base + stack_base \<le> x \<longrightarrow> m2 x = ram t x)))))"
proof -
  obtain c1 m1 where 1: "run base (entry_code h) (c, ram s) = Some (c1, m1)" "\<forall>x. x \<notin> head_writes h (unat base) \<longrightarrow> m1 x = ram s x"
    using entry_runs [OF s i h fit] by auto
  have b: "regs c EAX = base" using s by (simp add: after_skinit_def)
  have f': "fresh L (s\<lparr>ram := m1\<rparr>)" using f by (simp add: fresh_def)
  show ?thesis
  proof (intro exI [of _ c1] exI [of _ m1] conjI)
    let ?s = "s\<lparr>ram := m1\<rparr>"
    show "run base (entry_code h) (c, ram s) = Some (c1, m1)" by (rule 1)
    show "\<forall>x. x \<notin> head_writes h (unat base) \<longrightarrow> m1 x = ram s x" by (rule 1)
    have m: "\<exists>a d. start_tpm hw L (pci_init hw ?s) = Some (Inr ((), a)) \<and> iommu_setup hw (lay L) a = Some d \<and> runs_measured hw L a ret t
        \<and> ((\<forall>x \<in> head_data h (unat base). \<not> own_writes L a d x) \<longrightarrow> (\<forall>x \<in> head_data h (unat base). ram t x = m1 x))"
      if r: "skl_main hw L ?s = Some (Inr (ret, t))" for ret t
    proof -
      obtain a d where a: "start_tpm hw L (pci_init hw ?s) = Some (Inr ((), a))" "runs_measured hw L a ret t"
        using skl_main_measures [OF r f'] by blast
      then obtain d where d: "iommu_setup hw (lay L) a = Some d" using measured_iommu by blast
      have "ram t x = m1 x" if "x \<in> head_data h (unat base)" "\<not> own_writes L a d x" for x
        using skl_main_spares [OF r f' a(1) d head_data_in_image [OF that(1) h l] that(2)] by simp
      with a d show ?thesis by blast
    qed
    show "case skl_main hw L ?s of
         None \<Rightarrow> boot hw L h junk c s = Hangs
       | Some (Inl e) \<Rightarrow> boot hw L h junk c s = Stops e
       | Some (Inr (ret, t)) \<Rightarrow>
           (\<exists>a b. start_tpm hw L (pci_init hw (s\<lparr>ram := m1\<rparr>)) = Some (Inr ((), a)) \<and> iommu_setup hw (lay L) a = Some b
           \<and> runs_measured hw L a ret t
           \<and> ((\<forall>x \<in> head_data h (unat base). \<not> own_writes L a b x) \<longrightarrow>
              (\<exists>c2 m2. boot hw L h junk c s = Entered c2 (t\<lparr>ram := m2\<rparr>)
                \<and> kernel_entered base (boot_protocol t = MULTIBOOT2) ret c2 \<and> gif c2 = gif c
                \<and> (\<forall>x. x < unat base + stack_base - 16 \<or> unat base + stack_base \<le> x \<longrightarrow> m2 x = ram t x))))"
    proof (cases "skl_main hw L ?s")
      case None
      then show ?thesis using 1 b by (simp add: boot_def)
    next
      case (Some q)
      show ?thesis
      proof (cases q)
        case (Inl e)
        then show ?thesis using Some 1 b by (simp add: boot_def)
      next
        case (Inr p)
        obtain ret t where r: "skl_main hw L ?s = Some (Inr (ret, t))" using Some Inr by (cases p) simp
        show ?thesis
          unfolding r option.case sum.case prod.case
          using m [OF r] boot_enters [OF s i h fit 1(1) r] by blast
      qed
    qed
  qed
qed


section \<open>A concrete boot\<close>

lemma demo_head_places: "x < 0x280 \<or> 0x10000 \<le> x \<Longrightarrow> place_image demo_head 0 m x = m x"
  by (auto simp: place_image_def demo_head_def page_consts)

lemma demo_head_writes: "x \<in> head_writes demo_head 0 \<union> head_data demo_head 0 \<Longrightarrow> 0x280 \<le> x \<and> x < 0x10000"
  by (auto simp: head_writes_def head_data_def demo_head_def stack_base_def table_offsets)


end
