(* ===== verification/Spec2Isabelle.thy ===== *)
theory Spec2Isabelle
  imports Hash_Tests Tags Event_Log_Init Dev Iommu Tpm_Props Cstring Printk Linux_Boot Multiboot Dma_Setup Dma_Test Layouts Boot
begin

text \<open>
  Secure Kernel Loader: a shallow embedding of the loader that AMD's SKINIT starts, from the
  state in which SKINIT leaves the processor to the jump into the kernel.

  \<^bold>\<open>The program.\<close> SKINIT measures the loader and protects its 64 KB from DMA. The entry code
  relocates its tables and enters long mode; \<^verbatim>\<open>skl_main\<close> checks the list of tags that the boot loader
  left behind its image, starts the TPM (through the FIFO or the command response buffer), opens an
  event log, measures the boot loader's data into
  PCR 18, sets up the IOMMU, lifts SKINIT's protection, finds the kernel (Linux boot protocol
  or Multiboot 2), measures it into PCR 17 and gives the TPM back; the exit code
  returns to protected mode and jumps.

  \<^bold>\<open>Theories and sources\<close> (files under \<^verbatim>\<open>src/\<close>).
  \<^item> \<open>Prelude\<close>: machine integers (\<^verbatim>\<open>include/types.h\<close>, \<^verbatim>\<open>include/byteswap.h\<close>), byte-addressed
    memory with loads and stores, little-endian encodings, the layout of static objects.
  \<^item> \<open>Machine\<close>: \<^verbatim>\<open>include/boot.h\<close>, the delays of \<^verbatim>\<open>tpmlib/tpmio.c\<close>; hardware and ghost trace.
  \<^item> \<open>Hash_Common\<close>, \<open>Sha1\<close>, \<open>Sha256\<close>: \<^verbatim>\<open>sha1sum.c\<close>, \<^verbatim>\<open>sha256.c\<close>; equality with FIPS 180-4.
    \<open>Hash_Eval\<close> evaluates the references inside the kernel; \<open>Hash_Tests\<close>: \<^verbatim>\<open>test-sha1.c\<close> and
    \<^verbatim>\<open>test-sha256.c\<close>, which pass.
  \<^item> \<open>Cstring\<close>: \<^verbatim>\<open>string.c\<close>. \<open>Printk\<close>: \<^verbatim>\<open>printk.c\<close>, the console of the DEBUG build.
  \<^item> \<open>Tags\<close>: \<^verbatim>\<open>include/tags.h\<close> and the check of \<^verbatim>\<open>skl_main\<close>; a locale for the two searches.
  \<^item> \<open>Event_Log\<close>, \<open>Event_Log_Props\<close>, \<open>Event_Log_Init\<close>: \<^verbatim>\<open>event_log.c\<close>; a locale for an
    append-only log of encoded records, interpreted by both formats.
  \<^item> \<open>Pci\<close>, \<open>Pci_Props\<close>, \<open>Dev\<close>, \<open>Iommu\<close>, \<open>Dma_Setup\<close>: \<^verbatim>\<open>pci.c\<close>, \<^verbatim>\<open>dev.c\<close>, \<^verbatim>\<open>iommu.c\<close> and
    \<^verbatim>\<open>iommu_setup\<close> of \<^verbatim>\<open>main.c\<close>. \<open>Dma_Test\<close>: the same with \<^verbatim>\<open>TEST_DMA\<close>, and \<^verbatim>\<open>do_dma\<close>.
  \<^item> \<open>Tpm_Types\<close>, \<open>Tpm_Buff\<close>, \<open>Tpm_Io\<close>: the constants, \<^verbatim>\<open>tpmlib/tpm_buff.c\<close>, \<^verbatim>\<open>tpmlib/tpmio.c\<close>.
  \<^item> \<open>Tis\<close>, \<open>Tis_Props\<close>, \<open>Tis_Recv\<close>, \<open>Tis_Live\<close>: \<^verbatim>\<open>tpmlib/tis.c\<close>. \<open>Crb\<close>, \<open>Crb_Props\<close>:
    \<^verbatim>\<open>tpmlib/crb.c\<close>.
  \<^item> \<open>Tpm_Cmds\<close>, \<open>Tpm\<close>: \<^verbatim>\<open>tpmlib/tpm1_cmds.c\<close>, \<^verbatim>\<open>tpm2_cmds.c\<close>, \<^verbatim>\<open>tpm2_auth.c\<close>, \<^verbatim>\<open>tpm.c\<close>.
    \<open>Tpm_Driver\<close>: the contract of \<^verbatim>\<open>struct tpm_hw_ops\<close> as a locale, interpreted by both
    drivers and by the table of operations. \<open>Tpm_Marshal\<close>, \<open>Tpm_Props\<close>: the commands' bytes
    and what a success means.
  \<^item> \<open>Linux_Boot\<close>, \<open>Multiboot\<close>: \<^verbatim>\<open>include/linux-bootparams.h\<close>, \<^verbatim>\<open>include/multiboot2.h\<close> and
    the code of \<^verbatim>\<open>main.c\<close> that reads these structures. \<open>Layouts\<close>: the C declarations of the
    structures as data, the placement of fields, \<^verbatim>\<open>build_assertions\<close> and \<^verbatim>\<open>skl_info\<close> of \<^verbatim>\<open>main.c\<close>.
  \<^item> \<open>Skl_Main\<close>: the rest of \<^verbatim>\<open>main.c\<close>. \<open>Skl_Frames\<close>, \<open>Skl_Props\<close>: what each of its steps
    leaves unchanged, and the loader as a whole. \<open>Skl_Log\<close>: what its measurements leave in the
    event log. \<open>Launch_Log\<close>: the log of a whole launch of Linux. \<open>Skl_Writes\<close>: which bytes of its own
    image the loader writes.
  \<^item> \<open>Page_Tables\<close>, \<open>Entry\<close>, \<open>Entry_Props\<close>: \<^verbatim>\<open>head.S\<close> with its data, the constraints of \<^verbatim>\<open>link.lds\<close> and
    the control register constants of \<^verbatim>\<open>include/defs.h\<close>. The processor is a record (registers,
    control registers, EFER, segments, descriptor tables), an instruction of the file a constructor
    and \<open>step\<close> its effect or a fault; with paging on every access goes through the walk of the
    tables in memory. \<open>Boot\<close>: the entry code, \<^verbatim>\<open>skl_main\<close> and the exit code in sequence.

  \<^bold>\<open>State.\<close> One record grows with the components: device state, trace and memory (\<open>machine\<close>),
  the configuration-space method (\<open>pci_machine\<close>), the statics of the TPM library
  (\<open>tpm_machine\<close>), the event log and \<^verbatim>\<open>boot_protocol\<close> (\<open>skl_machine\<close>). Addresses of static
  objects are fields of \<open>layout\<close>, a parameter, as the linker chooses them. Pointers to a single
  static object (\<^verbatim>\<open>struct tpm\<close>, the TPM buffer) are flags for NULL or that object.

  \<^bold>\<open>Hardware.\<close> Registers, ports and MSRs are functions of an abstract device state, a parameter
  of every operation that touches them; a theorem about a driver holds for all hardware unless
  it names what it needs. Every access is recorded in the trace. The flag that the IOMMU writes is
  accessed as hardware. The data buffer of the command response buffer is read and written as
  memory. Delays let the device change and leave no trace. Stack contents that the code does not
  initialise come from the hardware parameter.

  \<^bold>\<open>Outcomes.\<close> Polling loops are partial functions; \<open>None\<close> means that the code never returns. A
  null dereference or an access past an array is a value of \<open>fault\<close>; \<^verbatim>\<open>skl_main\<close> adds the reboot.
  No fuel is used: loops either have a measure or are partial functions with theorems on when
  they return.

  \<^bold>\<open>Lemmas.\<close> Frames (\<open>io_ext\<close>, \<open>grows\<close>, \<open>buff_frame\<close>, \<open>locality_frame\<close>, \<open>tame\<close>) state what an
  operation may change and compose by transitivity; \<open>io_run\<close> adds the exact accesses. Invariants
  (\<open>buff_inv\<close>, \<open>log_repr\<close>, \<open>tag_chain\<close>) are kept by every operation. The hashes are equal to
  references. \<open>Skl_Props\<close> joins them: what the loader starts is what it measured, and bad data
  stops it. \<open>Skl_Log\<close> adds that the digests sent to the TPM are the ones in the log;
  \<open>Launch_Log\<close> follows the log from its opening to the jump: three records, the last of which
  speaks of the kernel in memory at the end. \<open>Page_Tables\<close> shows the relocated tables to be the
  identity below 4 GB, \<open>Entry_Props\<close> follows the two halves of \<^verbatim>\<open>head.S\<close> instruction by instruction without
  a fault, \<open>Skl_Writes\<close> bounds what \<^verbatim>\<open>skl_main\<close> changes in between, and \<open>Boot\<close> joins them. Each property with a hypothesis has a witness on
  concrete hardware and memory.

  \<^bold>\<open>Not modelled.\<close> The 32-bit build of \<^verbatim>\<open>head.S\<close>; the arithmetic flags, the TLB and segment limits of
  the processor. \<^verbatim>\<open>skl_main\<close> runs on the memory that the entry code left, but its own text, stack and
  variables are not bytes of that memory, except the canary and the one variable whose address is
  hashed. The fences. The prints in the other files: those theories model the
  release build, where they are empty, but the arguments of prints that read registers are evaluated.
  Scripts and packaging. The variants of the TPM library for Linux and for user space. Unused
  declarations of the headers. The address space is flat for the C code: nothing faults on a bad
  non-null address, and devices do not write memory on their own.

  \<^bold>\<open>Further work.\<close> The log over a launch of Multiboot 2 (the MBI, the kernel and the modules, as
  \<open>Launch_Log\<close> has it for Linux); the release of localities at the end of the launch; an IOMMU whose
  tail register reads back what was written, which would fix the slots of its commands.
\<close>

end
